(* ===== verification/Prelude.thy ===== *)
theory Prelude
  imports Main "HOL-Library.Word"
begin

text \<open>
  The part every component shares: the machine types of the C sources, the fault values that
  stand for a failed \<^verbatim>\<open>ogs_assert\<close> and for an invalid memory access, the combinator that
  threads them, the byte-order functions of the host (a little-endian one), the object pools of
  the base library as finite maps, and the invariant principle of the step relations.
\<close>

unbundle bit_operations_syntax

named_theorems fault_simps \<open>rewriting of faulting computations\<close>
named_theorems layout_simps \<open>sizes and images of packed structures\<close>

subsection \<open>Machine types\<close>

type_synonym u8 = "8 word"
type_synonym u16 = "16 word"
type_synonym u32 = "32 word"
type_synonym u64 = "64 word"

type_synonym index = u32
  \<comment> \<open>a pointer to an object of a pool is the object's pool index, which is never 0\<close>

subsection \<open>Faults\<close>

text \<open>
  A failed \<^verbatim>\<open>ogs_assert\<close> or a reached \<^verbatim>\<open>ogs_assert_if_reached\<close> aborts the process. Reading
  through a pointer to a freed object or past an array is undefined in C. Both are values here:
  a computation that can fault returns a sum whose left side is the fault.
\<close>

datatype fault =
    Assert_Failed
  | Dangling_Pointer
  | Out_Of_Bounds

type_synonym 'a res = "fault + 'a"

definition ebind :: "'a res \<Rightarrow> ('a \<Rightarrow> 'b res) \<Rightarrow> 'b res" where
  "ebind m f = (case m of Inl e \<Rightarrow> Inl e | Inr a \<Rightarrow> f a)"

definition ogs_assert :: "bool \<Rightarrow> unit res" where
  "ogs_assert c = (if c then Inr () else Inl Assert_Failed)"

definition non_null :: "'a option \<Rightarrow> 'a res" where
  "non_null x = (case x of None \<Rightarrow> Inl Assert_Failed | Some a \<Rightarrow> Inr a)"

definition deref :: "('k \<rightharpoonup> 'v) \<Rightarrow> 'k \<Rightarrow> 'v res" where
  "deref m k = (case m k of None \<Rightarrow> Inl Dangling_Pointer | Some v \<Rightarrow> Inr v)"

definition array_read :: "'a list \<Rightarrow> nat \<Rightarrow> 'a res" where
  "array_read xs i = (if i < length xs then Inr (xs ! i) else Inl Out_Of_Bounds)"

definition array_write :: "'a list \<Rightarrow> nat \<Rightarrow> 'a \<Rightarrow> 'a list res" where
  "array_write xs i x = (if i < length xs then Inr (xs[i := x]) else Inl Out_Of_Bounds)"

text \<open>
  \<^verbatim>\<open>ogs_list_for_each(list, x) { if (...) break; }\<close>: the first element that satisfies the test, or
  null past the end. Every element visited is read through its pointer.
\<close>

fun list_find :: "('k \<rightharpoonup> 'v) \<Rightarrow> ('v \<Rightarrow> bool) \<Rightarrow> 'k list \<Rightarrow> 'k option res" where
  "list_find m P [] = Inr None"
| "list_find m P (k # ks) =
     ebind (deref m k) (\<lambda>v. if P v then Inr (Some k) else list_find m P ks)"

subsection \<open>Byte order\<close>

definition htons :: "u16 \<Rightarrow> u16" where
  "htons x = push_bit 8 (take_bit 8 x) OR drop_bit 8 x"

definition htonl :: "u32 \<Rightarrow> u32" where
  "htonl x = push_bit 24 (take_bit 8 x) OR push_bit 16 (take_bit 8 (drop_bit 8 x))
     OR push_bit 8 (take_bit 8 (drop_bit 16 x)) OR drop_bit 24 x"

abbreviation ntohs :: "u16 \<Rightarrow> u16" where
  "ntohs \<equiv> htons"

abbreviation ntohl :: "u32 \<Rightarrow> u32" where
  "ntohl \<equiv> htonl"

text \<open>The bytes of a word as they lie in the memory of a little-endian host.\<close>

definition bytes16 :: "u16 \<Rightarrow> u8 list" where
  "bytes16 x = [ucast x, ucast (drop_bit 8 x)]"

definition bytes32 :: "u32 \<Rightarrow> u8 list" where
  "bytes32 x = [ucast x, ucast (drop_bit 8 x), ucast (drop_bit 16 x), ucast (drop_bit 24 x)]"

definition word16 :: "u8 list \<Rightarrow> u16" where
  "word16 bs = ucast (bs ! 0) OR push_bit 8 (ucast (bs ! 1))"

definition word32 :: "u8 list \<Rightarrow> u32" where
  "word32 bs = ucast (bs ! 0) OR push_bit 8 (ucast (bs ! 1))
     OR push_bit 16 (ucast (bs ! 2)) OR push_bit 24 (ucast (bs ! 3))"

subsection \<open>Laws of the fault combinators\<close>

lemma ebind_Inl [simp, fault_simps]: "ebind (Inl e) f = Inl e"
  by (simp add: ebind_def)

lemma ebind_Inr [simp, fault_simps]: "ebind (Inr a) f = f a"
  by (simp add: ebind_def)

lemma ebind_eq_Inr [fault_simps]: "ebind m f = Inr b \<longleftrightarrow> (\<exists>a. m = Inr a \<and> f a = Inr b)"
  by (cases m) auto

lemma ebind_eq_Inl [fault_simps]:
  "ebind m f = Inl e \<longleftrightarrow> m = Inl e \<or> (\<exists>a. m = Inr a \<and> f a = Inl e)"
  by (cases m) auto

lemma ebind_split:
  "P (ebind m f) \<longleftrightarrow> (\<forall>e. m = Inl e \<longrightarrow> P (Inl e)) \<and> (\<forall>a. m = Inr a \<longrightarrow> P (f a))"
  by (cases m) auto

lemma ogs_assert_True [simp]: "ogs_assert True = Inr ()"
  and ogs_assert_False [simp]: "ogs_assert False = Inl Assert_Failed"
  by (simp_all add: ogs_assert_def)

lemma ogs_assert_eq_Inr [simp]: "ogs_assert c = Inr u \<longleftrightarrow> c"
  by (simp add: ogs_assert_def)

lemma ogs_assert_eq_Inl [simp]: "ogs_assert c = Inl e \<longleftrightarrow> \<not> c \<and> e = Assert_Failed"
  by (auto simp: ogs_assert_def)

lemma non_null_Some [simp]: "non_null (Some a) = Inr a"
  and non_null_None [simp]: "non_null None = Inl Assert_Failed"
  by (simp_all add: non_null_def)

lemma non_null_eq_Inr [simp]: "non_null x = Inr a \<longleftrightarrow> x = Some a"
  by (cases x) simp_all

lemma deref_eq_Inr [simp]: "deref m k = Inr v \<longleftrightarrow> m k = Some v"
  by (simp add: deref_def split: option.split)

lemma deref_Some [simp]: "m k = Some v \<Longrightarrow> deref m k = Inr v"
  by (simp add: deref_def)

lemma deref_None [simp]: "m k = None \<Longrightarrow> deref m k = Inl Dangling_Pointer"
  by (simp add: deref_def)

lemma array_read_eq_Inr [simp]: "array_read xs i = Inr x \<longleftrightarrow> i < length xs \<and> x = xs ! i"
  by (auto simp: array_read_def)

lemma array_read_ok [simp]: "i < length xs \<Longrightarrow> array_read xs i = Inr (xs ! i)"
  by simp

lemma array_write_eq_Inr [simp]:
  "array_write xs i x = Inr ys \<longleftrightarrow> i < length xs \<and> ys = xs[i := x]"
  by (auto simp: array_write_def)

lemma array_write_ok [simp]: "i < length xs \<Longrightarrow> array_write xs i x = Inr (xs[i := x])"
  by simp

lemma list_find_total:
  assumes "\<forall>k \<in> set ks. m k \<noteq> None"
  shows "list_find m P ks = Inr (find (\<lambda>k. P (the (m k))) ks)"
  using assms by (induction ks) auto

lemma list_find_Some:
  "list_find m P ks = Inr (Some k) \<Longrightarrow> k \<in> set ks \<and> (\<exists>v. m k = Some v \<and> P v)"
  by (induction ks) (auto simp: ebind_eq_Inr split: if_splits)

lemma list_find_None:
  "list_find m P ks = Inr None \<Longrightarrow> k \<in> set ks \<Longrightarrow> \<exists>v. m k = Some v \<and> \<not> P v"
  by (induction ks) (auto simp: ebind_eq_Inr split: if_splits)

lemma list_find_fault: "list_find m P ks = Inl e \<Longrightarrow> \<exists>k \<in> set ks. m k = None"
  by (induction ks) (auto simp: ebind_eq_Inl deref_def split: option.splits if_splits)

subsection \<open>Laws of the byte order\<close>

lemma octet_cases:
  assumes "(n::nat) < 32"
  obtains "n < 8" | m where "n = 8 + m" "m < 8" | m where "n = 16 + m" "m < 8"
    | m where "n = 24 + m" "m < 8"
proof -
  have "n < 8 \<or> (n - 8 < 8 \<and> n = 8 + (n - 8)) \<or> (n - 16 < 8 \<and> n = 16 + (n - 16))
      \<or> (n - 24 < 8 \<and> n = 24 + (n - 24))"
    using assms by linarith
  then show thesis using that by blast
qed

lemma htons_htons [simp]: "htons (htons x) = x"
  by (rule bit_word_eqI) (auto simp: htons_def bit_simps)

lemma htonl_htonl [simp]: "htonl (htonl x) = x"
proof (rule bit_word_eqI)
  fix n assume "n < LENGTH(32)"
  then have "n < 32" by simp
  then show "bit (htonl (htonl x)) n \<longleftrightarrow> bit x n"
    by (cases rule: octet_cases) (simp_all add: htonl_def bit_simps)
qed

lemma htonl_eq_iff [simp]: "htonl x = htonl y \<longleftrightarrow> x = y"
  by (metis htonl_htonl)

lemma length_bytes16 [simp, layout_simps]: "length (bytes16 x) = 2"
  by (simp add: bytes16_def)

lemma length_bytes32 [simp, layout_simps]: "length (bytes32 x) = 4"
  by (simp add: bytes32_def)

lemma word16_bytes16 [simp]: "word16 (bytes16 x @ bs) = x"
  by (rule bit_word_eqI) (auto simp: word16_def bytes16_def bit_simps)

lemma word32_bytes32 [simp]: "word32 (bytes32 x @ bs) = x"
proof (rule bit_word_eqI)
  fix n assume "n < LENGTH(32)"
  then have "n < 32" by simp
  then show "bit (word32 (bytes32 x @ bs)) n \<longleftrightarrow> bit x n"
    by (cases rule: octet_cases) (simp_all add: word32_def bytes32_def bit_simps)
qed

lemma word16_bytes16' [simp]: "word16 (bytes16 x) = x"
  using word16_bytes16 [of x "[]"] by simp

lemma word32_bytes32' [simp]: "word32 (bytes32 x) = x"
  using word32_bytes32 [of x "[]"] by simp

subsection \<open>Memory safety and postconditions\<close>

text \<open>
  \<open>safe m Q\<close>: the computation touches no freed object and leaves no array, and if it
  returns, its result satisfies \<open>Q\<close>. The only fault it may raise is a failed assertion. The
  equations below compute what a composed operation needs, from its last step to its first.
\<close>

definition safe :: "'a res \<Rightarrow> ('a \<Rightarrow> bool) \<Rightarrow> bool" where
  "safe m Q = (case m of Inl e \<Rightarrow> e = Assert_Failed | Inr a \<Rightarrow> Q a)"

named_theorems safe_simps \<open>postconditions of the faulting primitives\<close>

lemma safe_Inl [simp, safe_simps]: "safe (Inl e) Q \<longleftrightarrow> e = Assert_Failed"
  by (simp add: safe_def)

lemma safe_Inr [simp, safe_simps]: "safe (Inr a) Q \<longleftrightarrow> Q a"
  by (simp add: safe_def)

lemma safe_ebind [simp, safe_simps]: "safe (ebind m f) Q \<longleftrightarrow> safe m (\<lambda>a. safe (f a) Q)"
  by (cases m) simp_all

lemma safe_assert [simp, safe_simps]: "safe (ogs_assert c) Q \<longleftrightarrow> (c \<longrightarrow> Q ())"
  by (simp add: ogs_assert_def)

lemma safe_non_null [simp, safe_simps]: "safe (non_null x) Q \<longleftrightarrow> (\<forall>a. x = Some a \<longrightarrow> Q a)"
  by (cases x) simp_all

lemma safe_deref [simp, safe_simps]: "safe (deref m k) Q \<longleftrightarrow> (\<exists>v. m k = Some v \<and> Q v)"
  by (cases "m k") simp_all

lemma safe_array_read [simp, safe_simps]:
  "safe (array_read xs i) Q \<longleftrightarrow> i < length xs \<and> Q (xs ! i)"
  by (simp add: array_read_def)

lemma safe_array_write [simp, safe_simps]:
  "safe (array_write xs i x) Q \<longleftrightarrow> i < length xs \<and> Q (xs[i := x])"
  by (simp add: array_write_def)

lemma safe_case_prod [simp, safe_simps]:
  "safe (case p of (a, b) \<Rightarrow> f a b) Q = (case p of (a, b) \<Rightarrow> safe (f a b) Q)"
  by (cases p) simp

lemma safe_mono: "safe m P \<Longrightarrow> (\<And>a. m = Inr a \<Longrightarrow> P a \<Longrightarrow> Q a) \<Longrightarrow> safe m Q"
  by (cases m) simp_all

lemma safe_mono2: "safe m (\<lambda>(a, b). P a b) \<Longrightarrow> (\<And>a b. P a b \<Longrightarrow> Q a b) \<Longrightarrow> safe m (\<lambda>(a, b). Q a b)"
  by (cases m) auto

lemma safe_conj: "safe m P \<Longrightarrow> safe m Q \<Longrightarrow> safe m (\<lambda>a. P a \<and> Q a)"
  by (cases m) simp_all

lemma safeD: "safe m Q \<Longrightarrow> m = Inr a \<Longrightarrow> Q a"
  by simp

lemma safe_fault: "safe m Q \<Longrightarrow> m = Inl e \<Longrightarrow> e = Assert_Failed"
  by simp

lemma safe_list_find:
  assumes "\<forall>k \<in> set ks. m k \<noteq> None"
    and "\<And>k v. k \<in> set ks \<Longrightarrow> m k = Some v \<Longrightarrow> P v \<Longrightarrow> Q (Some k)"
    and "(\<forall>k \<in> set ks. \<not> P (the (m k))) \<Longrightarrow> Q None"
  shows "safe (list_find m P ks) Q"
proof -
  have "Q (find (\<lambda>k. P (the (m k))) ks)"
  proof (cases "find (\<lambda>k. P (the (m k))) ks")
    case None
    then have "\<forall>k \<in> set ks. \<not> P (the (m k))"
      by (auto simp: find_None_iff)
    then show ?thesis using assms(3) None by simp
  next
    case (Some k)
    then have "k \<in> set ks" and "P (the (m k))"
      by (auto simp: find_Some_iff)
    then show ?thesis using assms(1,2) Some by auto
  qed
  then show ?thesis using assms(1) by (simp add: list_find_total)
qed

text \<open>The same laws as rules, one for each way a step of a handler is written.\<close>

lemma vc_deref: "m k \<noteq> None \<Longrightarrow> (\<And>v. m k = Some v \<Longrightarrow> m k \<noteq> None \<Longrightarrow> safe (f v) Q) \<Longrightarrow> safe (ebind (deref m k) f) Q"
  by auto

lemma vc_assert: "(c \<Longrightarrow> safe (f ()) Q) \<Longrightarrow> safe (ebind (ogs_assert c) f) Q"
  by simp

lemma vc_non_null: "(\<And>a. p = Some a \<Longrightarrow> safe (f a) Q) \<Longrightarrow> safe (ebind (non_null p) f) Q"
  by simp

lemma vc_bind: "safe m P \<Longrightarrow> (\<And>a. P a \<Longrightarrow> safe (f a) Q) \<Longrightarrow> safe (ebind m f) Q"
  by (cases m) auto

lemma vc_bind2: "safe m (\<lambda>(a, b). P a b) \<Longrightarrow> (\<And>a b. P a b \<Longrightarrow> safe (f a b) Q) \<Longrightarrow> safe (ebind m (\<lambda>(a, b). f a b)) Q"
  by (cases m) auto

lemma vc_option:
  "(p = None \<Longrightarrow> safe a Q) \<Longrightarrow> (\<And>v. p = Some v \<Longrightarrow> safe (f v) Q) \<Longrightarrow> safe (case p of None \<Rightarrow> a | Some v \<Rightarrow> f v) Q"
  by (cases p) auto

lemma vc_if: "(c \<Longrightarrow> safe a Q) \<Longrightarrow> (\<not> c \<Longrightarrow> safe b Q) \<Longrightarrow> safe (if c then a else b) Q"
  by simp

lemma vc_bind_option:
  "(p = None \<Longrightarrow> safe (ebind a k) Q) \<Longrightarrow> (\<And>v. p = Some v \<Longrightarrow> safe (ebind (f v) k) Q) \<Longrightarrow>
     safe (ebind (case p of None \<Rightarrow> a | Some v \<Rightarrow> f v) k) Q"
  by (cases p) auto

lemma vc_bind_if:
  "(c \<Longrightarrow> safe (ebind a k) Q) \<Longrightarrow> (\<not> c \<Longrightarrow> safe (ebind b k) Q) \<Longrightarrow> safe (ebind (if c then a else b) k) Q"
  by simp

lemma vc_bind_Inr: "safe (f a) Q \<Longrightarrow> safe (ebind (Inr a) f) Q"
  by simp

lemma vc_assoc:
  "safe (ebind (deref m k) (\<lambda>a. ebind (f a) h)) Q \<Longrightarrow> safe (ebind (ebind (deref m k) f) h) Q"
  "safe (ebind (ogs_assert c) (\<lambda>a. ebind (f' a) h)) Q \<Longrightarrow> safe (ebind (ebind (ogs_assert c) f') h) Q"
  by simp_all

lemma vc_done_pair: "P a b \<Longrightarrow> safe (Inr (a, b)) (\<lambda>(a, b). P a b)"
  by simp

subsection \<open>Lists\<close>

lemma filter_neq_remove1: "distinct xs \<Longrightarrow> filter (\<lambda>y. y \<noteq> x) xs = remove1 x xs"
  by (induction xs) (auto intro!: filter_True)

subsection \<open>Invariants of step relations\<close>

text \<open>
  The interface between a component and what is proved of its runs: the initial states and the
  steps on one side, an invariant on the other. The reachable states are those of the runs.
\<close>

inductive runs :: "('s \<Rightarrow> bool) \<Rightarrow> ('s \<Rightarrow> 's \<Rightarrow> bool) \<Rightarrow> 's \<Rightarrow> bool" for init step where
  runs_init: "init s \<Longrightarrow> runs init step s"
| runs_step: "runs init step s \<Longrightarrow> step s t \<Longrightarrow> runs init step t"

locale invariant_system =
  fixes init :: "'s \<Rightarrow> bool"
    and step :: "'s \<Rightarrow> 's \<Rightarrow> bool"
    and inv :: "'s \<Rightarrow> bool"
  assumes inv_init: "init s \<Longrightarrow> inv s"
    and inv_step: "inv s \<Longrightarrow> step s t \<Longrightarrow> inv t"
begin

lemma inv_runs: "runs init step s \<Longrightarrow> inv s"
  by (induction rule: runs.induct) (auto intro: inv_init inv_step)

lemma inv_star: "inv s \<Longrightarrow> step\<^sup>*\<^sup>* s t \<Longrightarrow> inv t"
  by (rotate_tac, induction rule: rtranclp_induct) (auto intro: inv_step)

end

end
