(* ===== verification/Gtp_Types.thy ===== *)
theory Gtp_Types
  imports Prelude
begin

text \<open>
  The packed information elements of \<^verbatim>\<open>src/lib/gtp/types.c\<close> and the address conversions of
  \<^verbatim>\<open>src/lib/gtp/conv.c\<close>. An octet string (\<^verbatim>\<open>ogs_tlv_octet_t\<close>) is the list of its bytes; a C
  union is the list of its bytes, each member a view of a prefix or of a slice; a bit field of a
  byte is the bit the \<^verbatim>\<open>ED\<close> macros give it on the wire. The base library's big-endian integer
  conversions are arguments of the definitions that call them.
\<close>

subsection \<open>Octet strings under construction\<close>

text \<open>
  Every build function appends to its output under
  \<^verbatim>\<open>ogs_assert(size + sizeof(x) <= data_len); memcpy(octet->data + size, ...); size += ...\<close>.
\<close>

definition octet_put :: "nat \<Rightarrow> u8 list \<Rightarrow> u8 list \<Rightarrow> u8 list res" where
  "octet_put data_len bs out =
     ebind (ogs_assert (length out + length bs \<le> data_len)) (\<lambda>_. Inr (out @ bs))"

subsection \<open>Bearer quality of service\<close>

record bearer_qos =
  qos_spare1 :: bool
  pre_emption_capability :: bool
  priority_level :: "4 word"
  qos_spare2 :: bool
  pre_emption_vulnerability :: bool
  qci :: u8
  ul_mbr :: u64
  dl_mbr :: u64
  ul_gbr :: u64
  dl_gbr :: u64

definition GTP_BEARER_QOS_LEN :: nat where
  "GTP_BEARER_QOS_LEN = 22"

text \<open>The first octet of the packed structure.\<close>

definition qos_octet :: "bearer_qos \<Rightarrow> u8" where
  "qos_octet q = push_bit 7 (of_bool (qos_spare1 q)) OR push_bit 6 (of_bool (pre_emption_capability q))
     OR push_bit 2 (ucast (priority_level q)) OR push_bit 1 (of_bool (qos_spare2 q))
     OR of_bool (pre_emption_vulnerability q)"

definition ogs_gtp_parse_bearer_qos :: "(u8 list \<Rightarrow> u64) \<Rightarrow> u8 list \<Rightarrow> (bearer_qos \<times> nat) res" where
  "ogs_gtp_parse_bearer_qos buffer_to_uint64 octet =
     ebind (ogs_assert (length octet = GTP_BEARER_QOS_LEN)) (\<lambda>_.
     let b = octet ! 0;
         q = \<lparr>qos_spare1 = False, pre_emption_capability = bit b 6,
              priority_level = ucast (drop_bit 2 b), qos_spare2 = False,
              pre_emption_vulnerability = bit b 0, qci = octet ! 1,
              ul_mbr = buffer_to_uint64 (take 5 (drop 2 octet)),
              dl_mbr = buffer_to_uint64 (take 5 (drop 7 octet)),
              ul_gbr = buffer_to_uint64 (take 5 (drop 12 octet)),
              dl_gbr = buffer_to_uint64 (take 5 (drop 17 octet))\<rparr>;
         size = 1 + 1 + 5 + 5 + 5 + 5
     in ebind (ogs_assert (size = length octet)) (\<lambda>_. Inr (q, size)))"

definition ogs_gtp_build_bearer_qos ::
  "(u64 \<Rightarrow> nat \<Rightarrow> u8 list) \<Rightarrow> bearer_qos \<Rightarrow> nat \<Rightarrow> u8 list res" where
  "ogs_gtp_build_bearer_qos uint64_to_buffer q data_len =
     ebind (ogs_assert (data_len \<ge> GTP_BEARER_QOS_LEN)) (\<lambda>_.
     Inr ([qos_octet q, qci q] @ uint64_to_buffer (ul_mbr q) 5 @ uint64_to_buffer (dl_mbr q) 5
       @ uint64_to_buffer (ul_gbr q) 5 @ uint64_to_buffer (dl_gbr q) 5))"

text \<open>
  What the code relies on of the base library: an integer is written on the number of bytes
  asked for, and one that fits that number of bytes is read back.
\<close>

definition uint64_conv_ok :: "(u64 \<Rightarrow> nat \<Rightarrow> u8 list) \<Rightarrow> (u8 list \<Rightarrow> u64) \<Rightarrow> bool" where
  "uint64_conv_ok put get \<longleftrightarrow>
     (\<forall>v n. length (put v n) = n) \<and> (\<forall>v n. unat v < 2 ^ (8 * n) \<longrightarrow> get (put v n) = v)"

subsection \<open>Traffic flow template\<close>

record tft_component =
  comp_type :: u8
  comp_union :: "u8 list"

record tft_filter =
  pf_flags :: u8
  pf_precedence :: u8
  pf_length :: u8
  pf_component :: "tft_component list"
  num_of_component :: u8

record tft =
  tft_flags :: u8
  tft_pf :: "tft_filter list"

definition OGS_GTP_MAX_TRAFFIC_FLOW_TEMPLATE :: nat where
  "OGS_GTP_MAX_TRAFFIC_FLOW_TEMPLATE = 255"

text \<open>\<^verbatim>\<open>num_of_packet_filter\<close> is the low half of the flags octet.\<close>

definition num_of_packet_filter :: "tft \<Rightarrow> nat" where
  "num_of_packet_filter t = unat (take_bit 4 (tft_flags t))"

text \<open>
  The bytes a component of each known type contributes after its type octet, \<^term>\<open>None\<close> for
  the default branch. Ports are kept in host order and leave in network order.
\<close>

definition component_value :: "tft_component \<Rightarrow> u8 list option" where
  "component_value c =
     (let t = comp_type c; u = comp_union c in
      if t = 48 then Some (take 1 u)
      else if t = 16 \<or> t = 17 then Some (take 4 u @ take 4 (drop 4 u))
      else if t = 35 \<or> t = 33 then Some (take 16 u @ take 1 (drop 16 u))
      else if t = 32 then Some (take 16 u @ take 16 (drop 16 u))
      else if t = 64 \<or> t = 80 then Some (bytes16 (htons (word16 u)))
      else if t = 65 \<or> t = 81 then
        Some (bytes16 (htons (word16 u)) @ bytes16 (htons (word16 (drop 2 u))))
      else None)"

text \<open>Both loops run over the index; \<^term>\<open>Inr None\<close> is the return of -1.\<close>

fun tft_put_components ::
  "nat \<Rightarrow> tft_component list \<Rightarrow> nat list \<Rightarrow> u8 list \<Rightarrow> u8 list option res" where
  "tft_put_components data_len cs [] out = Inr (Some out)"
| "tft_put_components data_len cs (j # js) out =
     ebind (array_read cs j) (\<lambda>c.
     ebind (octet_put data_len [comp_type c] out) (\<lambda>out.
     case component_value c of
       None \<Rightarrow> Inr None
     | Some v \<Rightarrow> ebind (octet_put data_len v out) (\<lambda>out. tft_put_components data_len cs js out)))"

fun tft_put_filters ::
  "nat \<Rightarrow> tft_filter list \<Rightarrow> nat list \<Rightarrow> u8 list \<Rightarrow> u8 list option res" where
  "tft_put_filters data_len pfs [] out = Inr (Some out)"
| "tft_put_filters data_len pfs (i # is) out =
     ebind (array_read pfs i) (\<lambda>pf.
     ebind (octet_put data_len [pf_flags pf] out) (\<lambda>out.
     ebind (octet_put data_len [pf_precedence pf] out) (\<lambda>out.
     ebind (octet_put data_len [pf_length pf] out) (\<lambda>out.
     ebind (tft_put_components data_len (pf_component pf) [0..<unat (num_of_component pf)] out) (\<lambda>r.
     case r of None \<Rightarrow> Inr None | Some out \<Rightarrow> tft_put_filters data_len pfs is out)))))"

definition ogs_gtp_build_tft :: "tft \<Rightarrow> nat \<Rightarrow> u8 list option res" where
  "ogs_gtp_build_tft t data_len =
     ebind (ogs_assert (data_len \<ge> OGS_GTP_MAX_TRAFFIC_FLOW_TEMPLATE)) (\<lambda>_.
     ebind (octet_put data_len [tft_flags t] []) (\<lambda>out.
     tft_put_filters data_len (tft_pf t) [0..<num_of_packet_filter t] out))"

subsection \<open>User location information\<close>

text \<open>A PLMN identity is its three packed octets.\<close>

type_synonym plmn_id = "u8 list"

record uli_area =
  area_plmn_id :: plmn_id
  area_lac :: u16
  area_code :: u16

record tai =
  tai_plmn_id :: plmn_id
  tac :: u16

record e_cgi =
  e_cgi_plmn_id :: plmn_id
  cell_id :: u32

record lai =
  lai_plmn_id :: plmn_id
  lac :: u16

record uli =
  uli_flags :: u8
  uli_cgi :: uli_area
  uli_sai :: uli_area
  uli_rai :: uli_area
  uli_tai :: tai
  uli_e_cgi :: e_cgi
  uli_lai :: lai

definition zero_area :: uli_area where
  "zero_area = \<lparr>area_plmn_id = [0, 0, 0], area_lac = 0, area_code = 0\<rparr>"

definition zero_tai :: tai where
  "zero_tai = \<lparr>tai_plmn_id = [0, 0, 0], tac = 0\<rparr>"

definition zero_e_cgi :: e_cgi where
  "zero_e_cgi = \<lparr>e_cgi_plmn_id = [0, 0, 0], cell_id = 0\<rparr>"

definition zero_lai :: lai where
  "zero_lai = \<lparr>lai_plmn_id = [0, 0, 0], lac = 0\<rparr>"

text \<open>The memory images, with the integers already in network order, and their readings.\<close>

definition area_image :: "uli_area \<Rightarrow> u8 list" where
  "area_image a = area_plmn_id a @ bytes16 (htons (area_lac a)) @ bytes16 (htons (area_code a))"

definition area_read :: "u8 list \<Rightarrow> uli_area" where
  "area_read bs = \<lparr>area_plmn_id = take 3 bs, area_lac = ntohs (word16 (drop 3 bs)),
     area_code = ntohs (word16 (drop 5 bs))\<rparr>"

definition tai_image :: "tai \<Rightarrow> u8 list" where
  "tai_image a = tai_plmn_id a @ bytes16 (htons (tac a))"

definition tai_read :: "u8 list \<Rightarrow> tai" where
  "tai_read bs = \<lparr>tai_plmn_id = take 3 bs, tac = ntohs (word16 (drop 3 bs))\<rparr>"

definition e_cgi_image :: "e_cgi \<Rightarrow> u8 list" where
  "e_cgi_image a = e_cgi_plmn_id a @ bytes32 (htonl (cell_id a))"

definition e_cgi_read :: "u8 list \<Rightarrow> e_cgi" where
  "e_cgi_read bs = \<lparr>e_cgi_plmn_id = take 3 bs, cell_id = ntohl (word32 (drop 3 bs))\<rparr>"

definition lai_image :: "lai \<Rightarrow> u8 list" where
  "lai_image a = lai_plmn_id a @ bytes16 (htons (lac a))"

definition lai_read :: "u8 list \<Rightarrow> lai" where
  "lai_read bs = \<lparr>lai_plmn_id = take 3 bs, lac = ntohs (word16 (drop 3 bs))\<rparr>"

text \<open>One optional part: present when its flag is set, checked against the octet's length.\<close>

definition uli_take :: "bool \<Rightarrow> nat \<Rightarrow> (u8 list \<Rightarrow> 'a) \<Rightarrow> 'a \<Rightarrow> u8 list \<Rightarrow> nat \<Rightarrow> ('a \<times> nat) res" where
  "uli_take present sz rd z octet pos =
     (if present then
        ebind (ogs_assert (pos + sz \<le> length octet)) (\<lambda>_.
        Inr (rd (take sz (drop pos octet)), pos + sz))
      else Inr (z, pos))"

definition ogs_gtp_parse_uli :: "u8 list \<Rightarrow> (uli \<times> nat) res" where
  "ogs_gtp_parse_uli octet =
     ebind (array_read octet 0) (\<lambda>f.
     ebind (uli_take (bit f 0) 7 area_read zero_area octet 1) (\<lambda>(cgi, size).
     ebind (uli_take (bit f 1) 7 area_read zero_area octet size) (\<lambda>(sai, size).
     ebind (uli_take (bit f 2) 7 area_read zero_area octet size) (\<lambda>(rai, size).
     ebind (uli_take (bit f 3) 5 tai_read zero_tai octet size) (\<lambda>(tai, size).
     ebind (uli_take (bit f 4) 7 e_cgi_read zero_e_cgi octet size) (\<lambda>(ecgi, size).
     ebind (uli_take (bit f 5) 5 lai_read zero_lai octet size) (\<lambda>(lai, size).
     ebind (ogs_assert (size = length octet)) (\<lambda>_.
     Inr (\<lparr>uli_flags = f, uli_cgi = cgi, uli_sai = sai, uli_rai = rai, uli_tai = tai,
           uli_e_cgi = ecgi, uli_lai = lai\<rparr>, size)))))))))"

definition uli_put :: "bool \<Rightarrow> u8 list \<Rightarrow> nat \<Rightarrow> u8 list \<Rightarrow> u8 list res" where
  "uli_put present bs data_len out = (if present then octet_put data_len bs out else Inr out)"

definition ogs_gtp_build_uli :: "uli \<Rightarrow> nat \<Rightarrow> u8 list res" where
  "ogs_gtp_build_uli u data_len =
     ebind (ogs_assert (data_len \<noteq> 0)) (\<lambda>_.
     ebind (octet_put data_len [uli_flags u] []) (\<lambda>out.
     ebind (uli_put (bit (uli_flags u) 0) (area_image (uli_cgi u)) data_len out) (\<lambda>out.
     ebind (uli_put (bit (uli_flags u) 1) (area_image (uli_sai u)) data_len out) (\<lambda>out.
     ebind (uli_put (bit (uli_flags u) 2) (area_image (uli_rai u)) data_len out) (\<lambda>out.
     ebind (uli_put (bit (uli_flags u) 3) (tai_image (uli_tai u)) data_len out) (\<lambda>out.
     ebind (uli_put (bit (uli_flags u) 4) (e_cgi_image (uli_e_cgi u)) data_len out) (\<lambda>out.
     uli_put (bit (uli_flags u) 5) (lai_image (uli_lai u)) data_len out)))))))"

text \<open>A location whose PLMN identities have their three octets.\<close>

definition uli_wf :: "uli \<Rightarrow> bool" where
  "uli_wf u \<longleftrightarrow> length (area_plmn_id (uli_cgi u)) = 3 \<and> length (area_plmn_id (uli_sai u)) = 3
     \<and> length (area_plmn_id (uli_rai u)) = 3 \<and> length (tai_plmn_id (uli_tai u)) = 3
     \<and> length (e_cgi_plmn_id (uli_e_cgi u)) = 3 \<and> length (lai_plmn_id (uli_lai u)) = 3"

text \<open>The parts whose flag is not set read as zero (\<^verbatim>\<open>memset\<close> of the target).\<close>

definition uli_present :: "uli \<Rightarrow> uli" where
  "uli_present u = \<lparr>uli_flags = uli_flags u,
     uli_cgi = (if bit (uli_flags u) 0 then uli_cgi u else zero_area),
     uli_sai = (if bit (uli_flags u) 1 then uli_sai u else zero_area),
     uli_rai = (if bit (uli_flags u) 2 then uli_rai u else zero_area),
     uli_tai = (if bit (uli_flags u) 3 then uli_tai u else zero_tai),
     uli_e_cgi = (if bit (uli_flags u) 4 then uli_e_cgi u else zero_e_cgi),
     uli_lai = (if bit (uli_flags u) 5 then uli_lai u else zero_lai)\<rparr>"

subsection \<open>F-TEID and IP addresses\<close>

text \<open>
  The address union of \<^verbatim>\<open>ogs_gtp_f_teid_t\<close> and of \<^verbatim>\<open>ogs_ip_t\<close>: twenty bytes, read as
  \<^verbatim>\<open>addr\<close> (the first four), \<^verbatim>\<open>addr6\<close> (the first sixteen) or \<^verbatim>\<open>both\<close> (four and then sixteen).
\<close>

definition OGS_IPV4_LEN :: nat where "OGS_IPV4_LEN = 4"
definition OGS_IPV6_LEN :: nat where "OGS_IPV6_LEN = 16"
definition OGS_IPV4V6_LEN :: nat where "OGS_IPV4V6_LEN = 20"
definition OGS_GTP_F_TEID_HDR_LEN :: nat where "OGS_GTP_F_TEID_HDR_LEN = 5"

definition poke :: "u8 list \<Rightarrow> nat \<Rightarrow> u8 list \<Rightarrow> u8 list" where
  "poke u off bs = take off u @ bs @ drop (off + length bs) u"

record f_teid =
  ft_ipv4 :: bool
  ft_ipv6 :: bool
  ft_interface_type :: u8
  ft_teid :: u32
  ft_union :: "u8 list"

record ogs_ip =
  ip_ipv4 :: bool
  ip_ipv6 :: bool
  ip_len :: nat
  ip_union :: "u8 list"

datatype family = AF_INET | AF_INET6

record ogs_sockaddr =
  sa_family :: family
  sin_port :: u16
  sin_addr :: "u8 list"

text \<open>The structure after \<^verbatim>\<open>memset(&f_teid, 0, sizeof(ogs_gtp_f_teid_t))\<close>.\<close>

definition zero_f_teid :: f_teid where
  "zero_f_teid = \<lparr>ft_ipv4 = False, ft_ipv6 = False, ft_interface_type = 0, ft_teid = 0,
     ft_union = replicate 20 0\<rparr>"

definition ogs_gtp_f_teid_to_sockaddr :: "f_teid \<Rightarrow> u16 \<Rightarrow> ogs_sockaddr list res" where
  "ogs_gtp_f_teid_to_sockaddr f port =
     (let addr = \<lparr>sa_family = AF_INET, sin_port = htons port, sin_addr = replicate 4 0\<rparr>;
          addr6 = \<lparr>sa_family = AF_INET6, sin_port = htons port, sin_addr = replicate 16 0\<rparr>
      in if ft_ipv4 f \<and> ft_ipv6 f then
           Inr [addr\<lparr>sin_addr := take 4 (ft_union f)\<rparr>,
                addr6\<lparr>sin_addr := take OGS_IPV6_LEN (drop 4 (ft_union f))\<rparr>]
         else if ft_ipv4 f then Inr [addr\<lparr>sin_addr := take 4 (ft_union f)\<rparr>]
         else if ft_ipv6 f then Inr [addr6\<lparr>sin_addr := take OGS_IPV6_LEN (ft_union f)\<rparr>]
         else Inl Assert_Failed)"

definition ogs_gtp_sockaddr_to_f_teid ::
  "ogs_sockaddr option \<Rightarrow> ogs_sockaddr option \<Rightarrow> f_teid \<Rightarrow> (f_teid \<times> nat) res" where
  "ogs_gtp_sockaddr_to_f_teid addr addr6 f =
     (case (addr, addr6) of
        (Some a, Some a6) \<Rightarrow>
          Inr (f\<lparr>ft_ipv4 := True, ft_ipv6 := True,
                 ft_union := poke (poke (ft_union f) 0 (sin_addr a)) 4 (sin_addr a6)\<rparr>,
               OGS_IPV4V6_LEN + OGS_GTP_F_TEID_HDR_LEN)
      | (Some a, None) \<Rightarrow>
          Inr (f\<lparr>ft_ipv4 := True, ft_ipv6 := False, ft_union := poke (ft_union f) 0 (sin_addr a)\<rparr>,
               OGS_IPV4_LEN + OGS_GTP_F_TEID_HDR_LEN)
      | (None, Some a6) \<Rightarrow>
          Inr (f\<lparr>ft_ipv4 := False, ft_ipv6 := True, ft_union := poke (ft_union f) 0 (sin_addr a6)\<rparr>,
               OGS_IPV6_LEN + OGS_GTP_F_TEID_HDR_LEN)
      | (None, None) \<Rightarrow> Inl Assert_Failed)"

definition ogs_gtp_f_teid_to_ip :: "f_teid \<Rightarrow> ogs_ip res" where
  "ogs_gtp_f_teid_to_ip f =
     (let ip = \<lparr>ip_ipv4 = ft_ipv4 f, ip_ipv6 = ft_ipv6 f, ip_len = 0, ip_union = replicate 20 0\<rparr>
      in if ip_ipv4 ip \<and> ip_ipv6 ip then
           Inr (ip\<lparr>ip_union := poke (poke (ip_union ip) 0 (take 4 (ft_union f))) 4
                     (take OGS_IPV6_LEN (drop 4 (ft_union f))),
                   ip_len := OGS_IPV4V6_LEN\<rparr>)
         else if ip_ipv4 ip then
           Inr (ip\<lparr>ip_union := poke (ip_union ip) 0 (take 4 (ft_union f)), ip_len := OGS_IPV4_LEN\<rparr>)
         else if ip_ipv6 ip then
           Inr (ip\<lparr>ip_union := poke (ip_union ip) 0 (take OGS_IPV6_LEN (ft_union f)),
                   ip_len := OGS_IPV6_LEN\<rparr>)
         else Inl Assert_Failed)"

definition ogs_gtp_ip_to_f_teid :: "ogs_ip \<Rightarrow> f_teid \<Rightarrow> (f_teid \<times> nat) res" where
  "ogs_gtp_ip_to_f_teid ip f0 =
     (let f = f0\<lparr>ft_ipv4 := ip_ipv4 ip, ft_ipv6 := ip_ipv6 ip\<rparr>
      in if ft_ipv4 f \<and> ft_ipv6 f then
           Inr (f\<lparr>ft_union := poke (poke (ft_union f) 0 (take 4 (ip_union ip))) 4
                     (take OGS_IPV6_LEN (drop 4 (ip_union ip)))\<rparr>,
                OGS_IPV4V6_LEN + OGS_GTP_F_TEID_HDR_LEN)
         else if ft_ipv4 f then
           Inr (f\<lparr>ft_union := poke (ft_union f) 0 (take 4 (ip_union ip))\<rparr>,
                OGS_IPV4_LEN + OGS_GTP_F_TEID_HDR_LEN)
         else if ft_ipv6 f then
           Inr (f\<lparr>ft_union := poke (ft_union f) 0 (take OGS_IPV6_LEN (ip_union ip))\<rparr>,
                OGS_IPV6_LEN + OGS_GTP_F_TEID_HDR_LEN)
         else Inl Assert_Failed)"

text \<open>The bytes of the union that an IP version selects: what the structure says of the address.\<close>

definition ip_bytes :: "bool \<Rightarrow> bool \<Rightarrow> u8 list \<Rightarrow> u8 list" where
  "ip_bytes v4 v6 u = (if v4 \<and> v6 then take 20 u else if v4 then take 4 u else take 16 u)"

subsection \<open>Codecs\<close>

text \<open>
  The contract the parse and build functions of this library share: building a well-formed value
  yields bytes that parse to the value's normal form and are consumed whole.
\<close>

locale codec =
  fixes enc :: "'a \<Rightarrow> u8 list res"
    and dec :: "u8 list \<Rightarrow> ('a \<times> nat) res"
    and wf :: "'a \<Rightarrow> bool"
    and norm :: "'a \<Rightarrow> 'a"
  assumes enc_ok: "wf x \<Longrightarrow> \<exists>bs. enc x = Inr bs"
    and dec_enc: "wf x \<Longrightarrow> enc x = Inr bs \<Longrightarrow> dec bs = Inr (norm x, length bs)"
begin

lemma round_trip: "wf x \<Longrightarrow> ebind (enc x) dec = Inr (norm x, length (projr (enc x)))"
  using enc_ok dec_enc by fastforce

lemma enc_inj: "wf x \<Longrightarrow> wf y \<Longrightarrow> enc x = enc y \<Longrightarrow> norm x = norm y"
  using enc_ok dec_enc by (metis Inr_inject prod.inject)

end

subsection \<open>Lemmas: octet strings\<close>

lemma octet_put_eq_Inr [simp]:
  "octet_put n bs out = Inr r \<longleftrightarrow> length out + length bs \<le> n \<and> r = out @ bs"
  by (auto simp: octet_put_def ebind_eq_Inr)

lemma octet_put_ok [simp]: "length out + length bs \<le> n \<Longrightarrow> octet_put n bs out = Inr (out @ bs)"
  by simp

lemma octet_put_fault: "n < length out + length bs \<Longrightarrow> octet_put n bs out = Inl Assert_Failed"
  by (simp add: octet_put_def)

subsection \<open>Lemmas: bearer quality of service\<close>

lemma bit_qos_octet_6 [simp]: "bit (qos_octet q) 6 = pre_emption_capability q"
  and bit_qos_octet_0 [simp]: "bit (qos_octet q) 0 = pre_emption_vulnerability q"
  by (auto simp: qos_octet_def bit_simps dest: bit_imp_le_length)

lemma qos_octet_priority [simp]: "ucast (drop_bit 2 (qos_octet q)) = priority_level q"
proof (rule bit_word_eqI)
  fix n assume "n < LENGTH(4)"
  then have "n = 0 \<or> n = 1 \<or> n = 2 \<or> n = 3" by auto
  then show "bit (ucast (drop_bit 2 (qos_octet q)) :: 4 word) n \<longleftrightarrow> bit (priority_level q) n"
    by (elim disjE) (auto simp: qos_octet_def bit_simps)
qed

text \<open>The values a bearer QoS keeps on the wire: rates of five octets.\<close>

definition qos_wf :: "bearer_qos \<Rightarrow> bool" where
  "qos_wf q \<longleftrightarrow> unat (ul_mbr q) < 2 ^ 40 \<and> unat (dl_mbr q) < 2 ^ 40
     \<and> unat (ul_gbr q) < 2 ^ 40 \<and> unat (dl_gbr q) < 2 ^ 40"

lemma build_bearer_qos_length:
  assumes "uint64_conv_ok put get" and "ogs_gtp_build_bearer_qos put q n = Inr bs"
  shows "length bs = GTP_BEARER_QOS_LEN"
  using assms by (auto simp: uint64_conv_ok_def ogs_gtp_build_bearer_qos_def ebind_eq_Inr
      GTP_BEARER_QOS_LEN_def)

lemma parse_build_bearer_qos:
  assumes "uint64_conv_ok put get" and "qos_wf q" and "ogs_gtp_build_bearer_qos put q n = Inr bs"
  shows "ogs_gtp_parse_bearer_qos get bs = Inr (q\<lparr>qos_spare1 := False, qos_spare2 := False\<rparr>, 22)"
proof -
  have len [simp]: "length (put v k) = k" for v k
    using assms(1) by (simp add: uint64_conv_ok_def)
  have get: "unat v < 2 ^ 40 \<Longrightarrow> get (put v 5) = v" for v
    using assms(1) by (simp add: uint64_conv_ok_def)
  have bs: "bs = [qos_octet q, qci q] @ put (ul_mbr q) 5 @ put (dl_mbr q) 5 @ put (ul_gbr q) 5
      @ put (dl_gbr q) 5"
    using assms(3) by (simp add: ogs_gtp_build_bearer_qos_def ebind_eq_Inr)
  show ?thesis
    using assms(2) unfolding bs
    by (simp add: ogs_gtp_parse_bearer_qos_def GTP_BEARER_QOS_LEN_def get qos_wf_def Let_def)
qed

subsection \<open>Lemmas: user location information\<close>

lemma area_read_image [simp]: "length (area_plmn_id a) = 3 \<Longrightarrow> area_read (area_image a) = a"
  by (simp add: area_read_def area_image_def)

lemma tai_read_image [simp]: "length (tai_plmn_id a) = 3 \<Longrightarrow> tai_read (tai_image a) = a"
  by (simp add: tai_read_def tai_image_def)

lemma e_cgi_read_image [simp]: "length (e_cgi_plmn_id a) = 3 \<Longrightarrow> e_cgi_read (e_cgi_image a) = a"
  by (simp add: e_cgi_read_def e_cgi_image_def)

lemma lai_read_image [simp]: "length (lai_plmn_id a) = 3 \<Longrightarrow> lai_read (lai_image a) = a"
  by (simp add: lai_read_def lai_image_def)

lemma length_area_image [simp]: "length (area_image a) = length (area_plmn_id a) + 4"
  and length_tai_image [simp]: "length (tai_image t) = length (tai_plmn_id t) + 2"
  and length_e_cgi_image [simp]: "length (e_cgi_image e) = length (e_cgi_plmn_id e) + 4"
  and length_lai_image [simp]: "length (lai_image l) = length (lai_plmn_id l) + 2"
  by (simp_all add: area_image_def tai_image_def e_cgi_image_def lai_image_def)

text \<open>Reading the \<open>i\<close>-th of the parts that follow the flags octet.\<close>

lemma uli_take_part:
  assumes "i < length ps" and "ps ! i = (if p then bs else [])" and "length bs = sz" and "rd bs = v"
  shows "uli_take p sz rd z (f # concat ps) (Suc (length (concat (take i ps)))) =
    Inr (if p then v else z, Suc (length (concat (take (Suc i) ps))))"
proof -
  have "concat ps = concat (take i ps) @ ps ! i @ concat (drop (Suc i) ps)"
    using assms(1) by (metis concat.simps(2) concat_append id_take_nth_drop)
  then show ?thesis
    using assms by (auto simp: uli_take_def take_Suc_conv_app_nth)
qed

text \<open>The bytes of the location as one expression.\<close>

definition uli_parts :: "uli \<Rightarrow> u8 list list" where
  "uli_parts u =
     [if bit (uli_flags u) 0 then area_image (uli_cgi u) else [],
      if bit (uli_flags u) 1 then area_image (uli_sai u) else [],
      if bit (uli_flags u) 2 then area_image (uli_rai u) else [],
      if bit (uli_flags u) 3 then tai_image (uli_tai u) else [],
      if bit (uli_flags u) 4 then e_cgi_image (uli_e_cgi u) else [],
      if bit (uli_flags u) 5 then lai_image (uli_lai u) else []]"

lemma length_uli_parts [simp]: "length (uli_parts u) = 6"
  by (simp add: uli_parts_def)

lemma nth_uli_parts:
  "uli_parts u ! 0 = (if bit (uli_flags u) 0 then area_image (uli_cgi u) else [])"
  "uli_parts u ! 1 = (if bit (uli_flags u) 1 then area_image (uli_sai u) else [])"
  "uli_parts u ! 2 = (if bit (uli_flags u) 2 then area_image (uli_rai u) else [])"
  "uli_parts u ! 3 = (if bit (uli_flags u) 3 then tai_image (uli_tai u) else [])"
  "uli_parts u ! 4 = (if bit (uli_flags u) 4 then e_cgi_image (uli_e_cgi u) else [])"
  "uli_parts u ! 5 = (if bit (uli_flags u) 5 then lai_image (uli_lai u) else [])"
  by (simp_all add: uli_parts_def)

lemma uli_put_eq_Inr [simp]:
  "uli_put p bs n out = Inr r \<longleftrightarrow>
     r = out @ (if p then bs else []) \<and> (p \<longrightarrow> length out + length bs \<le> n)"
  by (auto simp: uli_put_def)

lemma build_uli_image:
  "ogs_gtp_build_uli u n = Inr bs \<Longrightarrow> bs = uli_flags u # concat (uli_parts u) \<and> length bs \<le> n"
  by (auto simp: ogs_gtp_build_uli_def ebind_eq_Inr uli_parts_def split: if_splits)

lemma build_uli_ok:
  assumes "length (uli_flags u # concat (uli_parts u)) \<le> n"
  shows "ogs_gtp_build_uli u n = Inr (uli_flags u # concat (uli_parts u))"
  using assms by (auto simp: ogs_gtp_build_uli_def uli_parts_def uli_put_def)

lemma length_uli_image: "uli_wf u \<Longrightarrow> length (uli_flags u # concat (uli_parts u)) \<le> 39"
  by (simp add: uli_wf_def uli_parts_def)

lemma parse_uli_image:
  assumes "uli_wf u"
  shows "ogs_gtp_parse_uli (uli_flags u # concat (uli_parts u)) =
    Inr (uli_present u, length (uli_flags u # concat (uli_parts u)))"
proof -
  let ?f = "uli_flags u" and ?ps = "uli_parts u" and ?v = "uli_present u"
  define k where "k i = Suc (length (concat (take i ?ps)))" for i
  have part: "i < 6 \<Longrightarrow> ?ps ! i = (if p then bs else []) \<Longrightarrow> length bs = sz \<Longrightarrow> rd bs = v \<Longrightarrow>
      uli_take p sz rd z (?f # concat ?ps) (k i) = Inr (if p then v else z, k (i + 1))"
    for i p bs sz and rd :: "u8 list \<Rightarrow> 'b" and v z
    using uli_take_part [of i ?ps p bs sz rd v z ?f] by (simp add: k_def)
  have k: "1 = k 0" "length (?f # concat ?ps) = k 6"
    by (simp_all add: k_def)
  have cgi: "uli_take (bit ?f 0) 7 area_read zero_area (?f # concat ?ps) (k 0) =
      Inr (uli_cgi ?v, k 1)"
    using part [OF _ nth_uli_parts(1), of 7 area_read "uli_cgi u" zero_area] assms
    by (simp add: uli_wf_def uli_present_def)
  have sai: "uli_take (bit ?f 1) 7 area_read zero_area (?f # concat ?ps) (k 1) =
      Inr (uli_sai ?v, k 2)"
    using part [OF _ nth_uli_parts(2), of 7 area_read "uli_sai u" zero_area] assms
    by (simp add: uli_wf_def uli_present_def numeral_2_eq_2)
  have rai: "uli_take (bit ?f 2) 7 area_read zero_area (?f # concat ?ps) (k 2) =
      Inr (uli_rai ?v, k 3)"
    using part [OF _ nth_uli_parts(3), of 7 area_read "uli_rai u" zero_area] assms
    by (simp add: uli_wf_def uli_present_def)
  have tai: "uli_take (bit ?f 3) 5 tai_read zero_tai (?f # concat ?ps) (k 3) =
      Inr (uli_tai ?v, k 4)"
    using part [OF _ nth_uli_parts(4), of 5 tai_read "uli_tai u" zero_tai] assms
    by (simp add: uli_wf_def uli_present_def)
  have e_cgi: "uli_take (bit ?f 4) 7 e_cgi_read zero_e_cgi (?f # concat ?ps) (k 4) =
      Inr (uli_e_cgi ?v, k 5)"
    using part [OF _ nth_uli_parts(5), of 7 e_cgi_read "uli_e_cgi u" zero_e_cgi] assms
    by (simp add: uli_wf_def uli_present_def)
  have lai: "uli_take (bit ?f 5) 5 lai_read zero_lai (?f # concat ?ps) (k 5) =
      Inr (uli_lai ?v, k 6)"
    using part [OF _ nth_uli_parts(6), of 5 lai_read "uli_lai u" zero_lai] assms
    by (simp add: uli_wf_def uli_present_def)
  have "uli_flags ?v = ?f" by (simp add: uli_present_def)
  then show ?thesis
    unfolding ogs_gtp_parse_uli_def
    by (simp del: One_nat_def add: cgi [folded k] sai rai tai e_cgi lai [folded k])
qed

interpretation uli_codec: codec "\<lambda>u. ogs_gtp_build_uli u 39" ogs_gtp_parse_uli uli_wf uli_present
proof unfold_locales
  fix u :: uli assume "uli_wf u"
  then show "\<exists>bs. ogs_gtp_build_uli u 39 = Inr bs"
    using build_uli_ok length_uli_image by blast
next
  fix u :: uli and bs assume "uli_wf u" and "ogs_gtp_build_uli u 39 = Inr bs"
  then show "ogs_gtp_parse_uli bs = Inr (uli_present u, length bs)"
    using build_uli_image parse_uli_image by metis
qed

subsection \<open>Lemmas: traffic flow template\<close>

text \<open>The reference image of a template: what its octets are, with no buffer in the way.\<close>

definition component_image :: "tft_component \<Rightarrow> u8 list" where
  "component_image c = comp_type c # (case component_value c of None \<Rightarrow> [] | Some v \<Rightarrow> v)"

definition filter_image :: "tft_filter \<Rightarrow> u8 list" where
  "filter_image pf = [pf_flags pf, pf_precedence pf, pf_length pf]
     @ concat (map component_image (take (unat (num_of_component pf)) (pf_component pf)))"

definition tft_image :: "tft \<Rightarrow> u8 list" where
  "tft_image t = tft_flags t # concat (map filter_image (take (num_of_packet_filter t) (tft_pf t)))"

text \<open>The arrays of the structure have their sizes and every counter stays inside its array.\<close>

definition tft_wf :: "tft \<Rightarrow> bool" where
  "tft_wf t \<longleftrightarrow> length (tft_pf t) = 16
     \<and> (\<forall>pf \<in> set (tft_pf t). length (pf_component pf) = 16 \<and> unat (num_of_component pf) \<le> 16
          \<and> (\<forall>c \<in> set (pf_component pf). length (comp_union c) = 32))"

definition tft_known :: "tft \<Rightarrow> bool" where
  "tft_known t \<longleftrightarrow> (\<forall>pf \<in> set (take (num_of_packet_filter t) (tft_pf t)).
     \<forall>c \<in> set (take (unat (num_of_component pf)) (pf_component pf)). component_value c \<noteq> None)"

lemma num_of_packet_filter_less: "num_of_packet_filter t < 16"
proof -
  have "unat (take_bit 4 (tft_flags t)) = take_bit 4 (unat (tft_flags t))"
    by (simp add: unsigned_take_bit_eq)
  also have "\<dots> < 2 ^ 4" by (rule take_bit_nat_less_exp)
  finally show ?thesis by (simp add: num_of_packet_filter_def)
qed

lemma put_components_image:
  assumes "\<forall>j \<in> set js. j < length cs" and "\<forall>j \<in> set js. component_value (cs ! j) \<noteq> None"
    and "length out + length (concat (map (component_image \<circ> (!) cs) js)) \<le> n"
  shows "tft_put_components n cs js out = Inr (Some (out @ concat (map (component_image \<circ> (!) cs) js)))"
  using assms
proof (induction js arbitrary: out)
  case Nil
  then show ?case by simp
next
  case (Cons j js)
  then obtain v where v: "component_value (cs ! j) = Some v" by auto
  have img: "component_image (cs ! j) = comp_type (cs ! j) # v"
    by (simp add: component_image_def v)
  have "tft_put_components n cs js (out @ component_image (cs ! j)) =
      Inr (Some ((out @ component_image (cs ! j)) @ concat (map (component_image \<circ> (!) cs) js)))"
    using Cons.prems by (intro Cons.IH) simp_all
  then show ?case
    using Cons.prems v img by (simp add: comp_def)
qed

lemma nth_in_set_take: "j < m \<Longrightarrow> m \<le> length xs \<Longrightarrow> xs ! j \<in> set (take m xs)"
  by (auto simp: in_set_conv_nth)

lemma map_nth_upt_take: "n \<le> length xs \<Longrightarrow> map (f \<circ> (!) xs) [0..<n] = map f (take n xs)"
  by (rule nth_equalityI) simp_all

lemma put_filters_image:
  assumes "\<forall>i \<in> set is. i < length pfs"
    and "\<forall>i \<in> set is. unat (num_of_component (pfs ! i)) \<le> length (pf_component (pfs ! i))"
    and "\<forall>i \<in> set is. \<forall>c \<in> set (take (unat (num_of_component (pfs ! i))) (pf_component (pfs ! i))).
      component_value c \<noteq> None"
    and "length out + length (concat (map (filter_image \<circ> (!) pfs) is)) \<le> n"
  shows "tft_put_filters n pfs is out = Inr (Some (out @ concat (map (filter_image \<circ> (!) pfs) is)))"
  using assms
proof (induction "is" arbitrary: out)
  case Nil
  then show ?case by simp
next
  case (Cons i "is")
  let ?pf = "pfs ! i" and ?m = "unat (num_of_component (pfs ! i))"
  let ?h = "[pf_flags ?pf, pf_precedence ?pf, pf_length ?pf]"
  have comps: "concat (map (component_image \<circ> (!) (pf_component ?pf)) [0..<?m]) = drop 3 (filter_image ?pf)"
    using Cons.prems(2) by (simp add: map_nth_upt_take filter_image_def)
  have img: "filter_image ?pf = ?h @ drop 3 (filter_image ?pf)"
    by (simp add: filter_image_def)
  have len: "length out + length (filter_image ?pf) \<le> n"
    using Cons.prems(4) by simp
  then have room: "length out + 3 \<le> n"
    by (simp add: filter_image_def)
  have "tft_put_components n (pf_component ?pf) [0..<?m] (out @ ?h) =
      Inr (Some ((out @ ?h) @ concat (map (component_image \<circ> (!) (pf_component ?pf)) [0..<?m])))"
    using Cons.prems(2,3) len img unfolding comps [symmetric]
    by (intro put_components_image) (auto dest: bspec [OF _ nth_in_set_take])
  moreover have "tft_put_filters n pfs is (out @ filter_image ?pf) =
      Inr (Some ((out @ filter_image ?pf) @ concat (map (filter_image \<circ> (!) pfs) is)))"
    using Cons.prems by (intro Cons.IH) simp_all
  ultimately show ?case
    using Cons.prems(1) room img [symmetric] unfolding comps by (simp add: comp_def)
qed

lemma build_tft_image:
  assumes "tft_wf t" and "tft_known t" and "255 \<le> n" and "length (tft_image t) \<le> n"
  shows "ogs_gtp_build_tft t n = Inr (Some (tft_image t))"
proof -
  have n: "num_of_packet_filter t \<le> length (tft_pf t)"
    using assms(1) num_of_packet_filter_less [of t] by (simp add: tft_wf_def)
  have "tft_put_filters n (tft_pf t) [0..<num_of_packet_filter t] [tft_flags t] =
      Inr (Some ([tft_flags t]
        @ concat (map (filter_image \<circ> (!) (tft_pf t)) [0..<num_of_packet_filter t])))"
    using assms n by (intro put_filters_image)
      (auto simp: tft_wf_def tft_known_def tft_image_def map_nth_upt_take dest: bspec [OF _ nth_in_set_take])
  then show ?thesis
    using assms(3) n
    by (simp add: ogs_gtp_build_tft_def OGS_GTP_MAX_TRAFFIC_FLOW_TEMPLATE_def map_nth_upt_take
        tft_image_def)
qed

subsection \<open>Lemmas: addresses\<close>

lemma poke_0: "length bs \<le> length u \<Longrightarrow> take (length bs) (poke u 0 bs) = bs"
  by (simp add: poke_def)

lemma length_poke [simp]: "off + length bs \<le> length u \<Longrightarrow> length (poke u off bs) = length u"
  by (simp add: poke_def)

lemma poke_both:
  assumes "length u = 20" and "length a = 4" and "length b = 16"
  shows "poke (poke u 0 a) 4 b = a @ b"
  using assms by (simp add: poke_def)

lemmas ip_len_simps = OGS_IPV4_LEN_def OGS_IPV6_LEN_def OGS_IPV4V6_LEN_def OGS_GTP_F_TEID_HDR_LEN_def

lemma f_teid_to_ip_bytes:
  assumes "length (ft_union f) = 20" and "ogs_gtp_f_teid_to_ip f = Inr ip"
  shows "ip_ipv4 ip = ft_ipv4 f \<and> ip_ipv6 ip = ft_ipv6 f \<and> length (ip_union ip) = 20
    \<and> take (ip_len ip) (ip_union ip) = ip_bytes (ft_ipv4 f) (ft_ipv6 f) (ft_union f)"
  using assms
  by (auto simp: ogs_gtp_f_teid_to_ip_def ip_bytes_def poke_def ip_len_simps Let_def
      take_add [of 4 16, simplified] split: if_splits)

subsection \<open>Properties\<close>

text \<open>The big-endian conversion of the base library, as its names say.\<close>

primrec be_bytes :: "nat \<Rightarrow> nat \<Rightarrow> u8 list" where
  "be_bytes 0 x = []"
| "be_bytes (Suc n) x = be_bytes n (x div 256) @ [of_nat x]"

definition be_value :: "u8 list \<Rightarrow> nat" where
  "be_value bs = foldl (\<lambda>a b. a * 256 + unat b) 0 bs"

lemma length_be_bytes [simp]: "length (be_bytes n x) = n"
  by (induction n arbitrary: x) simp_all

lemma be_value_bytes: "be_value (be_bytes n x) = x mod 256 ^ n"
proof (induction n arbitrary: x)
  case (Suc n)
  have "be_value (be_bytes (Suc n) x) = be_value (be_bytes n (x div 256)) * 256 + x mod 256"
    by (simp add: be_value_def unat_of_nat)
  also have "\<dots> = x mod 256 ^ Suc n"
    by (simp add: Suc mod_mult2_eq mult.commute)
  finally show ?case .
qed (simp add: be_value_def)

lemma be_conv_ok: "uint64_conv_ok (\<lambda>v n. be_bytes n (unat v)) (\<lambda>bs. of_nat (be_value bs))"
  by (simp add: uint64_conv_ok_def be_value_bytes power_mult)

text \<open>A bearer quality of service whose rates fit their five octets survives building and
  parsing, and the 22 octets are consumed whole.\<close>

theorem bearer_qos_round_trip:
  assumes "uint64_conv_ok put get" and "qos_wf q" and "GTP_BEARER_QOS_LEN \<le> n"
  shows "\<exists>bs. ogs_gtp_build_bearer_qos put q n = Inr bs \<and> length bs = GTP_BEARER_QOS_LEN
    \<and> ogs_gtp_parse_bearer_qos get bs = Inr (q\<lparr>qos_spare1 := False, qos_spare2 := False\<rparr>, GTP_BEARER_QOS_LEN)"
proof -
  obtain bs where bs: "ogs_gtp_build_bearer_qos put q n = Inr bs"
    using assms(3) by (simp add: ogs_gtp_build_bearer_qos_def)
  then show ?thesis
    using parse_build_bearer_qos [OF assms(1,2) bs] build_bearer_qos_length [OF assms(1) bs]
    by (simp add: GTP_BEARER_QOS_LEN_def)
qed

interpretation qos_codec: codec "\<lambda>q. ogs_gtp_build_bearer_qos (\<lambda>v n. be_bytes n (unat v)) q 22"
  "ogs_gtp_parse_bearer_qos (\<lambda>bs. of_nat (be_value bs))" qos_wf "\<lambda>q. q\<lparr>qos_spare1 := False, qos_spare2 := False\<rparr>"
proof unfold_locales
  fix q :: bearer_qos
  show "\<exists>bs. ogs_gtp_build_bearer_qos (\<lambda>v n. be_bytes n (unat v)) q 22 = Inr bs"
    by (simp add: ogs_gtp_build_bearer_qos_def GTP_BEARER_QOS_LEN_def)
next
  fix q :: bearer_qos and bs
  assume "qos_wf q" and bs: "ogs_gtp_build_bearer_qos (\<lambda>v n. be_bytes n (unat v)) q 22 = Inr bs"
  then show "ogs_gtp_parse_bearer_qos (\<lambda>bs. of_nat (be_value bs)) bs = Inr (q\<lparr>qos_spare1 := False, qos_spare2 := False\<rparr>, length bs)"
    using parse_build_bearer_qos [OF be_conv_ok] build_bearer_qos_length [OF be_conv_ok bs]
    by (simp add: GTP_BEARER_QOS_LEN_def)
qed

definition sample_qos :: bearer_qos where
  "sample_qos = \<lparr>qos_spare1 = False, pre_emption_capability = True, priority_level = 9, qos_spare2 = False,
     pre_emption_vulnerability = True, qci = 5, ul_mbr = 1000, dl_mbr = 70000, ul_gbr = 0, dl_gbr = 12345678\<rparr>"

theorem bearer_qos_round_trip_witness:
  "\<exists>bs. ogs_gtp_build_bearer_qos (\<lambda>v n. be_bytes n (unat v)) sample_qos 22 = Inr bs
    \<and> ogs_gtp_parse_bearer_qos (\<lambda>bs. of_nat (be_value bs)) bs = Inr (sample_qos, 22)"
  using bearer_qos_round_trip [OF be_conv_ok, of sample_qos 22]
  by (auto simp: qos_wf_def sample_qos_def GTP_BEARER_QOS_LEN_def)

text \<open>A user location information element survives building and parsing: the parts its flags
  announce come back, the others read as zero, and every octet is consumed.\<close>

theorem uli_round_trip:
  assumes "uli_wf u"
  shows "\<exists>bs. ogs_gtp_build_uli u 39 = Inr bs \<and> ogs_gtp_parse_uli bs = Inr (uli_present u, length bs)"
  using uli_codec.enc_ok [OF assms] uli_codec.dec_enc [OF assms] by blast

definition sample_uli :: uli where
  "sample_uli = \<lparr>uli_flags = 0x18, uli_cgi = zero_area, uli_sai = zero_area, uli_rai = zero_area,
     uli_tai = \<lparr>tai_plmn_id = [0x45, 0xF0, 0x11], tac = 12345\<rparr>,
     uli_e_cgi = \<lparr>e_cgi_plmn_id = [0x45, 0xF0, 0x11], cell_id = 0x1234567\<rparr>, uli_lai = zero_lai\<rparr>"

theorem uli_round_trip_witness:
  "uli_wf sample_uli \<and> (\<exists>bs. ogs_gtp_build_uli sample_uli 39 = Inr bs
    \<and> ogs_gtp_parse_uli bs = Inr (uli_present sample_uli, length bs))"
proof -
  have "uli_wf sample_uli" by (simp add: uli_wf_def sample_uli_def zero_area_def zero_lai_def)
  then show ?thesis using uli_round_trip by blast
qed

text \<open>A traffic flow template with known component types is built as its reference image: the
  flags octet and then, filter by filter, identifier, precedence, length and components.\<close>

theorem build_tft_reference:
  assumes "tft_wf t" and "tft_known t" and "255 \<le> n" and "length (tft_image t) \<le> n"
  shows "ogs_gtp_build_tft t n = Inr (Some (tft_image t))"
  using build_tft_image [OF assms] .

definition sample_tft :: tft where
  "sample_tft =
     (let zc = \<lparr>comp_type = 0, comp_union = replicate 32 0\<rparr>;
          zf = \<lparr>pf_flags = 0, pf_precedence = 0, pf_length = 0, pf_component = replicate 16 zc, num_of_component = 0\<rparr>
      in \<lparr>tft_flags = 0x21,
          tft_pf = zf\<lparr>pf_flags := 0x30, pf_precedence := 7, pf_length := 2,
            pf_component := zc\<lparr>comp_type := 48, comp_union := 17 # replicate 31 0\<rparr> # replicate 15 zc,
            num_of_component := 1\<rparr> # replicate 15 zf\<rparr>)"

theorem build_tft_reference_witness:
  "ogs_gtp_build_tft sample_tft 255 = Inr (Some [0x21, 0x30, 7, 2, 48, 17])"
proof -
  have n: "num_of_packet_filter sample_tft = 1" by (simp add: num_of_packet_filter_def sample_tft_def Let_def)
  have image: "tft_image sample_tft = [0x21, 0x30, 7, 2, 48, 17]"
    unfolding tft_image_def n by (simp add: sample_tft_def filter_image_def component_image_def component_value_def Let_def)
  moreover have "tft_known sample_tft"
    unfolding tft_known_def n by (simp add: sample_tft_def component_value_def Let_def)
  moreover have "tft_wf sample_tft" by (simp add: tft_wf_def sample_tft_def Let_def)
  ultimately show ?thesis using build_tft_reference [of sample_tft 255] by simp
qed

text \<open>An F-TEID with an address and its IP structure determine each other: the conversion to an
  IP address succeeds, and converting that back into any F-TEID restores both version flags, the
  address octets and the length of the element.\<close>

theorem f_teid_ip_round_trip:
  assumes "ft_ipv4 f \<or> ft_ipv6 f" and "length (ft_union f) = 20" and "length (ft_union f0) = 20"
  shows "\<exists>ip f'. ogs_gtp_f_teid_to_ip f = Inr ip
    \<and> ogs_gtp_ip_to_f_teid ip f0 = Inr (f', ip_len ip + OGS_GTP_F_TEID_HDR_LEN)
    \<and> ft_ipv4 f' = ft_ipv4 f \<and> ft_ipv6 f' = ft_ipv6 f
    \<and> ip_bytes (ft_ipv4 f') (ft_ipv6 f') (ft_union f') = ip_bytes (ft_ipv4 f) (ft_ipv6 f) (ft_union f)
    \<and> ft_teid f' = ft_teid f0 \<and> ft_interface_type f' = ft_interface_type f0"
  using assms
  by (cases "ft_ipv4 f"; cases "ft_ipv6 f")
    (auto simp: ogs_gtp_f_teid_to_ip_def ogs_gtp_ip_to_f_teid_def ip_bytes_def poke_def ip_len_simps Let_def
      take_add [of 4 16, simplified])

theorem f_teid_ip_round_trip_witness:
  "\<exists>ip f'. ogs_gtp_f_teid_to_ip (zero_f_teid\<lparr>ft_ipv4 := True, ft_union := [10, 0, 0, 1] @ replicate 16 0\<rparr>) = Inr ip
    \<and> ogs_gtp_ip_to_f_teid ip zero_f_teid = Inr (f', ip_len ip + OGS_GTP_F_TEID_HDR_LEN)
    \<and> take 4 (ft_union f') = [10, 0, 0, 1]"
  using f_teid_ip_round_trip [of "zero_f_teid\<lparr>ft_ipv4 := True, ft_union := [10, 0, 0, 1] @ replicate 16 0\<rparr>" zero_f_teid]
  by (auto simp: zero_f_teid_def ip_bytes_def)

end
