(* ===== verification/Gtp_Xact.thy ===== *)
theory Gtp_Xact
  imports Gtp_Types
begin

text \<open>
  The GTPv2-C transaction layer of \<^verbatim>\<open>src/lib/gtp/xact.c\<close>: transactions created for a request of
  ours (local) or of the peer (remote), their message history of up to three steps, the
  retransmission and holding timers, duplicate detection and association of two transactions.

  The base library is an argument of the operations (\<open>gtp_env\<close>): the pool allocators, the
  identifier generator \<^verbatim>\<open>OGS_NEXT_ID\<close>, the intrusive lists, timer creation and the UDP socket.
  What the code relies on of them is \<open>gtp_env_ok\<close>. Debug and warning messages are left out.
\<close>

subsection \<open>Packets\<close>

record gtp_header =
  h_flags :: u8
  h_type :: u8
  h_length :: u16
  h_teid :: u32
  h_sqn :: u32

text \<open>
  A packet buffer holds a GTPv2-C header and a message body (a value of the type parameter, left
  to the client) or a GTPv1-U header (flags, type, length and TEID) and the octets that follow it.
\<close>

datatype 'b packet =
    GTPv2C gtp_header 'b
  | GTPv1U u8 u8 u16 u32 "u8 list"

definition OGS_GTPV2C_HEADER_LEN :: nat where
  "OGS_GTPV2C_HEADER_LEN = 12"

definition OGS_GTP_XID_TO_SQN :: "u32 \<Rightarrow> u32" where
  "OGS_GTP_XID_TO_SQN xid = htonl (push_bit 8 xid)"

definition OGS_GTP_SQN_TO_XID :: "u32 \<Rightarrow> u32" where
  "OGS_GTP_SQN_TO_XID sqn = drop_bit 8 (ntohl sqn)"

subsection \<open>Message types\<close>

abbreviation (input) "OGS_GTP_CREATE_SESSION_REQUEST_TYPE \<equiv> (32::u8)"
abbreviation (input) "OGS_GTP_CREATE_SESSION_RESPONSE_TYPE \<equiv> (33::u8)"
abbreviation (input) "OGS_GTP_MODIFY_BEARER_REQUEST_TYPE \<equiv> (34::u8)"
abbreviation (input) "OGS_GTP_MODIFY_BEARER_RESPONSE_TYPE \<equiv> (35::u8)"
abbreviation (input) "OGS_GTP_DELETE_SESSION_REQUEST_TYPE \<equiv> (36::u8)"
abbreviation (input) "OGS_GTP_DELETE_SESSION_RESPONSE_TYPE \<equiv> (37::u8)"
abbreviation (input) "OGS_GTP_MODIFY_BEARER_COMMAND_TYPE \<equiv> (64::u8)"
abbreviation (input) "OGS_GTP_MODIFY_BEARER_FAILURE_INDICATION_TYPE \<equiv> (65::u8)"
abbreviation (input) "OGS_GTP_DELETE_BEARER_COMMAND_TYPE \<equiv> (66::u8)"
abbreviation (input) "OGS_GTP_DELETE_BEARER_FAILURE_INDICATION_TYPE \<equiv> (67::u8)"
abbreviation (input) "OGS_GTP_BEARER_RESOURCE_COMMAND_TYPE \<equiv> (68::u8)"
abbreviation (input) "OGS_GTP_BEARER_RESOURCE_FAILURE_INDICATION_TYPE \<equiv> (69::u8)"
abbreviation (input) "OGS_GTP_CREATE_BEARER_REQUEST_TYPE \<equiv> (95::u8)"
abbreviation (input) "OGS_GTP_CREATE_BEARER_RESPONSE_TYPE \<equiv> (96::u8)"
abbreviation (input) "OGS_GTP_UPDATE_BEARER_REQUEST_TYPE \<equiv> (97::u8)"
abbreviation (input) "OGS_GTP_UPDATE_BEARER_RESPONSE_TYPE \<equiv> (98::u8)"
abbreviation (input) "OGS_GTP_DELETE_BEARER_REQUEST_TYPE \<equiv> (99::u8)"
abbreviation (input) "OGS_GTP_DELETE_BEARER_RESPONSE_TYPE \<equiv> (100::u8)"
abbreviation (input) "OGS_GTP_CREATE_INDIRECT_DATA_FORWARDING_TUNNEL_REQUEST_TYPE \<equiv> (166::u8)"
abbreviation (input) "OGS_GTP_CREATE_INDIRECT_DATA_FORWARDING_TUNNEL_RESPONSE_TYPE \<equiv> (167::u8)"
abbreviation (input) "OGS_GTP_DELETE_INDIRECT_DATA_FORWARDING_TUNNEL_REQUEST_TYPE \<equiv> (168::u8)"
abbreviation (input) "OGS_GTP_DELETE_INDIRECT_DATA_FORWARDING_TUNNEL_RESPONSE_TYPE \<equiv> (169::u8)"
abbreviation (input) "OGS_GTP_RELEASE_ACCESS_BEARERS_REQUEST_TYPE \<equiv> (170::u8)"
abbreviation (input) "OGS_GTP_RELEASE_ACCESS_BEARERS_RESPONSE_TYPE \<equiv> (171::u8)"
abbreviation (input) "OGS_GTP_DOWNLINK_DATA_NOTIFICATION_TYPE \<equiv> (176::u8)"
abbreviation (input) "OGS_GTP_DOWNLINK_DATA_NOTIFICATION_ACKNOWLEDGE_TYPE \<equiv> (177::u8)"

subsection \<open>Transactions, nodes and the state\<close>

definition GTP_MIN_XACT_ID :: u32 where "GTP_MIN_XACT_ID = 1"
definition GTP_MAX_XACT_ID :: u32 where "GTP_MAX_XACT_ID = 0x800000"

text \<open>Durations are in seconds.\<close>

definition GTP_T3_RESPONSE_DURATION :: nat where "GTP_T3_RESPONSE_DURATION = 3"
definition GTP_T3_RESPONSE_RETRY_COUNT :: u8 where "GTP_T3_RESPONSE_RETRY_COUNT = 3"
definition GTP_T3_DUPLICATED_DURATION :: nat where
  "GTP_T3_DUPLICATED_DURATION = GTP_T3_RESPONSE_DURATION * unat GTP_T3_RESPONSE_RETRY_COUNT"
definition GTP_T3_DUPLICATED_RETRY_COUNT :: u8 where "GTP_T3_DUPLICATED_RETRY_COUNT = 1"

datatype stage =
    GTP_XACT_UNKNOWN_STAGE
  | GTP_XACT_INITIAL_STAGE
  | GTP_XACT_INTERMEDIATE_STAGE
  | GTP_XACT_FINAL_STAGE

datatype originator = OGS_GTP_LOCAL_ORIGINATOR | OGS_GTP_REMOTE_ORIGINATOR

text \<open>A timer is armed for a duration or stopped; a field of timer pointer type may be null.\<close>

type_synonym timer = "nat option"

datatype timer_kind = Response_Timer | Holding_Timer

record 'b gtp_xact =
  x_org :: originator
  x_xid :: u32
  x_gnode :: index
  x_step :: nat
  x_seq :: "(u8 \<times> 'b packet option) list"
  tm_response :: "timer option"
  response_rcount :: u8
  tm_holding :: "timer option"
  holding_rcount :: u8
  assoc_xact :: "index option"

record gtp_node =
  gn_addr :: "ogs_sockaddr list"
  gn_sock :: "index option"
  gn_ip :: ogs_ip
  gn_conn :: "ogs_sockaddr option"
  local_list :: "index list"
  remote_list :: "index list"

text \<open>
  The state: the two pools as the maps of their live objects, the last transaction identifier, the
  datagrams handed to the network so far, oldest first, each with the node it went to, and the
  sockets that were destroyed, in order.
\<close>

record 'b gtp_state =
  gnodes :: "index \<rightharpoonup> gtp_node"
  xacts :: "index \<rightharpoonup> 'b gtp_xact"
  g_xact_id :: u32
  sent :: "(index \<times> 'b packet) list"
  destroyed :: "index list"

record 'b gtp_env =
  xact_alloc :: "(index \<rightharpoonup> 'b gtp_xact) \<Rightarrow> index option"
  node_alloc :: "(index \<rightharpoonup> gtp_node) \<Rightarrow> index option"
  next_id :: "u32 \<Rightarrow> u32 \<Rightarrow> u32 \<Rightarrow> u32"
  timer_add :: "timer_kind \<Rightarrow> index \<Rightarrow> timer option"
  list_add :: "index list \<Rightarrow> index \<Rightarrow> index list"
  list_remove :: "index list \<Rightarrow> index \<Rightarrow> index list"
  body_len :: "'b \<Rightarrow> nat"
  sendto_ok :: "gtp_node \<Rightarrow> 'b packet \<Rightarrow> bool"

definition gtp_env_ok :: "('b, 'z) gtp_env_scheme \<Rightarrow> bool" where
  "gtp_env_ok E \<longleftrightarrow>
     (\<forall>m i. xact_alloc E m = Some i \<longrightarrow> m i = None \<and> i \<noteq> 0)
   \<and> (\<forall>m i. node_alloc E m = Some i \<longrightarrow> m i = None \<and> i \<noteq> 0)
   \<and> (\<forall>i mn mx. next_id E i mn mx = (if i = mx then mn else i + 1))
   \<and> (\<forall>k i t. timer_add E k i = Some t \<longrightarrow> t = None)
   \<and> (\<forall>xs x. list_add E xs x = xs @ [x])
   \<and> (\<forall>xs x. list_remove E xs x = remove1 x xs)"

subsection \<open>Stages\<close>

definition ogs_gtp_xact_get_stage :: "u8 \<Rightarrow> u32 \<Rightarrow> stage" where
  "ogs_gtp_xact_get_stage type xid =
     (if type \<in> {OGS_GTP_CREATE_SESSION_REQUEST_TYPE,
                  OGS_GTP_MODIFY_BEARER_REQUEST_TYPE,
                  OGS_GTP_DELETE_SESSION_REQUEST_TYPE,
                  OGS_GTP_MODIFY_BEARER_COMMAND_TYPE,
                  OGS_GTP_DELETE_BEARER_COMMAND_TYPE,
                  OGS_GTP_BEARER_RESOURCE_COMMAND_TYPE,
                  OGS_GTP_RELEASE_ACCESS_BEARERS_REQUEST_TYPE,
                  OGS_GTP_CREATE_INDIRECT_DATA_FORWARDING_TUNNEL_REQUEST_TYPE,
                  OGS_GTP_DELETE_INDIRECT_DATA_FORWARDING_TUNNEL_REQUEST_TYPE,
                  OGS_GTP_DOWNLINK_DATA_NOTIFICATION_TYPE} then GTP_XACT_INITIAL_STAGE
      else if type \<in> {OGS_GTP_CREATE_BEARER_REQUEST_TYPE,
                       OGS_GTP_UPDATE_BEARER_REQUEST_TYPE,
                       OGS_GTP_DELETE_BEARER_REQUEST_TYPE} then
        (if xid AND GTP_MAX_XACT_ID \<noteq> 0 then GTP_XACT_INTERMEDIATE_STAGE
         else GTP_XACT_INITIAL_STAGE)
      else if type \<in> {OGS_GTP_CREATE_SESSION_RESPONSE_TYPE,
                       OGS_GTP_MODIFY_BEARER_RESPONSE_TYPE,
                       OGS_GTP_DELETE_SESSION_RESPONSE_TYPE,
                       OGS_GTP_MODIFY_BEARER_FAILURE_INDICATION_TYPE,
                       OGS_GTP_DELETE_BEARER_FAILURE_INDICATION_TYPE,
                       OGS_GTP_BEARER_RESOURCE_FAILURE_INDICATION_TYPE,
                       OGS_GTP_CREATE_BEARER_RESPONSE_TYPE,
                       OGS_GTP_UPDATE_BEARER_RESPONSE_TYPE,
                       OGS_GTP_DELETE_BEARER_RESPONSE_TYPE,
                       OGS_GTP_RELEASE_ACCESS_BEARERS_RESPONSE_TYPE,
                       OGS_GTP_CREATE_INDIRECT_DATA_FORWARDING_TUNNEL_RESPONSE_TYPE,
                       OGS_GTP_DELETE_INDIRECT_DATA_FORWARDING_TUNNEL_RESPONSE_TYPE,
                       OGS_GTP_DOWNLINK_DATA_NOTIFICATION_ACKNOWLEDGE_TYPE} then
        GTP_XACT_FINAL_STAGE
      else GTP_XACT_UNKNOWN_STAGE)"

subsection \<open>Operations\<close>

definition set_xact :: "index \<Rightarrow> 'b gtp_xact \<Rightarrow> ('b, 'z) gtp_state_scheme \<Rightarrow> ('b, 'z) gtp_state_scheme" where
  "set_xact x xa s = s\<lparr>xacts := (xacts s)(x \<mapsto> xa)\<rparr>"

definition set_node :: "index \<Rightarrow> gtp_node \<Rightarrow> ('b, 'z) gtp_state_scheme \<Rightarrow> ('b, 'z) gtp_state_scheme" where
  "set_node g n s = s\<lparr>gnodes := (gnodes s)(g \<mapsto> n)\<rparr>"

text \<open>The list of a node that holds the transactions of an originator.\<close>

definition org_list :: "originator \<Rightarrow> gtp_node \<Rightarrow> index list" where
  "org_list org n = (case org of OGS_GTP_LOCAL_ORIGINATOR \<Rightarrow> local_list n
     | OGS_GTP_REMOTE_ORIGINATOR \<Rightarrow> remote_list n)"

definition set_org_list :: "originator \<Rightarrow> index list \<Rightarrow> gtp_node \<Rightarrow> gtp_node" where
  "set_org_list org xs n = (case org of OGS_GTP_LOCAL_ORIGINATOR \<Rightarrow> n\<lparr>local_list := xs\<rparr>
     | OGS_GTP_REMOTE_ORIGINATOR \<Rightarrow> n\<lparr>remote_list := xs\<rparr>)"

text \<open>\<^verbatim>\<open>if (xact->tm) ogs_timer_start(xact->tm, d)\<close> and its like.\<close>

definition timer_start :: "nat \<Rightarrow> timer option \<Rightarrow> timer option" where
  "timer_start d tm = (case tm of None \<Rightarrow> None | Some _ \<Rightarrow> Some (Some d))"

definition timer_stop :: "timer option \<Rightarrow> timer option" where
  "timer_stop tm = (case tm of None \<Rightarrow> None | Some _ \<Rightarrow> Some None)"

text \<open>\<^verbatim>\<open>ogs_gtp_sendto\<close> of \<^verbatim>\<open>path.c\<close>; the result says whether the whole datagram was taken.\<close>

definition ogs_gtp_sendto ::
  "('b, 'e) gtp_env_scheme \<Rightarrow> index \<Rightarrow> 'b packet \<Rightarrow> ('b, 'z) gtp_state_scheme \<Rightarrow>
   (bool \<times> ('b, 'z) gtp_state_scheme) res" where
  "ogs_gtp_sendto E g pk s =
     ebind (ogs_assert (g \<noteq> 0)) (\<lambda>_.
     ebind (deref (gnodes s) g) (\<lambda>n.
     ebind (ogs_assert (gn_sock n \<noteq> None)) (\<lambda>_.
     Inr (sendto_ok E n pk, s\<lparr>sent := sent s @ [(g, pk)]\<rparr>))))"

definition new_xact :: "originator \<Rightarrow> u32 \<Rightarrow> index \<Rightarrow> timer \<Rightarrow> timer \<Rightarrow> 'b gtp_xact" where
  "new_xact org xid g t_response t_holding =
     \<lparr>x_org = org, x_xid = xid, x_gnode = g, x_step = 0, x_seq = replicate 3 (0, None),
      tm_response = Some t_response, response_rcount = GTP_T3_RESPONSE_RETRY_COUNT,
      tm_holding = Some t_holding, holding_rcount = GTP_T3_DUPLICATED_RETRY_COUNT,
      assoc_xact = None\<rparr>"

text \<open>The header that is pushed in front of the body, all of it overwritten.\<close>

definition tx_header :: "('b, 'e) gtp_env_scheme \<Rightarrow> u8 \<Rightarrow> u32 \<Rightarrow> u32 \<Rightarrow> 'b \<Rightarrow> gtp_header" where
  "tx_header E type teid xid body =
     \<lparr>h_flags = push_bit 5 2 OR push_bit 3 1, h_type = type,
      h_length = htons (of_nat (OGS_GTPV2C_HEADER_LEN + body_len E body - 4)),
      h_teid = htonl teid, h_sqn = OGS_GTP_XID_TO_SQN xid\<rparr>"

definition ogs_gtp_xact_update_tx ::
  "('b, 'e) gtp_env_scheme \<Rightarrow> index \<Rightarrow> u8 \<Rightarrow> u32 \<Rightarrow> 'b \<Rightarrow> ('b, 'z) gtp_state_scheme \<Rightarrow>
   ('b, 'z) gtp_state_scheme res" where
  "ogs_gtp_xact_update_tx E x type teid body s =
     ebind (ogs_assert (x \<noteq> 0)) (\<lambda>_.
     ebind (deref (xacts s) x) (\<lambda>xa.
     ebind (ogs_assert (x_gnode xa \<noteq> 0)) (\<lambda>_.
     ebind (case x_org xa of
         OGS_GTP_LOCAL_ORIGINATOR \<Rightarrow>
           (case ogs_gtp_xact_get_stage type (x_xid xa) of
              GTP_XACT_INITIAL_STAGE \<Rightarrow> ogs_assert (x_step xa = 0)
            | GTP_XACT_INTERMEDIATE_STAGE \<Rightarrow> Inl Assert_Failed
            | GTP_XACT_FINAL_STAGE \<Rightarrow> ogs_assert (x_step xa = 2)
            | GTP_XACT_UNKNOWN_STAGE \<Rightarrow> Inl Assert_Failed)
       | OGS_GTP_REMOTE_ORIGINATOR \<Rightarrow>
           (case ogs_gtp_xact_get_stage type (x_xid xa) of
              GTP_XACT_INITIAL_STAGE \<Rightarrow> Inl Assert_Failed
            | GTP_XACT_INTERMEDIATE_STAGE \<Rightarrow> ogs_assert (x_step xa = 1)
            | GTP_XACT_FINAL_STAGE \<Rightarrow> ogs_assert (x_step xa = 1)
            | GTP_XACT_UNKNOWN_STAGE \<Rightarrow> Inl Assert_Failed)) (\<lambda>_.
     let h = tx_header E type teid (x_xid xa) body in
     ebind (array_write (x_seq xa) (x_step xa) (h_type h, Some (GTPv2C h body))) (\<lambda>seq.
     Inr (set_xact x (xa\<lparr>x_seq := seq, x_step := x_step xa + 1\<rparr>) s))))))"

definition ogs_gtp_xact_local_create ::
  "('b, 'e) gtp_env_scheme \<Rightarrow> index \<Rightarrow> u8 \<Rightarrow> u32 \<Rightarrow> 'b \<Rightarrow> ('b, 'z) gtp_state_scheme \<Rightarrow>
   (index \<times> ('b, 'z) gtp_state_scheme) res" where
  "ogs_gtp_xact_local_create E g type teid body s =
     ebind (ogs_assert (g \<noteq> 0)) (\<lambda>_.
     ebind (non_null (xact_alloc E (xacts s))) (\<lambda>x.
     let xid = next_id E (g_xact_id s) GTP_MIN_XACT_ID GTP_MAX_XACT_ID; s = s\<lparr>g_xact_id := xid\<rparr> in
     ebind (non_null (timer_add E Response_Timer x)) (\<lambda>t_response.
     ebind (non_null (timer_add E Holding_Timer x)) (\<lambda>t_holding.
     ebind (deref (gnodes s) g) (\<lambda>n.
     let xa = new_xact OGS_GTP_LOCAL_ORIGINATOR xid g t_response t_holding;
         s = set_node g (n\<lparr>local_list := list_add E (local_list n) x\<rparr>) (set_xact x xa s) in
     ebind (ogs_gtp_xact_update_tx E x type teid body s) (\<lambda>s. Inr (x, s)))))))"

definition ogs_gtp_xact_remote_create ::
  "('b, 'e) gtp_env_scheme \<Rightarrow> index \<Rightarrow> u32 \<Rightarrow> ('b, 'z) gtp_state_scheme \<Rightarrow>
   (index \<times> ('b, 'z) gtp_state_scheme) res" where
  "ogs_gtp_xact_remote_create E g sqn s =
     ebind (ogs_assert (g \<noteq> 0)) (\<lambda>_.
     ebind (non_null (xact_alloc E (xacts s))) (\<lambda>x.
     ebind (non_null (timer_add E Response_Timer x)) (\<lambda>t_response.
     ebind (non_null (timer_add E Holding_Timer x)) (\<lambda>t_holding.
     ebind (deref (gnodes s) g) (\<lambda>n.
     let xa = new_xact OGS_GTP_REMOTE_ORIGINATOR (OGS_GTP_SQN_TO_XID sqn) g t_response t_holding in
     Inr (x, set_node g (n\<lparr>remote_list := list_add E (remote_list n) x\<rparr>) (set_xact x xa s)))))))"

datatype rv = OGS_OK | OGS_RETRY | OGS_ERROR

text \<open>
  A request that is in the history already: its answer is sent again if there is one, and the
  holding timer restarts. The two places of \<^verbatim>\<open>ogs_gtp_xact_update_rx\<close> that do so differ in the
  entry they look at.
\<close>

definition xact_duplicated ::
  "('b, 'e) gtp_env_scheme \<Rightarrow> index \<Rightarrow> 'b gtp_xact \<Rightarrow> nat \<Rightarrow> ('b, 'z) gtp_state_scheme \<Rightarrow>
   (rv \<times> ('b, 'z) gtp_state_scheme) res" where
  "xact_duplicated E x xa answer s =
     ebind (ogs_assert (x_step xa = answer \<or> x_step xa = answer + 1)) (\<lambda>_.
     ebind (array_read (x_seq xa) answer) (\<lambda>(_, pkbuf).
     case pkbuf of
       Some pk \<Rightarrow>
         (let s = set_xact x (xa\<lparr>tm_holding := timer_start GTP_T3_DUPLICATED_DURATION (tm_holding xa)\<rparr>) s in
          ebind (ogs_gtp_sendto E (x_gnode xa) pk s) (\<lambda>(rv, s).
          ebind (ogs_assert rv) (\<lambda>_. Inr (OGS_RETRY, s))))
     | None \<Rightarrow> Inr (OGS_RETRY, s)))"

text \<open>
  The common end of \<^verbatim>\<open>ogs_gtp_xact_update_rx\<close>: the response timer stops and the message type is
  recorded. The flag says whether the branch started the holding timer.
\<close>

definition xact_rx_done ::
  "index \<Rightarrow> 'b gtp_xact \<Rightarrow> u8 \<Rightarrow> bool \<Rightarrow> ('b, 'z) gtp_state_scheme \<Rightarrow>
   (rv \<times> ('b, 'z) gtp_state_scheme) res" where
  "xact_rx_done x xa type holding s =
     (let xa = (if holding
          then xa\<lparr>tm_holding := timer_start GTP_T3_DUPLICATED_DURATION (tm_holding xa)\<rparr> else xa);
          xa = xa\<lparr>tm_response := timer_stop (tm_response xa)\<rparr> in
      ebind (array_read (x_seq xa) (x_step xa)) (\<lambda>(_, pkbuf).
      ebind (array_write (x_seq xa) (x_step xa) (type, pkbuf)) (\<lambda>seq.
      Inr (OGS_OK, set_xact x (xa\<lparr>x_seq := seq, x_step := x_step xa + 1\<rparr>) s))))"

definition ogs_gtp_xact_update_rx ::
  "('b, 'e) gtp_env_scheme \<Rightarrow> index \<Rightarrow> u8 \<Rightarrow> ('b, 'z) gtp_state_scheme \<Rightarrow>
   (rv \<times> ('b, 'z) gtp_state_scheme) res" where
  "ogs_gtp_xact_update_rx E x type s =
     ebind (deref (xacts s) x) (\<lambda>xa.
     case x_org xa of
       OGS_GTP_LOCAL_ORIGINATOR \<Rightarrow>
         (case ogs_gtp_xact_get_stage type (x_xid xa) of
            GTP_XACT_INITIAL_STAGE \<Rightarrow> Inl Assert_Failed
          | GTP_XACT_INTERMEDIATE_STAGE \<Rightarrow>
              ebind (array_read (x_seq xa) 1) (\<lambda>(type1, _).
              if type1 = type then xact_duplicated E x xa 2 s
              else ebind (ogs_assert (x_step xa = 1)) (\<lambda>_. xact_rx_done x xa type True s))
          | GTP_XACT_FINAL_STAGE \<Rightarrow>
              ebind (ogs_assert (x_step xa = 1)) (\<lambda>_. xact_rx_done x xa type False s)
          | GTP_XACT_UNKNOWN_STAGE \<Rightarrow> Inl Assert_Failed)
     | OGS_GTP_REMOTE_ORIGINATOR \<Rightarrow>
         (case ogs_gtp_xact_get_stage type (x_xid xa) of
            GTP_XACT_INITIAL_STAGE \<Rightarrow>
              ebind (array_read (x_seq xa) 0) (\<lambda>(type0, _).
              if type0 = type then xact_duplicated E x xa 1 s
              else ebind (ogs_assert (x_step xa = 0)) (\<lambda>_. xact_rx_done x xa type True s))
          | GTP_XACT_INTERMEDIATE_STAGE \<Rightarrow> Inl Assert_Failed
          | GTP_XACT_FINAL_STAGE \<Rightarrow>
              ebind (ogs_assert (x_step xa = 2)) (\<lambda>_. xact_rx_done x xa type False s)
          | GTP_XACT_UNKNOWN_STAGE \<Rightarrow> Inl Assert_Failed))"

definition ogs_gtp_xact_associate ::
  "index \<Rightarrow> index \<Rightarrow> ('b, 'z) gtp_state_scheme \<Rightarrow> ('b, 'z) gtp_state_scheme res" where
  "ogs_gtp_xact_associate x1 x2 s =
     ebind (ogs_assert (x1 \<noteq> 0)) (\<lambda>_.
     ebind (ogs_assert (x2 \<noteq> 0)) (\<lambda>_.
     ebind (deref (xacts s) x1) (\<lambda>a1.
     ebind (ogs_assert (assoc_xact a1 = None)) (\<lambda>_.
     ebind (deref (xacts s) x2) (\<lambda>a2.
     ebind (ogs_assert (assoc_xact a2 = None)) (\<lambda>_.
     let s = set_xact x1 (a1\<lparr>assoc_xact := Some x2\<rparr>) s in
     ebind (deref (xacts s) x2) (\<lambda>a2.
     Inr (set_xact x2 (a2\<lparr>assoc_xact := Some x1\<rparr>) s))))))))"

definition ogs_gtp_xact_deassociate ::
  "index \<Rightarrow> index \<Rightarrow> ('b, 'z) gtp_state_scheme \<Rightarrow> ('b, 'z) gtp_state_scheme res" where
  "ogs_gtp_xact_deassociate x1 x2 s =
     ebind (ogs_assert (x1 \<noteq> 0)) (\<lambda>_.
     ebind (ogs_assert (x2 \<noteq> 0)) (\<lambda>_.
     ebind (deref (xacts s) x1) (\<lambda>a1.
     ebind (ogs_assert (assoc_xact a1 \<noteq> None)) (\<lambda>_.
     ebind (deref (xacts s) x2) (\<lambda>a2.
     ebind (ogs_assert (assoc_xact a2 \<noteq> None)) (\<lambda>_.
     let s = set_xact x1 (a1\<lparr>assoc_xact := None\<rparr>) s in
     ebind (deref (xacts s) x2) (\<lambda>a2.
     Inr (set_xact x2 (a2\<lparr>assoc_xact := None\<rparr>) s))))))))"

definition ogs_gtp_xact_delete ::
  "('b, 'e) gtp_env_scheme \<Rightarrow> index \<Rightarrow> ('b, 'z) gtp_state_scheme \<Rightarrow> ('b, 'z) gtp_state_scheme res" where
  "ogs_gtp_xact_delete E x s =
     ebind (ogs_assert (x \<noteq> 0)) (\<lambda>_.
     ebind (deref (xacts s) x) (\<lambda>xa.
     ebind (ogs_assert (x_gnode xa \<noteq> 0)) (\<lambda>_.
     ebind (case assoc_xact xa of None \<Rightarrow> Inr s | Some y \<Rightarrow> ogs_gtp_xact_deassociate x y s) (\<lambda>s.
     ebind (deref (gnodes s) (x_gnode xa)) (\<lambda>n.
     let s = set_node (x_gnode xa)
           (set_org_list (x_org xa) (list_remove E (org_list (x_org xa) n) x) n) s in
     Inr (s\<lparr>xacts := (xacts s)(x := None)\<rparr>))))))"

fun xact_delete_each ::
  "('b, 'e) gtp_env_scheme \<Rightarrow> index list \<Rightarrow> ('b, 'z) gtp_state_scheme \<Rightarrow> ('b, 'z) gtp_state_scheme res" where
  "xact_delete_each E [] s = Inr s"
| "xact_delete_each E (x # xs) s = ebind (ogs_gtp_xact_delete E x s) (xact_delete_each E xs)"

definition ogs_gtp_xact_delete_all ::
  "('b, 'e) gtp_env_scheme \<Rightarrow> index \<Rightarrow> ('b, 'z) gtp_state_scheme \<Rightarrow> ('b, 'z) gtp_state_scheme res" where
  "ogs_gtp_xact_delete_all E g s =
     ebind (deref (gnodes s) g) (\<lambda>n.
     ebind (xact_delete_each E (local_list n) s) (\<lambda>s.
     ebind (deref (gnodes s) g) (\<lambda>n. xact_delete_each E (remote_list n) s)))"

text \<open>\<^verbatim>\<open>xact->seq[xact->step-1]\<close>, out of bounds at step 0.\<close>

definition seq_last :: "'b gtp_xact \<Rightarrow> (u8 \<times> 'b packet option) res" where
  "seq_last xa = (if x_step xa = 0 then Inl Out_Of_Bounds else array_read (x_seq xa) (x_step xa - 1))"

text \<open>The end of \<^verbatim>\<open>ogs_gtp_xact_commit\<close>: the packet of the last step is sent.\<close>

definition xact_send_last ::
  "('b, 'e) gtp_env_scheme \<Rightarrow> 'b gtp_xact \<Rightarrow> ('b, 'z) gtp_state_scheme \<Rightarrow> ('b, 'z) gtp_state_scheme res" where
  "xact_send_last E xa s =
     ebind (seq_last xa) (\<lambda>(_, pkbuf).
     ebind (non_null pkbuf) (\<lambda>pk.
     ebind (ogs_gtp_sendto E (x_gnode xa) pk s) (\<lambda>(rv, s).
     ebind (ogs_assert rv) (\<lambda>_. Inr s))))"

definition ogs_gtp_xact_commit ::
  "('b, 'e) gtp_env_scheme \<Rightarrow> index \<Rightarrow> ('b, 'z) gtp_state_scheme \<Rightarrow> ('b, 'z) gtp_state_scheme res" where
  "ogs_gtp_xact_commit E x s =
     ebind (ogs_assert (x \<noteq> 0)) (\<lambda>_.
     ebind (deref (xacts s) x) (\<lambda>xa.
     ebind (ogs_assert (x_gnode xa \<noteq> 0)) (\<lambda>_.
     ebind (seq_last xa) (\<lambda>(type, _).
     let stage = ogs_gtp_xact_get_stage type (x_xid xa);
         armed = xa\<lparr>tm_response := timer_start GTP_T3_RESPONSE_DURATION (tm_response xa)\<rparr> in
     case x_org xa of
       OGS_GTP_LOCAL_ORIGINATOR \<Rightarrow>
         (case stage of
            GTP_XACT_INITIAL_STAGE \<Rightarrow>
              ebind (ogs_assert (x_step xa = 1)) (\<lambda>_.
              xact_send_last E armed (set_xact x armed s))
          | GTP_XACT_INTERMEDIATE_STAGE \<Rightarrow> Inl Assert_Failed
          | GTP_XACT_FINAL_STAGE \<Rightarrow>
              ebind (ogs_assert (x_step xa = 2 \<or> x_step xa = 3)) (\<lambda>_.
              if x_step xa = 2 then ogs_gtp_xact_delete E x s else xact_send_last E xa s)
          | GTP_XACT_UNKNOWN_STAGE \<Rightarrow> Inl Assert_Failed)
     | OGS_GTP_REMOTE_ORIGINATOR \<Rightarrow>
         (case stage of
            GTP_XACT_INITIAL_STAGE \<Rightarrow> Inl Assert_Failed
          | GTP_XACT_INTERMEDIATE_STAGE \<Rightarrow>
              ebind (ogs_assert (x_step xa = 2)) (\<lambda>_.
              xact_send_last E armed (set_xact x armed s))
          | GTP_XACT_FINAL_STAGE \<Rightarrow>
              ebind (ogs_assert (x_step xa = 2 \<or> x_step xa = 3)) (\<lambda>_.
              if x_step xa = 3 then ogs_gtp_xact_delete E x s else xact_send_last E xa s)
          | GTP_XACT_UNKNOWN_STAGE \<Rightarrow> Inl Assert_Failed)))))"

definition response_timeout ::
  "('b, 'e) gtp_env_scheme \<Rightarrow> index \<Rightarrow> ('b, 'z) gtp_state_scheme \<Rightarrow> ('b, 'z) gtp_state_scheme res" where
  "response_timeout E x s =
     ebind (ogs_assert (x \<noteq> 0)) (\<lambda>_.
     ebind (deref (xacts s) x) (\<lambda>xa.
     ebind (ogs_assert (x_gnode xa \<noteq> 0)) (\<lambda>_.
     let xa = xa\<lparr>response_rcount := response_rcount xa - 1\<rparr>; s = set_xact x xa s in
     if response_rcount xa > 0 then
       let xa = xa\<lparr>tm_response := timer_start GTP_T3_RESPONSE_DURATION (tm_response xa)\<rparr>;
           s = set_xact x xa s in
       ebind (seq_last xa) (\<lambda>(_, pkbuf).
       ebind (non_null pkbuf) (\<lambda>pk.
       ebind (ogs_gtp_sendto E (x_gnode xa) pk s) (\<lambda>(rv, s).
       if rv then Inr s else ogs_gtp_xact_delete E x s)))
     else ogs_gtp_xact_delete E x s)))"

definition holding_timeout ::
  "('b, 'e) gtp_env_scheme \<Rightarrow> index \<Rightarrow> ('b, 'z) gtp_state_scheme \<Rightarrow> ('b, 'z) gtp_state_scheme res" where
  "holding_timeout E x s =
     ebind (ogs_assert (x \<noteq> 0)) (\<lambda>_.
     ebind (deref (xacts s) x) (\<lambda>xa.
     ebind (ogs_assert (x_gnode xa \<noteq> 0)) (\<lambda>_.
     let xa = xa\<lparr>holding_rcount := holding_rcount xa - 1\<rparr>; s = set_xact x xa s in
     if holding_rcount xa > 0 then
       Inr (set_xact x (xa\<lparr>tm_holding := timer_start GTP_T3_DUPLICATED_DURATION (tm_holding xa)\<rparr>) s)
     else ogs_gtp_xact_delete E x s)))"

definition ogs_gtp_xact_find_by_xid ::
  "index \<Rightarrow> u8 \<Rightarrow> u32 \<Rightarrow> ('b, 'z) gtp_state_scheme \<Rightarrow> index option res" where
  "ogs_gtp_xact_find_by_xid g type xid s =
     ebind (ogs_assert (g \<noteq> 0)) (\<lambda>_.
     ebind (deref (gnodes s) g) (\<lambda>n.
     ebind (case ogs_gtp_xact_get_stage type xid of
         GTP_XACT_INITIAL_STAGE \<Rightarrow> Inr (remote_list n)
       | GTP_XACT_INTERMEDIATE_STAGE \<Rightarrow> Inr (local_list n)
       | GTP_XACT_FINAL_STAGE \<Rightarrow>
           Inr (if xid AND GTP_MAX_XACT_ID \<noteq> 0 then remote_list n else local_list n)
       | GTP_XACT_UNKNOWN_STAGE \<Rightarrow> Inl Assert_Failed) (\<lambda>list.
     list_find (xacts s) (\<lambda>xa. x_xid xa = xid) list)))"

definition ogs_gtp_xact_receive ::
  "('b, 'e) gtp_env_scheme \<Rightarrow> index \<Rightarrow> u8 \<Rightarrow> u32 \<Rightarrow> ('b, 'z) gtp_state_scheme \<Rightarrow>
   (rv \<times> index \<times> ('b, 'z) gtp_state_scheme) res" where
  "ogs_gtp_xact_receive E g type sqn s =
     ebind (ogs_assert (g \<noteq> 0)) (\<lambda>_.
     ebind (ogs_gtp_xact_find_by_xid g type (OGS_GTP_SQN_TO_XID sqn) s) (\<lambda>found.
     ebind (case found of Some x \<Rightarrow> Inr (x, s) | None \<Rightarrow> ogs_gtp_xact_remote_create E g sqn s) (\<lambda>(x, s).
     ebind (ogs_assert (x \<noteq> 0)) (\<lambda>_.
     ebind (ogs_gtp_xact_update_rx E x type s) (\<lambda>(rv, s).
     Inr (rv, x, s))))))"

definition ogs_gtp_xact_find :: "index \<Rightarrow> ('b, 'z) gtp_state_scheme \<Rightarrow> index option res" where
  "ogs_gtp_xact_find i s =
     ebind (ogs_assert (i \<noteq> 0)) (\<lambda>_. Inr (if xacts s i = None then None else Some i))"

subsection \<open>The timers of the event loop\<close>

text \<open>
  The timer manager runs the callback of a timer that was armed and has expired; the timer is then
  stopped, unless the callback starts it again.
\<close>

definition fire_response ::
  "('b, 'e) gtp_env_scheme \<Rightarrow> index \<Rightarrow> ('b, 'z) gtp_state_scheme \<Rightarrow> ('b, 'z) gtp_state_scheme res" where
  "fire_response E x s =
     (case xacts s x of
        Some xa \<Rightarrow>
          (case tm_response xa of
             Some (Some _) \<Rightarrow> response_timeout E x (set_xact x (xa\<lparr>tm_response := Some None\<rparr>) s)
           | _ \<Rightarrow> Inr s)
      | None \<Rightarrow> Inr s)"

definition fire_holding ::
  "('b, 'e) gtp_env_scheme \<Rightarrow> index \<Rightarrow> ('b, 'z) gtp_state_scheme \<Rightarrow> ('b, 'z) gtp_state_scheme res" where
  "fire_holding E x s =
     (case xacts s x of
        Some xa \<Rightarrow>
          (case tm_holding xa of
             Some (Some _) \<Rightarrow> holding_timeout E x (set_xact x (xa\<lparr>tm_holding := Some None\<rparr>) s)
           | _ \<Rightarrow> Inr s)
      | None \<Rightarrow> Inr s)"

end
