(* ===== verification/Gtp_Xact_Inv.thy ===== *)
theory Gtp_Xact_Inv
  imports Gtp_Xact
begin

text \<open>
  The invariant of the transaction layer and its preservation by every operation: the node lists
  and the pool agree, associations are symmetric, the message history fits the step, the response
  timer runs only while an answer is due. Together with it, memory safety: no operation reads a
  freed transaction or leaves the history array.
\<close>

subsection \<open>The invariant\<close>

definition xact_wf :: "'b gtp_xact \<Rightarrow> bool" where
  "xact_wf xa \<longleftrightarrow>
     length (x_seq xa) = 3 \<and> 1 \<le> x_step xa \<and> x_step xa \<le> 3 \<and> x_gnode xa \<noteq> 0
   \<and> tm_response xa \<noteq> None \<and> tm_holding xa \<noteq> None
   \<and> 0 < response_rcount xa \<and> response_rcount xa \<le> GTP_T3_RESPONSE_RETRY_COUNT
   \<and> holding_rcount xa = GTP_T3_DUPLICATED_RETRY_COUNT
   \<and> (x_org xa = OGS_GTP_LOCAL_ORIGINATOR \<longrightarrow> snd (x_seq xa ! 0) \<noteq> None
        \<and> snd (x_seq xa ! 1) = None \<and> (x_step xa = 3 \<longleftrightarrow> snd (x_seq xa ! 2) \<noteq> None))
   \<and> (x_org xa = OGS_GTP_REMOTE_ORIGINATOR \<longrightarrow> snd (x_seq xa ! 0) = None
        \<and> snd (x_seq xa ! 2) = None \<and> (2 \<le> x_step xa \<longleftrightarrow> snd (x_seq xa ! 1) \<noteq> None))
   \<and> (\<forall>d. tm_response xa = Some (Some d) \<longrightarrow>
        (if x_org xa = OGS_GTP_LOCAL_ORIGINATOR then x_step xa = 1 else x_step xa = 2))"

definition xact_inv :: "(index \<rightharpoonup> gtp_node) \<Rightarrow> (index \<rightharpoonup> 'b gtp_xact) \<Rightarrow> bool" where
  "xact_inv ns xs \<longleftrightarrow>
     (\<forall>x xa. xs x = Some xa \<longrightarrow> x \<noteq> 0 \<and> xact_wf xa
        \<and> (\<exists>n. ns (x_gnode xa) = Some n \<and> x \<in> set (org_list (x_org xa) n)))
   \<and> (\<forall>g n org. ns g = Some n \<longrightarrow> g \<noteq> 0 \<and> distinct (org_list org n)
        \<and> (\<forall>x \<in> set (org_list org n). \<exists>xa. xs x = Some xa \<and> x_gnode xa = g \<and> x_org xa = org))
   \<and> (\<forall>x xa y. xs x = Some xa \<and> assoc_xact xa = Some y \<longrightarrow>
        y \<noteq> x \<and> (\<exists>ya. xs y = Some ya \<and> assoc_xact ya = Some x))
   \<and> (\<forall>x xa y ya. xs x = Some xa \<and> xs y = Some ya \<and> x_xid xa = x_xid ya \<and> x_gnode xa = x_gnode ya
        \<and> x_org xa = OGS_GTP_REMOTE_ORIGINATOR \<and> x_org ya = OGS_GTP_REMOTE_ORIGINATOR \<longrightarrow> x = y)"

definition gtp_inv :: "('b, 'z) gtp_state_scheme \<Rightarrow> bool" where
  "gtp_inv s \<longleftrightarrow> xact_inv (gnodes s) (xacts s)"

subsection \<open>The environment\<close>

lemma env_xact_alloc: "gtp_env_ok E \<Longrightarrow> xact_alloc E m = Some i \<Longrightarrow> m i = None \<and> i \<noteq> 0"
  and env_node_alloc: "gtp_env_ok E \<Longrightarrow> node_alloc E n = Some i \<Longrightarrow> n i = None \<and> i \<noteq> 0"
  and env_next_id: "gtp_env_ok E \<Longrightarrow> next_id E j mn mx = (if j = mx then mn else j + 1)"
  and env_timer_add: "gtp_env_ok E \<Longrightarrow> timer_add E k i = Some t \<Longrightarrow> t = None"
  and env_list_add: "gtp_env_ok E \<Longrightarrow> list_add E ls x = ls @ [x]"
  and env_list_remove: "gtp_env_ok E \<Longrightarrow> list_remove E ls x = remove1 x ls"
  by (simp_all add: gtp_env_ok_def)

subsection \<open>Updates of the state\<close>

lemma org_list_set [simp]:
  "org_list org (set_org_list org' xs n) = (if org = org' then xs else org_list org n)"
  by (cases org; cases org') (simp_all add: org_list_def set_org_list_def)

lemma set_org_list_other [simp]:
  "gn_sock (set_org_list org xs n) = gn_sock n" "gn_ip (set_org_list org xs n) = gn_ip n"
  by (cases org; simp add: set_org_list_def)+

lemma local_list_update: "n\<lparr>local_list := xs\<rparr> = set_org_list OGS_GTP_LOCAL_ORIGINATOR xs n"
  and remote_list_update: "n\<lparr>remote_list := xs\<rparr> = set_org_list OGS_GTP_REMOTE_ORIGINATOR xs n"
  and local_list_org: "local_list n = org_list OGS_GTP_LOCAL_ORIGINATOR n"
  and remote_list_org: "remote_list n = org_list OGS_GTP_REMOTE_ORIGINATOR n"
  by (simp_all add: set_org_list_def org_list_def)

lemma set_xact_sel [simp]:
  "xacts (set_xact x xa s) = (xacts s)(x \<mapsto> xa)" "gnodes (set_xact x xa s) = gnodes s"
  "g_xact_id (set_xact x xa s) = g_xact_id s" "sent (set_xact x xa s) = sent s"
  by (simp_all add: set_xact_def)

lemma set_node_sel [simp]:
  "gnodes (set_node g n s) = (gnodes s)(g \<mapsto> n)" "xacts (set_node g n s) = xacts s"
  "g_xact_id (set_node g n s) = g_xact_id s" "sent (set_node g n s) = sent s"
  by (simp_all add: set_node_def)

lemma xact_inv_wf: "xact_inv ns xs \<Longrightarrow> xs x = Some xa \<Longrightarrow> x \<noteq> 0 \<and> xact_wf xa"
  unfolding xact_inv_def by blast

lemma xact_inv_node:
  "xact_inv ns xs \<Longrightarrow> xs x = Some xa \<Longrightarrow>
     \<exists>n. ns (x_gnode xa) = Some n \<and> x \<in> set (org_list (x_org xa) n)"
  unfolding xact_inv_def by blast

lemma xact_inv_list:
  "xact_inv ns xs \<Longrightarrow> ns g = Some n \<Longrightarrow> x \<in> set (org_list org n) \<Longrightarrow>
     \<exists>xa. xs x = Some xa \<and> x_gnode xa = g \<and> x_org xa = org"
  unfolding xact_inv_def by blast

lemma xact_inv_distinct: "xact_inv ns xs \<Longrightarrow> ns g = Some n \<Longrightarrow> g \<noteq> 0 \<and> distinct (org_list org n)"
  unfolding xact_inv_def by blast

lemma xact_inv_assoc:
  "xact_inv ns xs \<Longrightarrow> xs x = Some xa \<Longrightarrow> assoc_xact xa = Some y \<Longrightarrow>
     y \<noteq> x \<and> (\<exists>ya. xs y = Some ya \<and> assoc_xact ya = Some x)"
  unfolding xact_inv_def by blast

lemma xact_inv_unique:
  "xact_inv ns xs \<Longrightarrow> xs x = Some xa \<Longrightarrow> xs y = Some ya \<Longrightarrow> x_xid xa = x_xid ya \<Longrightarrow> x_gnode xa = x_gnode ya \<Longrightarrow>
     x_org xa = OGS_GTP_REMOTE_ORIGINATOR \<Longrightarrow> x_org ya = OGS_GTP_REMOTE_ORIGINATOR \<Longrightarrow> x = y"
  unfolding xact_inv_def by blast

text \<open>A transaction that stays in its list with its partner may change in any other way.\<close>

lemma xact_inv_update:
  assumes inv: "xact_inv ns xs" and xa: "xs x = Some xa" and wf: "xact_wf xa'"
    and eq: "x_gnode xa' = x_gnode xa" "x_org xa' = x_org xa" "assoc_xact xa' = assoc_xact xa" "x_xid xa' = x_xid xa"
  shows "xact_inv ns (xs(x \<mapsto> xa'))"
  unfolding xact_inv_def
proof (intro conjI allI impI)
  fix y ya assume "(xs(x \<mapsto> xa')) y = Some ya"
  then show "y \<noteq> 0" "xact_wf ya" "\<exists>n. ns (x_gnode ya) = Some n \<and> y \<in> set (org_list (x_org ya) n)"
    using xact_inv_wf [OF inv] xact_inv_node [OF inv] xa wf eq by (auto split: if_splits)
next
  fix g n org assume n: "ns g = Some n"
  then show "g \<noteq> 0" "distinct (org_list org n)" using xact_inv_distinct [OF inv] by auto
  show "\<forall>y \<in> set (org_list org n). \<exists>ya. (xs(x \<mapsto> xa')) y = Some ya \<and> x_gnode ya = g \<and> x_org ya = org"
    using xact_inv_list [OF inv n] xa eq by fastforce
next
  fix y ya z assume "(xs(x \<mapsto> xa')) y = Some ya \<and> assoc_xact ya = Some z"
  then show "z \<noteq> y" "\<exists>za. (xs(x \<mapsto> xa')) z = Some za \<and> assoc_xact za = Some y"
    using xact_inv_assoc [OF inv, of y _ z] xa eq by (auto split: if_splits)
next
  fix y ya z za
  assume "(xs(x \<mapsto> xa')) y = Some ya \<and> (xs(x \<mapsto> xa')) z = Some za \<and> x_xid ya = x_xid za \<and> x_gnode ya = x_gnode za
    \<and> x_org ya = OGS_GTP_REMOTE_ORIGINATOR \<and> x_org za = OGS_GTP_REMOTE_ORIGINATOR"
  moreover have "\<exists>ub. xs u = Some ub \<and> x_xid ub = x_xid ua \<and> x_gnode ub = x_gnode ua \<and> x_org ub = x_org ua"
    if "(xs(x \<mapsto> xa')) u = Some ua" for u ua
    using that xa eq by (auto split: if_splits)
  ultimately show "y = z" using xact_inv_unique [OF inv] by metis
qed

lemma xact_inv_insert:
  assumes inv: "xact_inv ns xs" and fresh: "xs x = None" "x \<noteq> 0" and n: "ns g = Some n"
    and wf: "xact_wf xa" and xa: "x_gnode xa = g" "assoc_xact xa = None"
    and new: "x_org xa = OGS_GTP_REMOTE_ORIGINATOR \<Longrightarrow> \<forall>y \<in> set (remote_list n). x_xid (the (xs y)) \<noteq> x_xid xa"
  shows "xact_inv (ns(g \<mapsto> set_org_list (x_org xa) (org_list (x_org xa) n @ [x]) n)) (xs(x \<mapsto> xa))"
proof -
  have notin: "x \<notin> set (org_list org m)" if "ns h = Some m" for h m org
    using xact_inv_list [OF inv that] fresh(1) by fastforce
  show ?thesis
    unfolding xact_inv_def
  proof (intro conjI allI impI)
    fix y ya assume ya: "(xs(x \<mapsto> xa)) y = Some ya"
    then show "y \<noteq> 0" "xact_wf ya"
      using xact_inv_wf [OF inv] fresh(2) wf by (auto split: if_splits)
    show "\<exists>m. (ns(g \<mapsto> set_org_list (x_org xa) (org_list (x_org xa) n @ [x]) n)) (x_gnode ya) = Some m
        \<and> y \<in> set (org_list (x_org ya) m)"
      using ya xact_inv_node [OF inv] xa(1) n by (fastforce split: if_splits)
  next
    fix h m org assume m: "(ns(g \<mapsto> set_org_list (x_org xa) (org_list (x_org xa) n @ [x]) n)) h = Some m"
    then show "h \<noteq> 0" "distinct (org_list org m)"
      using xact_inv_distinct [OF inv] notin n by (auto split: if_splits)
    show "\<forall>y \<in> set (org_list org m). \<exists>ya. (xs(x \<mapsto> xa)) y = Some ya \<and> x_gnode ya = h \<and> x_org ya = org"
      using m xact_inv_list [OF inv] n xa(1) notin by (auto split: if_splits)
  next
    fix y ya z assume "(xs(x \<mapsto> xa)) y = Some ya \<and> assoc_xact ya = Some z"
    then have "y \<noteq> x" "xs y = Some ya" "assoc_xact ya = Some z"
      using xa(2) by (auto split: if_splits)
    then show "z \<noteq> y" "\<exists>za. (xs(x \<mapsto> xa)) z = Some za \<and> assoc_xact za = Some y"
      using xact_inv_assoc [OF inv] fresh(1) by fastforce+
  next
    fix y ya z za
    assume yz: "(xs(x \<mapsto> xa)) y = Some ya \<and> (xs(x \<mapsto> xa)) z = Some za \<and> x_xid ya = x_xid za \<and> x_gnode ya = x_gnode za
      \<and> x_org ya = OGS_GTP_REMOTE_ORIGINATOR \<and> x_org za = OGS_GTP_REMOTE_ORIGINATOR"
    have "x_xid ua \<noteq> x_xid xa" if "xs u = Some ua" "x_gnode ua = g" "x_org ua = OGS_GTP_REMOTE_ORIGINATOR"
        "x_org xa = OGS_GTP_REMOTE_ORIGINATOR" for u ua
      using xact_inv_node [OF inv that(1)] that n new by (auto simp: remote_list_org)
    then show "y = z"
      using yz xact_inv_unique [OF inv, of y ya z za] xa(1) by (auto split: if_splits)
  qed
qed

text \<open>What the pool and the lists say of a transaction does not depend on its association.\<close>

lemma xact_wf_assoc [simp]: "xact_wf (xa\<lparr>assoc_xact := a\<rparr>) = xact_wf xa"
  by (simp add: xact_wf_def)

lemma xact_inv_pair:
  assumes inv: "xact_inv ns xs" and x: "xs x = Some xa" and y: "xs y = Some ya" and "x \<noteq> y"
    and assoc: "\<And>z za w. (xs(x \<mapsto> xa\<lparr>assoc_xact := a\<rparr>, y \<mapsto> ya\<lparr>assoc_xact := b\<rparr>)) z = Some za \<Longrightarrow>
      assoc_xact za = Some w \<Longrightarrow> w \<noteq> z
      \<and> (\<exists>wa. (xs(x \<mapsto> xa\<lparr>assoc_xact := a\<rparr>, y \<mapsto> ya\<lparr>assoc_xact := b\<rparr>)) w = Some wa \<and> assoc_xact wa = Some z)"
  shows "xact_inv ns (xs(x \<mapsto> xa\<lparr>assoc_xact := a\<rparr>, y \<mapsto> ya\<lparr>assoc_xact := b\<rparr>))"
  unfolding xact_inv_def
proof (intro conjI allI impI)
  fix z za assume "(xs(x \<mapsto> xa\<lparr>assoc_xact := a\<rparr>, y \<mapsto> ya\<lparr>assoc_xact := b\<rparr>)) z = Some za"
  then obtain a' where za: "xs z = Some a' \<and> xact_wf za = xact_wf a' \<and> x_gnode za = x_gnode a' \<and> x_org za = x_org a'"
    using x y by (auto split: if_splits)
  then show "z \<noteq> 0" "xact_wf za" "\<exists>n. ns (x_gnode za) = Some n \<and> z \<in> set (org_list (x_org za) n)"
    using xact_inv_wf [OF inv, of z a'] xact_inv_node [OF inv, of z a'] by auto
next
  fix h m org assume m: "ns h = Some m"
  then show "h \<noteq> 0" "distinct (org_list org m)"
    using xact_inv_distinct [OF inv] by auto
  show "\<forall>z \<in> set (org_list org m). \<exists>za. (xs(x \<mapsto> xa\<lparr>assoc_xact := a\<rparr>, y \<mapsto> ya\<lparr>assoc_xact := b\<rparr>)) z = Some za
      \<and> x_gnode za = h \<and> x_org za = org"
    using xact_inv_list [OF inv m] x y by fastforce
next
  fix z za w wa
  assume "(xs(x \<mapsto> xa\<lparr>assoc_xact := a\<rparr>, y \<mapsto> ya\<lparr>assoc_xact := b\<rparr>)) z = Some za
    \<and> (xs(x \<mapsto> xa\<lparr>assoc_xact := a\<rparr>, y \<mapsto> ya\<lparr>assoc_xact := b\<rparr>)) w = Some wa
    \<and> x_xid za = x_xid wa \<and> x_gnode za = x_gnode wa
    \<and> x_org za = OGS_GTP_REMOTE_ORIGINATOR \<and> x_org wa = OGS_GTP_REMOTE_ORIGINATOR"
  moreover have "\<exists>ub. xs u = Some ub \<and> x_xid ub = x_xid ua \<and> x_gnode ub = x_gnode ua \<and> x_org ub = x_org ua"
    if "(xs(x \<mapsto> xa\<lparr>assoc_xact := a\<rparr>, y \<mapsto> ya\<lparr>assoc_xact := b\<rparr>)) u = Some ua" for u ua
    using that x y by (auto split: if_splits)
  ultimately show "z = w" using xact_inv_unique [OF inv] by metis
qed (use assoc in blast)+

lemma xact_inv_link:
  assumes inv: "xact_inv ns xs" and x: "xs x = Some xa" "assoc_xact xa = None"
    and y: "xs y = Some ya" "assoc_xact ya = None" and neq: "x \<noteq> y"
  shows "xact_inv ns (xs(x \<mapsto> xa\<lparr>assoc_xact := Some y\<rparr>, y \<mapsto> ya\<lparr>assoc_xact := Some x\<rparr>))"
proof (rule xact_inv_pair [OF inv x(1) y(1) neq])
  fix z za w
  assume "(xs(x \<mapsto> xa\<lparr>assoc_xact := Some y\<rparr>, y \<mapsto> ya\<lparr>assoc_xact := Some x\<rparr>)) z = Some za"
    and "assoc_xact za = Some w"
  then show "w \<noteq> z \<and> (\<exists>wa. (xs(x \<mapsto> xa\<lparr>assoc_xact := Some y\<rparr>, y \<mapsto> ya\<lparr>assoc_xact := Some x\<rparr>)) w = Some wa
      \<and> assoc_xact wa = Some z)"
    using xact_inv_assoc [OF inv, of z za w] x y neq by (cases "z = x"; cases "z = y") auto
qed

lemma xact_inv_unlink:
  assumes inv: "xact_inv ns xs" and x: "xs x = Some xa" "assoc_xact xa = Some y"
    and y: "xs y = Some ya" "assoc_xact ya = Some x"
  shows "xact_inv ns (xs(x \<mapsto> xa\<lparr>assoc_xact := None\<rparr>, y \<mapsto> ya\<lparr>assoc_xact := None\<rparr>))"
proof -
  have neq: "x \<noteq> y" using xact_inv_assoc [OF inv x] by auto
  show ?thesis
  proof (rule xact_inv_pair [OF inv x(1) y(1) neq])
    fix z za w
    assume "(xs(x \<mapsto> xa\<lparr>assoc_xact := None\<rparr>, y \<mapsto> ya\<lparr>assoc_xact := None\<rparr>)) z = Some za"
      and "assoc_xact za = Some w"
    then show "w \<noteq> z \<and> (\<exists>wa. (xs(x \<mapsto> xa\<lparr>assoc_xact := None\<rparr>, y \<mapsto> ya\<lparr>assoc_xact := None\<rparr>)) w = Some wa
        \<and> assoc_xact wa = Some z)"
      using xact_inv_assoc [OF inv, of z za w] x y neq
      by (cases "z = x"; cases "z = y"; cases "w = x"; cases "w = y") auto
  qed
qed

lemma xact_inv_remove:
  assumes inv: "xact_inv ns xs" and x: "xs x = Some xa" "assoc_xact xa = None"
    and n: "ns (x_gnode xa) = Some n"
  shows "xact_inv (ns(x_gnode xa \<mapsto> set_org_list (x_org xa) (remove1 x (org_list (x_org xa) n)) n))
    (xs(x := None))"
  (is "xact_inv ?ns ?xs")
  unfolding xact_inv_def
proof (intro conjI allI impI)
  fix y ya assume ya: "?xs y = Some ya"
  then have y: "y \<noteq> x" "xs y = Some ya" by (auto split: if_splits)
  then show "y \<noteq> 0" "xact_wf ya" using xact_inv_wf [OF inv] by auto
  show "\<exists>m. ?ns (x_gnode ya) = Some m \<and> y \<in> set (org_list (x_org ya) m)"
    using xact_inv_node [OF inv y(2)] y(1) n by (cases "x_gnode ya = x_gnode xa") auto
next
  fix h m org assume m: "?ns h = Some m"
  then show "h \<noteq> 0" "distinct (org_list org m)"
    using xact_inv_distinct [OF inv] n by (auto split: if_splits)
  show "\<forall>y \<in> set (org_list org m). \<exists>ya. ?xs y = Some ya \<and> x_gnode ya = h \<and> x_org ya = org"
  proof
    fix y assume y: "y \<in> set (org_list org m)"
    obtain m' where m': "ns h = Some m'" "y \<in> set (org_list org m')" "distinct (org_list org m')"
      using m y n xact_inv_distinct [OF inv] by (fastforce split: if_splits dest: notin_set_remove1)
    have "y \<noteq> x"
    proof
      assume "y = x"
      then have "h = x_gnode xa" "org = x_org xa" using xact_inv_list [OF inv m'(1,2)] x by auto
      then show False using m y n \<open>y = x\<close> m' xact_inv_distinct [OF inv n] by (auto split: if_splits)
    qed
    then show "\<exists>ya. ?xs y = Some ya \<and> x_gnode ya = h \<and> x_org ya = org"
      using xact_inv_list [OF inv m'(1,2)] by auto
  qed
next
  fix y ya z assume "?xs y = Some ya \<and> assoc_xact ya = Some z"
  then have "y \<noteq> x" "xs y = Some ya" "assoc_xact ya = Some z" by (auto split: if_splits)
  then show "z \<noteq> y" "\<exists>za. ?xs z = Some za \<and> assoc_xact za = Some y"
    using xact_inv_assoc [OF inv, of y ya z] x by auto
next
  fix y ya z za
  assume "?xs y = Some ya \<and> ?xs z = Some za \<and> x_xid ya = x_xid za \<and> x_gnode ya = x_gnode za
    \<and> x_org ya = OGS_GTP_REMOTE_ORIGINATOR \<and> x_org za = OGS_GTP_REMOTE_ORIGINATOR"
  then show "y = z" using xact_inv_unique [OF inv, of y ya z za] by (auto split: if_splits)
qed

subsection \<open>What every operation keeps\<close>

text \<open>
  \<open>gtp_keeps D s t\<close>: the invariant holds again, no node and no transaction outside \<open>D\<close> is freed
  and the part of the state that belongs to the client is unchanged.
\<close>

definition gtp_keeps :: "index set \<Rightarrow> ('b, 'z) gtp_state_scheme \<Rightarrow> ('b, 'z) gtp_state_scheme \<Rightarrow> bool" where
  "gtp_keeps D s t \<longleftrightarrow> gtp_inv t \<and> dom (gnodes t) = dom (gnodes s)
     \<and> dom (xacts s) - D \<subseteq> dom (xacts t) \<and> gtp_state.more t = gtp_state.more s"

lemma gtp_keeps_refl: "gtp_inv s \<Longrightarrow> gtp_keeps D s s"
  by (auto simp: gtp_keeps_def)

lemma gtp_keeps_trans: "gtp_keeps D s t \<Longrightarrow> gtp_keeps D' t u \<Longrightarrow> gtp_keeps (D \<union> D') s u"
  by (simp add: gtp_keeps_def) blast

lemma gtp_keeps_trans_same: "gtp_keeps D s t \<Longrightarrow> gtp_keeps D t u \<Longrightarrow> gtp_keeps D s u"
  using gtp_keeps_trans [of D s t D u] by simp

lemma safe_keeps_trans:
  "gtp_keeps D s t \<Longrightarrow> safe m (gtp_keeps D t) \<Longrightarrow> safe m (gtp_keeps D s)"
  by (erule safe_mono) (rule gtp_keeps_trans_same)

lemma gtp_keeps_mono: "gtp_keeps D s t \<Longrightarrow> D \<subseteq> D' \<Longrightarrow> gtp_keeps D' s t"
  by (auto simp: gtp_keeps_def)

lemma more_updates [simp]:
  "gtp_state.more (set_xact x xa s) = gtp_state.more s"
  "gtp_state.more (set_node g n s) = gtp_state.more s"
  by (simp_all add: set_xact_def set_node_def)

lemma gtp_keeps_update:
  assumes "gtp_inv s" and "xacts s x = Some xa" and "xact_wf xa'"
    and "x_gnode xa' = x_gnode xa" "x_org xa' = x_org xa" "assoc_xact xa' = assoc_xact xa" "x_xid xa' = x_xid xa"
  shows "gtp_keeps D s (set_xact x xa' s)"
  using xact_inv_update [OF assms(1) [unfolded gtp_inv_def] assms(2-)] assms(2)
  by (auto simp: gtp_keeps_def gtp_inv_def)

lemma gtp_keeps_sent: "gtp_keeps D s t \<Longrightarrow> gtp_keeps D s (t\<lparr>sent := l\<rparr>)"
  by (simp add: gtp_keeps_def gtp_inv_def)

lemma gtp_inv_live:
  "gtp_inv s \<Longrightarrow> xacts s x = Some xa \<Longrightarrow>
     x \<noteq> 0 \<and> xact_wf xa \<and> x_gnode xa \<noteq> 0 \<and> (\<exists>n. gnodes s (x_gnode xa) = Some n)"
  unfolding gtp_inv_def using xact_inv_wf xact_inv_node by (fastforce simp: xact_wf_def)

lemma safe_sendto:
  assumes "gtp_inv s" and "gnodes s g \<noteq> None"
    and "\<And>b n. gnodes s g = Some n \<Longrightarrow> b = sendto_ok E n pk \<Longrightarrow> Q (b, s\<lparr>sent := sent s @ [(g, pk)]\<rparr>)"
  shows "safe (ogs_gtp_sendto E g pk s) Q"
  using assms by (auto simp: ogs_gtp_sendto_def)

lemma list3: "length xs = 3 \<longleftrightarrow> (\<exists>a b c. xs = [a, b, c])"
  by (auto simp: numeral_3_eq_3 length_Suc_conv)

lemma xact_wf_seq:
  assumes "xact_wf xa"
  obtains t0 p0 t1 p1 t2 p2 where "x_seq xa = [(t0, p0), (t1, p1), (t2, p2)]"
  using assms by (auto simp: xact_wf_def list3)

lemma safe_update_tx:
  assumes "gtp_inv s" and "xacts s x \<noteq> None"
  shows "safe (ogs_gtp_xact_update_tx E x type teid body s) (gtp_keeps D s)"
proof -
  obtain xa where xa: "xacts s x = Some xa" using assms(2) by auto
  note live = gtp_inv_live [OF assms(1) xa]
  obtain a b c where seq: "x_seq xa = [a, b, c]" using live by (auto simp: xact_wf_def list3)
  have upd: "gtp_keeps D s (set_xact x xa' s)"
    if "xact_wf xa'" "x_gnode xa' = x_gnode xa" "x_org xa' = x_org xa" "assoc_xact xa' = assoc_xact xa"
      "x_xid xa' = x_xid xa" for xa'
    using gtp_keeps_update [OF assms(1) xa that] .
  show ?thesis
    using live seq
    by (auto simp: ogs_gtp_xact_update_tx_def xa Let_def xact_wf_def
        split: originator.split stage.split intro!: upd)
qed

lemma xact_wf_new:
  assumes "x_gnode xa \<noteq> 0" "x_org xa = OGS_GTP_LOCAL_ORIGINATOR \<and> x_seq xa = [(ty, Some pk), (0, None), (0, None)]
      \<or> x_org xa = OGS_GTP_REMOTE_ORIGINATOR \<and> x_seq xa = [(ty, None), (0, None), (0, None)]"
    and "x_step xa = 1" "tm_response xa = Some None" "tm_holding xa \<noteq> None"
    and "response_rcount xa = GTP_T3_RESPONSE_RETRY_COUNT" "holding_rcount xa = GTP_T3_DUPLICATED_RETRY_COUNT"
  shows "xact_wf xa"
  using assms by (auto simp: xact_wf_def GTP_T3_RESPONSE_RETRY_COUNT_def)

lemma replicate3: "replicate 3 a = [a, a, a]"
  by (simp add: numeral_3_eq_3)

lemma gtp_keeps_insert:
  assumes "gtp_inv s" and "xacts s x = None" "x \<noteq> 0" and "gnodes s g = Some n"
    and "xact_wf xa" and "x_gnode xa = g" "assoc_xact xa = None"
    and "x_org xa = OGS_GTP_REMOTE_ORIGINATOR \<Longrightarrow> \<forall>y \<in> set (remote_list n). x_xid (the (xacts s y)) \<noteq> x_xid xa"
    and t: "gnodes t = (gnodes s)(g \<mapsto> set_org_list (x_org xa) (org_list (x_org xa) n @ [x]) n)"
      "xacts t = (xacts s)(x \<mapsto> xa)" "gtp_state.more t = gtp_state.more s"
  shows "gtp_keeps D s t"
  using xact_inv_insert [OF assms(1) [unfolded gtp_inv_def] assms(2-8)] t assms(4)
  by (auto simp: gtp_keeps_def gtp_inv_def)

lemma safe_local_create:
  assumes E: "gtp_env_ok E" and inv: "gtp_inv s" and g: "gnodes s g \<noteq> None"
  shows "safe (ogs_gtp_xact_local_create E g type teid body s)
    (\<lambda>(x, t). gtp_keeps D s t \<and> xacts s x = None \<and> (\<exists>xa. xacts t x = Some xa \<and> x_gnode xa = g
       \<and> x_org xa = OGS_GTP_LOCAL_ORIGINATOR \<and> x_step xa = 1 \<and> assoc_xact xa = None))"
proof -
  obtain n where n: "gnodes s g = Some n" using g by auto
  show ?thesis
    using n inv E
    by (auto simp: ogs_gtp_xact_local_create_def ogs_gtp_xact_update_tx_def new_xact_def Let_def
        replicate3 env_list_add local_list_org local_list_update
        split: stage.split dest!: env_xact_alloc [OF E] env_timer_add [OF E]
        intro!: gtp_keeps_insert [OF inv _ _ n] xact_wf_new)
qed

lemma safe_remote_create_rx:
  assumes E: "gtp_env_ok E" and inv: "gtp_inv s" and g: "gnodes s g \<noteq> None"
    and none: "ogs_gtp_xact_find_by_xid g type (OGS_GTP_SQN_TO_XID sqn) s = Inr None"
  shows "safe (ebind (ogs_gtp_xact_remote_create E g sqn s) (\<lambda>(x, s).
      ebind (ogs_gtp_xact_update_rx E x type s) (\<lambda>(rv, s). Inr (rv, x, s))))
    (\<lambda>(rv, x, t). gtp_keeps D s t \<and> xacts s x = None \<and> rv = OGS_OK \<and> (\<exists>xa. xacts t x = Some xa \<and> x_gnode xa = g
       \<and> x_org xa = OGS_GTP_REMOTE_ORIGINATOR \<and> x_step xa = 1 \<and> assoc_xact xa = None
       \<and> x_xid xa = OGS_GTP_SQN_TO_XID sqn \<and> fst (x_seq xa ! 0) = type))"
proof -
  obtain n where n: "gnodes s g = Some n" using g by auto
  have t0: "ogs_gtp_xact_get_stage 0 xid = GTP_XACT_UNKNOWN_STAGE" for xid
    by (simp add: ogs_gtp_xact_get_stage_def)
  have new: "\<forall>y \<in> set (remote_list n). x_xid (the (xacts s y)) \<noteq> OGS_GTP_SQN_TO_XID sqn"
    if "ogs_gtp_xact_get_stage type (OGS_GTP_SQN_TO_XID sqn) = GTP_XACT_INITIAL_STAGE"
    using none n that
    by (auto simp: ogs_gtp_xact_find_by_xid_def ebind_eq_Inr dest!: list_find_None)
  show ?thesis
    using n inv E new
    by (auto simp: ogs_gtp_xact_remote_create_def ogs_gtp_xact_update_rx_def xact_rx_done_def new_xact_def Let_def
        replicate3 env_list_add remote_list_org remote_list_update t0 timer_start_def timer_stop_def
        split: stage.split dest!: env_xact_alloc [OF E] env_timer_add [OF E]
        intro!: gtp_keeps_insert [OF inv _ _ n] xact_wf_new)
qed

lemma timer_start_None [simp]: "timer_start d tm = None \<longleftrightarrow> tm = None"
  and timer_stop_None [simp]: "timer_stop tm = None \<longleftrightarrow> tm = None"
  and timer_stop_armed [simp]: "timer_stop tm \<noteq> Some (Some e)"
  by (simp_all add: timer_start_def timer_stop_def split: option.split)

lemma xact_wf_holding [simp]:
  "xact_wf (xa\<lparr>tm_holding := timer_start d (tm_holding xa)\<rparr>) = xact_wf xa"
  "xact_wf xa \<Longrightarrow> xact_wf (xa\<lparr>tm_response := timer_stop (tm_response xa)\<rparr>)"
  "xact_wf xa \<Longrightarrow> xact_wf (xa\<lparr>tm_holding := timer_stop (tm_holding xa)\<rparr>)"
  by (simp_all add: xact_wf_def)

lemma safe_duplicated:
  assumes inv: "gtp_inv s" and xa: "xacts s x = Some xa" and "answer \<le> 2"
  shows "safe (xact_duplicated E x xa answer s) (\<lambda>(rv, t). gtp_keeps D s t)"
proof -
  obtain n where live: "xact_wf xa" "x_gnode xa \<noteq> 0" "gnodes s (x_gnode xa) = Some n"
    using gtp_inv_live [OF inv xa] by auto
  moreover have "answer < length (x_seq xa)"
    using live(1) assms(3) by (simp add: xact_wf_def)
  ultimately show ?thesis
    using inv by (auto simp: xact_duplicated_def ogs_gtp_sendto_def Let_def
        split: option.split prod.split intro!: gtp_keeps_refl gtp_keeps_sent gtp_keeps_update [OF inv xa])
qed

text \<open>A message is taken where one is due: an answer of the peer to our request, or to our answer.\<close>

lemma safe_rx_done:
  assumes inv: "gtp_inv s" and xa: "xacts s x = Some xa"
    and due: "x_step xa = (case x_org xa of OGS_GTP_LOCAL_ORIGINATOR \<Rightarrow> 1 | OGS_GTP_REMOTE_ORIGINATOR \<Rightarrow> 2)"
  shows "safe (xact_rx_done x xa type holding s) (\<lambda>(rv, t). gtp_keeps D s t)"
proof -
  have wf: "xact_wf xa" using gtp_inv_live [OF inv xa] by auto
  obtain t0 p0 t1 p1 t2 p2 where seq: "x_seq xa = [(t0, p0), (t1, p1), (t2, p2)]"
    using xact_wf_seq [OF wf] by metis
  define xb where "xb = (if holding
    then xa\<lparr>tm_holding := timer_start GTP_T3_DUPLICATED_DURATION (tm_holding xa)\<rparr> else xa)"
  have xb: "xact_wf xb" "x_seq xb = x_seq xa" "x_step xb = x_step xa" "x_org xb = x_org xa"
      "x_gnode xb = x_gnode xa" "assoc_xact xb = assoc_xact xa" "x_xid xb = x_xid xa"
    using wf by (simp_all add: xb_def)
  then have "xact_wf (xb\<lparr>tm_response := timer_stop (tm_response xb),
      x_seq := (x_seq xb)[x_step xb := (type, snd (x_seq xb ! x_step xb))], x_step := Suc (x_step xb)\<rparr>)"
    using seq due by (cases "x_org xa") (simp_all add: xact_wf_def)
  then show ?thesis
    using seq due xb unfolding xact_rx_done_def xb_def [symmetric]
    by (cases "x_org xa") (auto simp: Let_def intro!: gtp_keeps_update [OF inv xa])
qed

lemma safe_update_rx:
  assumes inv: "gtp_inv s" and "xacts s x \<noteq> None"
  shows "safe (ogs_gtp_xact_update_rx E x type s) (\<lambda>(rv, t). gtp_keeps D s t)"
proof -
  obtain xa where xa: "xacts s x = Some xa" using assms(2) by auto
  obtain t0 p0 t1 p1 t2 p2 where seq: "x_seq xa = [(t0, p0), (t1, p1), (t2, p2)]" and "1 \<le> x_step xa"
    using gtp_inv_live [OF inv xa] xact_wf_seq [of xa] by (metis xact_wf_def)
  then show ?thesis
    using safe_duplicated [OF inv xa] safe_rx_done [OF inv xa]
    by (cases "x_org xa"; cases "ogs_gtp_xact_get_stage type (x_xid xa)")
      (auto simp: ogs_gtp_xact_update_rx_def xa)
qed

lemma safe_associate:
  assumes inv: "gtp_inv s" and "xacts s x \<noteq> None" "xacts s y \<noteq> None" "x \<noteq> y"
  shows "safe (ogs_gtp_xact_associate x y s) (gtp_keeps D s)"
proof -
  obtain xa ya where xy: "xacts s x = Some xa" "xacts s y = Some ya" using assms by auto
  show ?thesis
    using xact_inv_link [OF inv [unfolded gtp_inv_def] xy(1) _ xy(2) _ assms(4)] xy assms(4)
    by (auto simp: ogs_gtp_xact_associate_def gtp_keeps_def gtp_inv_def)
qed

lemma deassociate_eq:
  assumes inv: "gtp_inv s" and x: "xacts s x = Some xa" "assoc_xact xa = Some y"
  obtains ya where "xacts s y = Some ya" "assoc_xact ya = Some x" "y \<noteq> x"
    "ogs_gtp_xact_deassociate x y s =
       Inr (set_xact y (ya\<lparr>assoc_xact := None\<rparr>) (set_xact x (xa\<lparr>assoc_xact := None\<rparr>) s))"
proof -
  obtain ya where ya: "xacts s y = Some ya" "assoc_xact ya = Some x" "y \<noteq> x"
    using xact_inv_assoc [OF inv [unfolded gtp_inv_def] x] by auto
  moreover have "x \<noteq> 0" "y \<noteq> 0"
    using gtp_inv_live [OF inv x(1)] gtp_inv_live [OF inv ya(1)] by auto
  ultimately show thesis
    using x by (intro that [of ya]) (auto simp: ogs_gtp_xact_deassociate_def)
qed

lemma safe_deassociate:
  assumes inv: "gtp_inv s" and x: "xacts s x = Some xa" "assoc_xact xa = Some y"
  shows "safe (ogs_gtp_xact_deassociate x y s) (gtp_keeps D s)"
proof -
  obtain ya where ya: "xacts s y = Some ya" "assoc_xact ya = Some x" "y \<noteq> x"
    and eq: "ogs_gtp_xact_deassociate x y s =
       Inr (set_xact y (ya\<lparr>assoc_xact := None\<rparr>) (set_xact x (xa\<lparr>assoc_xact := None\<rparr>) s))"
    using deassociate_eq [OF inv x] by metis
  then show ?thesis
    using xact_inv_unlink [OF inv [unfolded gtp_inv_def] x ya(1,2)] x
    by (auto simp: gtp_keeps_def gtp_inv_def)
qed

text \<open>The first half of a deletion: the partner, if any, forgets the transaction.\<close>

abbreviation forget :: "index \<Rightarrow> 'b gtp_xact option \<Rightarrow> 'b gtp_xact option" where
  "forget x \<equiv> map_option (\<lambda>ya. if assoc_xact ya = Some x then ya\<lparr>assoc_xact := None\<rparr> else ya)"

lemma forget_id: "(\<And>ya. o' = Some ya \<Longrightarrow> assoc_xact ya \<noteq> Some x) \<Longrightarrow> forget x o' = o'"
  by (cases o') auto

lemma unlink_ok:
  assumes inv: "gtp_inv s" and x: "xacts s x = Some xa"
  obtains xs where "(case assoc_xact xa of None \<Rightarrow> Inr s | Some y \<Rightarrow> ogs_gtp_xact_deassociate x y s) = Inr (s\<lparr>xacts := xs\<rparr>)"
    "xact_inv (gnodes s) xs" "dom xs = dom (xacts s)" "\<forall>y. y \<noteq> x \<longrightarrow> xs y = forget x (xacts s y)"
    "xs x = Some (xa\<lparr>assoc_xact := None\<rparr>)"
proof (cases "assoc_xact xa")
  case None
  then have xa: "xa\<lparr>assoc_xact := None\<rparr> = xa" by simp
  have "assoc_xact ya \<noteq> Some x" if "xacts s y = Some ya" for y ya
    using xact_inv_assoc [OF inv [unfolded gtp_inv_def] that] x None by auto
  then have "forget x (xacts s y) = xacts s y" for y by (rule forget_id)
  then show thesis using None x inv xa
    by (intro that [of "xacts s"]) (auto simp: gtp_inv_def)
next
  case (Some y)
  obtain ya where ya: "xacts s y = Some ya" "assoc_xact ya = Some x" "y \<noteq> x"
    and eq: "ogs_gtp_xact_deassociate x y s =
       Inr (set_xact y (ya\<lparr>assoc_xact := None\<rparr>) (set_xact x (xa\<lparr>assoc_xact := None\<rparr>) s))"
    using deassociate_eq [OF inv x Some] by metis
  have other: "forget x (xacts s z) = xacts s z" if "z \<noteq> y" for z
    using xact_inv_assoc [OF inv [unfolded gtp_inv_def], of z _ x] x Some that
    by (intro forget_id) auto
  show thesis
    using Some ya eq x other xact_inv_unlink [OF inv [unfolded gtp_inv_def] x Some ya(1,2)]
    by (intro that [of "(xacts s)(x \<mapsto> xa\<lparr>assoc_xact := None\<rparr>, y \<mapsto> ya\<lparr>assoc_xact := None\<rparr>)"])
      (auto simp: set_xact_def)
qed

text \<open>Deleting a live transaction cannot fail.\<close>

lemma delete_ok:
  assumes E: "gtp_env_ok E" and inv: "gtp_inv s" and x: "xacts s x = Some xa"
    and n: "gnodes s (x_gnode xa) = Some n"
  obtains xs where "ogs_gtp_xact_delete E x s = Inr (s\<lparr>xacts := xs,
      gnodes := (gnodes s)(x_gnode xa \<mapsto> set_org_list (x_org xa) (remove1 x (org_list (x_org xa) n)) n)\<rparr>)"
    "gtp_keeps {x} s (s\<lparr>xacts := xs,
      gnodes := (gnodes s)(x_gnode xa \<mapsto> set_org_list (x_org xa) (remove1 x (org_list (x_org xa) n)) n)\<rparr>)"
    "xs x = None" "\<forall>y. y \<noteq> x \<longrightarrow> xs y = forget x (xacts s y)"
proof -
  have live: "x \<noteq> 0" "x_gnode xa \<noteq> 0" using gtp_inv_live [OF inv x] by auto
  obtain xs where xs: "(case assoc_xact xa of None \<Rightarrow> Inr s | Some y \<Rightarrow> ogs_gtp_xact_deassociate x y s) = Inr (s\<lparr>xacts := xs\<rparr>)"
    "xact_inv (gnodes s) xs" "dom xs = dom (xacts s)" "\<forall>y. y \<noteq> x \<longrightarrow> xs y = forget x (xacts s y)"
    "xs x = Some (xa\<lparr>assoc_xact := None\<rparr>)"
    by (rule unlink_ok [OF inv x])
  have eq: "ogs_gtp_xact_delete E x s = Inr (s\<lparr>xacts := xs(x := None),
      gnodes := (gnodes s)(x_gnode xa \<mapsto> set_org_list (x_org xa) (remove1 x (org_list (x_org xa) n)) n)\<rparr>)"
    using live E n x unfolding ogs_gtp_xact_delete_def
    by (simp add: xs(1) set_node_def env_list_remove)
  have "xact_inv ((gnodes s)(x_gnode xa \<mapsto> set_org_list (x_org xa) (remove1 x (org_list (x_org xa) n)) n)) (xs(x := None))"
    using xact_inv_remove [OF xs(2,5)] n by simp
  moreover have "dom (xacts s) - {x} \<subseteq> dom (xs(x := None))"
    using xs(3) by auto
  ultimately show thesis
    using eq n xs(4) by (intro that [of "xs(x := None)"]) (auto simp: gtp_keeps_def gtp_inv_def)
qed

lemma safe_delete:
  assumes "gtp_env_ok E" and inv: "gtp_inv s" and "xacts s x \<noteq> None"
  shows "safe (ogs_gtp_xact_delete E x s) (\<lambda>t. gtp_keeps {x} s t \<and> xacts t x = None)"
proof -
  obtain xa where xa: "xacts s x = Some xa" using assms(3) by auto
  then obtain n where n: "gnodes s (x_gnode xa) = Some n" using gtp_inv_live [OF inv] by blast
  obtain xs where "ogs_gtp_xact_delete E x s = Inr (s\<lparr>xacts := xs,
      gnodes := (gnodes s)(x_gnode xa \<mapsto> set_org_list (x_org xa) (remove1 x (org_list (x_org xa) n)) n)\<rparr>)"
    "gtp_keeps {x} s (s\<lparr>xacts := xs,
      gnodes := (gnodes s)(x_gnode xa \<mapsto> set_org_list (x_org xa) (remove1 x (org_list (x_org xa) n)) n)\<rparr>)"
    "xs x = None" "\<forall>y. y \<noteq> x \<longrightarrow> xs y = forget x (xacts s y)"
    by (rule delete_ok [OF assms(1,2) xa n])
  then show ?thesis by simp
qed

text \<open>What a transaction that is deleted holds besides its links does not matter.\<close>

lemma delete_set_xact:
  assumes inv: "gtp_inv s" and xa: "xacts s x = Some xa"
    and eq: "x_gnode xa' = x_gnode xa" "x_org xa' = x_org xa" "assoc_xact xa' = assoc_xact xa"
  shows "ogs_gtp_xact_delete E x (set_xact x xa' s) = ogs_gtp_xact_delete E x s"
proof (cases "assoc_xact xa")
  case None
  then show ?thesis
    using xa eq by (auto simp: ogs_gtp_xact_delete_def deref_def Let_def set_xact_def set_node_def split: option.split)
next
  case (Some y)
  then have "y \<noteq> x" using xact_inv_assoc [OF inv [unfolded gtp_inv_def] xa] by simp
  then show ?thesis
    using xa eq Some
    by (auto simp: ogs_gtp_xact_delete_def ogs_gtp_xact_deassociate_def deref_def Let_def set_xact_def
        set_node_def ogs_assert_def fun_upd_twist split: option.split)
qed

lemma safe_send_last:
  assumes inv: "gtp_inv s" and xa: "xacts s x = Some xa"
  shows "safe (xact_send_last E xa s) (gtp_keeps D s)"
proof -
  obtain n where "xact_wf xa" "gnodes s (x_gnode xa) = Some n" using gtp_inv_live [OF inv xa] by auto
  then show ?thesis
    using inv by (auto simp: xact_send_last_def seq_last_def xact_wf_def ogs_gtp_sendto_def
        split: prod.split option.split intro!: gtp_keeps_sent gtp_keeps_refl)
qed

lemma safe_commit:
  assumes E: "gtp_env_ok E" and inv: "gtp_inv s" and "xacts s x \<noteq> None"
  shows "safe (ogs_gtp_xact_commit E x s) (gtp_keeps {x} s)"
proof -
  obtain xa where xa: "xacts s x = Some xa" using assms(3) by auto
  have wf: "xact_wf xa" using gtp_inv_live [OF inv xa] by auto
  define armed where "armed = xa\<lparr>tm_response := timer_start GTP_T3_RESPONSE_DURATION (tm_response xa)\<rparr>"
  have armed: "safe (xact_send_last E armed (set_xact x armed s)) (gtp_keeps {x} s)"
    if "x_step xa = (case x_org xa of OGS_GTP_LOCAL_ORIGINATOR \<Rightarrow> 1 | OGS_GTP_REMOTE_ORIGINATOR \<Rightarrow> 2)"
  proof -
    have "xact_wf armed" using wf that by (cases "x_org xa") (auto simp: armed_def xact_wf_def)
    then have k: "gtp_keeps {x} s (set_xact x armed s)"
      by (intro gtp_keeps_update [OF inv xa]) (simp_all add: armed_def)
    have "safe (xact_send_last E armed (set_xact x armed s)) (gtp_keeps {x} (set_xact x armed s))"
      by (rule safe_send_last [where x = x]) (use k in \<open>simp_all add: gtp_keeps_def\<close>)
    then show ?thesis by (rule safe_keeps_trans [OF k])
  qed
  have del: "safe (ogs_gtp_xact_delete E x s) (gtp_keeps {x} s)"
    by (rule safe_mono [OF safe_delete [OF E inv assms(3)]]) simp
  have bounds: "x_step xa \<noteq> 0" "x_step xa - Suc 0 < length (x_seq xa)"
    using wf by (auto simp: xact_wf_def)
  show ?thesis
    unfolding ogs_gtp_xact_commit_def
    using armed del safe_send_last [OF inv xa, of E "{x}"] bounds
    by (auto simp: xa seq_last_def Let_def armed_def split: prod.split originator.splits stage.split)
qed

lemma rcount_pred: "(0::u8) < r \<Longrightarrow> r \<le> k \<Longrightarrow> r - 1 \<le> k"
  using unat_minus_one [of r] by (simp add: word_le_nat_alt word_gt_0)

lemma safe_fire_response:
  assumes E: "gtp_env_ok E" and inv: "gtp_inv s"
  shows "safe (fire_response E x s) (gtp_keeps {x} s)"
proof (cases "\<exists>xa d. xacts s x = Some xa \<and> tm_response xa = Some (Some d)")
  case False
  then show ?thesis using gtp_keeps_refl [OF inv]
    by (auto simp: fire_response_def split: option.split)
next
  case True
  then obtain xa d where xa: "xacts s x = Some xa" and tm: "tm_response xa = Some (Some d)" by auto
  obtain n where live: "x \<noteq> 0" "xact_wf xa" "x_gnode xa \<noteq> 0" "gnodes s (x_gnode xa) = Some n"
    using gtp_inv_live [OF inv xa] by auto
  have due: "x_step xa = (case x_org xa of OGS_GTP_LOCAL_ORIGINATOR \<Rightarrow> 1 | OGS_GTP_REMOTE_ORIGINATOR \<Rightarrow> 2)"
    using live(2) tm by (cases "x_org xa") (auto simp: xact_wf_def)
  have del: "safe (ogs_gtp_xact_delete E x (set_xact x xa' s)) (gtp_keeps {x} s)"
    if "x_gnode xa' = x_gnode xa" "x_org xa' = x_org xa" "assoc_xact xa' = assoc_xact xa" for xa'
    using safe_delete [OF E inv] xa by (auto simp: delete_set_xact [OF inv xa that] intro: safe_mono)
  show ?thesis
  proof (cases "response_rcount xa - 1 > 0")
    case False
    then show ?thesis
      using xa tm live del
      by (auto simp: fire_response_def response_timeout_def Let_def set_xact_def)
  next
    case True
    define xb where "xb = xa\<lparr>response_rcount := response_rcount xa - 1, tm_response := Some (Some GTP_T3_RESPONSE_DURATION)\<rparr>"
    have wf: "xact_wf xb"
      using live(2) True due rcount_pred [of "response_rcount xa"]
      by (cases "x_org xa") (auto simp: xb_def xact_wf_def)
    have k: "gtp_keeps {x} s (set_xact x xb s)"
      by (intro gtp_keeps_update [OF inv xa] wf) (simp_all add: xb_def)
    have "safe (ogs_gtp_xact_delete E x ((set_xact x xb s)\<lparr>sent := l\<rparr>)) (gtp_keeps {x} s)" for l
    proof -
      have k': "gtp_keeps {x} s ((set_xact x xb s)\<lparr>sent := l\<rparr>)" using k by (rule gtp_keeps_sent)
      have "safe (ogs_gtp_xact_delete E x ((set_xact x xb s)\<lparr>sent := l\<rparr>)) (gtp_keeps {x} ((set_xact x xb s)\<lparr>sent := l\<rparr>))"
        by (rule safe_mono [OF safe_delete [OF E]]) (use k' in \<open>auto simp: gtp_keeps_def\<close>)
      then show ?thesis by (rule safe_keeps_trans [OF k'])
    qed
    then show ?thesis
      using xa tm live True k due
      by (cases "x_org xa")
        (auto simp: fire_response_def response_timeout_def Let_def timer_start_def seq_last_def ogs_gtp_sendto_def
          set_xact_def xb_def xact_wf_def split: prod.split intro!: gtp_keeps_sent)
  qed
qed

lemma safe_fire_holding:
  assumes E: "gtp_env_ok E" and inv: "gtp_inv s"
  shows "safe (fire_holding E x s) (gtp_keeps {x} s)"
proof (cases "\<exists>xa d. xacts s x = Some xa \<and> tm_holding xa = Some (Some d)")
  case False
  then show ?thesis using gtp_keeps_refl [OF inv]
    by (auto simp: fire_holding_def split: option.split)
next
  case True
  then obtain xa d where xa: "xacts s x = Some xa" and tm: "tm_holding xa = Some (Some d)" by auto
  have live: "x \<noteq> 0" "x_gnode xa \<noteq> 0" "holding_rcount xa = GTP_T3_DUPLICATED_RETRY_COUNT"
    using gtp_inv_live [OF inv xa] by (auto simp: xact_wf_def)
  have "safe (ogs_gtp_xact_delete E x (set_xact x xa' s)) (gtp_keeps {x} s)"
    if "x_gnode xa' = x_gnode xa" "x_org xa' = x_org xa" "assoc_xact xa' = assoc_xact xa" for xa'
    using safe_delete [OF E inv] xa by (auto simp: delete_set_xact [OF inv xa that] intro: safe_mono)
  then show ?thesis
    using xa tm live
    by (auto simp: fire_holding_def holding_timeout_def Let_def set_xact_def GTP_T3_DUPLICATED_RETRY_COUNT_def)
qed

subsection \<open>Lookup and reception\<close>

lemma find_by_xid_spec:
  assumes "gtp_inv s" and "gnodes s g \<noteq> None"
  shows "safe (ogs_gtp_xact_find_by_xid g type xid s)
    (\<lambda>r. \<forall>x. r = Some x \<longrightarrow> (\<exists>xa. xacts s x = Some xa \<and> x_gnode xa = g \<and> x_xid xa = xid))"
proof -
  obtain n where n: "gnodes s g = Some n" using assms(2) by auto
  have live: "\<forall>x \<in> set (org_list org n). xacts s x \<noteq> None" for org
    using xact_inv_list [OF assms(1) [unfolded gtp_inv_def] n] by blast
  have "safe (list_find (xacts s) (\<lambda>xa. x_xid xa = xid) (org_list org n))
    (\<lambda>r. \<forall>x. r = Some x \<longrightarrow> (\<exists>xa. xacts s x = Some xa \<and> x_gnode xa = g \<and> x_xid xa = xid))" for org
    using xact_inv_list [OF assms(1) [unfolded gtp_inv_def] n]
    by (intro safe_list_find live) fastforce+
  then show ?thesis
    using n by (auto simp: ogs_gtp_xact_find_by_xid_def local_list_org remote_list_org split: stage.split)
qed

lemma safe_receive:
  assumes E: "gtp_env_ok E" and inv: "gtp_inv s" and g: "gnodes s g \<noteq> None"
  shows "safe (ogs_gtp_xact_receive E g type sqn s)
    (\<lambda>(rv, x, t). gtp_keeps D s t \<and> xacts t x \<noteq> None)"
proof -
  have found: "safe (ogs_gtp_xact_update_rx E x type s) (\<lambda>(rv, t). gtp_keeps D s t \<and> xacts t x \<noteq> None)"
    if "xacts s x = Some xa" for x xa
    using that by (intro safe_mono [OF safe_update_rx [OF inv, where D = "D - {x}"]])
      (auto simp: gtp_keeps_def)
  have new: "safe (ogs_gtp_xact_remote_create E g sqn s) (\<lambda>(x, t). x \<noteq> 0 \<longrightarrow>
      safe (ogs_gtp_xact_update_rx E x type t) (\<lambda>(rv, u). gtp_keeps D s u \<and> xacts u x \<noteq> None))"
    if "ogs_gtp_xact_find_by_xid g type (OGS_GTP_SQN_TO_XID sqn) s = Inr None"
    using safe_remote_create_rx [OF E inv g that, of D]
    by (auto elim!: safe_mono)
  show ?thesis
    unfolding ogs_gtp_xact_receive_def
    using new found
    by (auto intro!: safe_mono [OF find_by_xid_spec [OF inv g]] split: option.split elim!: safe_mono)
qed

subsection \<open>Requests and answers\<close>

text \<open>A request is a new transaction that is committed at once.\<close>

lemma safe_request:
  assumes E: "gtp_env_ok E" and inv: "gtp_inv s" and g: "g \<noteq> 0 \<longrightarrow> gnodes s g \<noteq> None"
  shows "safe (ebind (ogs_gtp_xact_local_create E g type teid body s) (\<lambda>(x, s). ogs_gtp_xact_commit E x s)) (gtp_keeps {} s)"
proof (cases "g = 0")
  case True
  then show ?thesis by (simp add: ogs_gtp_xact_local_create_def)
next
  case False
  have "safe (ogs_gtp_xact_local_create E g type teid body s) (\<lambda>(x, t). safe (ogs_gtp_xact_commit E x t) (gtp_keeps {} s))"
  proof (rule safe_mono [OF safe_local_create [OF E inv, where D = "{}"]], use False g in simp, clarify)
    fix x t xa assume t: "gtp_keeps {} s t" and x: "xacts s x = None" "xacts t x = Some xa"
    show "safe (ogs_gtp_xact_commit E x t) (gtp_keeps {} s)"
    proof (rule safe_mono [OF safe_commit [OF E]])
      show "gtp_inv t" "xacts t x \<noteq> None" using t x by (auto simp: gtp_keeps_def)
      fix u assume "gtp_keeps {x} t u"
      then have "gtp_keeps {x} s u" using t gtp_keeps_trans by (metis sup_bot_left)
      then show "gtp_keeps {} s u" using x(1) by (auto simp: gtp_keeps_def)
    qed
  qed
  then show ?thesis by (auto simp: case_prod_unfold)
qed

lemma safe_answer:
  assumes E: "gtp_env_ok E" and inv: "gtp_inv s" and x: "xacts s x \<noteq> None"
  shows "safe (ebind (ogs_gtp_xact_update_tx E x type teid body s) (ogs_gtp_xact_commit E x)) (gtp_keeps {x} s)"
proof -
  have "safe (ogs_gtp_xact_update_tx E x type teid body s) (\<lambda>t. safe (ogs_gtp_xact_commit E x t) (gtp_keeps {x} s))"
  proof (rule safe_mono [OF safe_update_tx [OF inv x, where D = "{}"]])
    fix t assume t: "gtp_keeps {} s t"
    then have "gtp_inv t" "xacts t x \<noteq> None" using x by (auto simp: gtp_keeps_def)
    from safe_commit [OF E this] show "safe (ogs_gtp_xact_commit E x t) (gtp_keeps {x} s)"
      by (rule safe_mono) (use gtp_keeps_trans [OF t] in simp)
  qed
  then show ?thesis by simp
qed

end
