(* ===== verification/Gtp_Node.thy ===== *)
theory Gtp_Node
  imports Gtp_Xact_Inv
begin

text \<open>
  The peers of \<^verbatim>\<open>src/lib/gtp/node.c\<close> and the socket helpers of \<^verbatim>\<open>src/lib/gtp/path.c\<close>: creation
  of a node from an F-TEID, lookup by address, removal with all its transactions, the choice of the
  socket that serves its address family and the reply to a GTP-U echo request. The theory ends
  with the calls a client can make of the transaction layer as one step relation and its invariant.
\<close>

subsection \<open>Nodes\<close>

text \<open>
  Of the base library: \<^verbatim>\<open>ogs_filter_ip_version\<close>, \<^verbatim>\<open>ogs_socknode_fill_scope_id_in_local\<close> (none
  where it does not return \<^verbatim>\<open>OGS_OK\<close>) and the comparison of the first octets of two
  \<^verbatim>\<open>ogs_ip_t\<close>, whose layout the base library defines.
\<close>

record 'b gnode_env = "'b gtp_env" +
  filter_ip_version :: "ogs_sockaddr list \<Rightarrow> bool \<Rightarrow> bool \<Rightarrow> bool \<Rightarrow> ogs_sockaddr list"
  fill_scope_id :: "ogs_sockaddr list \<Rightarrow> ogs_sockaddr list option"
  ip_memcmp_eq :: "ogs_ip \<Rightarrow> ogs_ip \<Rightarrow> nat \<Rightarrow> bool"

definition zero_ip :: ogs_ip where
  "zero_ip = \<lparr>ip_ipv4 = False, ip_ipv6 = False, ip_len = 0, ip_union = replicate 20 0\<rparr>"

definition new_node :: "ogs_sockaddr list \<Rightarrow> gtp_node" where
  "new_node addr = \<lparr>gn_addr = addr, gn_sock = None, gn_ip = zero_ip, gn_conn = None,
     local_list = [], remote_list = []\<rparr>"

definition ogs_gtp_node_new ::
  "('b, 'e) gtp_env_scheme \<Rightarrow> ogs_sockaddr list \<Rightarrow> ('b, 'z) gtp_state_scheme \<Rightarrow>
   (index \<times> ('b, 'z) gtp_state_scheme) res" where
  "ogs_gtp_node_new E addr s =
     ebind (ogs_assert (addr \<noteq> [])) (\<lambda>_.
     ebind (non_null (node_alloc E (gnodes s))) (\<lambda>g.
     Inr (g, set_node g (new_node addr) s)))"

definition ogs_gtp_node_free ::
  "('b, 'e) gtp_env_scheme \<Rightarrow> index \<Rightarrow> ('b, 'z) gtp_state_scheme \<Rightarrow> ('b, 'z) gtp_state_scheme res" where
  "ogs_gtp_node_free E g s =
     ebind (ogs_assert (g \<noteq> 0)) (\<lambda>_.
     ebind (deref (gnodes s) g) (\<lambda>n.
     let s = (case gn_sock n of None \<Rightarrow> s | Some k \<Rightarrow> s\<lparr>destroyed := destroyed s @ [k]\<rparr>) in
     ebind (ogs_gtp_xact_delete_all E g s) (\<lambda>s.
     Inr (s\<lparr>gnodes := (gnodes s)(g := None)\<rparr>))))"

definition ogs_gtp_node_add ::
  "('b, 'e) gnode_env_scheme \<Rightarrow> index list \<Rightarrow> f_teid \<Rightarrow> u16 \<Rightarrow> bool \<Rightarrow> bool \<Rightarrow> bool \<Rightarrow>
   ('b, 'z) gtp_state_scheme \<Rightarrow> (index \<times> index list \<times> ('b, 'z) gtp_state_scheme) res" where
  "ogs_gtp_node_add E list f port no_ipv4 no_ipv6 prefer_ipv4 s =
     ebind (ogs_assert (port \<noteq> 0)) (\<lambda>_.
     ebind (ogs_gtp_f_teid_to_sockaddr f port) (\<lambda>addr.
     let addr = filter_ip_version E addr no_ipv4 no_ipv6 prefer_ipv4 in
     ebind (ogs_assert (addr \<noteq> [])) (\<lambda>_.
     ebind (non_null (fill_scope_id E addr)) (\<lambda>addr.
     ebind (ogs_gtp_node_new E addr s) (\<lambda>(g, s).
     ebind (ogs_gtp_f_teid_to_ip f) (\<lambda>ip.
     ebind (deref (gnodes s) g) (\<lambda>n.
     Inr (g, list_add E list g, set_node g (n\<lparr>gn_ip := ip\<rparr>) s))))))))"

definition ogs_gtp_node_remove ::
  "('b, 'e) gtp_env_scheme \<Rightarrow> index list \<Rightarrow> index \<Rightarrow> ('b, 'z) gtp_state_scheme \<Rightarrow>
   (index list \<times> ('b, 'z) gtp_state_scheme) res" where
  "ogs_gtp_node_remove E list g s =
     ebind (ogs_assert (g \<noteq> 0)) (\<lambda>_.
     let list = list_remove E list g in
     ebind (ogs_gtp_node_free E g s) (\<lambda>s. Inr (list, s)))"

fun node_remove_each ::
  "('b, 'e) gtp_env_scheme \<Rightarrow> index list \<Rightarrow> index list \<Rightarrow> ('b, 'z) gtp_state_scheme \<Rightarrow>
   (index list \<times> ('b, 'z) gtp_state_scheme) res" where
  "node_remove_each E [] list s = Inr (list, s)"
| "node_remove_each E (g # gs) list s =
     ebind (ogs_gtp_node_remove E list g s) (\<lambda>(list, s). node_remove_each E gs list s)"

definition ogs_gtp_node_remove_all ::
  "('b, 'e) gtp_env_scheme \<Rightarrow> index list \<Rightarrow> ('b, 'z) gtp_state_scheme \<Rightarrow>
   (index list \<times> ('b, 'z) gtp_state_scheme) res" where
  "ogs_gtp_node_remove_all E list s = node_remove_each E list list s"

definition ogs_gtp_node_find ::
  "('b, 'e) gnode_env_scheme \<Rightarrow> index list \<Rightarrow> f_teid \<Rightarrow> ('b, 'z) gtp_state_scheme \<Rightarrow>
   index option res" where
  "ogs_gtp_node_find E list f s =
     ebind (ogs_gtp_f_teid_to_ip f) (\<lambda>ip.
     list_find (gnodes s) (\<lambda>n. ip_memcmp_eq E (gn_ip n) ip (ip_len ip)) list)"

subsection \<open>Sockets\<close>

text \<open>The first address of the node whose family has a socket becomes the connected one.\<close>

fun connect_addr ::
  "index option \<Rightarrow> index option \<Rightarrow> ogs_sockaddr list \<Rightarrow> (index \<times> ogs_sockaddr) option" where
  "connect_addr ipv4 ipv6 [] = None"
| "connect_addr ipv4 ipv6 (a # as) =
     (case (case sa_family a of AF_INET \<Rightarrow> ipv4 | AF_INET6 \<Rightarrow> ipv6) of
        Some k \<Rightarrow> Some (k, a)
      | None \<Rightarrow> connect_addr ipv4 ipv6 as)"

definition ogs_gtp_connect ::
  "index option \<Rightarrow> index option \<Rightarrow> index \<Rightarrow> ('b, 'z) gtp_state_scheme \<Rightarrow>
   (rv \<times> ('b, 'z) gtp_state_scheme) res" where
  "ogs_gtp_connect ipv4 ipv6 g s =
     ebind (ogs_assert (ipv4 \<noteq> None \<or> ipv6 \<noteq> None)) (\<lambda>_.
     ebind (ogs_assert (g \<noteq> 0)) (\<lambda>_.
     ebind (deref (gnodes s) g) (\<lambda>n.
     ebind (ogs_assert (gn_addr n \<noteq> [])) (\<lambda>_.
     case connect_addr ipv4 ipv6 (gn_addr n) of
       Some (k, a) \<Rightarrow> Inr (OGS_OK, set_node g (n\<lparr>gn_sock := Some k, gn_conn := Some a\<rparr>) s)
     | None \<Rightarrow> Inr (OGS_ERROR, s)))))"

text \<open>A server node of the configuration: its socket, once opened, with its local address.\<close>

record socknode =
  sn_addr :: "ogs_sockaddr list"
  sn_sock :: "(index \<times> ogs_sockaddr) option"

definition ogs_gtp_local_sock_first :: "socknode list \<Rightarrow> index option" where
  "ogs_gtp_local_sock_first list =
     (case find (\<lambda>snode. sn_sock snode \<noteq> None) list of
        Some snode \<Rightarrow> map_option fst (sn_sock snode)
      | None \<Rightarrow> None)"

definition ogs_gtp_local_addr_first :: "socknode list \<Rightarrow> ogs_sockaddr option res" where
  "ogs_gtp_local_addr_first list =
     (case list of
        [] \<Rightarrow> Inr None
      | snode # _ \<Rightarrow> ebind (non_null (sn_sock snode)) (\<lambda>(_, a). Inr (Some a)))"

subsection \<open>Echo\<close>

abbreviation (input) "OGS_GTPU_MSGTYPE_ECHO_REQ \<equiv> (1::u8)"
abbreviation (input) "OGS_GTPU_MSGTYPE_ECHO_RSP \<equiv> (2::u8)"
abbreviation (input) "OGS_GTPU_MSGTYPE_ERR_IND \<equiv> (26::u8)"
abbreviation (input) "OGS_GTPU_MSGTYPE_END_MARKER \<equiv> (254::u8)"
abbreviation (input) "OGS_GTPU_MSGTYPE_GPDU \<equiv> (255::u8)"

definition OGS_GTPU_FLAGS_PN :: u8 where "OGS_GTPU_FLAGS_PN = 1"
definition OGS_GTPU_FLAGS_S :: u8 where "OGS_GTPU_FLAGS_S = 2"

text \<open>
  The packet is the octets received: flags, type, length (2), TEID (4), then the optional sequence
  number (2), N-PDU number and next extension type. Reading past them is a fault here.
\<close>

definition ogs_gtp_handle_echo_req :: "u8 list \<Rightarrow> u8 list option res" where
  "ogs_gtp_handle_echo_req pkb =
     ebind (array_read pkb 0) (\<lambda>flags.
     if drop_bit 5 flags \<noteq> 1 then Inr None else
     ebind (array_read pkb 1) (\<lambda>type.
     if type \<noteq> OGS_GTPU_MSGTYPE_ECHO_REQ then Inr None else
     let rflags = push_bit 5 1 OR push_bit 4 1; opt = flags AND (OGS_GTPU_FLAGS_PN OR OGS_GTPU_FLAGS_S) \<noteq> 0 in
     ebind (if \<not> opt then Inr (rflags, []) else
        ebind (if flags AND OGS_GTPU_FLAGS_S \<noteq> 0 then
            ebind (array_read pkb 8) (\<lambda>a. ebind (array_read pkb 9) (\<lambda>b.
            Inr (rflags OR OGS_GTPU_FLAGS_S, [a, b])))
          else Inr (rflags, [0, 0])) (\<lambda>(rflags, sq).
        ebind (if flags AND OGS_GTPU_FLAGS_PN \<noteq> 0 then
            ebind (array_read pkb 10) (\<lambda>c. Inr (rflags OR OGS_GTPU_FLAGS_PN, [c]))
          else Inr (rflags, [0])) (\<lambda>(rflags, pn).
        Inr (rflags, sq @ pn @ [0])))) (\<lambda>(rflags, options).
     let recovery = [14, 0] in
     Inr (Some ([rflags, OGS_GTPU_MSGTYPE_ECHO_RSP]
       @ bytes16 (htons (of_nat (length options + length recovery)))
       @ [0, 0, 0, 0] @ options @ recovery)))))"

subsection \<open>Lemmas: deletion of a list of transactions\<close>

text \<open>
  \<open>shrinks X s t\<close>: exactly the transactions of \<open>X\<close> are gone and every node list has lost the
  members of \<open>X\<close> and nothing else.
\<close>

definition strip_node :: "index set \<Rightarrow> gtp_node \<Rightarrow> gtp_node" where
  "strip_node X n = n\<lparr>local_list := filter (\<lambda>x. x \<notin> X) (local_list n),
     remote_list := filter (\<lambda>x. x \<notin> X) (remote_list n)\<rparr>"

definition shrinks :: "index set \<Rightarrow> ('b, 'z) gtp_state_scheme \<Rightarrow> ('b, 'z) gtp_state_scheme \<Rightarrow> bool" where
  "shrinks X s t \<longleftrightarrow> dom (xacts t) = dom (xacts s) - X \<and> sent t = sent s \<and> destroyed t = destroyed s
     \<and> gnodes t = (\<lambda>g. map_option (strip_node X) (gnodes s g))"

lemma strip_node_id: "set (local_list n) \<inter> X = {} \<Longrightarrow> set (remote_list n) \<inter> X = {} \<Longrightarrow> strip_node X n = n"
  unfolding strip_node_def by (subst filter_True, blast)+ simp

lemma strip_strip: "strip_node Y (strip_node X n) = strip_node (X \<union> Y) n"
  by (simp add: strip_node_def conj_commute)

lemma shrinks_refl: "shrinks {} s s"
  by (simp add: shrinks_def strip_node_id option.map_ident_strong)

lemma shrinks_trans: "shrinks X s t \<Longrightarrow> shrinks Y t u \<Longrightarrow> shrinks (X \<union> Y) s u"
  by (auto simp: shrinks_def option.map_comp o_def strip_strip)

lemma delete_shrinks:
  assumes E: "gtp_env_ok E" and inv: "gtp_inv s" and x: "xacts s x \<noteq> None"
  shows "\<exists>t. ogs_gtp_xact_delete E x s = Inr t \<and> gtp_keeps {x} s t \<and> shrinks {x} s t"
proof -
  obtain xa where xa: "xacts s x = Some xa" using x by auto
  then obtain n where n: "gnodes s (x_gnode xa) = Some n" using gtp_inv_live [OF inv] by blast
  obtain xs where del: "ogs_gtp_xact_delete E x s = Inr (s\<lparr>xacts := xs,
      gnodes := (gnodes s)(x_gnode xa \<mapsto> set_org_list (x_org xa) (remove1 x (org_list (x_org xa) n)) n)\<rparr>)"
    and k: "gtp_keeps {x} s (s\<lparr>xacts := xs,
      gnodes := (gnodes s)(x_gnode xa \<mapsto> set_org_list (x_org xa) (remove1 x (org_list (x_org xa) n)) n)\<rparr>)"
    and xs: "xs x = None" "\<forall>y. y \<noteq> x \<longrightarrow> xs y = forget x (xacts s y)"
    by (rule delete_ok [OF E inv xa n])
  have dom: "dom xs = dom (xacts s) - {x}"
  proof (rule set_eqI)
    show "y \<in> dom xs \<longleftrightarrow> y \<in> dom (xacts s) - {x}" for y
      using xs by (cases "y = x") (simp_all add: domIff)
  qed
  have other: "x \<notin> set (org_list org m)" if "gnodes s g = Some m" "g \<noteq> x_gnode xa \<or> org \<noteq> x_org xa" for g m org
    using that xact_inv_list [OF inv [unfolded gtp_inv_def] that(1), of x org] xa by auto
  then have same: "strip_node {x} m = m" if "gnodes s g = Some m" "g \<noteq> x_gnode xa" for g m
    using that by (intro strip_node_id) (auto simp: local_list_org remote_list_org)
  have lists: "filter (\<lambda>y. y \<noteq> x) (org_list (x_org xa) n) = remove1 x (org_list (x_org xa) n)"
    using xact_inv_distinct [OF inv [unfolded gtp_inv_def] n] by (simp add: filter_neq_remove1)
  have kept: "filter (\<lambda>y. y \<noteq> x) (org_list org n) = org_list org n" if "org \<noteq> x_org xa" for org
    using other [OF n, of org] that by (intro filter_True) auto
  have "strip_node {x} n = set_org_list (x_org xa) (remove1 x (org_list (x_org xa) n)) n"
    using lists kept [of OGS_GTP_LOCAL_ORIGINATOR] kept [of OGS_GTP_REMOTE_ORIGINATOR]
    by (cases "x_org xa") (simp_all add: strip_node_def set_org_list_def org_list_def)
  with same have "shrinks {x} s (s\<lparr>xacts := xs,
      gnodes := (gnodes s)(x_gnode xa \<mapsto> set_org_list (x_org xa) (remove1 x (org_list (x_org xa) n)) n)\<rparr>)"
    using n dom by (auto simp: shrinks_def fun_eq_iff intro!: option.map_ident_strong [symmetric])
  with del k show ?thesis by blast
qed

lemma delete_each_shrinks:
  assumes E: "gtp_env_ok E"
  shows "gtp_inv s \<Longrightarrow> distinct ks \<Longrightarrow> \<forall>x \<in> set ks. xacts s x \<noteq> None \<Longrightarrow>
    \<exists>t. xact_delete_each E ks s = Inr t \<and> gtp_keeps (set ks) s t \<and> shrinks (set ks) s t"
proof (induction ks arbitrary: s)
  case Nil
  then show ?case by (simp add: gtp_keeps_refl shrinks_refl)
next
  case (Cons x ks)
  obtain t where t: "ogs_gtp_xact_delete E x s = Inr t" "gtp_keeps {x} s t" "shrinks {x} s t"
    using delete_shrinks [OF E, of s x] Cons.prems by auto
  have "gtp_inv t" "\<forall>y \<in> set ks. xacts t y \<noteq> None"
    using t(2,3) Cons.prems by (auto simp: gtp_keeps_def shrinks_def)
  then obtain u where "xact_delete_each E ks t = Inr u" "gtp_keeps (set ks) t u" "shrinks (set ks) t u"
    using Cons.IH [of t] Cons.prems(2) by auto
  then show ?case
    using t gtp_keeps_trans [OF t(2)] shrinks_trans [OF t(3)] by fastforce
qed

text \<open>Deleting all transactions of a live node cannot fail and leaves both its lists empty.\<close>

lemma delete_all_ok:
  assumes E: "gtp_env_ok E" and inv: "gtp_inv s" and n: "gnodes s g = Some n"
  shows "\<exists>t m. ogs_gtp_xact_delete_all E g s = Inr t \<and> gtp_keeps (set (local_list n) \<union> set (remote_list n)) s t
    \<and> shrinks (set (local_list n) \<union> set (remote_list n)) s t
    \<and> gnodes t g = Some m \<and> local_list m = [] \<and> remote_list m = []"
proof -
  note inv' = inv [unfolded gtp_inv_def]
  have loc: "distinct (local_list n)" "\<forall>x \<in> set (local_list n). xacts s x \<noteq> None"
    using xact_inv_distinct [OF inv' n] xact_inv_list [OF inv' n] by (fastforce simp: local_list_org)+
  obtain t where t: "xact_delete_each E (local_list n) s = Inr t" "gtp_keeps (set (local_list n)) s t"
      "shrinks (set (local_list n)) s t"
    using delete_each_shrinks [OF E inv loc] by auto
  have inv_t: "gtp_inv t" using t(2) by (simp add: gtp_keeps_def)
  obtain m where m: "gnodes t g = Some m" "remote_list m = filter (\<lambda>x. x \<notin> set (local_list n)) (remote_list n)"
    using t(3) n by (simp add: shrinks_def strip_node_def)
  have disj: "set (local_list n) \<inter> set (remote_list n) = {}"
    using xact_inv_list [OF inv' n, of _ OGS_GTP_LOCAL_ORIGINATOR]
      xact_inv_list [OF inv' n, of _ OGS_GTP_REMOTE_ORIGINATOR]
    by (fastforce simp: local_list_org remote_list_org)
  then have m_remote: "remote_list m = remote_list n"
    using m(2) by (auto simp: filter_id_conv)
  have rem: "distinct (remote_list m)" "\<forall>x \<in> set (remote_list m). xacts t x \<noteq> None"
    using xact_inv_distinct [OF inv_t [unfolded gtp_inv_def] m(1)] xact_inv_list [OF inv_t [unfolded gtp_inv_def] m(1)]
    by (fastforce simp: remote_list_org)+
  obtain u where u: "xact_delete_each E (remote_list m) t = Inr u" "gtp_keeps (set (remote_list m)) t u"
      "shrinks (set (remote_list m)) t u"
    using delete_each_shrinks [OF E inv_t rem] by auto
  have k: "gtp_keeps (set (local_list n) \<union> set (remote_list n)) s u"
    and sh: "shrinks (set (local_list n) \<union> set (remote_list n)) s u"
    using gtp_keeps_trans [OF t(2) u(2)] shrinks_trans [OF t(3) u(3)] m_remote by auto
  have "gnodes u g = Some (strip_node (set (local_list n) \<union> set (remote_list n)) n)"
    using sh n by (simp add: shrinks_def)
  moreover have "local_list (strip_node (set (local_list n) \<union> set (remote_list n)) n) = []"
    and "remote_list (strip_node (set (local_list n) \<union> set (remote_list n)) n) = []"
    by (auto simp: strip_node_def filter_empty_conv)
  ultimately show ?thesis
    using t(1) u(1) m n k sh by (auto simp: ogs_gtp_xact_delete_all_def)
qed

subsection \<open>Lemmas: nodes\<close>

lemma xact_inv_new_node:
  assumes "xact_inv ns xs" and "ns g = None" "g \<noteq> 0" and "local_list n = []" "remote_list n = []"
  shows "xact_inv (ns(g \<mapsto> n)) xs"
proof -
  have nil: "org_list org n = []" for org
    using assms by (simp add: org_list_def split: originator.split)
  show ?thesis
    unfolding xact_inv_def
  proof (intro conjI allI impI)
    fix x xa assume xa: "xs x = Some xa"
    then show "x \<noteq> 0" "xact_wf xa" using xact_inv_wf [OF assms(1)] by auto
    show "\<exists>m. (ns(g \<mapsto> n)) (x_gnode xa) = Some m \<and> x \<in> set (org_list (x_org xa) m)"
      using xact_inv_node [OF assms(1) xa] assms(2) by auto
  next
    fix h m org assume "(ns(g \<mapsto> n)) h = Some m"
    then show "h \<noteq> 0" "distinct (org_list org m)"
      "\<forall>x \<in> set (org_list org m). \<exists>xa. xs x = Some xa \<and> x_gnode xa = h \<and> x_org xa = org"
      using xact_inv_distinct [OF assms(1)] xact_inv_list [OF assms(1)] nil assms(3)
      by (auto split: if_splits)
  qed (use xact_inv_assoc [OF assms(1)] xact_inv_unique [OF assms(1)] in blast)+
qed

lemma xact_inv_set_node:
  assumes "xact_inv ns xs" and "ns g = Some n" and "\<And>org. org_list org n' = org_list org n"
  shows "xact_inv (ns(g \<mapsto> n')) xs"
  unfolding xact_inv_def
proof (intro conjI allI impI)
  fix x xa assume xa: "xs x = Some xa"
  then show "x \<noteq> 0" "xact_wf xa" using xact_inv_wf [OF assms(1)] by auto
  show "\<exists>m. (ns(g \<mapsto> n')) (x_gnode xa) = Some m \<and> x \<in> set (org_list (x_org xa) m)"
    using xact_inv_node [OF assms(1) xa] assms(2,3) by auto
next
  fix h m org assume "(ns(g \<mapsto> n')) h = Some m"
  then show "h \<noteq> 0" "distinct (org_list org m)"
    "\<forall>x \<in> set (org_list org m). \<exists>xa. xs x = Some xa \<and> x_gnode xa = h \<and> x_org xa = org"
    using xact_inv_distinct [OF assms(1)] xact_inv_list [OF assms(1)] assms(2,3)
    by (auto split: if_splits)
qed (use xact_inv_assoc [OF assms(1)] xact_inv_unique [OF assms(1)] in blast)+

lemma xact_inv_free_node:
  assumes "xact_inv ns xs" and "ns g = Some n" and "local_list n = []" "remote_list n = []"
  shows "xact_inv (ns(g := None)) xs"
proof -
  have nil: "org_list org n = []" for org
    using assms by (simp add: org_list_def split: originator.split)
  show ?thesis
    unfolding xact_inv_def
  proof (intro conjI allI impI)
    fix x xa assume xa: "xs x = Some xa"
    then show "x \<noteq> 0" "xact_wf xa" using xact_inv_wf [OF assms(1)] by auto
    show "\<exists>m. (ns(g := None)) (x_gnode xa) = Some m \<and> x \<in> set (org_list (x_org xa) m)"
      using xact_inv_node [OF assms(1) xa] assms(2) nil by auto
  next
    fix h m org assume "(ns(g := None)) h = Some m"
    then show "h \<noteq> 0" "distinct (org_list org m)"
      "\<forall>x \<in> set (org_list org m). \<exists>xa. xs x = Some xa \<and> x_gnode xa = h \<and> x_org xa = org"
      using xact_inv_distinct [OF assms(1)] xact_inv_list [OF assms(1)] by (auto split: if_splits)
  qed (use xact_inv_assoc [OF assms(1)] xact_inv_unique [OF assms(1)] in blast)+
qed

lemma safe_node_add:
  assumes E: "gtp_env_ok E" and inv: "gtp_inv s"
  shows "safe (ogs_gtp_node_add E list f port no_ipv4 no_ipv6 prefer_ipv4 s)
    (\<lambda>(g, list', t). gtp_inv t \<and> gnodes s g = None \<and> list' = list @ [g] \<and> xacts t = xacts s
       \<and> (\<exists>n. gnodes t = (gnodes s)(g \<mapsto> n) \<and> ogs_gtp_f_teid_to_ip f = Inr (gn_ip n) \<and> gn_addr n \<noteq> [] \<and> gn_sock n = None)
       \<and> gtp_state.more t = gtp_state.more s)"
proof -
  have fault: "e = Assert_Failed" if "ogs_gtp_f_teid_to_sockaddr f port = Inl e \<or> ogs_gtp_f_teid_to_ip f = Inl e" for e
    using that by (auto simp: ogs_gtp_f_teid_to_sockaddr_def ogs_gtp_f_teid_to_ip_def Let_def split: if_splits)
  have new: "gtp_inv (set_node g n s)" if "node_alloc E (gnodes s) = Some g" "local_list n = []" "remote_list n = []" for g n
    using that inv env_node_alloc [OF E that(1)] by (auto simp: gtp_inv_def intro: xact_inv_new_node)
  show ?thesis
  proof (cases "ogs_gtp_f_teid_to_sockaddr f port"; cases "ogs_gtp_f_teid_to_ip f")
  qed (use fault E env_node_alloc [OF E] in \<open>auto simp: ogs_gtp_node_add_def ogs_gtp_node_new_def Let_def
      new_node_def set_node_def env_list_add intro!: new [unfolded set_node_def]\<close>)
qed

lemma safe_node_free:
  assumes E: "gtp_env_ok E" and inv: "gtp_inv s" and g: "gnodes s g \<noteq> None"
  shows "safe (ogs_gtp_node_free E g s) (\<lambda>t. gtp_inv t \<and> gnodes t g = None)"
proof -
  obtain n where n: "gnodes s g = Some n" using g by auto
  define s' where "s' = (case gn_sock n of None \<Rightarrow> s | Some k \<Rightarrow> s\<lparr>destroyed := destroyed s @ [k]\<rparr>)"
  have s': "gtp_inv s'" "gnodes s' g = Some n"
    using inv n by (auto simp: s'_def gtp_inv_def split: option.split)
  obtain t m where "ogs_gtp_xact_delete_all E g s' = Inr t" "gtp_inv t"
      "gnodes t g = Some m" "local_list m = []" "remote_list m = []"
    using delete_all_ok [OF E s'] by (auto simp: gtp_keeps_def)
  then show ?thesis
    using n by (auto simp: ogs_gtp_node_free_def s'_def [symmetric] gtp_inv_def intro: xact_inv_free_node)
qed

lemma safe_connect:
  assumes inv: "gtp_inv s" and g: "gnodes s g \<noteq> None"
  shows "safe (ogs_gtp_connect ipv4 ipv6 g s) (\<lambda>(rv, t). gtp_keeps D s t)"
proof -
  obtain n where n: "gnodes s g = Some n" using g by auto
  then have "gtp_keeps D s (set_node g (n\<lparr>gn_sock := k, gn_conn := a\<rparr>) s)" for k a
    using inv by (auto simp: gtp_keeps_def gtp_inv_def org_list_def intro!: xact_inv_set_node split: originator.split)
  then show ?thesis
    using n inv by (auto simp: ogs_gtp_connect_def gtp_keeps_refl split: option.split)
qed

text \<open>A peer is looked up by its F-TEID or added and connected.\<close>

lemma f_teid_to_ip_fault: "ogs_gtp_f_teid_to_ip f = Inl e \<Longrightarrow> e = Assert_Failed"
  by (auto simp: ogs_gtp_f_teid_to_ip_def Let_def split: if_splits)

lemma safe_f_teid_to_ip [simp]: "safe (ogs_gtp_f_teid_to_ip f) Q \<longleftrightarrow> (\<forall>ip. ogs_gtp_f_teid_to_ip f = Inr ip \<longrightarrow> Q ip)"
  using f_teid_to_ip_fault [of f] by (cases "ogs_gtp_f_teid_to_ip f") auto

lemma safe_peer_setup:
  assumes E: "gtp_env_ok E" and inv: "gtp_inv s" and list: "set list \<subseteq> dom (gnodes s)"
  shows "safe (ebind (ogs_gtp_node_find E list f s) (\<lambda>r.
     case r of
       Some g \<Rightarrow> Inr (g, list, s)
     | None \<Rightarrow>
         ebind (ogs_gtp_node_add E list f port no4 no6 prefer s) (\<lambda>(g, list, s).
         ebind (ogs_gtp_connect k k6 g s) (\<lambda>(rv, s).
         ebind (ogs_assert (rv = OGS_OK)) (\<lambda>_. Inr (g, list, s)))))) (\<lambda>(g, list', t). gtp_inv t \<and> gtp_state.more t = gtp_state.more s
     \<and> dom (gnodes s) \<subseteq> dom (gnodes t) \<and> dom (xacts s) \<subseteq> dom (xacts t) \<and> gnodes t g \<noteq> None \<and> set list' \<subseteq> dom (gnodes t))"
proof -
  have find: "safe (ogs_gtp_node_find E list f s) (\<lambda>r. \<forall>g. r = Some g \<longrightarrow> gnodes s g \<noteq> None)"
    using list by (auto simp: ogs_gtp_node_find_def intro!: safe_list_find)
  have add: "safe (ogs_gtp_node_add E list f port no4 no6 prefer s) (\<lambda>(g, list', t).
      safe (ogs_gtp_connect k k6 g t) (\<lambda>(rv, t'). rv = OGS_OK \<longrightarrow> gtp_inv t' \<and> gtp_state.more t' = gtp_state.more s
        \<and> dom (gnodes s) \<subseteq> dom (gnodes t') \<and> dom (xacts s) \<subseteq> dom (xacts t') \<and> gnodes t' g \<noteq> None \<and> set list' \<subseteq> dom (gnodes t')))"
  proof (rule safe_mono [OF safe_node_add [OF E inv]], clarify)
    fix g n t assume t: "gtp_inv t" "gnodes t = (gnodes s)(g \<mapsto> n)" "xacts t = xacts s" "gtp_state.more t = gtp_state.more s"
    have "gnodes t g \<noteq> None" using t(2) by simp
    from safe_connect [OF t(1) this, of k k6 "{}"]
    show "safe (ogs_gtp_connect k k6 g t) (\<lambda>(rv, t'). rv = OGS_OK \<longrightarrow> gtp_inv t' \<and> gtp_state.more t' = gtp_state.more s
        \<and> dom (gnodes s) \<subseteq> dom (gnodes t') \<and> dom (xacts s) \<subseteq> dom (xacts t') \<and> gnodes t' g \<noteq> None \<and> set (list @ [g]) \<subseteq> dom (gnodes t'))"
    proof (rule safe_mono, clarify)
      fix t' assume "gtp_keeps {} t t'"
      then have "gtp_inv t'" "gtp_state.more t' = gtp_state.more s" "dom (xacts s) \<subseteq> dom (xacts t')"
        and dom: "dom (gnodes t') = insert g (dom (gnodes s))"
        using t by (auto simp: gtp_keeps_def)
      then show "gtp_inv t' \<and> gtp_state.more t' = gtp_state.more s \<and> dom (gnodes s) \<subseteq> dom (gnodes t')
          \<and> dom (xacts s) \<subseteq> dom (xacts t') \<and> gnodes t' g \<noteq> None \<and> set (list @ [g]) \<subseteq> dom (gnodes t')"
        using list by (simp add: domIff [symmetric] del: not_None_eq) blast
    qed
  qed
  show ?thesis
    by (auto simp: case_prod_unfold split: option.split intro!: safe_mono [OF find] safe_mono [OF add [unfolded case_prod_unfold]]
        inv dest: subsetD [OF list])
qed

lemma safe_parse_uli: "octet \<noteq> [] \<Longrightarrow> safe (ogs_gtp_parse_uli octet) (\<lambda>r. True)"
  by (auto simp: ogs_gtp_parse_uli_def uli_take_def)

lemma safe_ip_to_f_teid: "safe (ogs_gtp_ip_to_f_teid ip f) (\<lambda>f. True)"
  by (auto simp: ogs_gtp_ip_to_f_teid_def Let_def)

lemma sock_first_list:
  "ogs_gtp_local_sock_first list = Some k \<Longrightarrow> \<exists>snode \<in> set list. \<exists>a. sn_sock snode = Some (k, a)"
  by (auto simp: ogs_gtp_local_sock_first_def find_Some_iff split: option.splits)

subsection \<open>The calls of a client\<close>

text \<open>
  Every way a client drives the transaction layer, in any order: the calls of the interface, each
  with the pointers it passes live, and the expiry of a timer. The environment of a step is
  arbitrary, so the allocator may choose any free index.
\<close>

datatype 'b gtp_call =
    Local_Create index u8 u32 'b
  | Receive index u8 u32
  | Update_Tx index u8 u32 'b
  | Commit index
  | Associate index index
  | Response_Expires index
  | Holding_Expires index
  | Node_Add f_teid u16 bool bool bool
  | Node_Connect index "index option" "index option"
  | Delete_All index
  | Node_Free index

fun gtp_pre :: "'b gtp_call \<Rightarrow> ('b, 'z) gtp_state_scheme \<Rightarrow> bool" where
  "gtp_pre (Local_Create g type teid body) s = (gnodes s g \<noteq> None)"
| "gtp_pre (Receive g type sqn) s = (gnodes s g \<noteq> None)"
| "gtp_pre (Update_Tx x type teid body) s = (xacts s x \<noteq> None)"
| "gtp_pre (Commit x) s = (xacts s x \<noteq> None)"
| "gtp_pre (Associate x y) s = (xacts s x \<noteq> None \<and> xacts s y \<noteq> None \<and> x \<noteq> y)"
| "gtp_pre (Response_Expires x) s = True"
| "gtp_pre (Holding_Expires x) s = True"
| "gtp_pre (Node_Add f port a b c) s = True"
| "gtp_pre (Node_Connect g ipv4 ipv6) s = (gnodes s g \<noteq> None)"
| "gtp_pre (Delete_All g) s = (gnodes s g \<noteq> None)"
| "gtp_pre (Node_Free g) s = (gnodes s g \<noteq> None)"

fun gtp_exec ::
  "('b, 'e) gnode_env_scheme \<Rightarrow> 'b gtp_call \<Rightarrow> ('b, 'z) gtp_state_scheme \<Rightarrow> ('b, 'z) gtp_state_scheme res" where
  "gtp_exec E (Local_Create g type teid body) s =
     ebind (ogs_gtp_xact_local_create E g type teid body s) (\<lambda>(x, s). Inr s)"
| "gtp_exec E (Receive g type sqn) s =
     ebind (ogs_gtp_xact_receive E g type sqn s) (\<lambda>(rv, x, s). Inr s)"
| "gtp_exec E (Update_Tx x type teid body) s = ogs_gtp_xact_update_tx E x type teid body s"
| "gtp_exec E (Commit x) s = ogs_gtp_xact_commit E x s"
| "gtp_exec E (Associate x y) s = ogs_gtp_xact_associate x y s"
| "gtp_exec E (Response_Expires x) s = fire_response E x s"
| "gtp_exec E (Holding_Expires x) s = fire_holding E x s"
| "gtp_exec E (Node_Add f port a b c) s =
     ebind (ogs_gtp_node_add E [] f port a b c s) (\<lambda>(g, list, s). Inr s)"
| "gtp_exec E (Node_Connect g ipv4 ipv6) s = ebind (ogs_gtp_connect ipv4 ipv6 g s) (\<lambda>(rv, s). Inr s)"
| "gtp_exec E (Delete_All g) s = ogs_gtp_xact_delete_all E g s"
| "gtp_exec E (Node_Free g) s = ogs_gtp_node_free E g s"

definition gtp_init :: "'b gtp_state \<Rightarrow> bool" where
  "gtp_init s \<longleftrightarrow> gnodes s = Map.empty \<and> xacts s = Map.empty \<and> g_xact_id s = 0 \<and> sent s = [] \<and> destroyed s = []"

definition gtp_step :: "'b gtp_state \<Rightarrow> 'b gtp_state \<Rightarrow> bool" where
  "gtp_step s t \<longleftrightarrow> (\<exists>(E :: 'b gnode_env) c. gtp_env_ok E \<and> gtp_pre c s \<and> gtp_exec E c s = Inr t)"

lemma safe_gtp_exec:
  assumes E: "gtp_env_ok E" and inv: "gtp_inv s" and pre: "gtp_pre c s"
  shows "safe (gtp_exec E c s) gtp_inv"
proof (cases c)
  case (Local_Create g type teid body)
  then show ?thesis
    using pre by (auto intro!: safe_mono [OF safe_local_create [OF E inv, where D = "{}"]] simp: gtp_keeps_def)
next
  case (Receive g type sqn)
  then show ?thesis
    using pre by (auto intro!: safe_mono [OF safe_receive [OF E inv, where D = "{}"]] simp: gtp_keeps_def)
next
  case (Update_Tx x type teid body)
  then show ?thesis
    using pre by (auto intro!: safe_mono [OF safe_update_tx [OF inv, where D = "{}"]] simp: gtp_keeps_def)
next
  case (Commit x)
  then show ?thesis
    using pre by (auto intro!: safe_mono [OF safe_commit [OF E inv]] simp: gtp_keeps_def)
next
  case (Associate x y)
  then show ?thesis
    using pre by (auto intro!: safe_mono [OF safe_associate [OF inv, where D = "{}"]] simp: gtp_keeps_def)
next
  case (Response_Expires x)
  then show ?thesis
    by (auto intro!: safe_mono [OF safe_fire_response [OF E inv]] simp: gtp_keeps_def)
next
  case (Holding_Expires x)
  then show ?thesis
    by (auto intro!: safe_mono [OF safe_fire_holding [OF E inv]] simp: gtp_keeps_def)
next
  case (Node_Add f port no_ipv4 no_ipv6 prefer_ipv4)
  then show ?thesis by (auto intro!: safe_mono [OF safe_node_add [OF E inv]])
next
  case (Node_Connect g ipv4 ipv6)
  then show ?thesis
    using pre by (auto intro!: safe_mono [OF safe_connect [OF inv, where D = "{}"]] simp: gtp_keeps_def)
next
  case (Delete_All g)
  then show ?thesis using delete_all_ok [OF E inv] pre by (fastforce simp: gtp_keeps_def)
next
  case (Node_Free g)
  then show ?thesis using safe_mono [OF safe_node_free [OF E inv]] pre by auto
qed

interpretation gtp_runs: invariant_system gtp_init gtp_step "gtp_inv :: 'b gtp_state \<Rightarrow> bool"
proof unfold_locales
  fix s :: "'b gtp_state" assume "gtp_init s"
  then show "gtp_inv s" by (simp add: gtp_init_def gtp_inv_def xact_inv_def)
next
  fix s t :: "'b gtp_state" assume "gtp_inv s" and "gtp_step s t"
  then show "gtp_inv t" using safe_gtp_exec by (fastforce simp: gtp_step_def)
qed

subsection \<open>A small base library\<close>

text \<open>
  Pools of four objects with the lowest free index first, lists as in the base library, a network
  that takes every datagram: an environment to run the operations in.
\<close>

definition pool4 :: "(index \<rightharpoonup> 'a) \<Rightarrow> index option" where
  "pool4 m = find (\<lambda>i. m i = None) [1, 2, 3, 4]"

definition small_env :: "'b gnode_env" where
  "small_env = \<lparr>xact_alloc = pool4, node_alloc = pool4,
     next_id = (\<lambda>i mn mx. if i = mx then mn else i + 1),
     timer_add = (\<lambda>k i. Some None), list_add = (\<lambda>xs x. xs @ [x]), list_remove = (\<lambda>xs x. remove1 x xs),
     body_len = (\<lambda>_. 0), sendto_ok = (\<lambda>_ _. True),
     filter_ip_version = (\<lambda>addr _ _ _. addr), fill_scope_id = Some,
     ip_memcmp_eq = (\<lambda>a b n. take n (ip_union a) = take n (ip_union b))\<rparr>"

definition empty_state :: "'b gtp_state" where
  "empty_state = \<lparr>gnodes = Map.empty, xacts = Map.empty, g_xact_id = 0, sent = [], destroyed = []\<rparr>"

text \<open>A state with one connected peer, node 1.\<close>

definition peer_node :: gtp_node where
  "peer_node = (new_node [\<lparr>sa_family = AF_INET, sin_port = 0x4B08, sin_addr = [127, 0, 0, 1]\<rparr>])\<lparr>gn_sock := Some 1\<rparr>"

definition peer_state :: "'b gtp_state" where
  "peer_state = set_node 1 peer_node empty_state"

lemma pool4_free: "pool4 m = Some i \<Longrightarrow> m i = None \<and> i \<noteq> 0"
  by (auto simp: pool4_def split: if_splits)

lemma small_env_ok [simp]: "gtp_env_ok small_env"
  by (simp add: gtp_env_ok_def small_env_def pool4_free)

lemma empty_state_inv [simp]: "gtp_inv empty_state"
  by (simp add: gtp_inv_def xact_inv_def empty_state_def)

lemma peer_state_inv [simp]: "gtp_inv peer_state"
  using xact_inv_new_node [OF empty_state_inv [unfolded gtp_inv_def], of 1 peer_node]
  by (simp add: gtp_inv_def peer_state_def) (simp add: empty_state_def peer_node_def new_node_def)

end
