(* ===== verification/Gtp_Props.thy ===== *)
theory Gtp_Props
  imports Gtp_Node
begin

text \<open>
  What the transaction layer does: its safety over every sequence of calls, retransmission and its
  bound, the handling of duplicates, complete exchanges in both directions, removal of a peer, and
  the identifier range.
\<close>

subsection \<open>Retransmission\<close>

lemma armed_last:
  assumes "xact_wf xa" and "tm_response xa = Some (Some d)"
  obtains ty pk where "seq_last xa = Inr (ty, Some pk)"
proof -
  obtain t0 p0 t1 p1 t2 p2 where "x_seq xa = [(t0, p0), (t1, p1), (t2, p2)]"
    using xact_wf_seq [OF assms(1)] by metis
  then show thesis
    using assms that by (cases "x_org xa") (auto simp: xact_wf_def seq_last_def)
qed

lemma seq_last_update [simp]:
  "seq_last (xa\<lparr>tm_response := t\<rparr>) = seq_last xa" "seq_last (xa\<lparr>response_rcount := r\<rparr>) = seq_last xa"
  by (simp_all add: seq_last_def)

lemma fire_response_again:
  assumes inv: "gtp_inv s" and xa: "xacts s x = Some xa" and tm: "tm_response xa = Some (Some d)"
    and last: "seq_last xa = Inr (ty, Some pk)"
    and n: "gnodes s (x_gnode xa) = Some n" "gn_sock n \<noteq> None" "sendto_ok E n pk"
    and r: "response_rcount xa - 1 > 0"
  shows "fire_response E x s =
    Inr ((set_xact x (xa\<lparr>response_rcount := response_rcount xa - 1,
            tm_response := Some (Some GTP_T3_RESPONSE_DURATION)\<rparr>) s)\<lparr>sent := sent s @ [(x_gnode xa, pk)]\<rparr>)"
proof -
  have "x \<noteq> 0" "x_gnode xa \<noteq> 0" using gtp_inv_live [OF inv xa] by auto
  then show ?thesis
    using assms
    by (auto simp: fire_response_def response_timeout_def timer_start_def ogs_gtp_sendto_def
        Let_def set_xact_def)
qed

lemma fire_response_last:
  assumes inv: "gtp_inv s" and xa: "xacts s x = Some xa" and tm: "tm_response xa = Some (Some d)"
    and r: "response_rcount xa = 1"
  shows "fire_response E x s = ogs_gtp_xact_delete E x s"
proof -
  have "x \<noteq> 0" "x_gnode xa \<noteq> 0" using gtp_inv_live [OF inv xa] by auto
  then show ?thesis
    using xa tm r delete_set_xact [OF inv xa, of "xa\<lparr>tm_response := Some None, response_rcount := 0\<rparr>" E]
    by (simp add: fire_response_def response_timeout_def set_xact_def)
qed

lemma retransmission:
  assumes E: "gtp_env_ok E"
  shows "gtp_inv s \<Longrightarrow> xacts s x = Some xa \<Longrightarrow> tm_response xa = Some (Some d) \<Longrightarrow>
    seq_last xa = Inr (ty, Some pk) \<Longrightarrow> gnodes s (x_gnode xa) = Some n \<Longrightarrow> gn_sock n \<noteq> None \<Longrightarrow>
    sendto_ok E n pk \<Longrightarrow> unat (response_rcount xa) = r \<Longrightarrow>
    \<exists>t. ((\<lambda>m. ebind m (fire_response E x)) ^^ r) (Inr s) = Inr t \<and> xacts t x = None
      \<and> sent t = sent s @ replicate (r - 1) (x_gnode xa, pk)"
proof (induction r arbitrary: s xa d)
  case 0
  then show ?case using gtp_inv_live [of s x xa] by (auto simp: xact_wf_def unat_eq_zero)
next
  case (Suc r)
  show ?case
  proof (cases "r = 0")
    case True
    then have "response_rcount xa = 1" using Suc.prems(8) by (metis One_nat_def unat_1 word_unat_eq_iff)
    then show ?thesis
      using delete_shrinks [OF E Suc.prems(1), of x] Suc.prems True
      by (auto simp: fire_response_last [OF Suc.prems(1-3)] shrinks_def)
  next
    case False
    define xb where "xb = xa\<lparr>response_rcount := response_rcount xa - 1, tm_response := Some (Some GTP_T3_RESPONSE_DURATION)\<rparr>"
    have r: "unat (response_rcount xa - 1) = r"
      using Suc.prems(8) False unat_minus_one [of "response_rcount xa"] by fastforce
    then have "response_rcount xa - 1 > 0" using False by (auto simp: word_gt_0)
    then have fire: "fire_response E x s = Inr ((set_xact x xb s)\<lparr>sent := sent s @ [(x_gnode xa, pk)]\<rparr>)"
      unfolding xb_def by (rule fire_response_again [OF Suc.prems(1-7)])
    moreover have "gtp_inv ((set_xact x xb s)\<lparr>sent := sent s @ [(x_gnode xa, pk)]\<rparr>)"
      using safe_fire_response [OF E Suc.prems(1), of x] fire by (simp add: gtp_keeps_def)
    moreover have "seq_last xb = seq_last xa" "x_gnode xb = x_gnode xa" "unat (response_rcount xb) = r"
        "tm_response xb = Some (Some GTP_T3_RESPONSE_DURATION)"
      using r by (simp_all add: xb_def)
    ultimately have "\<exists>t. ((\<lambda>m. ebind m (fire_response E x)) ^^ r) (Inr ((set_xact x xb s)\<lparr>sent := sent s @ [(x_gnode xa, pk)]\<rparr>)) = Inr t
        \<and> xacts t x = None \<and> sent t = (sent s @ [(x_gnode xa, pk)]) @ replicate (r - 1) (x_gnode xa, pk)"
      using Suc.IH [of "(set_xact x xb s)\<lparr>sent := sent s @ [(x_gnode xa, pk)]\<rparr>" xb GTP_T3_RESPONSE_DURATION] Suc.prems by simp
    then show ?thesis
      using fire False by (cases r) (auto simp: funpow_Suc_right simp del: funpow.simps)
  qed
qed

subsection \<open>Exchanges\<close>

lemma sqn_xid: "xid < 2 ^ 24 \<Longrightarrow> OGS_GTP_SQN_TO_XID (OGS_GTP_XID_TO_SQN xid) = xid"
proof -
  assume small: "xid < 2 ^ 24"
  have "OGS_GTP_SQN_TO_XID (OGS_GTP_XID_TO_SQN xid) = take_bit 24 xid"
    by (rule bit_word_eqI) (auto simp: OGS_GTP_SQN_TO_XID_def OGS_GTP_XID_TO_SQN_def bit_simps)
  also have "\<dots> = xid" using small by (simp add: take_bit_eq_mask less_mask_eq)
  finally show ?thesis .
qed

lemma find_by_xid_remote:
  assumes inv: "gtp_inv s" and x: "xacts s x = Some xa" "x_org xa = OGS_GTP_REMOTE_ORIGINATOR"
    and stage: "ogs_gtp_xact_get_stage type (x_xid xa) = GTP_XACT_INITIAL_STAGE"
  shows "ogs_gtp_xact_find_by_xid (x_gnode xa) type (x_xid xa) s = Inr (Some x)"
proof -
  note inv' = inv [unfolded gtp_inv_def]
  obtain n where n: "gnodes s (x_gnode xa) = Some n" "x \<in> set (remote_list n)"
    using xact_inv_node [OF inv' x(1)] x(2) by (auto simp: remote_list_org)
  have live: "\<forall>y \<in> set (remote_list n). xacts s y \<noteq> None"
    using xact_inv_list [OF inv' n(1)] by (fastforce simp: remote_list_org)
  obtain y where y: "find (\<lambda>y. x_xid (the (xacts s y)) = x_xid xa) (remote_list n) = Some y"
    using n(2) x(1) by (cases "find (\<lambda>y. x_xid (the (xacts s y)) = x_xid xa) (remote_list n)")
      (auto simp: find_None_iff)
  then have "y \<in> set (remote_list n)" "x_xid (the (xacts s y)) = x_xid xa"
    by (auto simp: find_Some_iff)
  moreover from this obtain ya where "xacts s y = Some ya" "x_gnode ya = x_gnode xa" "x_org ya = OGS_GTP_REMOTE_ORIGINATOR"
    using xact_inv_list [OF inv' n(1), of y OGS_GTP_REMOTE_ORIGINATOR] by (auto simp: remote_list_org)
  ultimately have "y = x" using xact_inv_unique [OF inv' _ x(1)] x(2) by auto
  then show ?thesis
    using n stage y gtp_inv_live [OF inv x(1)]
    by (simp add: ogs_gtp_xact_find_by_xid_def list_find_total [OF live])
qed

text \<open>(C9) A request that is still held is not handed out again: the transaction layer returns
  \<^verbatim>\<open>OGS_RETRY\<close> for the transaction it has, leaves the message history and every other transaction
  alone and sends the answer again if there is one.\<close>

theorem duplicate_request:
  assumes inv: "gtp_inv s" and x: "xacts s x = Some xa" "x_org xa = OGS_GTP_REMOTE_ORIGINATOR"
    and sqn: "x_xid xa = OGS_GTP_SQN_TO_XID sqn"
    and stage: "ogs_gtp_xact_get_stage type (x_xid xa) = GTP_XACT_INITIAL_STAGE"
    and held: "fst (x_seq xa ! 0) = type" "x_step xa \<le> 2"
    and n: "gnodes s (x_gnode xa) = Some n" "gn_sock n \<noteq> None" "\<And>pk. sendto_ok E n pk"
  shows "\<exists>xb. ogs_gtp_xact_receive E (x_gnode xa) type sqn s =
      Inr (OGS_RETRY, x, (set_xact x xb s)\<lparr>sent := sent s @
        (case snd (x_seq xa ! 1) of None \<Rightarrow> [] | Some pk \<Rightarrow> [(x_gnode xa, pk)])\<rparr>)
    \<and> x_seq xb = x_seq xa \<and> x_step xb = x_step xa \<and> assoc_xact xb = assoc_xact xa"
proof -
  have live: "x \<noteq> 0" "x_gnode xa \<noteq> 0" and wf: "xact_wf xa" using gtp_inv_live [OF inv x(1)] by auto
  obtain t0 p0 t1 p1 t2 p2 where seq: "x_seq xa = [(t0, p0), (t1, p1), (t2, p2)]"
    using xact_wf_seq [OF wf] by metis
  have "x_step xa = 1 \<or> x_step xa = 2" using wf held(2) by (auto simp: xact_wf_def)
  moreover have "s = set_xact x xa s\<lparr>sent := sent s\<rparr>" using x(1) by (simp add: set_xact_def map_upd_triv)
  ultimately show ?thesis
    using live x n held seq find_by_xid_remote [OF inv x stage] sqn stage
    by (cases p1) (auto simp: ogs_gtp_xact_receive_def ogs_gtp_xact_update_rx_def xact_duplicated_def
        ogs_gtp_sendto_def Let_def intro: exI [of _ xa])
qed

lemma list_find_snoc:
  "\<forall>k \<in> set ks. \<exists>v. m k = Some v \<and> \<not> P v \<Longrightarrow> m x = Some w \<Longrightarrow> P w \<Longrightarrow> list_find m P (ks @ [x]) = Inr (Some x)"
  by (induction ks) auto

lemma set_org_list_remove:
  "x \<notin> set (org_list org n) \<Longrightarrow>
     set_org_list org (remove1 x (org_list org n @ [x])) (set_org_list org (org_list org n @ [x]) n) = n"
  by (cases org) (simp_all add: set_org_list_def org_list_def remove1_append)

lemma small_xid:
  assumes "xid AND GTP_MAX_XACT_ID = 0" "xid \<le> GTP_MAX_XACT_ID"
  shows "xid < 2 ^ 24"
  using assms(2) by (rule order.strict_trans1) (simp add: GTP_MAX_XACT_ID_def)

text \<open>The transaction of a request of ours once it is sent, and the state it is in.\<close>

definition asked_xact :: "u32 \<Rightarrow> index \<Rightarrow> u8 \<Rightarrow> 'b packet \<Rightarrow> 'b gtp_xact" where
  "asked_xact xid g req pk = (new_xact OGS_GTP_LOCAL_ORIGINATOR xid g (Some GTP_T3_RESPONSE_DURATION) None)
     \<lparr>x_seq := [(req, Some pk), (0, None), (0, None)], x_step := 1\<rparr>"

definition asked_state ::
  "index \<Rightarrow> index \<Rightarrow> gtp_node \<Rightarrow> u32 \<Rightarrow> u8 \<Rightarrow> 'b packet \<Rightarrow> ('b, 'z) gtp_state_scheme \<Rightarrow> ('b, 'z) gtp_state_scheme" where
  "asked_state x g n xid req pk s = s\<lparr>g_xact_id := xid, sent := sent s @ [(g, pk)],
     xacts := (xacts s)(x \<mapsto> asked_xact xid g req pk), gnodes := (gnodes s)(g \<mapsto> n\<lparr>local_list := local_list n @ [x]\<rparr>)\<rparr>"

lemma send_request:
  assumes E: "gtp_env_ok E" and g: "g \<noteq> 0" "gnodes s g = Some n"
    and send: "gn_sock n \<noteq> None" "sendto_ok E (n\<lparr>local_list := local_list n @ [x]\<rparr>) pk"
    and x: "xact_alloc E (xacts s) = Some x" "\<And>k. timer_add E k x \<noteq> None"
    and xid: "xid = (if g_xact_id s = GTP_MAX_XACT_ID then GTP_MIN_XACT_ID else g_xact_id s + 1)"
    and req: "ogs_gtp_xact_get_stage req xid = GTP_XACT_INITIAL_STAGE"
    and pk: "pk = GTPv2C (tx_header E req teid xid body) body"
  shows "ebind (ogs_gtp_xact_local_create E g req teid body s) (\<lambda>(x, s). ogs_gtp_xact_commit E x s)
    = Inr (asked_state x g n xid req pk s)"
    and "\<exists>s1. ogs_gtp_xact_local_create E g req teid body s = Inr (x, s1)"
proof -
  have fresh: "x \<noteq> 0" using env_xact_alloc [OF E x(1)] by auto
  have t: "timer_add E k x = Some None" for k
    using x(2) [of k] env_timer_add [OF E] by (cases "timer_add E k x") auto
  have type: "h_type (tx_header E req teid xid body) = req" by (simp add: tx_header_def)
  show "\<exists>s1. ogs_gtp_xact_local_create E g req teid body s = Inr (x, s1)"
    using g fresh x(1) t xid req E
    by (auto simp: ogs_gtp_xact_local_create_def ogs_gtp_xact_update_tx_def env_next_id Let_def new_xact_def replicate3)
  show "ebind (ogs_gtp_xact_local_create E g req teid body s) (\<lambda>(x, s). ogs_gtp_xact_commit E x s)
    = Inr (asked_state x g n xid req pk s)"
    using g fresh x(1) t xid req send E pk type
    by (auto simp: ogs_gtp_xact_local_create_def ogs_gtp_xact_update_tx_def env_next_id env_list_add set_xact_def set_node_def
        Let_def new_xact_def replicate3 ogs_gtp_xact_commit_def seq_last_def xact_send_last_def ogs_gtp_sendto_def
        timer_start_def asked_state_def asked_xact_def)
qed

lemma take_response:
  assumes E: "gtp_env_ok E" and g: "g \<noteq> 0" "gnodes s g = Some n" and x: "x \<noteq> 0" "xacts s x = None" "x \<notin> set (local_list n)"
    and xid: "xid AND GTP_MAX_XACT_ID = 0" "xid < 2 ^ 24"
    and unused: "\<forall>y \<in> set (local_list n). \<exists>ya. xacts s y = Some ya \<and> x_xid ya \<noteq> xid"
    and rsp: "ogs_gtp_xact_get_stage rsp xid = GTP_XACT_FINAL_STAGE"
  shows "\<exists>s3. ogs_gtp_xact_receive E g rsp (OGS_GTP_XID_TO_SQN xid) (asked_state x g n xid req pk s) = Inr (OGS_OK, x, s3)
    \<and> ogs_gtp_xact_commit E x s3 = Inr (s\<lparr>g_xact_id := xid, sent := sent s @ [(g, pk)]\<rparr>)"
proof -
  let ?s2 = "asked_state x g n xid req pk s"
  define xc where "xc = (asked_xact xid g req pk)\<lparr>tm_response := Some None, x_seq := [(req, Some pk), (rsp, None), (0, None)], x_step := 2\<rparr>"
  have "list_find (xacts ?s2) (\<lambda>xa. x_xid xa = xid) (local_list n @ [x]) = Inr (Some x)"
    using unused x by (intro list_find_snoc [where w = "asked_xact xid g req pk"])
      (auto simp: asked_state_def asked_xact_def new_xact_def)
  then have find: "ogs_gtp_xact_find_by_xid g rsp xid ?s2 = Inr (Some x)"
    using g rsp xid(1) by (simp add: ogs_gtp_xact_find_by_xid_def asked_state_def)
  have rx: "ogs_gtp_xact_receive E g rsp (OGS_GTP_XID_TO_SQN xid) ?s2 = Inr (OGS_OK, x, set_xact x xc ?s2)"
    using g x find rsp sqn_xid [OF xid(2)]
    by (simp add: ogs_gtp_xact_receive_def ogs_gtp_xact_update_rx_def xact_rx_done_def asked_state_def asked_xact_def
        xc_def new_xact_def timer_stop_def Let_def numeral_2_eq_2)
  have "ogs_gtp_xact_delete E x (set_xact x xc ?s2) = Inr (s\<lparr>g_xact_id := xid, sent := sent s @ [(g, pk)]\<rparr>)"
    using g x E
    by (simp add: ogs_gtp_xact_delete_def xc_def asked_state_def asked_xact_def new_xact_def set_node_def set_xact_def
        env_list_remove org_list_def set_org_list_def remove1_append fun_upd_idem)
  then have "ogs_gtp_xact_commit E x (set_xact x xc ?s2) = Inr (s\<lparr>g_xact_id := xid, sent := sent s @ [(g, pk)]\<rparr>)"
    using g x rsp by (simp add: ogs_gtp_xact_commit_def seq_last_def xc_def asked_xact_def new_xact_def)
  with rx show ?thesis by blast
qed

text \<open>A request of ours and its response: the request goes out once with the fresh sequence
  number, the response is matched to it, and committing it frees the transaction, which leaves the
  pools as they were.\<close>

theorem local_exchange:
  assumes E: "gtp_env_ok E" and inv: "gtp_inv s"
    and n: "gnodes s g = Some n" "gn_sock n \<noteq> None" "\<And>m pk. gn_sock m = gn_sock n \<Longrightarrow> sendto_ok E m pk"
    and x: "xact_alloc E (xacts s) = Some x" "\<And>k. timer_add E k x \<noteq> None"
    and xid: "xid = (if g_xact_id s = GTP_MAX_XACT_ID then GTP_MIN_XACT_ID else g_xact_id s + 1)"
      "xid AND GTP_MAX_XACT_ID = 0" "xid \<le> GTP_MAX_XACT_ID"
    and unused: "\<forall>y \<in> set (local_list n). \<exists>ya. xacts s y = Some ya \<and> x_xid ya \<noteq> xid"
    and req: "ogs_gtp_xact_get_stage req xid = GTP_XACT_INITIAL_STAGE"
    and rsp: "ogs_gtp_xact_get_stage rsp xid = GTP_XACT_FINAL_STAGE"
  shows "\<exists>s1 s2 s3 s4.
      ogs_gtp_xact_local_create E g req teid body s = Inr (x, s1)
    \<and> ogs_gtp_xact_commit E x s1 = Inr s2
    \<and> ogs_gtp_xact_receive E g rsp (OGS_GTP_XID_TO_SQN xid) s2 = Inr (OGS_OK, x, s3)
    \<and> ogs_gtp_xact_commit E x s3 = Inr s4
    \<and> sent s2 = sent s @ [(g, GTPv2C (tx_header E req teid xid body) body)]
    \<and> s4 = s\<lparr>g_xact_id := xid, sent := sent s2\<rparr>"
proof -
  define pk where "pk = GTPv2C (tx_header E req teid xid body) body"
  have fresh: "xacts s x = None" "x \<noteq> 0" using env_xact_alloc [OF E x(1)] by auto
  have g: "g \<noteq> 0" "x \<notin> set (local_list n)"
    using xact_inv_distinct [OF inv [unfolded gtp_inv_def] n(1)]
      xact_inv_list [OF inv [unfolded gtp_inv_def] n(1), of x OGS_GTP_LOCAL_ORIGINATOR] fresh(1)
    by (auto simp: local_list_org)
  have "sendto_ok E (n\<lparr>local_list := local_list n @ [x]\<rparr>) pk" using n(3) by simp
  note send = send_request [OF E g(1) n(1,2) this x xid(1) req pk_def]
  obtain s1 where s1: "ogs_gtp_xact_local_create E g req teid body s = Inr (x, s1)" using send(2) by auto
  obtain s3 where s3: "ogs_gtp_xact_receive E g rsp (OGS_GTP_XID_TO_SQN xid) (asked_state x g n xid req pk s) = Inr (OGS_OK, x, s3)"
      "ogs_gtp_xact_commit E x s3 = Inr (s\<lparr>g_xact_id := xid, sent := sent s @ [(g, pk)]\<rparr>)"
    using take_response [OF E g(1) n(1) fresh(2,1) g(2) xid(2) small_xid [OF xid(2,3)] unused rsp] by blast
  have s2: "ogs_gtp_xact_commit E x s1 = Inr (asked_state x g n xid req pk s)" using s1 send(1) by simp
  show ?thesis
    by (intro exI conjI, rule s1, rule s2, rule s3, rule s3) (simp_all add: asked_state_def pk_def)
qed

text \<open>A request of the peer and our response: the request opens a transaction, the response
  goes out under the peer's sequence number, the transaction stays for duplicates, and when the
  holding timer expires it is freed, which leaves the pools as they were.\<close>

theorem remote_exchange:
  fixes s :: "('b, 'z) gtp_state_scheme"
  assumes E: "gtp_env_ok E" and inv: "gtp_inv s"
    and n: "gnodes s g = Some n" "gn_sock n \<noteq> None" "\<And>m pk. gn_sock m = gn_sock n \<Longrightarrow> sendto_ok E m pk"
    and x: "xact_alloc E (xacts s) = Some x" "\<And>k. timer_add E k x \<noteq> None"
    and new: "ogs_gtp_xact_find_by_xid g req (OGS_GTP_SQN_TO_XID sqn) s = Inr None"
    and req: "ogs_gtp_xact_get_stage req (OGS_GTP_SQN_TO_XID sqn) = GTP_XACT_INITIAL_STAGE"
    and rsp: "ogs_gtp_xact_get_stage rsp (OGS_GTP_SQN_TO_XID sqn) = GTP_XACT_FINAL_STAGE"
  shows "\<exists>s1 s2 s3 s4.
      ogs_gtp_xact_receive E g req sqn s = Inr (OGS_OK, x, s1)
    \<and> ogs_gtp_xact_update_tx E x rsp teid body s1 = Inr s2
    \<and> ogs_gtp_xact_commit E x s2 = Inr s3
    \<and> fire_holding E x s3 = Inr s4
    \<and> s4 = s\<lparr>sent := sent s @ [(g, GTPv2C (tx_header E rsp teid (OGS_GTP_SQN_TO_XID sqn) body) body)]\<rparr>"
proof -
  define xid where "xid = OGS_GTP_SQN_TO_XID sqn"
  define pk where "pk = GTPv2C (tx_header E rsp teid xid body) body"
  have fresh: "xacts s x = None" "x \<noteq> 0" using env_xact_alloc [OF E x(1)] by auto
  have t: "timer_add E k x = Some None" for k
    using x(2) [of k] env_timer_add [OF E] by (cases "timer_add E k x") auto
  have g: "g \<noteq> 0" "x \<notin> set (remote_list n)"
    using xact_inv_distinct [OF inv [unfolded gtp_inv_def] n(1)]
      xact_inv_list [OF inv [unfolded gtp_inv_def] n(1), of x OGS_GTP_REMOTE_ORIGINATOR] fresh(1)
    by (auto simp: remote_list_org)
  have req0: "req \<noteq> 0" using req by (auto simp: ogs_gtp_xact_get_stage_def)
  define xa :: "'b gtp_xact" where "xa = (new_xact OGS_GTP_REMOTE_ORIGINATOR xid g None (Some GTP_T3_DUPLICATED_DURATION))
    \<lparr>x_seq := [(req, None), (0, None), (0, None)], x_step := Suc 0\<rparr>"
  define s1 where "s1 = s\<lparr>xacts := (xacts s)(x \<mapsto> xa), gnodes := (gnodes s)(g \<mapsto> n\<lparr>remote_list := remote_list n @ [x]\<rparr>)\<rparr>"
  define xb where "xb = xa\<lparr>x_seq := [(req, None), (rsp, Some pk), (0, None)], x_step := Suc (Suc 0)\<rparr>"
  have s1: "ogs_gtp_xact_receive E g req sqn s = Inr (OGS_OK, x, s1)"
    using fresh g x t n new req req0 E
    by (auto simp: ogs_gtp_xact_receive_def ogs_gtp_xact_remote_create_def ogs_gtp_xact_update_rx_def xact_rx_done_def
        new_xact_def replicate3 env_list_add timer_start_def timer_stop_def s1_def xa_def xid_def set_xact_def set_node_def Let_def)
  have s2: "ogs_gtp_xact_update_tx E x rsp teid body s1 = Inr (set_xact x xb s1)"
    using fresh g rsp by (simp add: ogs_gtp_xact_update_tx_def s1_def xa_def xb_def new_xact_def xid_def pk_def tx_header_def)
  have s3: "ogs_gtp_xact_commit E x (set_xact x xb s1) = Inr ((set_xact x xb s1)\<lparr>sent := sent s @ [(g, pk)]\<rparr>)"
    using fresh g rsp n
    by (auto simp: ogs_gtp_xact_commit_def seq_last_def xact_send_last_def ogs_gtp_sendto_def s1_def xa_def xb_def new_xact_def xid_def)
  have "fire_holding E x ((set_xact x xb s1)\<lparr>sent := sent s @ [(g, pk)]\<rparr>) = Inr (s\<lparr>sent := sent s @ [(g, pk)]\<rparr>)"
    using fresh g n(1) E
    by (simp add: fire_holding_def holding_timeout_def ogs_gtp_xact_delete_def s1_def xa_def xb_def new_xact_def set_xact_def
        set_node_def GTP_T3_DUPLICATED_RETRY_COUNT_def env_list_remove org_list_def set_org_list_def remove1_append fun_upd_idem)
  with s1 s2 s3 show ?thesis unfolding pk_def xid_def by blast
qed

subsection \<open>Evaluation of the small environment\<close>

lemmas small_env_simps = small_env_def pool4_def peer_state_def peer_node_def new_node_def empty_state_def set_node_def

lemma small_env_sel [simp]:
  "xact_alloc small_env = pool4" "node_alloc small_env = pool4" "timer_add small_env k i = Some None"
  "sendto_ok small_env n pk"
  by (simp_all add: small_env_def)

lemma peer_state_sel [simp]:
  "gnodes peer_state = [1 \<mapsto> peer_node]" "xacts peer_state = Map.empty" "g_xact_id peer_state = 0" "sent peer_state = []"
  "gn_sock peer_node = Some 1" "local_list peer_node = []" "remote_list peer_node = []"
  by (simp_all add: small_env_simps)

lemma request_stage:
  "ogs_gtp_xact_get_stage OGS_GTP_CREATE_SESSION_REQUEST_TYPE xid = GTP_XACT_INITIAL_STAGE"
  "ogs_gtp_xact_get_stage OGS_GTP_CREATE_SESSION_RESPONSE_TYPE xid = GTP_XACT_FINAL_STAGE"
  by (simp_all add: ogs_gtp_xact_get_stage_def)

theorem local_exchange_witness:
  "\<exists>s1 s2 s3 s4. ogs_gtp_xact_local_create small_env 1 32 7 () peer_state = Inr (1, s1)
    \<and> ogs_gtp_xact_commit small_env 1 s1 = Inr s2
    \<and> ogs_gtp_xact_receive small_env 1 33 (OGS_GTP_XID_TO_SQN 1) s2 = Inr (OGS_OK, 1, s3)
    \<and> ogs_gtp_xact_commit small_env 1 s3 = Inr s4
    \<and> sent s2 = [(1, GTPv2C (tx_header small_env 32 7 1 ()) ())] \<and> s4 = peer_state\<lparr>g_xact_id := 1, sent := sent s2\<rparr>"
  using local_exchange [of small_env peer_state 1 peer_node 1 1 32 33 7 "()"] request_stage
  by (simp add: pool4_def GTP_MAX_XACT_ID_def)

theorem remote_exchange_witness:
  "\<exists>s1 s2 s3 s4. ogs_gtp_xact_receive small_env 1 32 0x100 peer_state = Inr (OGS_OK, 1, s1)
    \<and> ogs_gtp_xact_update_tx small_env 1 33 7 () s1 = Inr s2
    \<and> ogs_gtp_xact_commit small_env 1 s2 = Inr s3
    \<and> fire_holding small_env 1 s3 = Inr s4
    \<and> s4 = peer_state\<lparr>sent := [(1, GTPv2C (tx_header small_env 33 7 (OGS_GTP_SQN_TO_XID 0x100) ()) ())]\<rparr>"
  using remote_exchange [of small_env peer_state 1 peer_node 1 32 "0x100" 33 7 "()"] request_stage
  by (simp add: pool4_def ogs_gtp_xact_find_by_xid_def)

text \<open>A request of the peer that waits for our response.\<close>

definition held_xact :: "unit gtp_xact" where
  "held_xact = (new_xact OGS_GTP_REMOTE_ORIGINATOR 1 1 None (Some GTP_T3_DUPLICATED_DURATION))
     \<lparr>x_seq := [(32, None), (0, None), (0, None)], x_step := 1\<rparr>"

definition held_state :: "unit gtp_state" where
  "held_state = peer_state\<lparr>xacts := [1 \<mapsto> held_xact], gnodes := [1 \<mapsto> peer_node\<lparr>remote_list := [1]\<rparr>]\<rparr>"

lemma held_state_inv: "gtp_inv held_state"
proof -
  have "xact_wf held_xact"
    by (rule xact_wf_new [where ty = 32 and pk = "GTPv2C undefined ()"]) (simp_all add: held_xact_def new_xact_def)
  moreover have "gtp_inv (peer_state :: unit gtp_state)" by simp
  ultimately show ?thesis
    using xact_inv_insert [of "[1 \<mapsto> peer_node]" Map.empty 1 1 peer_node held_xact]
    by (simp add: gtp_inv_def held_state_def held_xact_def new_xact_def set_org_list_def org_list_def)
qed

theorem duplicate_request_witness:
  "\<exists>xb. ogs_gtp_xact_receive small_env 1 32 (OGS_GTP_XID_TO_SQN 1) held_state =
      Inr (OGS_RETRY, 1, (set_xact 1 xb held_state)\<lparr>sent := []\<rparr>) \<and> x_step xb = 1"
proof -
  have "x_xid held_xact = OGS_GTP_SQN_TO_XID (OGS_GTP_XID_TO_SQN 1)"
    by (simp add: sqn_xid held_xact_def new_xact_def)
  then show ?thesis
    using duplicate_request [OF held_state_inv, of 1 held_xact "OGS_GTP_XID_TO_SQN 1" 32 "peer_node\<lparr>remote_list := [1]\<rparr>" small_env]
      request_stage
    by (simp add: held_state_def) (auto simp: held_xact_def new_xact_def)
qed

subsection \<open>Safety over all sequences of calls\<close>


definition sample_f_teid :: f_teid where
  "sample_f_teid = zero_f_teid\<lparr>ft_ipv4 := True, ft_teid := 7, ft_union := [127, 0, 0, 1] @ replicate 16 0\<rparr>"


text \<open>(C10) Retransmission ends: while no answer arrives, each expiry of the response timer sends the
  same message again, and the expiry that uses up the retry count frees the transaction. With the
  initial count of three the message is sent three times in all.\<close>

theorem response_retransmission:
  assumes "gtp_env_ok E" and "gtp_inv s" and "xacts s x = Some xa" and "tm_response xa = Some (Some d)"
    and "gnodes s (x_gnode xa) = Some n" and "gn_sock n \<noteq> None" and "\<And>pk. sendto_ok E n pk"
  shows "\<exists>ty pk t. seq_last xa = Inr (ty, Some pk)
    \<and> ((\<lambda>m. ebind m (fire_response E x)) ^^ unat (response_rcount xa)) (Inr s) = Inr t
    \<and> xacts t x = None \<and> sent t = sent s @ replicate (unat (response_rcount xa) - 1) (x_gnode xa, pk)"
proof -
  have "xact_wf xa" using gtp_inv_live [OF assms(2,3)] by simp
  then obtain ty pk where "seq_last xa = Inr (ty, Some pk)" using armed_last assms(4) by metis
  then show ?thesis using retransmission [OF assms(1-4) _ assms(5,6,7)] by blast
qed

lemma asked_state_inv:
  "gtp_inv (asked_state 1 1 peer_node 1 32 pk (peer_state :: 'b gtp_state))"
proof -
  have "xact_wf (asked_xact 1 1 32 pk)"
    by (simp add: xact_wf_def asked_xact_def new_xact_def GTP_T3_RESPONSE_RETRY_COUNT_def)
  moreover have "gtp_inv (peer_state :: 'b gtp_state)" by simp
  ultimately show ?thesis
    using xact_inv_insert [of "[1 \<mapsto> peer_node]" Map.empty 1 1 peer_node "asked_xact 1 1 32 pk"]
    by (simp add: gtp_inv_def asked_state_def asked_xact_def new_xact_def set_org_list_def org_list_def)
qed

theorem response_retransmission_witness:
  "\<exists>t. ((\<lambda>m. ebind m (fire_response small_env 1)) ^^ 3)
      (Inr (asked_state 1 1 peer_node 1 32 (GTPv1U 0 0 0 0 []) (peer_state :: unit gtp_state))) = Inr t
    \<and> xacts t 1 = None \<and> sent t = replicate 3 (1, GTPv1U 0 0 0 0 [])"
  (is "\<exists>t. _ (Inr ?s) = _ \<and> _")
proof -
  let ?xa = "asked_xact 1 1 32 (GTPv1U 0 0 0 0 []) :: unit gtp_xact"
  have xa: "xacts ?s 1 = Some ?xa" "tm_response ?xa = Some (Some GTP_T3_RESPONSE_DURATION)" "x_gnode ?xa = 1"
      "unat (response_rcount ?xa) = 3" "seq_last ?xa = Inr (32, Some (GTPv1U 0 0 0 0 []))"
    by (simp_all add: asked_state_def asked_xact_def new_xact_def seq_last_def GTP_T3_RESPONSE_RETRY_COUNT_def)
  have n: "gnodes ?s (x_gnode ?xa) = Some (peer_node\<lparr>local_list := [1]\<rparr>)" and sent: "sent ?s = [(1, GTPv1U 0 0 0 0 [])]"
    using xa(3) by (simp_all add: asked_state_def)
  show ?thesis
    using response_retransmission [OF small_env_ok asked_state_inv xa(1,2) n] sent
    unfolding xa(3-5) by (auto simp: numeral_3_eq_3)
qed

text \<open>Removing a peer's transactions always succeeds: both lists of the node are empty after it,
  exactly its transactions are freed and the partner of each forgets it; the lists of the other
  nodes are unchanged.\<close>

theorem delete_all_spec:
  assumes E: "gtp_env_ok E" and inv: "gtp_inv s" and n: "gnodes s g = Some n"
  shows "\<exists>t m. ogs_gtp_xact_delete_all E g s = Inr t \<and> gtp_inv t
    \<and> gnodes t g = Some m \<and> local_list m = [] \<and> remote_list m = []
    \<and> dom (xacts t) = {x \<in> dom (xacts s). x_gnode (the (xacts s x)) \<noteq> g}
    \<and> (\<forall>h. h \<noteq> g \<longrightarrow> gnodes t h = gnodes s h)"
proof -
  note inv' = inv [unfolded gtp_inv_def]
  let ?X = "set (local_list n) \<union> set (remote_list n)"
  obtain t m where t: "ogs_gtp_xact_delete_all E g s = Inr t" "gtp_keeps ?X s t" "shrinks ?X s t"
      "gnodes t g = Some m" "local_list m = []" "remote_list m = []"
    using delete_all_ok [OF E inv n] by blast
  have X: "x \<in> ?X \<longleftrightarrow> x_gnode xa = g" if "xacts s x = Some xa" for x xa
  proof
    assume "x \<in> ?X"
    then show "x_gnode xa = g"
      using that xact_inv_list [OF inv' n, of x OGS_GTP_LOCAL_ORIGINATOR] xact_inv_list [OF inv' n, of x OGS_GTP_REMOTE_ORIGINATOR]
      by (auto simp: local_list_org remote_list_org)
  next
    assume "x_gnode xa = g"
    then show "x \<in> ?X"
      using xact_inv_node [OF inv' that] n by (cases "x_org xa") (auto simp: org_list_def)
  qed
  have "strip_node ?X k = k" if "gnodes s h = Some k" "h \<noteq> g" for h k
  proof (rule strip_node_id)
    have "x \<notin> ?X" if "x \<in> set (org_list org k)" for x org
      using xact_inv_list [OF inv' \<open>gnodes s h = Some k\<close> that] X \<open>h \<noteq> g\<close> by auto
    then show "set (local_list k) \<inter> ?X = {}" "set (remote_list k) \<inter> ?X = {}"
      by (auto simp: local_list_org remote_list_org)
  qed
  then have "\<forall>h. h \<noteq> g \<longrightarrow> gnodes t h = gnodes s h"
    using t(3) by (auto simp: shrinks_def intro!: option.map_ident_strong)
  moreover have "dom (xacts t) = {x \<in> dom (xacts s). x_gnode (the (xacts s x)) \<noteq> g}"
  proof -
    have "dom (xacts t) = {x \<in> dom (xacts s). x \<notin> ?X}" using t(3) by (auto simp: shrinks_def)
    then show ?thesis using X by (force simp: dom_def)
  qed
  ultimately show ?thesis using t by (auto simp: gtp_keeps_def)
qed

theorem delete_all_spec_witness:
  "\<exists>t m. ogs_gtp_xact_delete_all small_env 1 held_state = Inr t \<and> gnodes t 1 = Some m \<and> remote_list m = [] \<and> 1 \<notin> dom (xacts t)"
  using delete_all_spec [OF small_env_ok held_state_inv, of 1 "peer_node\<lparr>remote_list := [1]\<rparr>"]
  by (auto simp: held_state_def held_xact_def new_xact_def)

subsection \<open>Limits of the identifier range\<close>

text \<open>The range of our transaction identifiers ends at \<^verbatim>\<open>0x800000\<close>, whose top bit is the mark of
  a transaction the peer started: the first Create, Update or Delete Bearer Request that draws it
  takes the branch of the intermediate stage and aborts the process.\<close>

theorem last_xid_aborts:
  assumes E: "gtp_env_ok E" and "g_xact_id s = GTP_MAX_XACT_ID - 1" and "gnodes s g \<noteq> None" "g \<noteq> 0"
    and "type \<in> {OGS_GTP_CREATE_BEARER_REQUEST_TYPE, OGS_GTP_UPDATE_BEARER_REQUEST_TYPE, OGS_GTP_DELETE_BEARER_REQUEST_TYPE}"
  shows "ogs_gtp_xact_local_create E g type teid body s = Inl Assert_Failed"
proof -
  obtain n where n: "gnodes s g = Some n" using assms(3) by auto
  have id: "next_id E (g_xact_id s) GTP_MIN_XACT_ID GTP_MAX_XACT_ID = 0x800000"
    using assms(2) by (simp add: env_next_id [OF E] GTP_MAX_XACT_ID_def)
  have stage: "ogs_gtp_xact_get_stage type 0x800000 = GTP_XACT_INTERMEDIATE_STAGE"
    using assms(5) by (auto simp: ogs_gtp_xact_get_stage_def GTP_MAX_XACT_ID_def)
  show ?thesis
    using n assms(4)
    by (cases "xact_alloc E (xacts s)"; cases "timer_add E Response_Timer (the (xact_alloc E (xacts s)))";
        cases "timer_add E Holding_Timer (the (xact_alloc E (xacts s)))")
      (auto simp: ogs_gtp_xact_local_create_def ogs_gtp_xact_update_tx_def id stage new_xact_def Let_def dest: env_xact_alloc [OF E])
qed

theorem last_xid_aborts_witness:
  "ogs_gtp_xact_local_create small_env 1 95 7 () (peer_state\<lparr>g_xact_id := 0x7FFFFF\<rparr>) = Inl Assert_Failed"
  using last_xid_aborts [OF small_env_ok, of "peer_state\<lparr>g_xact_id := 0x7FFFFF\<rparr>" 1 95 7 "()"]
  by (simp add: GTP_MAX_XACT_ID_def)

text \<open>(C36) A response that matches no transaction, one that comes after the last retransmission for
  example, aborts the process: a transaction is opened for it and the step it is in is asserted.\<close>

theorem late_response_aborts:
  assumes E: "gtp_env_ok E" and g: "gnodes s g \<noteq> None" "g \<noteq> 0"
    and none: "ogs_gtp_xact_find_by_xid g type (OGS_GTP_SQN_TO_XID sqn) s = Inr None"
    and stage: "ogs_gtp_xact_get_stage type (OGS_GTP_SQN_TO_XID sqn) = GTP_XACT_FINAL_STAGE"
  shows "ogs_gtp_xact_receive E g type sqn s = Inl Assert_Failed"
proof -
  obtain n where n: "gnodes s g = Some n" using g(1) by auto
  show ?thesis
    using n g(2) none stage
    by (cases "xact_alloc E (xacts s)"; cases "timer_add E Response_Timer (the (xact_alloc E (xacts s)))";
        cases "timer_add E Holding_Timer (the (xact_alloc E (xacts s)))")
      (auto simp: ogs_gtp_xact_receive_def ogs_gtp_xact_remote_create_def ogs_gtp_xact_update_rx_def new_xact_def Let_def
        dest: env_xact_alloc [OF E])
qed

theorem late_response_aborts_witness:
  "ogs_gtp_xact_receive small_env 1 33 0 (peer_state :: unit gtp_state) = Inl Assert_Failed"
proof (rule late_response_aborts)
  show "ogs_gtp_xact_find_by_xid 1 33 (OGS_GTP_SQN_TO_XID 0) (peer_state :: unit gtp_state) = Inr None"
    by (simp add: ogs_gtp_xact_find_by_xid_def request_stage)
qed (simp_all add: request_stage)

text \<open>Sequence numbers carry a transaction identifier of at most 24 bits unchanged.\<close>

lemma sqn_xid_round_trip:
  "xid < 2 ^ 24 \<Longrightarrow> OGS_GTP_SQN_TO_XID (OGS_GTP_XID_TO_SQN xid) = xid"
  by (rule sqn_xid)

lemma sqn_xid_round_trip_instance: "OGS_GTP_SQN_TO_XID (OGS_GTP_XID_TO_SQN 0x123456) = 0x123456"
  using sqn_xid_round_trip [of "0x123456"] by simp

subsection \<open>Peers and echo\<close>

text \<open>A node that was added for an F-TEID is found by it, where the comparison of two equal
  addresses succeeds and no earlier node of the list has the address.\<close>

theorem node_find_after_add:
  assumes E: "gtp_env_ok E" and inv: "gtp_inv s"
    and refl: "\<And>ip. ip_memcmp_eq E ip ip (ip_len ip)"
    and none: "ogs_gtp_node_find E list f s = Inr None"
    and add: "ogs_gtp_node_add E list f port no_ipv4 no_ipv6 prefer_ipv4 s = Inr (g, list', t)"
  shows "ogs_gtp_node_find E list' f t = Inr (Some g)"
proof -
  have "gnodes s g = None \<and> list' = list @ [g] \<and> (\<exists>n. gnodes t = (gnodes s)(g \<mapsto> n) \<and> ogs_gtp_f_teid_to_ip f = Inr (gn_ip n))"
    using safe_node_add [OF E inv, of list f port no_ipv4 no_ipv6 prefer_ipv4] add by auto
  then obtain n where n: "gnodes s g = None" "list' = list @ [g]" "gnodes t = (gnodes s)(g \<mapsto> n)"
      "ogs_gtp_f_teid_to_ip f = Inr (gn_ip n)" by auto
  have "\<exists>v. gnodes t h = Some v \<and> \<not> ip_memcmp_eq E (gn_ip v) (gn_ip n) (ip_len (gn_ip n))" if "h \<in> set list" for h
    using list_find_None [of "gnodes s" _ list h] none that n by (auto simp: ogs_gtp_node_find_def)
  then show ?thesis
    using n refl by (simp add: ogs_gtp_node_find_def) (intro list_find_snoc [where w = n], auto)
qed

theorem node_find_after_add_witness:
  "\<exists>t. ogs_gtp_node_add small_env [] sample_f_teid 2123 False False False (empty_state :: unit gtp_state) = Inr (1, [1], t)
    \<and> ogs_gtp_node_find small_env [1] sample_f_teid t = Inr (Some 1)"
proof -
  obtain t where t: "ogs_gtp_node_add small_env [] sample_f_teid 2123 False False False (empty_state :: unit gtp_state) = Inr (1, [1], t)"
    by (simp add: ogs_gtp_node_add_def ogs_gtp_f_teid_to_sockaddr_def ogs_gtp_f_teid_to_ip_def sample_f_teid_def zero_f_teid_def
        ogs_gtp_node_new_def small_env_simps)
  have "ogs_gtp_node_find small_env [] sample_f_teid (empty_state :: unit gtp_state) = Inr None"
    by (simp add: ogs_gtp_node_find_def ogs_gtp_f_teid_to_ip_def sample_f_teid_def zero_f_teid_def)
  then have "ogs_gtp_node_find small_env [1] sample_f_teid t = Inr (Some 1)"
    using node_find_after_add [OF small_env_ok empty_state_inv _ _ t] by (simp add: small_env_def)
  with t show ?thesis by blast
qed

text \<open>The reply to a GTP-U echo request: an echo response with the version and protocol bits, the
  optional fields the request had with their values, a Recovery element, and a length field that
  counts the octets after the eight of the header. The sequence number is the one of the request.\<close>

theorem echo_response:
  assumes "length pkb = 12" and "drop_bit 5 (pkb ! 0) = 1" and "pkb ! 1 = OGS_GTPU_MSGTYPE_ECHO_REQ"
    and "pkb ! 0 AND OGS_GTPU_FLAGS_S \<noteq> 0"
  shows "\<exists>rsp. ogs_gtp_handle_echo_req pkb = Inr (Some rsp) \<and> length rsp = 14
    \<and> drop_bit 4 (rsp ! 0) = 3 \<and> rsp ! 1 = OGS_GTPU_MSGTYPE_ECHO_RSP
    \<and> word16 (drop 2 rsp) = htons (of_nat (length rsp - 8))
    \<and> take 4 (drop 4 rsp) = [0, 0, 0, 0] \<and> take 2 (drop 8 rsp) = take 2 (drop 8 pkb)"
proof -
  have "0 < length pkb" "1 < length pkb" "8 < length pkb" "9 < length pkb" "10 < length pkb" using assms(1) by simp_all
  moreover have "pkb ! 0 AND (OGS_GTPU_FLAGS_PN OR OGS_GTPU_FLAGS_S) \<noteq> 0"
    using assms(4) by (metis and.assoc and_zero_eq bit.conj_disj_distrib or_eq_0_iff)
  moreover have "take 2 (drop 8 pkb) = [pkb ! 8, pkb ! 9]"
    using assms(1) by (simp add: take_Suc_conv_app_nth numeral_2_eq_2 Suc_le_eq)
  ultimately show ?thesis
    using assms
    by (auto simp: ogs_gtp_handle_echo_req_def Let_def OGS_GTPU_FLAGS_PN_def OGS_GTPU_FLAGS_S_def bytes16_def word16_def htons_def)
qed

theorem echo_response_witness:
  "\<exists>rsp. ogs_gtp_handle_echo_req [0x32, 1, 0, 4, 0, 0, 0, 0, 0xAB, 0xCD, 0, 0] = Inr (Some rsp)
    \<and> take 2 (drop 8 rsp) = [0xAB, 0xCD]"
  using echo_response [of "[0x32, 1, 0, 4, 0, 0, 0, 0, 0xAB, 0xCD, 0, 0]"]
  by (auto simp: OGS_GTPU_FLAGS_S_def)

end
