(* ===== verification/Gtp_Message.thy ===== *)
theory Gtp_Message
  imports Gtp_Node
begin

text \<open>
  The GTPv2-C messages the serving gateway takes part in, after \<^verbatim>\<open>src/lib/gtp/message.h\<close>. An
  information element that may be absent (\<^verbatim>\<open>presence\<close>) is an option; an F-TEID and a cause are
  their structures; every record ends with the elements that are passed on unread. The message
  structure of the code is a header and a union over the message type: here the body carries its
  type. Encoding into type-length-value form is the work of generated tables and of the base
  library and is left to the environment.
\<close>

abbreviation (input) "OGS_GTP_CAUSE_REQUEST_ACCEPTED \<equiv> (16::u8)"
abbreviation (input) "OGS_GTP_CAUSE_CONTEXT_NOT_FOUND \<equiv> (64::u8)"

abbreviation (input) "OGS_GTP_F_TEID_S1_U_SGW_GTP_U \<equiv> (1::u8)"
abbreviation (input) "OGS_GTP_F_TEID_S5_S8_SGW_GTP_U \<equiv> (4::u8)"
abbreviation (input) "OGS_GTP_F_TEID_S5_S8_PGW_GTP_U \<equiv> (5::u8)"
abbreviation (input) "OGS_GTP_F_TEID_S5_S8_SGW_GTP_C \<equiv> (6::u8)"
abbreviation (input) "OGS_GTP_F_TEID_S11_S4_SGW_GTP_C \<equiv> (11::u8)"
abbreviation (input) "OGS_GTP_F_TEID_SGW_GTP_U_FOR_DL_DATA_FORWARDING \<equiv> (23::u8)"
abbreviation (input) "OGS_GTP_F_TEID_SGW_GTP_U_FOR_UL_DATA_FORWARDING \<equiv> (28::u8)"

definition GTP_MAX_NUM_OF_INDIRECT_TUNNEL :: nat where
  "GTP_MAX_NUM_OF_INDIRECT_TUNNEL = 11"

record bearer_context =
  eps_bearer_id :: "u8 option"
  bc_cause :: "u8 option"
  s1_u_enodeb_f_teid :: "f_teid option"
  s4_u_sgsn_f_teid :: "f_teid option"
  s5_s8_u_sgw_f_teid :: "f_teid option"
  s5_s8_u_pgw_f_teid :: "f_teid option"
  s12_rnc_f_teid :: "f_teid option"
  s2b_u_epdg_f_teid_5 :: "f_teid option"
  bc_rest :: "u8 list"

definition zero_bearer_context :: bearer_context where
  "zero_bearer_context = \<lparr>eps_bearer_id = None, bc_cause = None, s1_u_enodeb_f_teid = None, s4_u_sgsn_f_teid = None,
     s5_s8_u_sgw_f_teid = None, s5_s8_u_pgw_f_teid = None, s12_rnc_f_teid = None, s2b_u_epdg_f_teid_5 = None, bc_rest = []\<rparr>"

record create_session_request =
  csq_imsi :: "u8 list option"
  csq_access_point_name :: "u8 list option"
  csq_sender_f_teid :: "f_teid option"
  csq_pgw_address :: "f_teid option"
  csq_user_location_information :: "u8 list option"
  csq_bearer_contexts :: "bearer_context option"
  csq_rest :: "u8 list"

record create_session_response =
  csp_sender_f_teid :: "f_teid option"
  csp_pgw_s5c_f_teid :: "f_teid option"
  csp_bearer_contexts :: "bearer_context option"
  csp_rest :: "u8 list"

record modify_bearer_request =
  mbq_bearer_contexts :: "bearer_context option"
  mbq_user_location_information :: "u8 list option"
  mbq_rest :: "u8 list"

record delete_session_request =
  dsq_linked_eps_bearer_id :: "u8 option"
  dsq_rest :: "u8 list"

record delete_session_response =
  dsp_cause :: "u8 option"
  dsp_rest :: "u8 list"

record create_bearer_request =
  cbq_linked_eps_bearer_id :: "u8 option"
  cbq_bearer_contexts :: "bearer_context option"
  cbq_rest :: "u8 list"

record create_bearer_response =
  cbp_bearer_contexts :: "bearer_context option"
  cbp_user_location_information :: "u8 list option"
  cbp_rest :: "u8 list"

record bearer_message =
  bm_bearer_contexts :: "bearer_context option"
  bm_rest :: "u8 list"

record delete_bearer_request =
  dbq_linked_eps_bearer_id :: "u8 option"
  dbq_eps_bearer_ids :: "u8 option"
  dbq_rest :: "u8 list"

datatype gtp_body =
    Create_Session_Request create_session_request
  | Create_Session_Response create_session_response
  | Modify_Bearer_Request modify_bearer_request
  | Modify_Bearer_Response u8
  | Delete_Session_Request delete_session_request
  | Delete_Session_Response delete_session_response
  | Create_Bearer_Request create_bearer_request
  | Create_Bearer_Response create_bearer_response
  | Update_Bearer_Request bearer_message
  | Update_Bearer_Response bearer_message
  | Delete_Bearer_Request delete_bearer_request
  | Delete_Bearer_Response bearer_message
  | Release_Access_Bearers_Request
  | Release_Access_Bearers_Response u8
  | Downlink_Data_Notification u8 u8
  | Downlink_Data_Notification_Acknowledge
  | Create_Indirect_Tunnel_Request "bearer_context option list"
  | Create_Indirect_Tunnel_Response u8 "bearer_context option list"
  | Delete_Indirect_Tunnel_Request
  | Delete_Indirect_Tunnel_Response u8
  | Other_Message u8 "u8 list"

fun body_type :: "gtp_body \<Rightarrow> u8" where
  "body_type (Create_Session_Request _) = OGS_GTP_CREATE_SESSION_REQUEST_TYPE"
| "body_type (Create_Session_Response _) = OGS_GTP_CREATE_SESSION_RESPONSE_TYPE"
| "body_type (Modify_Bearer_Request _) = OGS_GTP_MODIFY_BEARER_REQUEST_TYPE"
| "body_type (Modify_Bearer_Response _) = OGS_GTP_MODIFY_BEARER_RESPONSE_TYPE"
| "body_type (Delete_Session_Request _) = OGS_GTP_DELETE_SESSION_REQUEST_TYPE"
| "body_type (Delete_Session_Response _) = OGS_GTP_DELETE_SESSION_RESPONSE_TYPE"
| "body_type (Create_Bearer_Request _) = OGS_GTP_CREATE_BEARER_REQUEST_TYPE"
| "body_type (Create_Bearer_Response _) = OGS_GTP_CREATE_BEARER_RESPONSE_TYPE"
| "body_type (Update_Bearer_Request _) = OGS_GTP_UPDATE_BEARER_REQUEST_TYPE"
| "body_type (Update_Bearer_Response _) = OGS_GTP_UPDATE_BEARER_RESPONSE_TYPE"
| "body_type (Delete_Bearer_Request _) = OGS_GTP_DELETE_BEARER_REQUEST_TYPE"
| "body_type (Delete_Bearer_Response _) = OGS_GTP_DELETE_BEARER_RESPONSE_TYPE"
| "body_type Release_Access_Bearers_Request = OGS_GTP_RELEASE_ACCESS_BEARERS_REQUEST_TYPE"
| "body_type (Release_Access_Bearers_Response _) = OGS_GTP_RELEASE_ACCESS_BEARERS_RESPONSE_TYPE"
| "body_type (Downlink_Data_Notification _ _) = OGS_GTP_DOWNLINK_DATA_NOTIFICATION_TYPE"
| "body_type Downlink_Data_Notification_Acknowledge = OGS_GTP_DOWNLINK_DATA_NOTIFICATION_ACKNOWLEDGE_TYPE"
| "body_type (Create_Indirect_Tunnel_Request _) = OGS_GTP_CREATE_INDIRECT_DATA_FORWARDING_TUNNEL_REQUEST_TYPE"
| "body_type (Create_Indirect_Tunnel_Response _ _) = OGS_GTP_CREATE_INDIRECT_DATA_FORWARDING_TUNNEL_RESPONSE_TYPE"
| "body_type Delete_Indirect_Tunnel_Request = OGS_GTP_DELETE_INDIRECT_DATA_FORWARDING_TUNNEL_REQUEST_TYPE"
| "body_type (Delete_Indirect_Tunnel_Response _) = OGS_GTP_DELETE_INDIRECT_DATA_FORWARDING_TUNNEL_RESPONSE_TYPE"
| "body_type (Other_Message t _) = t"

text \<open>A parsed message: the header fields the gateway reads, with the TEID in host order.\<close>

record gtp_message =
  m_teid :: u32
  m_sqn :: u32
  m_body :: gtp_body

end
