(* ===== verification/Ownership.thy ===== *)
theory Ownership
  imports Prelude
begin

text \<open>
  Object pools of the base library and the tree structure the contexts build over them: an object
  keeps the list of the objects it owns, each of which points back to it. The contract of such a
  pair of pools is the locale \<open>ownership\<close>, whose lemmas say what adding, removing and updating keep.
\<close>

subsection \<open>Pools\<close>

text \<open>
  A pool is an array of objects and the set of the allocated ones. Memory is not cleared, neither
  when an object is allocated nor when it is freed.
\<close>

record 'a pool =
  pool_mem :: "index \<Rightarrow> 'a"
  pool_live :: "index set"

definition objs :: "'a pool \<Rightarrow> index \<rightharpoonup> 'a" where
  "objs p i = (if i \<in> pool_live p then Some (pool_mem p i) else None)"

definition pool_alloc :: "(index set \<Rightarrow> index option) \<Rightarrow> 'a pool \<Rightarrow> (index \<times> 'a pool) option" where
  "pool_alloc pick p =
     (case pick (pool_live p) of
        None \<Rightarrow> None
      | Some i \<Rightarrow> Some (i, p\<lparr>pool_live := insert i (pool_live p)\<rparr>))"

definition pool_free :: "index \<Rightarrow> 'a pool \<Rightarrow> 'a pool" where
  "pool_free i p = p\<lparr>pool_live := pool_live p - {i}\<rparr>"

definition pool_set :: "index \<Rightarrow> 'a \<Rightarrow> 'a pool \<Rightarrow> 'a pool" where
  "pool_set i v p = p\<lparr>pool_mem := (pool_mem p)(i := v)\<rparr>"

lemma objs_live: "pool_live p = dom (objs p)"
  by (auto simp: objs_def dom_def)

lemma objs_set [simp]: "objs p i \<noteq> None \<Longrightarrow> objs (pool_set i v p) = (objs p)(i \<mapsto> v)"
  by (auto simp: objs_def pool_set_def split: if_splits)

lemma objs_free [simp]: "objs (pool_free i p) = (objs p)(i := None)"
  by (auto simp: objs_def pool_free_def)

lemma objs_alloc: "objs (p\<lparr>pool_live := insert i (pool_live p)\<rparr>) = (objs p)(i \<mapsto> pool_mem p i)"
  by (auto simp: objs_def fun_eq_iff)

lemma pool_mem_free [simp]: "pool_mem (pool_free i p) = pool_mem p"
  by (simp add: pool_free_def)

lemma pool_mem_objs: "objs p i = Some v \<Longrightarrow> pool_mem p i = v"
  by (auto simp: objs_def split: if_splits)

definition pick_ok :: "(index set \<Rightarrow> index option) \<Rightarrow> bool" where
  "pick_ok pick \<longleftrightarrow> (\<forall>L i. pick L = Some i \<longrightarrow> i \<notin> L \<and> i \<noteq> 0)"

text \<open>An allocator of four slots, for evaluation.\<close>

definition pick4 :: "index set \<Rightarrow> index option" where
  "pick4 L = find (\<lambda>i. i \<notin> L) [1, 2, 3, 4]"

lemma pick4_ok: "pick_ok pick4"
  by (auto simp: pick_ok_def pick4_def split: if_splits)

lemma pool_alloc_SomeD:
  assumes "pick_ok pick" and "pool_alloc pick p = Some (i, q)"
  shows "objs p i = None" "i \<noteq> 0" "objs q = (objs p)(i \<mapsto> pool_mem p i)" "pool_mem q = pool_mem p"
  using assms by (auto simp: pool_alloc_def pick_ok_def objs_alloc objs_def split: option.splits)

lemma pool_alloc_facts:
  "pool_alloc pick p = Some (i, q) \<Longrightarrow> pick_ok pick \<Longrightarrow>
     objs p i = None \<and> i \<noteq> 0 \<and> objs q = (objs p)(i \<mapsto> pool_mem p i) \<and> pool_mem q = pool_mem p"
  using pool_alloc_SomeD by blast

lemma pool_set_free [simp]: "pool_set i v (pool_set i w p) = pool_set i v p"
  by (simp add: pool_set_def)

lemma pool_set_same: "objs p i = Some v \<Longrightarrow> pool_set i v p = p"
  by (auto simp: pool_set_def objs_def split: if_splits)

lemma objs_minus: "objs (p\<lparr>pool_live := pool_live p - A\<rparr>) = objs p |` (- A)"
  by (auto simp: objs_def restrict_map_def)

lemma restrict_map_eqI: "(\<And>k v. m k = Some v \<Longrightarrow> k \<in> A \<longleftrightarrow> k \<in> B) \<Longrightarrow> m |` A = m |` B"
proof (rule ext)
  fix k assume "\<And>k v. m k = Some v \<Longrightarrow> k \<in> A \<longleftrightarrow> k \<in> B"
  then show "(m |` A) k = (m |` B) k" by (cases "m k") (auto simp: restrict_map_def)
qed

subsection \<open>Owners and their children\<close>

definition owns :: "('p \<Rightarrow> index list) \<Rightarrow> ('c \<Rightarrow> index) \<Rightarrow> (index \<rightharpoonup> 'p) \<Rightarrow> (index \<rightharpoonup> 'c) \<Rightarrow> bool" where
  "owns kids parent P C \<longleftrightarrow>
     (\<forall>p pv. P p = Some pv \<longrightarrow> distinct (kids pv) \<and> (\<forall>c \<in> set (kids pv). \<exists>cv. C c = Some cv \<and> parent cv = p))
   \<and> (\<forall>c cv. C c = Some cv \<longrightarrow> (\<exists>pv. P (parent cv) = Some pv \<and> c \<in> set (kids pv)))"

locale ownership =
  fixes kids :: "'p \<Rightarrow> index list"
    and set_kids :: "index list \<Rightarrow> 'p \<Rightarrow> 'p"
    and parent :: "'c \<Rightarrow> index"
  assumes kids_set: "kids (set_kids l p) = l"
begin

lemma owns_kid: "owns kids parent P C \<Longrightarrow> P p = Some pv \<Longrightarrow> c \<in> set (kids pv) \<Longrightarrow> \<exists>cv. C c = Some cv \<and> parent cv = p"
  by (simp add: owns_def)

lemma owns_distinct: "owns kids parent P C \<Longrightarrow> P p = Some pv \<Longrightarrow> distinct (kids pv)"
  by (simp add: owns_def)

lemma owns_parent: "owns kids parent P C \<Longrightarrow> C c = Some cv \<Longrightarrow> \<exists>pv. P (parent cv) = Some pv \<and> c \<in> set (kids pv)"
  by (simp add: owns_def)

lemma ownsI:
  assumes "\<And>p pv. P p = Some pv \<Longrightarrow> distinct (kids pv)"
    and "\<And>p pv c. P p = Some pv \<Longrightarrow> c \<in> set (kids pv) \<Longrightarrow> \<exists>cv. C c = Some cv \<and> parent cv = p"
    and "\<And>c cv. C c = Some cv \<Longrightarrow> \<exists>pv. P (parent cv) = Some pv \<and> c \<in> set (kids pv)"
  shows "owns kids parent P C"
  using assms by (simp add: owns_def)

lemma owns_set_parent:
  assumes own: "owns kids parent P C" and p: "P p = Some pv" "kids pv' = kids pv"
  shows "owns kids parent (P(p \<mapsto> pv')) C"
proof (rule ownsI)
  fix q qv assume "(P(p \<mapsto> pv')) q = Some qv"
  then show "distinct (kids qv)" using owns_distinct [OF own] p by (auto split: if_splits)
next
  fix q qv c assume "(P(p \<mapsto> pv')) q = Some qv" "c \<in> set (kids qv)"
  then show "\<exists>cv. C c = Some cv \<and> parent cv = q" using owns_kid [OF own] p by (auto split: if_splits)
next
  fix c cv assume "C c = Some cv"
  then show "\<exists>pv''. (P(p \<mapsto> pv')) (parent cv) = Some pv'' \<and> c \<in> set (kids pv'')"
    using owns_parent [OF own] p by fastforce
qed

lemma owns_set_child:
  assumes own: "owns kids parent P C" and c: "C c = Some cv" "parent cv' = parent cv"
  shows "owns kids parent P (C(c \<mapsto> cv'))"
proof (rule ownsI)
  fix q qv d assume "P q = Some qv" "d \<in> set (kids qv)"
  then show "\<exists>dv. (C(c \<mapsto> cv')) d = Some dv \<and> parent dv = q" using owns_kid [OF own] c by fastforce
next
  fix d dv assume "(C(c \<mapsto> cv')) d = Some dv"
  then show "\<exists>pv. P (parent dv) = Some pv \<and> d \<in> set (kids pv)"
    using owns_parent [OF own] c by (auto split: if_splits)
qed (use owns_distinct [OF own] in blast)

lemma owns_new_parent:
  assumes own: "owns kids parent P C" and p: "P p = None" "kids pv = []"
  shows "owns kids parent (P(p \<mapsto> pv)) C"
proof (rule ownsI)
  fix q qv assume "(P(p \<mapsto> pv)) q = Some qv"
  then show "distinct (kids qv)" using owns_distinct [OF own] p by (auto split: if_splits)
next
  fix q qv c assume "(P(p \<mapsto> pv)) q = Some qv" "c \<in> set (kids qv)"
  then show "\<exists>cv. C c = Some cv \<and> parent cv = q" using owns_kid [OF own] p by (auto split: if_splits)
next
  fix c cv assume "C c = Some cv"
  then show "\<exists>pv'. (P(p \<mapsto> pv)) (parent cv) = Some pv' \<and> c \<in> set (kids pv')"
    using owns_parent [OF own] p by fastforce
qed

lemma owns_free_parent:
  assumes own: "owns kids parent P C" and p: "P p = Some pv" "kids pv = []"
  shows "owns kids parent (P(p := None)) C"
proof (rule ownsI)
  fix q qv assume "(P(p := None)) q = Some qv"
  then show "distinct (kids qv)" using owns_distinct [OF own] by (auto split: if_splits)
next
  fix q qv c assume "(P(p := None)) q = Some qv" "c \<in> set (kids qv)"
  then show "\<exists>cv. C c = Some cv \<and> parent cv = q" using owns_kid [OF own] by (auto split: if_splits)
next
  fix c cv assume "C c = Some cv"
  then show "\<exists>pv'. (P(p := None)) (parent cv) = Some pv' \<and> c \<in> set (kids pv')"
    using owns_parent [OF own] p by fastforce
qed

lemma owns_add_child:
  assumes own: "owns kids parent P C" and p: "P p = Some pv" and c: "C c = None" "parent cv = p"
  shows "owns kids parent (P(p \<mapsto> set_kids (kids pv @ [c]) pv)) (C(c \<mapsto> cv))"
proof -
  have notin: "c \<notin> set (kids qv)" if "P q = Some qv" for q qv
    using owns_kid [OF own that, of c] c by auto
  show ?thesis
    unfolding owns_def
  proof (intro conjI allI impI)
    fix q qv assume "(P(p \<mapsto> set_kids (kids pv @ [c]) pv)) q = Some qv"
    then show "distinct (kids qv)" "\<forall>d \<in> set (kids qv). \<exists>dv. (C(c \<mapsto> cv)) d = Some dv \<and> parent dv = q"
      using owns_distinct [OF own] owns_kid [OF own] notin p c by (auto simp: kids_set split: if_splits)
  next
    fix d dv assume "(C(c \<mapsto> cv)) d = Some dv"
    then show "\<exists>qv. (P(p \<mapsto> set_kids (kids pv @ [c]) pv)) (parent dv) = Some qv \<and> d \<in> set (kids qv)"
      using owns_parent [OF own, of d dv] p c by (cases "d = c"; cases "parent dv = p") (auto simp: kids_set)
  qed
qed

lemma owns_remove_child:
  assumes own: "owns kids parent P C" and c: "C c = Some cv" and p: "P (parent cv) = Some pv"
  shows "owns kids parent (P(parent cv \<mapsto> set_kids (remove1 c (kids pv)) pv)) (C(c := None))"
  unfolding owns_def
proof (intro conjI allI impI)
  fix q qv assume q: "(P(parent cv \<mapsto> set_kids (remove1 c (kids pv)) pv)) q = Some qv"
  show "distinct (kids qv)"
    using q owns_distinct [OF own] p by (auto simp: kids_set split: if_splits)
  show "\<forall>d \<in> set (kids qv). \<exists>dv. (C(c := None)) d = Some dv \<and> parent dv = q"
  proof
    fix d assume d: "d \<in> set (kids qv)"
    have "d \<noteq> c"
      using q d c p owns_distinct [OF own p] owns_kid [OF own, of q qv c] by (auto simp: kids_set split: if_splits)
    moreover obtain rv where "P q = Some rv" "d \<in> set (kids rv)"
      using q d p set_remove1_subset [of c "kids pv"] by (auto simp: kids_set split: if_splits)
    ultimately show "\<exists>dv. (C(c := None)) d = Some dv \<and> parent dv = q"
      using owns_kid [OF own] by auto
  qed
next
  fix d dv assume "(C(c := None)) d = Some dv"
  then have "d \<noteq> c" "C d = Some dv" by (auto split: if_splits)
  then show "\<exists>qv. (P(parent cv \<mapsto> set_kids (remove1 c (kids pv)) pv)) (parent dv) = Some qv \<and> d \<in> set (kids qv)"
    using owns_parent [OF own, of d dv] p by (cases "parent dv = parent cv") (auto simp: kids_set)
qed

text \<open>Once the list of a parent is empty, no child points to it.\<close>

lemma owns_no_child: "owns kids parent P C \<Longrightarrow> P p = Some pv \<Longrightarrow> kids pv = [] \<Longrightarrow> C c = Some cv \<Longrightarrow> parent cv \<noteq> p"
  using owns_parent by fastforce

text \<open>Cutting a set of owners with all they own.\<close>

lemma owns_restrict:
  assumes own: "owns kids parent P C"
  shows "owns kids parent (P |` A) (C |` {c. \<forall>cv. C c = Some cv \<longrightarrow> parent cv \<in> A})"
  unfolding owns_def
proof (intro conjI allI impI)
  fix p pv assume p: "(P |` A) p = Some pv"
  then have "P p = Some pv" "p \<in> A" by (auto simp: restrict_map_def split: if_splits)
  then show "distinct (kids pv)"
    "\<forall>c \<in> set (kids pv). \<exists>cv. (C |` {c. \<forall>cv. C c = Some cv \<longrightarrow> parent cv \<in> A}) c = Some cv \<and> parent cv = p"
    using owns_distinct [OF own] owns_kid [OF own] by (fastforce simp: restrict_map_def)+
next
  fix c cv assume "(C |` {c. \<forall>cv. C c = Some cv \<longrightarrow> parent cv \<in> A}) c = Some cv"
  then have "C c = Some cv" "parent cv \<in> A" by (auto simp: restrict_map_def split: if_splits)
  then show "\<exists>pv. (P |` A) (parent cv) = Some pv \<and> c \<in> set (kids pv)"
    using owns_parent [OF own] by (auto simp: restrict_map_def)
qed

lemma owns_free_child_of_none:
  assumes own: "owns kids parent P C" and "P p = Some pv"
  shows "{c. \<exists>cv. C c = Some cv \<and> parent cv = p} = set (kids pv)"
  using owns_kid [OF own assms(2)] owns_parent [OF own] assms(2) by fastforce

end

end
