(* ===== verification/Sgw_Context.thy ===== *)
theory Sgw_Context
  imports Gtp_Message Ownership
begin

text \<open>
  The contexts of the serving gateway, \<^verbatim>\<open>src/src/sgw/sgw-context.c\<close>: users own sessions, sessions
  own bearers, bearers own GTP-U tunnels, each in a pool of its own. The pools do not clear memory,
  so an added object keeps whatever its slot held except for the fields the code sets.

  The base library and the configuration are the environment \<open>sgw_env\<close>: the allocators, the string
  helpers, the event pool and queue, the sizes of the fixed arrays, the contents of a new packet
  buffer. The YAML configuration reader is
  not modelled; the addresses and sockets it leads to are fields of the state.
\<close>

subsection \<open>State\<close>

record sgw_ue =
  sgw_s11_teid :: u32
  mme_s11_teid :: u32
  imsi :: "u8 list"
  imsi_len :: nat
  imsi_bcd :: string
  ue_state :: u32
  sess_list :: "index list"
  ue_gnode :: "index option"

record sgw_sess =
  sgw_s5c_teid :: u32
  pgw_s5c_teid :: u32
  apn :: string
  bearer_list :: "index list"
  sess_gnode :: "index option"
  sess_ue :: index

text \<open>An entry of \<^verbatim>\<open>buffered_pkts\<close> is a packet or a pointer that is not valid.\<close>

record sgw_bearer =
  ebi :: u8
  b_tai :: tai
  b_e_cgi :: e_cgi
  num_buffered_pkt :: nat
  buffered_pkts :: "gtp_body packet option list"
  tunnel_list :: "index list"
  b_sess :: index
  b_ue :: index

record sgw_tunnel =
  interface_type :: u8
  local_teid :: u32
  remote_teid :: u32
  t_bearer :: index
  t_gnode :: "index option"

definition MAX_NUM_OF_PACKET_BUFFER :: nat where "MAX_NUM_OF_PACKET_BUFFER = 512"
definition SGW_S1U_INACTIVE :: u32 where "SGW_S1U_INACTIVE = 1"
definition SGW_DL_NOTI_SENT :: u32 where "SGW_DL_NOTI_SENT = 2"

definition SGW_SET_UE_STATE :: "u32 \<Rightarrow> sgw_ue \<Rightarrow> sgw_ue" where
  "SGW_SET_UE_STATE st ue = ue\<lparr>ue_state := ue_state ue OR st\<rparr>"

definition SGW_RESET_UE_STATE :: "u32 \<Rightarrow> sgw_ue \<Rightarrow> sgw_ue" where
  "SGW_RESET_UE_STATE st ue = ue\<lparr>ue_state := ue_state ue AND NOT st\<rparr>"

definition SGW_S5C_TEID :: "u32 \<Rightarrow> u32" where
  "SGW_S5C_TEID teid = teid AND 0x80000000"

definition SGW_S5C_TEID_TO_INDEX :: "u32 \<Rightarrow> u32" where
  "SGW_S5C_TEID_TO_INDEX teid = teid AND NOT 0x80000000"

definition SGW_S5C_INDEX_TO_TEID :: "u32 \<Rightarrow> u32" where
  "SGW_S5C_INDEX_TO_TEID i = i OR 0x80000000"

datatype sgw_event =
    SGW_EVT_S11_MESSAGE "gtp_message option"
  | SGW_EVT_S5C_MESSAGE "gtp_message option"
  | SGW_EVT_LO_DLDATA_NOTI index

record sgw_state = "gtp_body gtp_state" +
  ues :: "sgw_ue pool"
  sesss :: "sgw_sess pool"
  bearers :: "sgw_bearer pool"
  tunnels :: "sgw_tunnel pool"
  sgw_ue_list :: "index list"
  mme_s11_list :: "index list"
  pgw_s5c_list :: "index list"
  enb_s1u_list :: "index list"
  pgw_s5u_list :: "index list"
  gtpc_port :: u32
  gtpu_port :: u32
  gtpc_sock :: "index option"
  gtpc_sock6 :: "index option"
  gtpc_addr :: "ogs_sockaddr option"
  gtpc_addr6 :: "ogs_sockaddr option"
  gtpu_sock :: "index option"
  gtpu_sock6 :: "index option"
  gtpu_addr :: "ogs_sockaddr option"
  gtpu_addr6 :: "ogs_sockaddr option"
  queue :: "sgw_event list"
  replies :: "(ogs_sockaddr \<times> u8 list) list"

record sgw_env = "gtp_body gnode_env" +
  ue_pick :: "index set \<Rightarrow> index option"
  sess_pick :: "index set \<Rightarrow> index option"
  bearer_pick :: "index set \<Rightarrow> index option"
  tunnel_pick :: "index set \<Rightarrow> index option"
  max_ue :: u32
  max_tunnel :: u32
  max_imsi_len :: nat
  max_apn_len :: nat
  buffer_to_bcd :: "u8 list \<Rightarrow> string"
  fqdn_parse :: "u8 list \<Rightarrow> string"
  no_ipv4 :: bool
  no_ipv6 :: bool
  prefer_ipv4 :: bool
  build_ok :: "gtp_body \<Rightarrow> bool"
  event_new_ok :: "sgw_event list \<Rightarrow> bool"
  queue_push_ok :: "sgw_event list \<Rightarrow> bool"
  union_view :: "gtp_body \<Rightarrow> create_session_request"
  raw_bytes :: "nat \<Rightarrow> u8 list"

text \<open>What the code relies on: fresh indices from the allocators, and the laws of the GTP library's environment.\<close>

definition sgw_env_ok :: "sgw_env \<Rightarrow> bool" where
  "sgw_env_ok E \<longleftrightarrow> gtp_env_ok E \<and> pick_ok (ue_pick E) \<and> pick_ok (sess_pick E) \<and> pick_ok (bearer_pick E)
     \<and> pick_ok (tunnel_pick E)"

definition set_ue :: "index \<Rightarrow> sgw_ue \<Rightarrow> sgw_state \<Rightarrow> sgw_state" where
  "set_ue u v s = s\<lparr>ues := pool_set u v (ues s)\<rparr>"

definition set_sess :: "index \<Rightarrow> sgw_sess \<Rightarrow> sgw_state \<Rightarrow> sgw_state" where
  "set_sess x v s = s\<lparr>sesss := pool_set x v (sesss s)\<rparr>"

definition set_bearer :: "index \<Rightarrow> sgw_bearer \<Rightarrow> sgw_state \<Rightarrow> sgw_state" where
  "set_bearer b v s = s\<lparr>bearers := pool_set b v (bearers s)\<rparr>"

definition set_tunnel :: "index \<Rightarrow> sgw_tunnel \<Rightarrow> sgw_state \<Rightarrow> sgw_state" where
  "set_tunnel t v s = s\<lparr>tunnels := pool_set t v (tunnels s)\<rparr>"

abbreviation "get_ue s \<equiv> deref (objs (ues s))"
abbreviation "get_sess s \<equiv> deref (objs (sesss s))"
abbreviation "get_bearer s \<equiv> deref (objs (bearers s))"
abbreviation "get_tunnel s \<equiv> deref (objs (tunnels s))"

text \<open>A pointer field that may be null, as an argument.\<close>

definition ptr :: "index option \<Rightarrow> index" where
  "ptr p = (case p of None \<Rightarrow> 0 | Some i \<Rightarrow> i)"

subsection \<open>Tunnels\<close>

definition sgw_tunnel_add :: "sgw_env \<Rightarrow> index \<Rightarrow> u8 \<Rightarrow> sgw_state \<Rightarrow> (index \<times> sgw_state) res" where
  "sgw_tunnel_add E b iface s =
     ebind (ogs_assert (b \<noteq> 0)) (\<lambda>_.
     ebind (non_null (pool_alloc (tunnel_pick E) (tunnels s))) (\<lambda>(t, p).
     let s = s\<lparr>tunnels := p\<rparr> in
     ebind (get_tunnel s t) (\<lambda>tu.
     let tu = tu\<lparr>interface_type := iface, local_teid := t\<rparr> in
     ebind (ogs_assert (local_teid tu > 0 \<and> local_teid tu \<le> max_tunnel E)) (\<lambda>_.
     let s = set_tunnel t (tu\<lparr>t_bearer := b, t_gnode := None\<rparr>) s in
     ebind (get_bearer s b) (\<lambda>be.
     Inr (t, set_bearer b (be\<lparr>tunnel_list := list_add E (tunnel_list be) t\<rparr>) s))))))"

definition sgw_tunnel_remove :: "sgw_env \<Rightarrow> index \<Rightarrow> sgw_state \<Rightarrow> sgw_state res" where
  "sgw_tunnel_remove E t s =
     ebind (ogs_assert (t \<noteq> 0)) (\<lambda>_.
     ebind (get_tunnel s t) (\<lambda>tu.
     ebind (ogs_assert (t_bearer tu \<noteq> 0)) (\<lambda>_.
     ebind (get_bearer s (t_bearer tu)) (\<lambda>be.
     let s = set_bearer (t_bearer tu) (be\<lparr>tunnel_list := list_remove E (tunnel_list be) t\<rparr>) s in
     Inr (s\<lparr>tunnels := pool_free t (tunnels s)\<rparr>)))))"

fun tunnel_remove_each :: "sgw_env \<Rightarrow> index list \<Rightarrow> sgw_state \<Rightarrow> sgw_state res" where
  "tunnel_remove_each E [] s = Inr s"
| "tunnel_remove_each E (t # ts) s = ebind (sgw_tunnel_remove E t s) (tunnel_remove_each E ts)"

definition sgw_tunnel_remove_all :: "sgw_env \<Rightarrow> index \<Rightarrow> sgw_state \<Rightarrow> sgw_state res" where
  "sgw_tunnel_remove_all E b s =
     ebind (ogs_assert (b \<noteq> 0)) (\<lambda>_.
     ebind (get_bearer s b) (\<lambda>be. tunnel_remove_each E (tunnel_list be) s))"

definition sgw_tunnel_find_by_teid :: "u32 \<Rightarrow> sgw_state \<Rightarrow> index option" where
  "sgw_tunnel_find_by_teid teid s = (if objs (tunnels s) teid = None then None else Some teid)"

definition sgw_tunnel_find_by_interface_type :: "index \<Rightarrow> u8 \<Rightarrow> sgw_state \<Rightarrow> index option res" where
  "sgw_tunnel_find_by_interface_type b iface s =
     ebind (ogs_assert (b \<noteq> 0)) (\<lambda>_.
     ebind (get_bearer s b) (\<lambda>be.
     list_find (objs (tunnels s)) (\<lambda>tu. interface_type tu = iface) (tunnel_list be)))"

definition sgw_s1u_tunnel_in_bearer :: "index \<Rightarrow> sgw_state \<Rightarrow> index option res" where
  "sgw_s1u_tunnel_in_bearer b s = sgw_tunnel_find_by_interface_type b OGS_GTP_F_TEID_S1_U_SGW_GTP_U s"

definition sgw_s5u_tunnel_in_bearer :: "index \<Rightarrow> sgw_state \<Rightarrow> index option res" where
  "sgw_s5u_tunnel_in_bearer b s = sgw_tunnel_find_by_interface_type b OGS_GTP_F_TEID_S5_S8_SGW_GTP_U s"

subsection \<open>Bearers\<close>

definition sgw_bearer_add :: "sgw_env \<Rightarrow> index \<Rightarrow> sgw_state \<Rightarrow> (index \<times> sgw_state) res" where
  "sgw_bearer_add E x s =
     ebind (ogs_assert (x \<noteq> 0)) (\<lambda>_.
     ebind (get_sess s x) (\<lambda>se.
     ebind (ogs_assert (sess_ue se \<noteq> 0)) (\<lambda>_.
     ebind (non_null (pool_alloc (bearer_pick E) (bearers s))) (\<lambda>(b, p).
     let s = s\<lparr>bearers := p\<rparr> in
     ebind (get_bearer s b) (\<lambda>be.
     let s = set_bearer b (be\<lparr>b_ue := sess_ue se, b_sess := x, tunnel_list := []\<rparr>) s in
     ebind (sgw_tunnel_add E b OGS_GTP_F_TEID_S1_U_SGW_GTP_U s) (\<lambda>(_, s).
     ebind (sgw_tunnel_add E b OGS_GTP_F_TEID_S5_S8_SGW_GTP_U s) (\<lambda>(_, s).
     ebind (get_sess s x) (\<lambda>se.
     Inr (b, set_sess x (se\<lparr>bearer_list := list_add E (bearer_list se) b\<rparr>) s)))))))))"

text \<open>\<^verbatim>\<open>ogs_pkbuf_free(bearer->buffered_pkts[i])\<close> for each index: the pointer is not valid afterwards.\<close>

fun buffer_free_each :: "nat list \<Rightarrow> 'p option list \<Rightarrow> 'p option list res" where
  "buffer_free_each [] pks = Inr pks"
| "buffer_free_each (i # is) pks =
     ebind (array_read pks i) (\<lambda>e.
     case e of
       None \<Rightarrow> Inl Dangling_Pointer
     | Some _ \<Rightarrow> buffer_free_each is (pks[i := None]))"

definition sgw_bearer_remove :: "sgw_env \<Rightarrow> index \<Rightarrow> sgw_state \<Rightarrow> sgw_state res" where
  "sgw_bearer_remove E b s =
     ebind (ogs_assert (b \<noteq> 0)) (\<lambda>_.
     ebind (get_bearer s b) (\<lambda>be.
     ebind (ogs_assert (b_sess be \<noteq> 0)) (\<lambda>_.
     ebind (get_sess s (b_sess be)) (\<lambda>se.
     let s = set_sess (b_sess be) (se\<lparr>bearer_list := list_remove E (bearer_list se) b\<rparr>) s in
     ebind (sgw_tunnel_remove_all E b s) (\<lambda>s.
     ebind (get_bearer s b) (\<lambda>be.
     ebind (buffer_free_each [0..<num_buffered_pkt be] (buffered_pkts be)) (\<lambda>pks.
     let s = set_bearer b (be\<lparr>buffered_pkts := pks\<rparr>) s in
     Inr (s\<lparr>bearers := pool_free b (bearers s)\<rparr>))))))))"

fun bearer_remove_each :: "sgw_env \<Rightarrow> index list \<Rightarrow> sgw_state \<Rightarrow> sgw_state res" where
  "bearer_remove_each E [] s = Inr s"
| "bearer_remove_each E (b # bs) s = ebind (sgw_bearer_remove E b s) (bearer_remove_each E bs)"

definition sgw_bearer_remove_all :: "sgw_env \<Rightarrow> index \<Rightarrow> sgw_state \<Rightarrow> sgw_state res" where
  "sgw_bearer_remove_all E x s =
     ebind (ogs_assert (x \<noteq> 0)) (\<lambda>_.
     ebind (get_sess s x) (\<lambda>se. bearer_remove_each E (bearer_list se) s))"

definition sgw_bearer_find_by_sgw_s5u_teid :: "u32 \<Rightarrow> sgw_state \<Rightarrow> index option" where
  "sgw_bearer_find_by_sgw_s5u_teid teid s = (if objs (bearers s) teid = None then None else Some teid)"

definition sgw_bearer_find_by_sess_ebi :: "index \<Rightarrow> u8 \<Rightarrow> sgw_state \<Rightarrow> index option res" where
  "sgw_bearer_find_by_sess_ebi x e s =
     ebind (ogs_assert (x \<noteq> 0)) (\<lambda>_.
     ebind (get_sess s x) (\<lambda>se. list_find (objs (bearers s)) (\<lambda>be. e = ebi be) (bearer_list se)))"

fun bearer_find_in_sessions :: "index list \<Rightarrow> u8 \<Rightarrow> sgw_state \<Rightarrow> index option res" where
  "bearer_find_in_sessions [] e s = Inr None"
| "bearer_find_in_sessions (x # xs) e s =
     ebind (sgw_bearer_find_by_sess_ebi x e s) (\<lambda>r.
     case r of Some b \<Rightarrow> Inr (Some b) | None \<Rightarrow> bearer_find_in_sessions xs e s)"

definition sgw_bearer_find_by_ue_ebi :: "index \<Rightarrow> u8 \<Rightarrow> sgw_state \<Rightarrow> index option res" where
  "sgw_bearer_find_by_ue_ebi u e s =
     ebind (get_ue s u) (\<lambda>ue. bearer_find_in_sessions (sess_list ue) e s)"

definition sgw_default_bearer_in_sess :: "index \<Rightarrow> sgw_state \<Rightarrow> index option res" where
  "sgw_default_bearer_in_sess x s =
     ebind (ogs_assert (x \<noteq> 0)) (\<lambda>_.
     ebind (get_sess s x) (\<lambda>se. Inr (case bearer_list se of [] \<Rightarrow> None | b # _ \<Rightarrow> Some b)))"

subsection \<open>Sessions\<close>

definition sgw_sess_add :: "sgw_env \<Rightarrow> index \<Rightarrow> string \<Rightarrow> u8 \<Rightarrow> sgw_state \<Rightarrow> (index \<times> sgw_state) res" where
  "sgw_sess_add E u a e s =
     ebind (ogs_assert (u \<noteq> 0)) (\<lambda>_.
     ebind (ogs_assert (e \<noteq> 0)) (\<lambda>_.
     ebind (non_null (pool_alloc (sess_pick E) (sesss s))) (\<lambda>(x, p).
     let s = s\<lparr>sesss := p\<rparr> in
     ebind (get_sess s x) (\<lambda>se.
     let s = set_sess x (se\<lparr>sgw_s5c_teid := SGW_S5C_INDEX_TO_TEID x, apn := take (max_apn_len E) a,
           sess_ue := u, sess_gnode := None, bearer_list := []\<rparr>) s in
     ebind (sgw_bearer_add E x s) (\<lambda>(b, s).
     ebind (get_bearer s b) (\<lambda>be.
     let s = set_bearer b (be\<lparr>ebi := e\<rparr>) s in
     ebind (get_ue s u) (\<lambda>ue.
     Inr (x, set_ue u (ue\<lparr>sess_list := list_add E (sess_list ue) x\<rparr>) s))))))))"

definition sgw_sess_remove :: "sgw_env \<Rightarrow> index \<Rightarrow> sgw_state \<Rightarrow> sgw_state res" where
  "sgw_sess_remove E x s =
     ebind (ogs_assert (x \<noteq> 0)) (\<lambda>_.
     ebind (get_sess s x) (\<lambda>se.
     ebind (ogs_assert (sess_ue se \<noteq> 0)) (\<lambda>_.
     ebind (get_ue s (sess_ue se)) (\<lambda>ue.
     let s = set_ue (sess_ue se) (ue\<lparr>sess_list := list_remove E (sess_list ue) x\<rparr>) s in
     ebind (sgw_bearer_remove_all E x s) (\<lambda>s.
     Inr (s\<lparr>sesss := pool_free x (sesss s)\<rparr>))))))"

fun sess_remove_each :: "sgw_env \<Rightarrow> index list \<Rightarrow> sgw_state \<Rightarrow> sgw_state res" where
  "sess_remove_each E [] s = Inr s"
| "sess_remove_each E (x # xs) s = ebind (sgw_sess_remove E x s) (sess_remove_each E xs)"

definition sgw_sess_remove_all :: "sgw_env \<Rightarrow> index \<Rightarrow> sgw_state \<Rightarrow> sgw_state res" where
  "sgw_sess_remove_all E u s = ebind (get_ue s u) (\<lambda>ue. sess_remove_each E (sess_list ue) s)"

definition sgw_sess_find_by_teid :: "u32 \<Rightarrow> sgw_state \<Rightarrow> index option" where
  "sgw_sess_find_by_teid teid s =
     (let i = SGW_S5C_TEID_TO_INDEX teid in if objs (sesss s) i = None then None else Some i)"

definition sgw_sess_find_by_apn :: "index \<Rightarrow> string \<Rightarrow> sgw_state \<Rightarrow> index option res" where
  "sgw_sess_find_by_apn u a s =
     ebind (get_ue s u) (\<lambda>ue. list_find (objs (sesss s)) (\<lambda>se. apn se = a) (sess_list ue))"

definition sgw_sess_find_by_ebi :: "index \<Rightarrow> u8 \<Rightarrow> sgw_state \<Rightarrow> index option res" where
  "sgw_sess_find_by_ebi u e s =
     ebind (sgw_bearer_find_by_ue_ebi u e s) (\<lambda>r.
     case r of
       None \<Rightarrow> Inr None
     | Some b \<Rightarrow> ebind (get_bearer s b) (\<lambda>be. Inr (Some (b_sess be))))"

subsection \<open>Users\<close>

definition sgw_ue_add :: "sgw_env \<Rightarrow> u8 list \<Rightarrow> sgw_state \<Rightarrow> (index \<times> sgw_state) res" where
  "sgw_ue_add E bytes s =
     ebind (ogs_assert (length bytes \<noteq> 0)) (\<lambda>_.
     ebind (non_null (pool_alloc (ue_pick E) (ues s))) (\<lambda>(u, p).
     let s = s\<lparr>ues := p\<rparr> in
     ebind (get_ue s u) (\<lambda>ue.
     ebind (ogs_assert (u > 0 \<and> u \<le> max_ue E)) (\<lambda>_.
     ebind (if length bytes \<le> max_imsi_len E then Inr () else Inl Out_Of_Bounds) (\<lambda>_.
     let s = set_ue u (ue\<lparr>sgw_s11_teid := u, imsi_len := length bytes, imsi := poke (imsi ue) 0 bytes,
           imsi_bcd := buffer_to_bcd E bytes, sess_list := []\<rparr>) s in
     Inr (u, s\<lparr>sgw_ue_list := list_add E (sgw_ue_list s) u\<rparr>))))))"

definition sgw_ue_remove :: "sgw_env \<Rightarrow> index \<Rightarrow> sgw_state \<Rightarrow> sgw_state res" where
  "sgw_ue_remove E u s =
     ebind (ogs_assert (u \<noteq> 0)) (\<lambda>_.
     let s = s\<lparr>sgw_ue_list := list_remove E (sgw_ue_list s) u\<rparr> in
     ebind (sgw_sess_remove_all E u s) (\<lambda>s.
     Inr (s\<lparr>ues := pool_free u (ues s)\<rparr>)))"

fun ue_remove_each :: "sgw_env \<Rightarrow> index list \<Rightarrow> sgw_state \<Rightarrow> sgw_state res" where
  "ue_remove_each E [] s = Inr s"
| "ue_remove_each E (u # us) s = ebind (sgw_ue_remove E u s) (ue_remove_each E us)"

definition sgw_ue_remove_all :: "sgw_env \<Rightarrow> sgw_state \<Rightarrow> sgw_state res" where
  "sgw_ue_remove_all E s = ue_remove_each E (sgw_ue_list s) s"

definition sgw_ue_find_by_teid :: "u32 \<Rightarrow> sgw_state \<Rightarrow> index option" where
  "sgw_ue_find_by_teid teid s = (if objs (ues s) teid = None then None else Some teid)"

subsection \<open>Peers\<close>

text \<open>
  The pattern of every handler that needs a peer: look the F-TEID up in a node list, otherwise add
  a node and connect it.
\<close>

definition sgw_node_setup ::
  "sgw_env \<Rightarrow> index list \<Rightarrow> f_teid \<Rightarrow> u32 \<Rightarrow> index option \<Rightarrow> index option \<Rightarrow> sgw_state \<Rightarrow>
   (index \<times> index list \<times> sgw_state) res" where
  "sgw_node_setup E list f port sock sock6 s =
     ebind (ogs_gtp_node_find E list f s) (\<lambda>r.
     case r of
       Some g \<Rightarrow> Inr (g, list, s)
     | None \<Rightarrow>
         ebind (ogs_gtp_node_add E list f (ucast port) (no_ipv4 E) (no_ipv6 E) (prefer_ipv4 E) s) (\<lambda>(g, list, s).
         ebind (ogs_gtp_connect sock sock6 g s) (\<lambda>(rv, s).
         ebind (ogs_assert (rv = OGS_OK)) (\<lambda>_. Inr (g, list, s)))))"

definition enb_s1u_setup :: "sgw_env \<Rightarrow> f_teid \<Rightarrow> sgw_state \<Rightarrow> (index \<times> sgw_state) res" where
  "enb_s1u_setup E f s =
     ebind (sgw_node_setup E (enb_s1u_list s) f (gtpu_port s) (gtpu_sock s) (gtpu_sock6 s) s) (\<lambda>(g, list, s).
     Inr (g, s\<lparr>enb_s1u_list := list\<rparr>))"

definition pgw_s5u_setup :: "sgw_env \<Rightarrow> f_teid \<Rightarrow> sgw_state \<Rightarrow> (index \<times> sgw_state) res" where
  "pgw_s5u_setup E f s =
     ebind (sgw_node_setup E (pgw_s5u_list s) f (gtpu_port s) (gtpu_sock s) (gtpu_sock6 s) s) (\<lambda>(g, list, s).
     Inr (g, s\<lparr>pgw_s5u_list := list\<rparr>))"

definition pgw_s5c_setup :: "sgw_env \<Rightarrow> f_teid \<Rightarrow> sgw_state \<Rightarrow> (index \<times> sgw_state) res" where
  "pgw_s5c_setup E f s =
     ebind (sgw_node_setup E (pgw_s5c_list s) f (gtpc_port s) (gtpc_sock s) (gtpc_sock6 s) s) (\<lambda>(g, list, s).
     Inr (g, s\<lparr>pgw_s5c_list := list\<rparr>))"

text \<open>
  The message is read as a Create Session Request whatever its type is; for another type the union
  is read through the wrong member, which the environment stands for.
\<close>

definition as_create_session_request :: "sgw_env \<Rightarrow> gtp_body \<Rightarrow> create_session_request" where
  "as_create_session_request E body =
     (case body of Create_Session_Request req \<Rightarrow> req | _ \<Rightarrow> union_view E body)"

definition sgw_mme_add_by_message :: "sgw_env \<Rightarrow> gtp_body \<Rightarrow> sgw_state \<Rightarrow> (index option \<times> sgw_state) res" where
  "sgw_mme_add_by_message E body s =
     (case csq_sender_f_teid (as_create_session_request E body) of
        None \<Rightarrow> Inr (None, s)
      | Some f \<Rightarrow>
          ebind (sgw_node_setup E (mme_s11_list s) f (gtpc_port s) (gtpc_sock s) (gtpc_sock6 s) s) (\<lambda>(g, list, s).
          Inr (Some g, s\<lparr>mme_s11_list := list\<rparr>)))"

definition sgw_ue_add_by_message :: "sgw_env \<Rightarrow> gtp_body \<Rightarrow> sgw_state \<Rightarrow> (index option \<times> sgw_state) res" where
  "sgw_ue_add_by_message E body s =
     (case csq_imsi (as_create_session_request E body) of
        None \<Rightarrow> Inr (None, s)
      | Some bytes \<Rightarrow> ebind (sgw_ue_add E bytes s) (\<lambda>(u, s). Inr (Some u, s)))"

definition sgw_context_final :: "sgw_env \<Rightarrow> sgw_state \<Rightarrow> sgw_state res" where
  "sgw_context_final E s =
     ebind (sgw_ue_remove_all E s) (\<lambda>s.
     ebind (ogs_gtp_node_remove_all E (mme_s11_list s) s) (\<lambda>(l, s). let s = s\<lparr>mme_s11_list := l\<rparr> in
     ebind (ogs_gtp_node_remove_all E (pgw_s5c_list s) s) (\<lambda>(l, s). let s = s\<lparr>pgw_s5c_list := l\<rparr> in
     ebind (ogs_gtp_node_remove_all E (enb_s1u_list s) s) (\<lambda>(l, s). let s = s\<lparr>enb_s1u_list := l\<rparr> in
     ebind (ogs_gtp_node_remove_all E (pgw_s5u_list s) s) (\<lambda>(l, s).
     Inr (s\<lparr>pgw_s5u_list := l\<rparr>))))))"

end
