(* ===== verification/Sgw_Path.thy ===== *)
theory Sgw_Path
  imports Sgw_Context
begin

text \<open>
  The user plane and the reception of control messages, \<^verbatim>\<open>src/src/sgw/sgw-gtp-path.c\<close>: an uplink
  packet is sent on under the TEID of the packet gateway, a downlink one under that of the base
  station, or kept and announced to the MME while the UE is idle.
\<close>

subsection \<open>Sockets\<close>

text \<open>
  \<^verbatim>\<open>sgw_gtp_open\<close> after the servers of the four lists were opened: the first socket and address of
  each becomes the one the gateway sends from.
\<close>

definition sgw_gtp_open ::
  "socknode list \<Rightarrow> socknode list \<Rightarrow> socknode list \<Rightarrow> socknode list \<Rightarrow> sgw_state \<Rightarrow> sgw_state res" where
  "sgw_gtp_open gtpc gtpc6 gtpu gtpu6 s =
     ebind (ogs_gtp_local_addr_first gtpc) (\<lambda>ca.
     ebind (ogs_gtp_local_addr_first gtpc6) (\<lambda>ca6.
     ebind (ogs_assert (ca \<noteq> None \<or> ca6 \<noteq> None)) (\<lambda>_.
     ebind (ogs_gtp_local_addr_first gtpu) (\<lambda>ua.
     ebind (ogs_gtp_local_addr_first gtpu6) (\<lambda>ua6.
     ebind (ogs_assert (ua \<noteq> None \<or> ua6 \<noteq> None)) (\<lambda>_.
     Inr (s\<lparr>gtpc_sock := ogs_gtp_local_sock_first gtpc, gtpc_sock6 := ogs_gtp_local_sock_first gtpc6,
            gtpc_addr := ca, gtpc_addr6 := ca6,
            gtpu_sock := ogs_gtp_local_sock_first gtpu, gtpu_sock6 := ogs_gtp_local_sock_first gtpu6,
            gtpu_addr := ua, gtpu_addr6 := ua6\<rparr>)))))))"

subsection \<open>Control messages\<close>

text \<open>\<^verbatim>\<open>sgw_event_new\<close> and \<^verbatim>\<open>ogs_queue_push\<close>; an event the queue does not take is dropped.\<close>

definition sgw_event_push :: "sgw_env \<Rightarrow> sgw_event \<Rightarrow> sgw_state \<Rightarrow> sgw_state res" where
  "sgw_event_push E e s =
     ebind (ogs_assert (event_new_ok E (queue s))) (\<lambda>_.
     Inr (if queue_push_ok E (queue s) then s\<lparr>queue := queue s @ [e]\<rparr> else s))"

text \<open>
  A datagram on the control socket: whether the header has a TEID, the TEID, and what parsing the
  datagram will yield. The top bit of the TEID tells the peer's interface.
\<close>

definition gtpv2_c_recv_cb :: "sgw_env \<Rightarrow> bool \<Rightarrow> u32 \<Rightarrow> gtp_message option \<Rightarrow> sgw_state \<Rightarrow> sgw_state res" where
  "gtpv2_c_recv_cb E teid_presence teid m s =
     ebind (ogs_assert teid_presence) (\<lambda>_.
     sgw_event_push E (if SGW_S5C_TEID teid \<noteq> 0 then SGW_EVT_S5C_MESSAGE m else SGW_EVT_S11_MESSAGE m) s)"

subsection \<open>User packets\<close>

definition gtpu_set_teid :: "u32 \<Rightarrow> gtp_body packet \<Rightarrow> gtp_body packet" where
  "gtpu_set_teid teid pk =
     (case pk of GTPv1U fl ty len _ rest \<Rightarrow> GTPv1U fl ty len (htonl teid) rest | _ \<Rightarrow> pk)"

text \<open>\<^verbatim>\<open>ogs_assert(x->gnode); ogs_assert(x->gnode->sock); ogs_gtp_sendto(x->gnode, pkbuf)\<close>.\<close>

definition tunnel_send :: "sgw_env \<Rightarrow> sgw_tunnel \<Rightarrow> gtp_body packet \<Rightarrow> sgw_state \<Rightarrow> (bool \<times> sgw_state) res" where
  "tunnel_send E tu pk s =
     ebind (non_null (t_gnode tu)) (\<lambda>g.
     ebind (deref (gnodes s) g) (\<lambda>n.
     ebind (ogs_assert (gn_sock n \<noteq> None)) (\<lambda>_.
     ogs_gtp_sendto E g pk s)))"

definition sgw_gtp_send_end_marker :: "sgw_env \<Rightarrow> index \<Rightarrow> sgw_state \<Rightarrow> sgw_state res" where
  "sgw_gtp_send_end_marker E t s =
     ebind (ogs_assert (t \<noteq> 0)) (\<lambda>_.
     ebind (get_tunnel s t) (\<lambda>tu.
     ebind (tunnel_send E tu (GTPv1U 0x30 OGS_GTPU_MSGTYPE_END_MARKER 0 (htonl (remote_teid tu)) (raw_bytes E 92)) s)
       (\<lambda>(rv, s).
     ebind (ogs_assert rv) (\<lambda>_. Inr s))))"

text \<open>The loop that sends the buffered packets; each is freed once it was sent.\<close>

fun flush_each ::
  "sgw_env \<Rightarrow> sgw_tunnel \<Rightarrow> nat list \<Rightarrow> gtp_body packet option list \<Rightarrow> sgw_state \<Rightarrow>
   (gtp_body packet option list \<times> sgw_state) res" where
  "flush_each E tu [] pks s = Inr (pks, s)"
| "flush_each E tu (i # is) pks s =
     ebind (array_read pks i) (\<lambda>e.
     case e of
       None \<Rightarrow> Inl Dangling_Pointer
     | Some pk \<Rightarrow>
         ebind (tunnel_send E tu (gtpu_set_teid (remote_teid tu) pk) s) (\<lambda>(_, s).
         flush_each E tu is (pks[i := None]) s))"

text \<open>A downlink packet whose bearer has no path to a base station.\<close>

definition downlink_idle :: "sgw_env \<Rightarrow> index \<Rightarrow> gtp_body packet \<Rightarrow> sgw_state \<Rightarrow> sgw_state res" where
  "downlink_idle E b pk s =
     ebind (get_bearer s b) (\<lambda>be.
     ebind (ogs_assert (b_sess be \<noteq> 0)) (\<lambda>_.
     ebind (get_sess s (b_sess be)) (\<lambda>se.
     ebind (ogs_assert (sess_ue se \<noteq> 0)) (\<lambda>_.
     ebind (get_ue s (sess_ue se)) (\<lambda>ue.
     if ue_state ue AND SGW_S1U_INACTIVE \<noteq> 0 then
       ebind (if ue_state ue AND SGW_DL_NOTI_SENT = 0 then
           ebind (sgw_event_push E (SGW_EVT_LO_DLDATA_NOTI b) s) (\<lambda>s.
           Inr (set_ue (sess_ue se) (SGW_SET_UE_STATE SGW_DL_NOTI_SENT ue) s))
         else Inr s) (\<lambda>s.
       if num_buffered_pkt be < MAX_NUM_OF_PACKET_BUFFER then
         ebind (array_write (buffered_pkts be) (num_buffered_pkt be) (Some pk)) (\<lambda>pks.
         Inr (set_bearer b (be\<lparr>buffered_pkts := pks, num_buffered_pkt := num_buffered_pkt be + 1\<rparr>) s))
       else Inr s)
     else Inr s)))))"

text \<open>A downlink packet whose bearer has one: the buffered packets go first.\<close>

definition downlink_active :: "sgw_env \<Rightarrow> index \<Rightarrow> sgw_tunnel \<Rightarrow> gtp_body packet \<Rightarrow> sgw_state \<Rightarrow> sgw_state res" where
  "downlink_active E b tu pk s =
     ebind (get_bearer s b) (\<lambda>be.
     ebind (non_null (t_gnode tu)) (\<lambda>g.
     ebind (deref (gnodes s) g) (\<lambda>n.
     ebind (ogs_assert (gn_sock n \<noteq> None)) (\<lambda>_.
     ebind (flush_each E tu [0..<num_buffered_pkt be] (buffered_pkts be) s) (\<lambda>(pks, s).
     let s = set_bearer b (be\<lparr>buffered_pkts := pks, num_buffered_pkt := 0\<rparr>) s in
     ebind (tunnel_send E tu (gtpu_set_teid (remote_teid tu) pk) s) (\<lambda>(_, s). Inr s))))))"

definition downlink :: "sgw_env \<Rightarrow> index \<Rightarrow> gtp_body packet \<Rightarrow> sgw_state \<Rightarrow> sgw_state res" where
  "downlink E b pk s =
     ebind (sgw_s1u_tunnel_in_bearer b s) (\<lambda>r.
     ebind (non_null r) (\<lambda>t1.
     ebind (get_tunnel s t1) (\<lambda>tu.
     if remote_teid tu \<noteq> 0 then downlink_active E b tu pk s else downlink_idle E b pk s)))"

text \<open>An uplink or an indirectly forwarded packet: sent to the peer of the tunnel the lookup yields.\<close>

definition forward :: "sgw_env \<Rightarrow> index option \<Rightarrow> gtp_body packet \<Rightarrow> sgw_state \<Rightarrow> sgw_state res" where
  "forward E r pk s =
     ebind (non_null r) (\<lambda>t.
     ebind (get_tunnel s t) (\<lambda>tu.
     ebind (tunnel_send E tu (gtpu_set_teid (remote_teid tu) pk) s) (\<lambda>(_, s). Inr s)))"

text \<open>A user packet for a tunnel of the gateway: what is done with it depends on the tunnel's interface.\<close>

definition tunnel_deliver :: "sgw_env \<Rightarrow> index \<Rightarrow> gtp_body packet \<Rightarrow> sgw_state \<Rightarrow> sgw_state res" where
  "tunnel_deliver E t pk s =
     ebind (get_tunnel s t) (\<lambda>tu.
     let b = t_bearer tu in
     ebind (ogs_assert (b \<noteq> 0)) (\<lambda>_.
     if interface_type tu = OGS_GTP_F_TEID_S1_U_SGW_GTP_U then
       ebind (sgw_s5u_tunnel_in_bearer b s) (\<lambda>r. forward E r pk s)
     else if interface_type tu = OGS_GTP_F_TEID_SGW_GTP_U_FOR_DL_DATA_FORWARDING
          \<or> interface_type tu = OGS_GTP_F_TEID_SGW_GTP_U_FOR_UL_DATA_FORWARDING then
       ebind (sgw_tunnel_find_by_interface_type b (interface_type tu) s) (\<lambda>r. forward E r pk s)
     else if interface_type tu = OGS_GTP_F_TEID_S5_S8_SGW_GTP_U then downlink E b pk s
     else Inr s))"

text \<open>
  A datagram on the user plane socket. Reading past the received octets is the fault
  \<open>Out_Of_Bounds\<close>, although the buffer they were received into is larger.
\<close>

definition gtpv1_u_recv_cb :: "sgw_env \<Rightarrow> ogs_sockaddr \<Rightarrow> u8 list \<Rightarrow> sgw_state \<Rightarrow> sgw_state res" where
  "gtpv1_u_recv_cb E sender bytes s =
     (if bytes = [] then Inr s else
     ebind (array_read bytes 1) (\<lambda>type.
     if type = OGS_GTPU_MSGTYPE_ECHO_REQ then
       ebind (ogs_gtp_handle_echo_req bytes) (\<lambda>r.
       case r of
         None \<Rightarrow> Inr s
       | Some rsp \<Rightarrow> Inr (s\<lparr>replies := replies s @ [(sender, rsp)]\<rparr>))
     else if type = OGS_GTPU_MSGTYPE_GPDU \<or> type = OGS_GTPU_MSGTYPE_END_MARKER then
       ebind (if length bytes < 8 then Inl Out_Of_Bounds else Inr (word32 (drop 4 bytes))) (\<lambda>teid.
       case sgw_tunnel_find_by_teid (ntohl teid) s of
         None \<Rightarrow> Inr s
       | Some t \<Rightarrow> tunnel_deliver E t (GTPv1U (bytes ! 0) type (word16 (drop 2 bytes)) teid (drop 8 bytes)) s)
     else Inr s))"

end
