(* ===== verification/Sgw_S11.thy ===== *)
theory Sgw_S11
  imports Sgw_Path
begin

text \<open>
  The messages of the MME, \<^verbatim>\<open>src/src/sgw/sgw-s11-handler.c\<close>. A handler is called with the
  transaction, the user and the message; a message that lacks a mandatory element is left
  unanswered, as the code returns.
\<close>

subsection \<open>Shared steps\<close>

text \<open>An F-TEID of the gateway: zeroed, interface and TEID set, then the local addresses.\<close>

definition local_f_teid :: "u8 \<Rightarrow> u32 \<Rightarrow> ogs_sockaddr option \<Rightarrow> ogs_sockaddr option \<Rightarrow> f_teid res" where
  "local_f_teid iface teid addr addr6 =
     ebind (ogs_gtp_sockaddr_to_f_teid addr addr6 (zero_f_teid\<lparr>ft_interface_type := iface, ft_teid := htonl teid\<rparr>))
       (\<lambda>(f, len). Inr f)"

text \<open>The user location information is parsed and stored with the bearer.\<close>

definition bearer_set_uli :: "index \<Rightarrow> u8 list \<Rightarrow> sgw_state \<Rightarrow> sgw_state res" where
  "bearer_set_uli b octet s =
     ebind (ogs_gtp_parse_uli octet) (\<lambda>(uli, decoded).
     ebind (ogs_assert (length octet = decoded)) (\<lambda>_.
     ebind (get_bearer s b) (\<lambda>be.
     Inr (set_bearer b (be\<lparr>b_tai := uli_tai uli, b_e_cgi := uli_e_cgi uli\<rparr>) s))))"

text \<open>A request goes out on a transaction of its own, associated with the one it was received on.\<close>

definition sgw_send_request ::
  "sgw_env \<Rightarrow> index \<Rightarrow> index option \<Rightarrow> u32 \<Rightarrow> gtp_body \<Rightarrow> sgw_state \<Rightarrow> sgw_state res" where
  "sgw_send_request E x gnode teid body s =
     ebind (ogs_assert (build_ok E body)) (\<lambda>_.
     ebind (ogs_gtp_xact_local_create E (ptr gnode) (body_type body) teid body s) (\<lambda>(y, s).
     ebind (ogs_gtp_xact_associate x y s) (\<lambda>s.
     ogs_gtp_xact_commit E y s)))"

text \<open>An answer goes out on the transaction the request came in on.\<close>

definition sgw_send_answer :: "sgw_env \<Rightarrow> index \<Rightarrow> u32 \<Rightarrow> gtp_body \<Rightarrow> sgw_state \<Rightarrow> sgw_state res" where
  "sgw_send_answer E x teid body s =
     ebind (ogs_assert (build_ok E body)) (\<lambda>_.
     ebind (ogs_gtp_xact_update_tx E x (body_type body) teid body s) (\<lambda>s.
     ogs_gtp_xact_commit E x s))"

text \<open>\<^verbatim>\<open>x->assoc_xact\<close>, asserted to be there.\<close>

definition xact_assoc :: "index \<Rightarrow> sgw_state \<Rightarrow> index res" where
  "xact_assoc x s = ebind (deref (xacts s) x) (\<lambda>xa. non_null (assoc_xact xa))"

subsection \<open>Sessions\<close>

text \<open>The end of the Create Session Request handler, once the session and the elements are there.\<close>

definition create_session_forward ::
  "sgw_env \<Rightarrow> index \<Rightarrow> index \<Rightarrow> index \<Rightarrow> create_session_request \<Rightarrow> bearer_context \<Rightarrow> f_teid \<Rightarrow> f_teid \<Rightarrow> u8 list \<Rightarrow>
   sgw_state \<Rightarrow> sgw_state res" where
  "create_session_forward E s11_xact u x req bc mme_f pgw_f uli s =
     ebind (ebind (sgw_default_bearer_in_sess x s) non_null) (\<lambda>b.
     ebind (ebind (sgw_s5u_tunnel_in_bearer b s) non_null) (\<lambda>t5.
     ebind (get_ue s u) (\<lambda>ue.
     let s = set_ue u (ue\<lparr>mme_s11_teid := ntohl (ft_teid mme_f)\<rparr>) s in
     ebind (get_sess s x) (\<lambda>se.
     ebind (local_f_teid OGS_GTP_F_TEID_S5_S8_SGW_GTP_C (sgw_s5c_teid se) (gtpc_addr s) (gtpc_addr6 s)) (\<lambda>s5c_f.
     ebind (pgw_s5c_setup E pgw_f s) (\<lambda>(pgw, s).
     ebind (get_sess s x) (\<lambda>se.
     let s = set_sess x (se\<lparr>sess_gnode := Some pgw\<rparr>) s in
     ebind (get_tunnel s t5) (\<lambda>tu5.
     ebind (local_f_teid OGS_GTP_F_TEID_S5_S8_SGW_GTP_U (local_teid tu5) (gtpu_addr s) (gtpu_addr6 s)) (\<lambda>s5u_f.
     ebind (bearer_set_uli b uli s) (\<lambda>s.
     sgw_send_request E s11_xact (Some pgw) (pgw_s5c_teid se)
       (Create_Session_Request (req\<lparr>csq_sender_f_teid := Some s5c_f, csq_pgw_address := None,
          csq_bearer_contexts := Some (bc\<lparr>s5_s8_u_sgw_f_teid := Some s5u_f\<rparr>)\<rparr>)) s))))))))))"

definition sgw_s11_handle_create_session_request ::
  "sgw_env \<Rightarrow> index \<Rightarrow> index \<Rightarrow> create_session_request \<Rightarrow> sgw_state \<Rightarrow> sgw_state res" where
  "sgw_s11_handle_create_session_request E s11_xact u req s =
     ebind (ogs_assert (s11_xact \<noteq> 0)) (\<lambda>_.
     case csq_bearer_contexts req of
       None \<Rightarrow> Inr s
     | Some bc \<Rightarrow>
     case eps_bearer_id bc of
       None \<Rightarrow> Inr s
     | Some e \<Rightarrow>
     ebind (ogs_assert (u \<noteq> 0)) (\<lambda>_.
     ebind (sgw_sess_find_by_ebi u e s) (\<lambda>r.
     ebind (case r of
         Some x \<Rightarrow> Inr (Some x, s)
       | None \<Rightarrow>
           (case csq_access_point_name req of
              None \<Rightarrow> Inr (None, s)
            | Some a \<Rightarrow> ebind (sgw_sess_add E u (fqdn_parse E a) e s) (\<lambda>(x, s). Inr (Some x, s)))) (\<lambda>(xo, s).
     case xo of
       None \<Rightarrow> Inr s
     | Some x \<Rightarrow>
     case csq_sender_f_teid req of
       None \<Rightarrow> Inr s
     | Some mme_f \<Rightarrow>
     case csq_pgw_address req of
       None \<Rightarrow> Inr s
     | Some pgw_f \<Rightarrow>
     case csq_user_location_information req of
       None \<Rightarrow> Inr s
     | Some uli \<Rightarrow> create_session_forward E s11_xact u x req bc mme_f pgw_f uli s))))"

definition sgw_s11_handle_delete_session_request ::
  "sgw_env \<Rightarrow> index \<Rightarrow> index \<Rightarrow> delete_session_request \<Rightarrow> sgw_state \<Rightarrow> sgw_state res" where
  "sgw_s11_handle_delete_session_request E s11_xact u req s =
     ebind (ogs_assert (s11_xact \<noteq> 0)) (\<lambda>_.
     ebind (ogs_assert (u \<noteq> 0)) (\<lambda>_.
     case dsq_linked_eps_bearer_id req of
       None \<Rightarrow> Inr s
     | Some e \<Rightarrow>
     ebind (ebind (sgw_sess_find_by_ebi u e s) non_null) (\<lambda>x.
     ebind (get_sess s x) (\<lambda>se.
     sgw_send_request E s11_xact (sess_gnode se) (pgw_s5c_teid se) (Delete_Session_Request req) s))))"

subsection \<open>Bearers\<close>

text \<open>
  The part of the Modify Bearer Request handler for a bearer that was found. The End Marker goes to
  the old base station when the new one is another node; the TEID has been replaced by then.
\<close>

definition modify_bearer_accept ::
  "sgw_env \<Rightarrow> index \<Rightarrow> index \<Rightarrow> f_teid \<Rightarrow> u8 list option \<Rightarrow> sgw_state \<Rightarrow> sgw_state res" where
  "modify_bearer_accept E u b enb_f uli s =
     ebind (ebind (sgw_s1u_tunnel_in_bearer b s) non_null) (\<lambda>t1.
     ebind (get_tunnel s t1) (\<lambda>tu.
     let s = set_tunnel t1 (tu\<lparr>remote_teid := ntohl (ft_teid enb_f)\<rparr>) s in
     ebind (enb_s1u_setup E enb_f s) (\<lambda>(enb, s).
     ebind (case uli of None \<Rightarrow> Inr s | Some octet \<Rightarrow> bearer_set_uli b octet s) (\<lambda>s.
     ebind (get_tunnel s t1) (\<lambda>tu.
     ebind (case t_gnode tu of
         Some g \<Rightarrow> if g \<noteq> enb then
             ebind (deref (gnodes s) g) (\<lambda>n.
             ebind (ogs_assert (gn_sock n \<noteq> None)) (\<lambda>_. sgw_gtp_send_end_marker E t1 s)) else Inr s
       | None \<Rightarrow> Inr s) (\<lambda>s.
     ebind (get_tunnel s t1) (\<lambda>tu.
     let s = set_tunnel t1 (tu\<lparr>t_gnode := Some enb\<rparr>) s in
     ebind (get_ue s u) (\<lambda>ue.
     Inr (set_ue u (SGW_RESET_UE_STATE SGW_S1U_INACTIVE ue) s)))))))))"

definition sgw_s11_handle_modify_bearer_request ::
  "sgw_env \<Rightarrow> index \<Rightarrow> index \<Rightarrow> modify_bearer_request \<Rightarrow> sgw_state \<Rightarrow> sgw_state res" where
  "sgw_s11_handle_modify_bearer_request E s11_xact u req s =
     ebind (ogs_assert (s11_xact \<noteq> 0)) (\<lambda>_.
     ebind (ogs_assert (u \<noteq> 0)) (\<lambda>_.
     case mbq_bearer_contexts req of
       None \<Rightarrow> Inr s
     | Some bc \<Rightarrow>
     case eps_bearer_id bc of
       None \<Rightarrow> Inr s
     | Some e \<Rightarrow>
     case s1_u_enodeb_f_teid bc of
       None \<Rightarrow> Inr s
     | Some enb_f \<Rightarrow>
     ebind (get_ue s u) (\<lambda>ue.
     ebind (sgw_bearer_find_by_ue_ebi u e s) (\<lambda>r.
     case r of
       None \<Rightarrow> sgw_send_answer E s11_xact (mme_s11_teid ue) (Modify_Bearer_Response OGS_GTP_CAUSE_CONTEXT_NOT_FOUND) s
     | Some b \<Rightarrow>
         ebind (modify_bearer_accept E u b enb_f (mbq_user_location_information req) s) (\<lambda>s.
         sgw_send_answer E s11_xact (mme_s11_teid ue) (Modify_Bearer_Response OGS_GTP_CAUSE_REQUEST_ACCEPTED) s)))))"

text \<open>
  The handler keeps the F-TEID of the packet gateway in a structure that is not cleared; the octets
  past the address are not part of the element, so they are zero here.
\<close>

definition create_bearer_forward ::
  "sgw_env \<Rightarrow> index \<Rightarrow> index \<Rightarrow> create_bearer_response \<Rightarrow> bearer_context \<Rightarrow> u8 \<Rightarrow> f_teid \<Rightarrow> f_teid \<Rightarrow> u8 list \<Rightarrow>
   sgw_state \<Rightarrow> sgw_state res" where
  "create_bearer_forward E s5c_xact u rsp bc e enb_f sgw_f uli s =
     ebind (non_null (sgw_tunnel_find_by_teid (ntohl (ft_teid sgw_f)) s)) (\<lambda>t1.
     ebind (get_tunnel s t1) (\<lambda>tu1.
     let b = t_bearer tu1 in
     ebind (ogs_assert (b \<noteq> 0)) (\<lambda>_.
     ebind (ebind (sgw_s5u_tunnel_in_bearer b s) non_null) (\<lambda>t5.
     ebind (get_bearer s b) (\<lambda>be.
     ebind (ogs_assert (b_sess be \<noteq> 0)) (\<lambda>_.
     let s = set_bearer b (be\<lparr>ebi := e\<rparr>) s;
         s = set_tunnel t1 (tu1\<lparr>remote_teid := ntohl (ft_teid enb_f)\<rparr>) s in
     ebind (enb_s1u_setup E enb_f s) (\<lambda>(enb, s).
     ebind (get_tunnel s t1) (\<lambda>tu1.
     let s = set_tunnel t1 (tu1\<lparr>t_gnode := Some enb\<rparr>) s in
     ebind (bearer_set_uli b uli s) (\<lambda>s.
     ebind (get_ue s u) (\<lambda>ue.
     let s = set_ue u (SGW_RESET_UE_STATE SGW_S1U_INACTIVE ue) s in
     ebind (get_tunnel s t5) (\<lambda>tu5.
     ebind (local_f_teid OGS_GTP_F_TEID_S5_S8_SGW_GTP_U (local_teid tu5) (gtpu_addr s) (gtpu_addr6 s)) (\<lambda>sgw_s5u_f.
     ebind (non_null (t_gnode tu5)) (\<lambda>g.
     ebind (deref (gnodes s) g) (\<lambda>n.
     ebind (ogs_gtp_ip_to_f_teid (gn_ip n)
         (zero_f_teid\<lparr>ft_interface_type := OGS_GTP_F_TEID_S5_S8_PGW_GTP_U, ft_teid := htonl (remote_teid tu5)\<rparr>)) (\<lambda>(pgw_s5u_f, len).
     ebind (get_sess s (b_sess be)) (\<lambda>se.
     sgw_send_answer E s5c_xact (pgw_s5c_teid se)
       (Create_Bearer_Response (rsp\<lparr>cbp_bearer_contexts := Some (bc\<lparr>s4_u_sgsn_f_teid := None, s1_u_enodeb_f_teid := None,
          s5_s8_u_sgw_f_teid := Some sgw_s5u_f, s5_s8_u_pgw_f_teid := Some pgw_s5u_f\<rparr>)\<rparr>)) s))))))))))))))))"

definition sgw_s11_handle_create_bearer_response ::
  "sgw_env \<Rightarrow> index \<Rightarrow> index \<Rightarrow> create_bearer_response \<Rightarrow> sgw_state \<Rightarrow> sgw_state res" where
  "sgw_s11_handle_create_bearer_response E s11_xact u rsp s =
     ebind (ogs_assert (s11_xact \<noteq> 0)) (\<lambda>_.
     ebind (ogs_assert (u \<noteq> 0)) (\<lambda>_.
     ebind (xact_assoc s11_xact s) (\<lambda>s5c_xact.
     case cbp_bearer_contexts rsp of
       None \<Rightarrow> Inr s
     | Some bc \<Rightarrow>
     case eps_bearer_id bc of
       None \<Rightarrow> Inr s
     | Some e \<Rightarrow>
     case s1_u_enodeb_f_teid bc of
       None \<Rightarrow> Inr s
     | Some enb_f \<Rightarrow>
     case s4_u_sgsn_f_teid bc of
       None \<Rightarrow> Inr s
     | Some sgw_f \<Rightarrow>
     case cbp_user_location_information rsp of
       None \<Rightarrow> Inr s
     | Some uli \<Rightarrow> create_bearer_forward E s5c_xact u rsp bc e enb_f sgw_f uli s)))"

text \<open>Update and Delete Bearer Response differ in the type that is passed on and in the removal.\<close>

definition sgw_s11_handle_update_bearer_response ::
  "sgw_env \<Rightarrow> index \<Rightarrow> index \<Rightarrow> bearer_message \<Rightarrow> sgw_state \<Rightarrow> sgw_state res" where
  "sgw_s11_handle_update_bearer_response E s11_xact u rsp s =
     ebind (ogs_assert (s11_xact \<noteq> 0)) (\<lambda>_.
     ebind (ogs_assert (u \<noteq> 0)) (\<lambda>_.
     ebind (xact_assoc s11_xact s) (\<lambda>s5c_xact.
     case bm_bearer_contexts rsp of
       None \<Rightarrow> Inr s
     | Some bc \<Rightarrow>
     case eps_bearer_id bc of
       None \<Rightarrow> Inr s
     | Some e \<Rightarrow>
     ebind (ebind (sgw_bearer_find_by_ue_ebi u e s) non_null) (\<lambda>b.
     ebind (get_bearer s b) (\<lambda>be.
     ebind (ogs_assert (b_sess be \<noteq> 0)) (\<lambda>_.
     ebind (get_sess s (b_sess be)) (\<lambda>se.
     sgw_send_answer E s5c_xact (pgw_s5c_teid se) (Update_Bearer_Response rsp) s)))))))"

definition sgw_s11_handle_delete_bearer_response ::
  "sgw_env \<Rightarrow> index \<Rightarrow> index \<Rightarrow> bearer_message \<Rightarrow> sgw_state \<Rightarrow> sgw_state res" where
  "sgw_s11_handle_delete_bearer_response E s11_xact u rsp s =
     ebind (ogs_assert (s11_xact \<noteq> 0)) (\<lambda>_.
     ebind (ogs_assert (u \<noteq> 0)) (\<lambda>_.
     ebind (xact_assoc s11_xact s) (\<lambda>s5c_xact.
     case bm_bearer_contexts rsp of
       None \<Rightarrow> Inr s
     | Some bc \<Rightarrow>
     case eps_bearer_id bc of
       None \<Rightarrow> Inr s
     | Some e \<Rightarrow>
     ebind (ebind (sgw_bearer_find_by_ue_ebi u e s) non_null) (\<lambda>b.
     ebind (get_bearer s b) (\<lambda>be.
     ebind (ogs_assert (b_sess be \<noteq> 0)) (\<lambda>_.
     ebind (get_sess s (b_sess be)) (\<lambda>se.
     ebind (sgw_send_answer E s5c_xact (pgw_s5c_teid se) (Delete_Bearer_Response rsp) s) (\<lambda>s.
     sgw_bearer_remove E b s))))))))"

text \<open>The two nested loops that clear the base station's TEID of every bearer of the user.\<close>

fun release_bearers :: "index list \<Rightarrow> sgw_state \<Rightarrow> sgw_state res" where
  "release_bearers [] s = Inr s"
| "release_bearers (b # bs) s =
     ebind (ebind (sgw_s1u_tunnel_in_bearer b s) non_null) (\<lambda>t1.
     ebind (get_tunnel s t1) (\<lambda>tu.
     release_bearers bs (set_tunnel t1 (tu\<lparr>remote_teid := 0\<rparr>) s)))"

fun release_sessions :: "index list \<Rightarrow> sgw_state \<Rightarrow> sgw_state res" where
  "release_sessions [] s = Inr s"
| "release_sessions (x # xs) s =
     ebind (get_sess s x) (\<lambda>se. ebind (release_bearers (bearer_list se) s) (release_sessions xs))"

definition sgw_s11_handle_release_access_bearers_request ::
  "sgw_env \<Rightarrow> index \<Rightarrow> index \<Rightarrow> sgw_state \<Rightarrow> sgw_state res" where
  "sgw_s11_handle_release_access_bearers_request E s11_xact u s =
     ebind (ogs_assert (u \<noteq> 0)) (\<lambda>_.
     ebind (ogs_assert (s11_xact \<noteq> 0)) (\<lambda>_.
     ebind (get_ue s u) (\<lambda>ue.
     let ue = SGW_RESET_UE_STATE SGW_DL_NOTI_SENT (SGW_SET_UE_STATE SGW_S1U_INACTIVE ue);
         s = set_ue u ue s in
     ebind (release_sessions (sess_list ue) s) (\<lambda>s.
     sgw_send_answer E s11_xact (mme_s11_teid ue) (Release_Access_Bearers_Response OGS_GTP_CAUSE_REQUEST_ACCEPTED) s))))"

subsection \<open>Downlink data notification\<close>

definition sgw_s11_handle_lo_dldata_notification :: "sgw_env \<Rightarrow> index \<Rightarrow> sgw_state \<Rightarrow> sgw_state res" where
  "sgw_s11_handle_lo_dldata_notification E b s =
     ebind (ogs_assert (b \<noteq> 0)) (\<lambda>_.
     ebind (get_bearer s b) (\<lambda>be.
     ebind (ogs_assert (b_ue be \<noteq> 0)) (\<lambda>_.
     ebind (get_ue s (b_ue be)) (\<lambda>ue.
     let body = Downlink_Data_Notification (ebi be) 0x61 in
     ebind (ogs_assert (build_ok E body)) (\<lambda>_.
     ebind (ogs_gtp_xact_local_create E (ptr (ue_gnode ue)) (body_type body) (mme_s11_teid ue) body s) (\<lambda>(x, s).
     ogs_gtp_xact_commit E x s))))))"

definition sgw_s11_handle_downlink_data_notification_ack ::
  "sgw_env \<Rightarrow> index \<Rightarrow> index \<Rightarrow> sgw_state \<Rightarrow> sgw_state res" where
  "sgw_s11_handle_downlink_data_notification_ack E s11_xact u s =
     ebind (ogs_assert (u \<noteq> 0)) (\<lambda>_.
     ebind (ogs_assert (s11_xact \<noteq> 0)) (\<lambda>_. ogs_gtp_xact_commit E s11_xact s))"

subsection \<open>Indirect data forwarding\<close>

text \<open>One of the two tunnels of a bearer context: added, connected, and reported with its F-TEID.\<close>

definition indirect_tunnel :: "sgw_env \<Rightarrow> index \<Rightarrow> u8 \<Rightarrow> f_teid \<Rightarrow> sgw_state \<Rightarrow> (f_teid \<times> sgw_state) res" where
  "indirect_tunnel E b iface req_f s =
     ebind (sgw_tunnel_add E b iface s) (\<lambda>(t, s).
     ebind (get_tunnel s t) (\<lambda>tu.
     let s = set_tunnel t (tu\<lparr>remote_teid := ntohl (ft_teid req_f)\<rparr>) s in
     ebind (enb_s1u_setup E req_f s) (\<lambda>(enb, s).
     ebind (get_tunnel s t) (\<lambda>tu.
     let s = set_tunnel t (tu\<lparr>t_gnode := Some enb\<rparr>) s in
     ebind (local_f_teid (interface_type tu) (local_teid tu) (gtpu_addr s) (gtpu_addr6 s)) (\<lambda>f.
     Inr (f, s))))))"

text \<open>
  The loop over the bearer contexts of the request, which ends at the first that is absent. The
  array has eleven entries: with all of them present the loop reads past it.
\<close>

fun indirect_loop ::
  "sgw_env \<Rightarrow> index \<Rightarrow> bearer_context option list \<Rightarrow> nat list \<Rightarrow> bearer_context option list \<Rightarrow> sgw_state \<Rightarrow>
   (bearer_context option list option \<times> sgw_state) res" where
  "indirect_loop E u reqs [] rsps s = Inl Out_Of_Bounds"
| "indirect_loop E u reqs (i # is) rsps s =
     ebind (array_read reqs i) (\<lambda>r.
     case r of
       None \<Rightarrow> Inr (Some rsps, s)
     | Some bc \<Rightarrow>
     case eps_bearer_id bc of
       None \<Rightarrow> Inr (None, s)
     | Some e \<Rightarrow>
     ebind (ebind (sgw_bearer_find_by_ue_ebi u e s) non_null) (\<lambda>b.
     ebind (case s1_u_enodeb_f_teid bc of
         None \<Rightarrow> Inr (None, s)
       | Some f \<Rightarrow> ebind (indirect_tunnel E b OGS_GTP_F_TEID_SGW_GTP_U_FOR_DL_DATA_FORWARDING f s) (\<lambda>(f, s). Inr (Some f, s)))
       (\<lambda>(dl, s).
     ebind (case s12_rnc_f_teid bc of
         None \<Rightarrow> Inr (None, s)
       | Some f \<Rightarrow> ebind (indirect_tunnel E b OGS_GTP_F_TEID_SGW_GTP_U_FOR_UL_DATA_FORWARDING f s) (\<lambda>(f, s). Inr (Some f, s)))
       (\<lambda>(ul, s).
     ebind (get_bearer s b) (\<lambda>be.
     let rsp = (if dl \<noteq> None \<or> ul \<noteq> None
         then Some (zero_bearer_context\<lparr>eps_bearer_id := Some (ebi be), s4_u_sgsn_f_teid := dl, s2b_u_epdg_f_teid_5 := ul\<rparr>)
         else None) in
     ebind (array_write rsps i rsp) (\<lambda>rsps.
     indirect_loop E u reqs is rsps s))))))"

definition sgw_s11_handle_create_indirect_data_forwarding_tunnel_request ::
  "sgw_env \<Rightarrow> index \<Rightarrow> index \<Rightarrow> bearer_context option list \<Rightarrow> sgw_state \<Rightarrow> sgw_state res" where
  "sgw_s11_handle_create_indirect_data_forwarding_tunnel_request E s11_xact u reqs s =
     ebind (ogs_assert (u \<noteq> 0)) (\<lambda>_.
     ebind (ogs_assert (s11_xact \<noteq> 0)) (\<lambda>_.
     ebind (indirect_loop E u reqs [0..<Suc GTP_MAX_NUM_OF_INDIRECT_TUNNEL]
         (replicate GTP_MAX_NUM_OF_INDIRECT_TUNNEL None) s) (\<lambda>(r, s).
     case r of
       None \<Rightarrow> Inr s
     | Some rsps \<Rightarrow>
         ebind (get_ue s u) (\<lambda>ue.
         sgw_send_answer E s11_xact (mme_s11_teid ue) (Create_Indirect_Tunnel_Response OGS_GTP_CAUSE_REQUEST_ACCEPTED rsps) s))))"

text \<open>The loops that remove the forwarding tunnels of every bearer of the user.\<close>

fun indirect_remove_tunnels :: "sgw_env \<Rightarrow> index list \<Rightarrow> sgw_state \<Rightarrow> sgw_state res" where
  "indirect_remove_tunnels E [] s = Inr s"
| "indirect_remove_tunnels E (t # ts) s =
     ebind (get_tunnel s t) (\<lambda>tu.
     ebind (if interface_type tu = OGS_GTP_F_TEID_SGW_GTP_U_FOR_DL_DATA_FORWARDING
              \<or> interface_type tu = OGS_GTP_F_TEID_SGW_GTP_U_FOR_UL_DATA_FORWARDING
            then sgw_tunnel_remove E t s else Inr s) (\<lambda>s.
     indirect_remove_tunnels E ts s))"

fun indirect_remove_bearers :: "sgw_env \<Rightarrow> index list \<Rightarrow> sgw_state \<Rightarrow> sgw_state res" where
  "indirect_remove_bearers E [] s = Inr s"
| "indirect_remove_bearers E (b # bs) s =
     ebind (get_bearer s b) (\<lambda>be.
     ebind (indirect_remove_tunnels E (tunnel_list be) s) (\<lambda>s. indirect_remove_bearers E bs s))"

fun indirect_remove_sessions :: "sgw_env \<Rightarrow> index list \<Rightarrow> sgw_state \<Rightarrow> sgw_state res" where
  "indirect_remove_sessions E [] s = Inr s"
| "indirect_remove_sessions E (x # xs) s =
     ebind (get_sess s x) (\<lambda>se.
     ebind (indirect_remove_bearers E (bearer_list se) s) (\<lambda>s. indirect_remove_sessions E xs s))"

definition sgw_s11_handle_delete_indirect_data_forwarding_tunnel_request ::
  "sgw_env \<Rightarrow> index \<Rightarrow> index \<Rightarrow> sgw_state \<Rightarrow> sgw_state res" where
  "sgw_s11_handle_delete_indirect_data_forwarding_tunnel_request E s11_xact u s =
     ebind (ogs_assert (u \<noteq> 0)) (\<lambda>_.
     ebind (ogs_assert (s11_xact \<noteq> 0)) (\<lambda>_.
     ebind (get_ue s u) (\<lambda>ue.
     ebind (indirect_remove_sessions E (sess_list ue) s) (\<lambda>s.
     sgw_send_answer E s11_xact (mme_s11_teid ue) (Delete_Indirect_Tunnel_Response OGS_GTP_CAUSE_REQUEST_ACCEPTED) s))))"

end
