(* ===== verification/Sgw_S5c.thy ===== *)
theory Sgw_S5c
  imports Sgw_S11
begin

text \<open>
  The messages of the packet gateway, \<^verbatim>\<open>src/src/sgw/sgw-s5c-handler.c\<close>.
\<close>

subsection \<open>Sessions\<close>

definition create_session_answer ::
  "sgw_env \<Rightarrow> index \<Rightarrow> index \<Rightarrow> index \<Rightarrow> index \<Rightarrow> create_session_response \<Rightarrow> bearer_context \<Rightarrow> u8 \<Rightarrow> f_teid \<Rightarrow> f_teid \<Rightarrow>
   sgw_state \<Rightarrow> sgw_state res" where
  "create_session_answer E s5c_xact s11_xact x u rsp bc e pgw_s5c_f pgw_s5u_f s =
     ebind (ebind (sgw_bearer_find_by_sess_ebi x e s) non_null) (\<lambda>b.
     ebind (ebind (sgw_s1u_tunnel_in_bearer b s) non_null) (\<lambda>t1.
     ebind (ebind (sgw_s5u_tunnel_in_bearer b s) non_null) (\<lambda>t5.
     ebind (get_sess s x) (\<lambda>se.
     let s = set_sess x (se\<lparr>pgw_s5c_teid := ntohl (ft_teid pgw_s5c_f)\<rparr>) s in
     ebind (get_tunnel s t5) (\<lambda>tu5.
     let s = set_tunnel t5 (tu5\<lparr>remote_teid := ntohl (ft_teid pgw_s5u_f)\<rparr>) s in
     ebind (pgw_s5u_setup E pgw_s5u_f s) (\<lambda>(pgw, s).
     ebind (get_tunnel s t5) (\<lambda>tu5.
     let s = set_tunnel t5 (tu5\<lparr>t_gnode := Some pgw\<rparr>) s in
     ebind (get_ue s u) (\<lambda>ue.
     ebind (local_f_teid OGS_GTP_F_TEID_S11_S4_SGW_GTP_C (sgw_s11_teid ue) (gtpc_addr s) (gtpc_addr6 s)) (\<lambda>s11_f.
     ebind (get_tunnel s t1) (\<lambda>tu1.
     ebind (local_f_teid (interface_type tu1) (local_teid tu1) (gtpu_addr s) (gtpu_addr6 s)) (\<lambda>s1u_f.
     ebind (ogs_gtp_xact_commit E s5c_xact s) (\<lambda>s.
     sgw_send_answer E s11_xact (mme_s11_teid ue)
       (Create_Session_Response (rsp\<lparr>csp_pgw_s5c_f_teid := None, csp_sender_f_teid := Some s11_f,
          csp_bearer_contexts := Some (bc\<lparr>s5_s8_u_sgw_f_teid := None, s1_u_enodeb_f_teid := Some s1u_f\<rparr>)\<rparr>)) s))))))))))))"

definition sgw_s5c_handle_create_session_response ::
  "sgw_env \<Rightarrow> index \<Rightarrow> index \<Rightarrow> create_session_response \<Rightarrow> sgw_state \<Rightarrow> sgw_state res" where
  "sgw_s5c_handle_create_session_response E s5c_xact x rsp s =
     ebind (ogs_assert (x \<noteq> 0)) (\<lambda>_.
     ebind (get_sess s x) (\<lambda>se.
     ebind (ogs_assert (sess_ue se \<noteq> 0)) (\<lambda>_.
     ebind (ogs_assert (s5c_xact \<noteq> 0)) (\<lambda>_.
     ebind (xact_assoc s5c_xact s) (\<lambda>s11_xact.
     case csp_pgw_s5c_f_teid rsp of
       None \<Rightarrow> Inr s
     | Some pgw_s5c_f \<Rightarrow>
     case csp_bearer_contexts rsp of
       None \<Rightarrow> Inr s
     | Some bc \<Rightarrow>
     case eps_bearer_id bc of
       None \<Rightarrow> Inr s
     | Some e \<Rightarrow>
     case bc_cause bc of
       None \<Rightarrow> Inr s
     | Some _ \<Rightarrow>
     case s5_s8_u_sgw_f_teid bc of
       None \<Rightarrow> Inr s
     | Some pgw_s5u_f \<Rightarrow>
         create_session_answer E s5c_xact s11_xact x (sess_ue se) rsp bc e pgw_s5c_f pgw_s5u_f s)))))"

definition sgw_s5c_handle_delete_session_response ::
  "sgw_env \<Rightarrow> index \<Rightarrow> index \<Rightarrow> delete_session_response \<Rightarrow> sgw_state \<Rightarrow> sgw_state res" where
  "sgw_s5c_handle_delete_session_response E s5c_xact x rsp s =
     ebind (ogs_assert (x \<noteq> 0)) (\<lambda>_.
     ebind (get_sess s x) (\<lambda>se.
     ebind (ogs_assert (s5c_xact \<noteq> 0)) (\<lambda>_.
     ebind (xact_assoc s5c_xact s) (\<lambda>s11_xact.
     case dsp_cause rsp of
       None \<Rightarrow> Inr s
     | Some _ \<Rightarrow>
     ebind (get_ue s (sess_ue se)) (\<lambda>ue.
     ebind (sgw_sess_remove E x s) (\<lambda>s.
     ebind (ogs_gtp_xact_commit E s5c_xact s) (\<lambda>s.
     sgw_send_answer E s11_xact (mme_s11_teid ue) (Delete_Session_Response rsp) s)))))))"

subsection \<open>Bearers\<close>

definition sgw_s5c_handle_create_bearer_request ::
  "sgw_env \<Rightarrow> index \<Rightarrow> index \<Rightarrow> create_bearer_request \<Rightarrow> sgw_state \<Rightarrow> sgw_state res" where
  "sgw_s5c_handle_create_bearer_request E s5c_xact x req s =
     ebind (ogs_assert (x \<noteq> 0)) (\<lambda>_.
     ebind (get_sess s x) (\<lambda>se.
     ebind (ogs_assert (sess_ue se \<noteq> 0)) (\<lambda>_.
     ebind (ogs_assert (s5c_xact \<noteq> 0)) (\<lambda>_.
     case cbq_linked_eps_bearer_id req of
       None \<Rightarrow> Inr s
     | Some _ \<Rightarrow>
     case cbq_bearer_contexts req of
       None \<Rightarrow> Inr s
     | Some bc \<Rightarrow>
     case eps_bearer_id bc of
       None \<Rightarrow> Inr s
     | Some _ \<Rightarrow>
     case s5_s8_u_sgw_f_teid bc of
       None \<Rightarrow> Inr s
     | Some pgw_s5u_f \<Rightarrow>
     ebind (sgw_bearer_add E x s) (\<lambda>(b, s).
     ebind (ebind (sgw_s1u_tunnel_in_bearer b s) non_null) (\<lambda>t1.
     ebind (ebind (sgw_s5u_tunnel_in_bearer b s) non_null) (\<lambda>t5.
     ebind (get_tunnel s t5) (\<lambda>tu5.
     let s = set_tunnel t5 (tu5\<lparr>remote_teid := ntohl (ft_teid pgw_s5u_f)\<rparr>) s in
     ebind (pgw_s5u_setup E pgw_s5u_f s) (\<lambda>(pgw, s).
     ebind (get_tunnel s t5) (\<lambda>tu5.
     let s = set_tunnel t5 (tu5\<lparr>t_gnode := Some pgw\<rparr>) s in
     ebind (get_tunnel s t1) (\<lambda>tu1.
     ebind (local_f_teid (interface_type tu1) (local_teid tu1) (gtpu_addr s) (gtpu_addr6 s)) (\<lambda>s1u_f.
     ebind (get_ue s (sess_ue se)) (\<lambda>ue.
     sgw_send_request E s5c_xact (ue_gnode ue) (mme_s11_teid ue)
       (Create_Bearer_Request (req\<lparr>cbq_bearer_contexts := Some (bc\<lparr>s5_s8_u_sgw_f_teid := None,
          s1_u_enodeb_f_teid := Some s1u_f\<rparr>)\<rparr>)) s)))))))))))))"

definition sgw_s5c_handle_update_bearer_request ::
  "sgw_env \<Rightarrow> index \<Rightarrow> index \<Rightarrow> bearer_message \<Rightarrow> sgw_state \<Rightarrow> sgw_state res" where
  "sgw_s5c_handle_update_bearer_request E s5c_xact x req s =
     ebind (ogs_assert (x \<noteq> 0)) (\<lambda>_.
     ebind (get_sess s x) (\<lambda>se.
     ebind (ogs_assert (sess_ue se \<noteq> 0)) (\<lambda>_.
     ebind (ogs_assert (s5c_xact \<noteq> 0)) (\<lambda>_.
     ebind (get_ue s (sess_ue se)) (\<lambda>ue.
     case bm_bearer_contexts req of
       None \<Rightarrow> Inr s
     | Some bc \<Rightarrow>
     case eps_bearer_id bc of
       None \<Rightarrow> Inr s
     | Some _ \<Rightarrow>
         sgw_send_request E s5c_xact (ue_gnode ue) (mme_s11_teid ue) (Update_Bearer_Request req) s)))))"

definition sgw_s5c_handle_delete_bearer_request ::
  "sgw_env \<Rightarrow> index \<Rightarrow> index \<Rightarrow> delete_bearer_request \<Rightarrow> sgw_state \<Rightarrow> sgw_state res" where
  "sgw_s5c_handle_delete_bearer_request E s5c_xact x req s =
     ebind (ogs_assert (x \<noteq> 0)) (\<lambda>_.
     ebind (get_sess s x) (\<lambda>se.
     ebind (ogs_assert (sess_ue se \<noteq> 0)) (\<lambda>_.
     ebind (ogs_assert (s5c_xact \<noteq> 0)) (\<lambda>_.
     ebind (get_ue s (sess_ue se)) (\<lambda>ue.
     if dbq_linked_eps_bearer_id req = None \<and> dbq_eps_bearer_ids req = None then Inr s
     else sgw_send_request E s5c_xact (ue_gnode ue) (mme_s11_teid ue) (Delete_Bearer_Request req) s)))))"

end
