(* ===== verification/Sgw_Sm.thy ===== *)
theory Sgw_Sm
  imports Sgw_S5c
begin

text \<open>
  The state machine of the gateway, \<^verbatim>\<open>src/src/sgw/sgw-sm.c\<close>, and its event loop,
  \<^verbatim>\<open>sgw_main\<close> of \<^verbatim>\<open>src/src/sgw/sgw-init.c\<close>: a received message is given its user or session and its
  transaction and then dispatched on its type.
\<close>

subsection \<open>Dispatch\<close>

text \<open>
  The user a message on the S11 interface belongs to: a message with a TEID of zero opens the node
  and a user for it, otherwise the TEID is the index.
\<close>

definition s11_ue :: "sgw_env \<Rightarrow> gtp_message \<Rightarrow> sgw_state \<Rightarrow> (index option \<times> sgw_state) res" where
  "s11_ue E m s =
     (if m_teid m = 0 then
        ebind (sgw_mme_add_by_message E (m_body m) s) (\<lambda>(mme, s).
        ebind (non_null mme) (\<lambda>mme.
        ebind (sgw_ue_add_by_message E (m_body m) s) (\<lambda>(u, s).
        ebind (non_null u) (\<lambda>u.
        ebind (get_ue s u) (\<lambda>ue.
        Inr (Some u, set_ue u (ue\<lparr>ue_gnode := Some mme\<rparr>) s))))))
      else Inr (sgw_ue_find_by_teid (m_teid m) s, s))"

fun s11_dispatch :: "sgw_env \<Rightarrow> index \<Rightarrow> index \<Rightarrow> gtp_body \<Rightarrow> sgw_state \<Rightarrow> sgw_state res" where
  "s11_dispatch E x u (Create_Session_Request req) s = sgw_s11_handle_create_session_request E x u req s"
| "s11_dispatch E x u (Modify_Bearer_Request req) s = sgw_s11_handle_modify_bearer_request E x u req s"
| "s11_dispatch E x u (Delete_Session_Request req) s = sgw_s11_handle_delete_session_request E x u req s"
| "s11_dispatch E x u (Create_Bearer_Response rsp) s = sgw_s11_handle_create_bearer_response E x u rsp s"
| "s11_dispatch E x u (Update_Bearer_Response rsp) s = sgw_s11_handle_update_bearer_response E x u rsp s"
| "s11_dispatch E x u (Delete_Bearer_Response rsp) s = sgw_s11_handle_delete_bearer_response E x u rsp s"
| "s11_dispatch E x u Release_Access_Bearers_Request s = sgw_s11_handle_release_access_bearers_request E x u s"
| "s11_dispatch E x u Downlink_Data_Notification_Acknowledge s = sgw_s11_handle_downlink_data_notification_ack E x u s"
| "s11_dispatch E x u (Create_Indirect_Tunnel_Request reqs) s =
     sgw_s11_handle_create_indirect_data_forwarding_tunnel_request E x u reqs s"
| "s11_dispatch E x u Delete_Indirect_Tunnel_Request s =
     sgw_s11_handle_delete_indirect_data_forwarding_tunnel_request E x u s"
| "s11_dispatch E x u _ s = Inr s"

fun s5c_dispatch :: "sgw_env \<Rightarrow> index \<Rightarrow> index \<Rightarrow> gtp_body \<Rightarrow> sgw_state \<Rightarrow> sgw_state res" where
  "s5c_dispatch E x se (Create_Session_Response rsp) s = sgw_s5c_handle_create_session_response E x se rsp s"
| "s5c_dispatch E x se (Delete_Session_Response rsp) s = sgw_s5c_handle_delete_session_response E x se rsp s"
| "s5c_dispatch E x se (Create_Bearer_Request req) s = sgw_s5c_handle_create_bearer_request E x se req s"
| "s5c_dispatch E x se (Update_Bearer_Request req) s = sgw_s5c_handle_update_bearer_request E x se req s"
| "s5c_dispatch E x se (Delete_Bearer_Request req) s = sgw_s5c_handle_delete_bearer_request E x se req s"
| "s5c_dispatch E x se _ s = Inr s"

fun sgw_state_operational :: "sgw_env \<Rightarrow> sgw_event \<Rightarrow> sgw_state \<Rightarrow> sgw_state res" where
  "sgw_state_operational E (SGW_EVT_S11_MESSAGE mo) s =
     ebind (non_null mo) (\<lambda>m.
     ebind (s11_ue E m s) (\<lambda>(uo, s).
     ebind (non_null uo) (\<lambda>u.
     ebind (get_ue s u) (\<lambda>ue.
     ebind (ogs_gtp_xact_receive E (ptr (ue_gnode ue)) (body_type (m_body m)) (m_sqn m) s) (\<lambda>(rv, x, s).
     if rv \<noteq> OGS_OK then Inr s else s11_dispatch E x u (m_body m) s)))))"
| "sgw_state_operational E (SGW_EVT_S5C_MESSAGE mo) s =
     ebind (non_null mo) (\<lambda>m.
     ebind (non_null (sgw_sess_find_by_teid (m_teid m) s)) (\<lambda>x.
     ebind (get_sess s x) (\<lambda>se.
     ebind (ogs_gtp_xact_receive E (ptr (sess_gnode se)) (body_type (m_body m)) (m_sqn m) s) (\<lambda>(rv, xa, s).
     if rv \<noteq> OGS_OK then Inr s else s5c_dispatch E xa x (m_body m) s))))"
| "sgw_state_operational E (SGW_EVT_LO_DLDATA_NOTI b) s =
     ebind (ogs_assert (b \<noteq> 0)) (\<lambda>_. sgw_s11_handle_lo_dldata_notification E b s)"

text \<open>One pass of the inner loop of \<^verbatim>\<open>sgw_main\<close>: the oldest event is taken and dispatched.\<close>

definition sgw_main_pop :: "sgw_env \<Rightarrow> sgw_state \<Rightarrow> sgw_state res" where
  "sgw_main_pop E s =
     (case queue s of [] \<Rightarrow> Inr s | e # es \<Rightarrow> sgw_state_operational E e (s\<lparr>queue := es\<rparr>))"

end
