(* ===== verification/Sgw_Inv.thy ===== *)
theory Sgw_Inv
  imports Sgw_Context
begin

text \<open>
  The structure of the serving gateway's contexts and what every operation of \<open>Sgw_Context\<close> does to
  it. The three levels of the tree (user, session, bearer, tunnel) are instances of the ownership
  contract; adding and removing an object are given by equations over the live objects of the four
  pools, from which the invariant and the lookups follow.
\<close>

subsection \<open>The three levels\<close>

interpretation ue_sess: ownership sess_list "\<lambda>l ue. ue\<lparr>sess_list := l\<rparr>" sess_ue
  by unfold_locales simp

interpretation sess_bearer: ownership bearer_list "\<lambda>l se. se\<lparr>bearer_list := l\<rparr>" b_sess
  by unfold_locales simp

interpretation bearer_tunnel: ownership tunnel_list "\<lambda>l be. be\<lparr>tunnel_list := l\<rparr>" t_bearer
  by unfold_locales simp

abbreviation "sess_owned s \<equiv> owns sess_list sess_ue (objs (ues s)) (objs (sesss s))"
abbreviation "bearers_owned s \<equiv> owns bearer_list b_sess (objs (sesss s)) (objs (bearers s))"
abbreviation "tunnels_owned s \<equiv> owns tunnel_list t_bearer (objs (bearers s)) (objs (tunnels s))"

subsection \<open>The invariant\<close>

text \<open>The packet buffer of a bearer: as many valid packets as the counter says, at the front.\<close>

definition buffer_ok :: "sgw_bearer \<Rightarrow> bool" where
  "buffer_ok be \<longleftrightarrow> length (buffered_pkts be) = MAX_NUM_OF_PACKET_BUFFER
     \<and> num_buffered_pkt be \<le> MAX_NUM_OF_PACKET_BUFFER
     \<and> (\<forall>i < num_buffered_pkt be. buffered_pkts be ! i \<noteq> None)"

abbreviation node_ok :: "sgw_state \<Rightarrow> index option \<Rightarrow> bool" where
  "node_ok s p \<equiv> (\<forall>g. p = Some g \<longrightarrow> gnodes s g \<noteq> None)"

definition ues_ok :: "sgw_state \<Rightarrow> bool" where
  "ues_ok s \<longleftrightarrow> distinct (sgw_ue_list s) \<and> set (sgw_ue_list s) = dom (objs (ues s))
     \<and> (\<forall>u ue. objs (ues s) u = Some ue \<longrightarrow> u \<noteq> 0 \<and> sgw_s11_teid ue = u)"

definition sesss_ok :: "sgw_state \<Rightarrow> bool" where
  "sesss_ok s \<longleftrightarrow> (\<forall>x se. objs (sesss s) x = Some se \<longrightarrow>
     x \<noteq> 0 \<and> sgw_s5c_teid se = SGW_S5C_INDEX_TO_TEID x \<and> node_ok s (sess_gnode se))"

definition bearers_ok :: "sgw_state \<Rightarrow> bool" where
  "bearers_ok s \<longleftrightarrow> (\<forall>b be. objs (bearers s) b = Some be \<longrightarrow>
     b \<noteq> 0 \<and> buffer_ok be \<and> (\<exists>se. objs (sesss s) (b_sess be) = Some se \<and> sess_ue se = b_ue be))"

definition tunnels_ok :: "sgw_state \<Rightarrow> bool" where
  "tunnels_ok s \<longleftrightarrow> (\<forall>t tu. objs (tunnels s) t = Some tu \<longrightarrow> t \<noteq> 0 \<and> local_teid tu = t \<and> node_ok s (t_gnode tu))"

definition peers_ok :: "sgw_state \<Rightarrow> bool" where
  "peers_ok s \<longleftrightarrow> set (mme_s11_list s) \<union> set (pgw_s5c_list s) \<union> set (enb_s1u_list s) \<union> set (pgw_s5u_list s)
     \<subseteq> dom (gnodes s)"

definition ue_nodes_ok :: "sgw_state \<Rightarrow> bool" where
  "ue_nodes_ok s \<longleftrightarrow> (\<forall>u ue. objs (ues s) u = Some ue \<longrightarrow> node_ok s (ue_gnode ue))"

definition ctx_inv :: "sgw_state \<Rightarrow> bool" where
  "ctx_inv s \<longleftrightarrow> sess_owned s \<and> bearers_owned s \<and> tunnels_owned s
     \<and> ues_ok s \<and> sesss_ok s \<and> bearers_ok s \<and> tunnels_ok s \<and> peers_ok s"

definition sgw_inv :: "sgw_state \<Rightarrow> bool" where
  "sgw_inv s \<longleftrightarrow> gtp_inv s \<and> ctx_inv s \<and> ue_nodes_ok s"

lemmas ctx_defs = ues_ok_def sesss_ok_def bearers_ok_def tunnels_ok_def ue_nodes_ok_def

subsection \<open>Selectors\<close>

lemma set_ue_sel [simp]:
  "ues (set_ue u v s) = pool_set u v (ues s)" "sesss (set_ue u v s) = sesss s"
  "bearers (set_ue u v s) = bearers s" "tunnels (set_ue u v s) = tunnels s"
  "gnodes (set_ue u v s) = gnodes s" "xacts (set_ue u v s) = xacts s" "sent (set_ue u v s) = sent s"
  "sgw_ue_list (set_ue u v s) = sgw_ue_list s" "queue (set_ue u v s) = queue s"
  by (simp_all add: set_ue_def)

lemma set_sess_sel [simp]:
  "ues (set_sess u v s) = ues s" "sesss (set_sess u v s) = pool_set u v (sesss s)"
  "bearers (set_sess u v s) = bearers s" "tunnels (set_sess u v s) = tunnels s"
  "gnodes (set_sess u v s) = gnodes s" "xacts (set_sess u v s) = xacts s" "sent (set_sess u v s) = sent s"
  "sgw_ue_list (set_sess u v s) = sgw_ue_list s" "queue (set_sess u v s) = queue s"
  by (simp_all add: set_sess_def)

lemma set_bearer_sel [simp]:
  "ues (set_bearer u v s) = ues s" "sesss (set_bearer u v s) = sesss s"
  "bearers (set_bearer u v s) = pool_set u v (bearers s)" "tunnels (set_bearer u v s) = tunnels s"
  "gnodes (set_bearer u v s) = gnodes s" "xacts (set_bearer u v s) = xacts s" "sent (set_bearer u v s) = sent s"
  "sgw_ue_list (set_bearer u v s) = sgw_ue_list s" "queue (set_bearer u v s) = queue s"
  by (simp_all add: set_bearer_def)

lemma set_tunnel_sel [simp]:
  "ues (set_tunnel u v s) = ues s" "sesss (set_tunnel u v s) = sesss s"
  "bearers (set_tunnel u v s) = bearers s" "tunnels (set_tunnel u v s) = pool_set u v (tunnels s)"
  "gnodes (set_tunnel u v s) = gnodes s" "xacts (set_tunnel u v s) = xacts s" "sent (set_tunnel u v s) = sent s"
  "sgw_ue_list (set_tunnel u v s) = sgw_ue_list s" "queue (set_tunnel u v s) = queue s"
  by (simp_all add: set_tunnel_def)

lemma peers_set [simp]:
  "peers_ok (set_ue u v s) = peers_ok s" "peers_ok (set_sess x se s) = peers_ok s"
  "peers_ok (set_bearer b be s) = peers_ok s" "peers_ok (set_tunnel t tu s) = peers_ok s"
  by (simp_all add: peers_ok_def set_ue_def set_sess_def set_bearer_def set_tunnel_def)

lemma sgw_invD:
  assumes "sgw_inv s"
  shows "gtp_inv s" "sess_owned s" "bearers_owned s" "tunnels_owned s" "ues_ok s" "sesss_ok s" "bearers_ok s"
    "tunnels_ok s" "peers_ok s" "ue_nodes_ok s"
  using assms by (simp_all add: sgw_inv_def ctx_inv_def)

subsection \<open>Updates of one object\<close>

lemma sgw_inv_set_ue:
  assumes inv: "sgw_inv s" and u: "objs (ues s) u = Some ue"
    and eq: "sess_list ue' = sess_list ue" "sgw_s11_teid ue' = sgw_s11_teid ue" "node_ok s (ue_gnode ue')"
  shows "sgw_inv (set_ue u ue' s)"
proof -
  have "sess_owned (set_ue u ue' s)"
    using ue_sess.owns_set_parent [OF sgw_invD(2) [OF inv] u eq(1)] u by simp
  then show ?thesis
    using inv u eq by (auto simp: sgw_inv_def ctx_inv_def ctx_defs gtp_inv_def)
qed

lemma sgw_inv_set_sess:
  assumes inv: "sgw_inv s" and x: "objs (sesss s) x = Some se"
    and eq: "bearer_list se' = bearer_list se" "sgw_s5c_teid se' = sgw_s5c_teid se" "sess_ue se' = sess_ue se"
      "node_ok s (sess_gnode se')"
  shows "sgw_inv (set_sess x se' s)"
proof -
  have "sess_owned (set_sess x se' s)" "bearers_owned (set_sess x se' s)"
    using ue_sess.owns_set_child [OF sgw_invD(2) [OF inv] x eq(3)] x
      sess_bearer.owns_set_parent [OF sgw_invD(3) [OF inv] x eq(1)] by simp_all
  moreover have "bearers_ok (set_sess x se' s)"
    using sgw_invD(7) [OF inv] x eq(3) by (fastforce simp: bearers_ok_def)
  ultimately show ?thesis
    using inv x eq by (auto simp: sgw_inv_def ctx_inv_def ues_ok_def sesss_ok_def tunnels_ok_def ue_nodes_ok_def gtp_inv_def)
qed

lemma sgw_inv_set_bearer:
  assumes inv: "sgw_inv s" and b: "objs (bearers s) b = Some be"
    and eq: "tunnel_list be' = tunnel_list be" "b_sess be' = b_sess be" "b_ue be' = b_ue be" "buffer_ok be'"
  shows "sgw_inv (set_bearer b be' s)"
proof -
  have "bearers_owned (set_bearer b be' s)" "tunnels_owned (set_bearer b be' s)"
    using sess_bearer.owns_set_child [OF sgw_invD(3) [OF inv] b eq(2)] b
      bearer_tunnel.owns_set_parent [OF sgw_invD(4) [OF inv] b eq(1)] by simp_all
  then show ?thesis
    using inv b eq by (auto simp: sgw_inv_def ctx_inv_def ctx_defs gtp_inv_def)
qed

lemma sgw_inv_set_tunnel:
  assumes inv: "sgw_inv s" and t: "objs (tunnels s) t = Some tu"
    and eq: "t_bearer tu' = t_bearer tu" "local_teid tu' = local_teid tu" "node_ok s (t_gnode tu')"
  shows "sgw_inv (set_tunnel t tu' s)"
proof -
  have "tunnels_owned (set_tunnel t tu' s)"
    using bearer_tunnel.owns_set_child [OF sgw_invD(4) [OF inv] t eq(1)] t by simp
  then show ?thesis
    using inv t eq by (auto simp: sgw_inv_def ctx_inv_def ctx_defs gtp_inv_def)
qed

subsection \<open>Additions\<close>

lemma sgw_env_okD:
  assumes "sgw_env_ok E"
  shows "gtp_env_ok E" "pick_ok (ue_pick E)" "pick_ok (sess_pick E)" "pick_ok (bearer_pick E)" "pick_ok (tunnel_pick E)"
    "list_add E xs y = xs @ [y]" "list_remove E xs y = remove1 y xs"
  using assms by (simp_all add: sgw_env_ok_def gtp_env_ok_def)

text \<open>
  What a new tunnel holds: only its TEID towards the peer is left over from the slot. The contexts
  differ from before in the tunnel and in the list of its bearer.
\<close>

abbreviation new_tunnel :: "u8 \<Rightarrow> index \<Rightarrow> index \<Rightarrow> u32 \<Rightarrow> sgw_tunnel" where
  "new_tunnel iface t b r \<equiv> \<lparr>interface_type = iface, local_teid = t, remote_teid = r, t_bearer = b, t_gnode = None\<rparr>"

lemma tunnel_add_spec:
  assumes E: "sgw_env_ok E" and b: "objs (bearers s) b = Some be"
  shows "safe (sgw_tunnel_add E b iface s) (\<lambda>(t, s'). t \<noteq> 0 \<and> objs (tunnels s) t = None
     \<and> (\<exists>p q r. s' = s\<lparr>tunnels := p, bearers := q\<rparr>
        \<and> objs p = (objs (tunnels s))(t \<mapsto> new_tunnel iface t b r)
        \<and> objs q = (objs (bearers s))(b \<mapsto> be\<lparr>tunnel_list := tunnel_list be @ [t]\<rparr>)))"
proof -
  have "\<exists>p' q r. (set_bearer b (be\<lparr>tunnel_list := tunnel_list be @ [t]\<rparr>)
      (set_tunnel t (pool_mem p t\<lparr>interface_type := iface, local_teid := t, t_bearer := b, t_gnode := None\<rparr>) (s\<lparr>tunnels := p\<rparr>)))
      = s\<lparr>tunnels := p', bearers := q\<rparr>
      \<and> objs p' = (objs (tunnels s))(t \<mapsto> new_tunnel iface t b r)
      \<and> objs q = (objs (bearers s))(b \<mapsto> be\<lparr>tunnel_list := tunnel_list be @ [t]\<rparr>)"
    if "objs p = (objs (tunnels s))(t \<mapsto> pool_mem (tunnels s) t)" "pool_mem p = pool_mem (tunnels s)" for p t
    using that b by (cases "pool_mem (tunnels s) t")
      (fastforce simp: set_bearer_def set_tunnel_def intro!: exI [of _ "remote_teid (pool_mem (tunnels s) t)"])
  then show ?thesis
    using b by (auto simp: sgw_tunnel_add_def Let_def sgw_env_okD [OF E] dest!: pool_alloc_facts)
qed

text \<open>A bearer is added with its two tunnels; the rest of it, the packet buffer included, is what the slot held.\<close>

definition bearer_added :: "index \<Rightarrow> sgw_sess \<Rightarrow> index \<Rightarrow> sgw_state \<Rightarrow> sgw_state \<Rightarrow> bool" where
  "bearer_added x se b s s' \<longleftrightarrow> b \<noteq> 0 \<and> objs (bearers s) b = None
     \<and> (\<exists>t1 t5 r1 r5 p q. t1 \<noteq> 0 \<and> t5 \<noteq> 0 \<and> t1 \<noteq> t5 \<and> objs (tunnels s) t1 = None \<and> objs (tunnels s) t5 = None
        \<and> s' = s\<lparr>tunnels := p, bearers := q, sesss := pool_set x (se\<lparr>bearer_list := bearer_list se @ [b]\<rparr>) (sesss s)\<rparr>
        \<and> objs p = (objs (tunnels s))(t1 \<mapsto> new_tunnel OGS_GTP_F_TEID_S1_U_SGW_GTP_U t1 b r1,
             t5 \<mapsto> new_tunnel OGS_GTP_F_TEID_S5_S8_SGW_GTP_U t5 b r5)
        \<and> objs q = (objs (bearers s))(b \<mapsto> pool_mem (bearers s) b\<lparr>tunnel_list := [t1, t5], b_sess := x, b_ue := sess_ue se\<rparr>))"

lemma bearer_add_tunnels:
  assumes E: "sgw_env_ok E" and b: "objs (bearers s) b = Some be" and nil: "tunnel_list be = []"
  shows "safe (ebind (sgw_tunnel_add E b i1 s) (\<lambda>(_, s). sgw_tunnel_add E b i5 s)) (\<lambda>(t5, s'). \<exists>t1 r1 r5 p q.
     t1 \<noteq> 0 \<and> t5 \<noteq> 0 \<and> t1 \<noteq> t5 \<and> objs (tunnels s) t1 = None \<and> objs (tunnels s) t5 = None
     \<and> s' = s\<lparr>tunnels := p, bearers := q\<rparr>
     \<and> objs p = (objs (tunnels s))(t1 \<mapsto> new_tunnel i1 t1 b r1, t5 \<mapsto> new_tunnel i5 t5 b r5)
     \<and> objs q = (objs (bearers s))(b \<mapsto> be\<lparr>tunnel_list := [t1, t5]\<rparr>))"
proof -
  have second: "safe (sgw_tunnel_add E b i5 (s\<lparr>tunnels := p, bearers := q\<rparr>)) (\<lambda>(t5, s'). \<exists>t1 r1 r5 p q.
     t1 \<noteq> 0 \<and> t5 \<noteq> 0 \<and> t1 \<noteq> t5 \<and> objs (tunnels s) t1 = None \<and> objs (tunnels s) t5 = None
     \<and> s' = s\<lparr>tunnels := p, bearers := q\<rparr>
     \<and> objs p = (objs (tunnels s))(t1 \<mapsto> new_tunnel i1 t1 b r1, t5 \<mapsto> new_tunnel i5 t5 b r5)
     \<and> objs q = (objs (bearers s))(b \<mapsto> be\<lparr>tunnel_list := [t1, t5]\<rparr>))"
    if t1: "t1 \<noteq> 0" "objs (tunnels s) t1 = None" "objs p = (objs (tunnels s))(t1 \<mapsto> new_tunnel i1 t1 b r1)"
      "objs q = (objs (bearers s))(b \<mapsto> be\<lparr>tunnel_list := [t1]\<rparr>)" for t1 p q r1
  proof -
    have b': "objs (bearers (s\<lparr>tunnels := p, bearers := q\<rparr>)) b = Some (be\<lparr>tunnel_list := [t1]\<rparr>)"
      using t1(4) by simp
    show ?thesis
      by (rule safe_mono [OF tunnel_add_spec [OF E b']]) (use t1 in \<open>fastforce split: if_splits\<close>)
  qed
  show ?thesis
    unfolding safe_ebind by (rule safe_mono [OF tunnel_add_spec [OF E b]]) (use nil second in auto)
qed

lemma bearer_add_spec:
  assumes E: "sgw_env_ok E" and x: "objs (sesss s) x = Some se"
  shows "safe (sgw_bearer_add E x s) (\<lambda>(b, s'). bearer_added x se b s s')"
proof -
  have step: "safe (ebind (sgw_tunnel_add E b OGS_GTP_F_TEID_S1_U_SGW_GTP_U s1) (\<lambda>(_, s).
      sgw_tunnel_add E b OGS_GTP_F_TEID_S5_S8_SGW_GTP_U s)) (\<lambda>(_, s2). \<exists>v. objs (sesss s2) x = Some v
        \<and> bearer_added x se b s (set_sess x (v\<lparr>bearer_list := bearer_list v @ [b]\<rparr>) s2))"
    if p: "b \<noteq> 0" "objs (bearers s) b = None" "objs p = (objs (bearers s))(b \<mapsto> pool_mem (bearers s) b)"
      and s1: "s1 = set_bearer b (pool_mem (bearers s) b\<lparr>b_ue := sess_ue se, b_sess := x, tunnel_list := []\<rparr>) (s\<lparr>bearers := p\<rparr>)"
    for b p s1
  proof -
    have b: "objs (bearers s1) b = Some (pool_mem (bearers s) b\<lparr>b_ue := sess_ue se, b_sess := x, tunnel_list := []\<rparr>)"
      using p(3) by (simp add: s1)
    show ?thesis
      by (rule safe_mono [OF bearer_add_tunnels [OF E b]])
        (use x p in \<open>fastforce simp: s1 bearer_added_def set_sess_def set_bearer_def\<close>)+
  qed
  show ?thesis
    using x step unfolding sgw_bearer_add_def
    by (auto simp: Let_def sgw_env_okD [OF E] case_prod_unfold dest!: pool_alloc_facts)
qed

text \<open>A session is added with its default bearer; of the session, the TEID of the packet gateway is left over.\<close>

definition sess_added :: "index \<Rightarrow> string \<Rightarrow> u8 \<Rightarrow> index \<Rightarrow> sgw_state \<Rightarrow> sgw_state \<Rightarrow> bool" where
  "sess_added u a e x s s' \<longleftrightarrow> x \<noteq> 0 \<and> objs (sesss s) x = None
     \<and> (\<exists>b t1 t5 r1 r5 p q k ue. b \<noteq> 0 \<and> objs (bearers s) b = None
        \<and> t1 \<noteq> 0 \<and> t5 \<noteq> 0 \<and> t1 \<noteq> t5 \<and> objs (tunnels s) t1 = None \<and> objs (tunnels s) t5 = None
        \<and> objs (ues s) u = Some ue
        \<and> s' = s\<lparr>tunnels := p, bearers := q, sesss := k, ues := pool_set u (ue\<lparr>sess_list := sess_list ue @ [x]\<rparr>) (ues s)\<rparr>
        \<and> objs p = (objs (tunnels s))(t1 \<mapsto> new_tunnel OGS_GTP_F_TEID_S1_U_SGW_GTP_U t1 b r1,
             t5 \<mapsto> new_tunnel OGS_GTP_F_TEID_S5_S8_SGW_GTP_U t5 b r5)
        \<and> objs q = (objs (bearers s))(b \<mapsto> pool_mem (bearers s) b\<lparr>tunnel_list := [t1, t5], b_sess := x, b_ue := u, ebi := e\<rparr>)
        \<and> objs k = (objs (sesss s))(x \<mapsto> pool_mem (sesss s) x\<lparr>sgw_s5c_teid := SGW_S5C_INDEX_TO_TEID x, apn := a,
             sess_ue := u, sess_gnode := None, bearer_list := [b]\<rparr>))"

lemma sess_addedI:
  assumes bearer: "bearer_added x se b (s\<lparr>sesss := k\<rparr>) s2" and be: "objs (bearers s2) b = Some be"
    and x: "x \<noteq> 0" "objs (sesss s) x = None" "objs k = (objs (sesss s))(x \<mapsto> se)"
    and se: "se = pool_mem (sesss s) x\<lparr>sgw_s5c_teid := SGW_S5C_INDEX_TO_TEID x, apn := a, sess_ue := u, sess_gnode := None, bearer_list := []\<rparr>"
    and u: "objs (ues s) u = Some ue"
  shows "sess_added u a e x s (set_ue u (ue\<lparr>sess_list := sess_list ue @ [x]\<rparr>) (set_bearer b (be\<lparr>ebi := e\<rparr>) s2))"
proof -
  obtain t1 t5 r1 r5 p q where b: "b \<noteq> 0" "objs (bearers s) b = None"
    and t: "t1 \<noteq> 0" "t5 \<noteq> 0" "t1 \<noteq> t5" "objs (tunnels s) t1 = None" "objs (tunnels s) t5 = None"
    and s2: "s2 = s\<lparr>tunnels := p, bearers := q, sesss := pool_set x (se\<lparr>bearer_list := bearer_list se @ [b]\<rparr>) k\<rparr>"
    and p: "objs p = (objs (tunnels s))(t1 \<mapsto> new_tunnel OGS_GTP_F_TEID_S1_U_SGW_GTP_U t1 b r1,
             t5 \<mapsto> new_tunnel OGS_GTP_F_TEID_S5_S8_SGW_GTP_U t5 b r5)"
    and q: "objs q = (objs (bearers s))(b \<mapsto> pool_mem (bearers s) b\<lparr>tunnel_list := [t1, t5], b_sess := x, b_ue := sess_ue se\<rparr>)"
    using bearer by (auto simp: bearer_added_def)
  have be': "be = pool_mem (bearers s) b\<lparr>tunnel_list := [t1, t5], b_sess := x, b_ue := u\<rparr>"
    using be q by (simp add: s2 se)
  have state: "set_ue u (ue\<lparr>sess_list := sess_list ue @ [x]\<rparr>) (set_bearer b (be\<lparr>ebi := e\<rparr>) s2)
      = s\<lparr>tunnels := p, bearers := pool_set b (be\<lparr>ebi := e\<rparr>) q, sesss := pool_set x (se\<lparr>bearer_list := [b]\<rparr>) k,
          ues := pool_set u (ue\<lparr>sess_list := sess_list ue @ [x]\<rparr>) (ues s)\<rparr>"
    by (simp add: s2 set_ue_def set_bearer_def se)
  have "objs (pool_set b (be\<lparr>ebi := e\<rparr>) q)
      = (objs (bearers s))(b \<mapsto> pool_mem (bearers s) b\<lparr>tunnel_list := [t1, t5], b_sess := x, b_ue := u, ebi := e\<rparr>)"
    using q by (simp add: be')
  moreover have "objs (pool_set x (se\<lparr>bearer_list := [b]\<rparr>) k)
      = (objs (sesss s))(x \<mapsto> pool_mem (sesss s) x\<lparr>sgw_s5c_teid := SGW_S5C_INDEX_TO_TEID x, apn := a,
             sess_ue := u, sess_gnode := None, bearer_list := [b]\<rparr>)"
    using x(3) by (simp add: se)
  ultimately show ?thesis
    unfolding sess_added_def state using x b t p u by blast
qed

lemma sess_add_spec:
  assumes E: "sgw_env_ok E" and u: "objs (ues s) u = Some ue"
  shows "safe (sgw_sess_add E u a e s) (\<lambda>(x, s'). e \<noteq> 0 \<and> sess_added u (take (max_apn_len E) a) e x s s')"
proof -
  have step: "safe (sgw_bearer_add E x (s\<lparr>sesss := k\<rparr>)) (\<lambda>(b, s2). \<exists>be. objs (bearers s2) b = Some be \<and>
        (\<exists>ue. objs (ues s2) u = Some ue \<and>
        sess_added u (take (max_apn_len E) a) e x s
          (set_ue u (ue\<lparr>sess_list := sess_list ue @ [x]\<rparr>) (set_bearer b (be\<lparr>ebi := e\<rparr>) s2))))"
    if x: "x \<noteq> 0" "objs (sesss s) x = None"
      and k: "objs k = (objs (sesss s))(x \<mapsto> pool_mem (sesss s) x\<lparr>sgw_s5c_teid := SGW_S5C_INDEX_TO_TEID x,
        apn := take (max_apn_len E) a, sess_ue := u, sess_gnode := None, bearer_list := []\<rparr>)" for x k
  proof -
    have "objs (sesss (s\<lparr>sesss := k\<rparr>)) x = Some (pool_mem (sesss s) x\<lparr>sgw_s5c_teid := SGW_S5C_INDEX_TO_TEID x,
        apn := take (max_apn_len E) a, sess_ue := u, sess_gnode := None, bearer_list := []\<rparr>)"
      using k by simp
    from bearer_add_spec [OF E this] show ?thesis
    proof (rule safe_mono, clarify)
      fix b s2 assume added: "bearer_added x (pool_mem (sesss s) x\<lparr>sgw_s5c_teid := SGW_S5C_INDEX_TO_TEID x,
          apn := take (max_apn_len E) a, sess_ue := u, sess_gnode := None, bearer_list := []\<rparr>) b (s\<lparr>sesss := k\<rparr>) s2"
      then obtain be where "objs (bearers s2) b = Some be" "ues s2 = ues s" by (auto simp: bearer_added_def)
      then show "\<exists>be. objs (bearers s2) b = Some be \<and> (\<exists>ue. objs (ues s2) u = Some ue \<and>
        sess_added u (take (max_apn_len E) a) e x s
          (set_ue u (ue\<lparr>sess_list := sess_list ue @ [x]\<rparr>) (set_bearer b (be\<lparr>ebi := e\<rparr>) s2)))"
        using sess_addedI [OF added _ x k refl u] u by auto
    qed
  qed
  show ?thesis
    using u step unfolding sgw_sess_add_def
    by (auto simp: Let_def sgw_env_okD [OF E] case_prod_unfold set_sess_def dest!: pool_alloc_facts)
qed

subsection \<open>Additions keep the invariant\<close>

text \<open>
  The memory of a free bearer: its packet counter is zero. The pools do not establish this, since
  removing a bearer leaves the counter as it was; it is a hypothesis wherever a bearer is added.
\<close>

definition clean_slots :: "sgw_state \<Rightarrow> bool" where
  "clean_slots s \<longleftrightarrow> (\<forall>b. objs (bearers s) b = None \<longrightarrow> num_buffered_pkt (pool_mem (bearers s) b) = 0
     \<and> length (buffered_pkts (pool_mem (bearers s) b)) = MAX_NUM_OF_PACKET_BUFFER)"

lemma clean_buffer_ok:
  "clean_slots s \<Longrightarrow> objs (bearers s) b = None \<Longrightarrow> num_buffered_pkt be = num_buffered_pkt (pool_mem (bearers s) b) \<Longrightarrow>
     buffered_pkts be = buffered_pkts (pool_mem (bearers s) b) \<Longrightarrow> buffer_ok be"
  by (auto simp: clean_slots_def buffer_ok_def)

lemma owns_two_tunnels:
  assumes own: "owns tunnel_list t_bearer B T" and b: "B b = None"
    and t: "T t1 = None" "T t5 = None" "t1 \<noteq> t5" "t_bearer tu1 = b" "t_bearer tu5 = b"
    and be: "tunnel_list be = [t1, t5]"
  shows "owns tunnel_list t_bearer (B(b \<mapsto> be)) (T(t1 \<mapsto> tu1, t5 \<mapsto> tu5))"
proof -
  have "owns tunnel_list t_bearer (B(b \<mapsto> be\<lparr>tunnel_list := []\<rparr>)) T"
    using own b by (rule bearer_tunnel.owns_new_parent) simp
  from bearer_tunnel.owns_add_child [OF this _ t(1,4)]
  have "owns tunnel_list t_bearer (B(b \<mapsto> be\<lparr>tunnel_list := [t1]\<rparr>)) (T(t1 \<mapsto> tu1))" by simp
  from bearer_tunnel.owns_add_child [OF this, of b _ t5 tu5] t
  have "owns tunnel_list t_bearer (B(b \<mapsto> be\<lparr>tunnel_list := [t1, t5]\<rparr>)) (T(t1 \<mapsto> tu1, t5 \<mapsto> tu5))" by simp
  moreover have "be\<lparr>tunnel_list := [t1, t5]\<rparr> = be" using be by (cases be) simp
  ultimately show ?thesis by simp
qed

lemma sgw_inv_tunnel_added:
  assumes inv: "sgw_inv s" and b: "objs (bearers s) b = Some be" and t: "t \<noteq> 0" "objs (tunnels s) t = None"
    and p: "objs p = (objs (tunnels s))(t \<mapsto> new_tunnel iface t b r)"
    and q: "objs q = (objs (bearers s))(b \<mapsto> be\<lparr>tunnel_list := tunnel_list be @ [t]\<rparr>)"
  shows "sgw_inv (s\<lparr>tunnels := p, bearers := q\<rparr>)"
proof -
  have "owns tunnel_list t_bearer (objs q) (objs p)"
    unfolding p q using bearer_tunnel.owns_add_child [OF sgw_invD(4) [OF inv] b t(2)] by simp
  moreover have "owns bearer_list b_sess (objs (sesss s)) (objs q)"
    unfolding q using sess_bearer.owns_set_child [OF sgw_invD(3) [OF inv] b] by simp
  ultimately show ?thesis
    using inv b t by (auto simp: sgw_inv_def ctx_inv_def ctx_defs gtp_inv_def peers_ok_def p q buffer_ok_def)
qed

lemma sgw_inv_bearer_added:
  assumes inv: "sgw_inv s" and clean: "clean_slots s" and x: "objs (sesss s) x = Some se"
    and added: "bearer_added x se b s s'"
  shows "sgw_inv s'"
proof -
  obtain t1 t5 r1 r5 p q where b: "b \<noteq> 0" "objs (bearers s) b = None"
    and t: "t1 \<noteq> 0" "t5 \<noteq> 0" "t1 \<noteq> t5" "objs (tunnels s) t1 = None" "objs (tunnels s) t5 = None"
    and s': "s' = s\<lparr>tunnels := p, bearers := q, sesss := pool_set x (se\<lparr>bearer_list := bearer_list se @ [b]\<rparr>) (sesss s)\<rparr>"
    and p: "objs p = (objs (tunnels s))(t1 \<mapsto> new_tunnel OGS_GTP_F_TEID_S1_U_SGW_GTP_U t1 b r1,
             t5 \<mapsto> new_tunnel OGS_GTP_F_TEID_S5_S8_SGW_GTP_U t5 b r5)"
    and q: "objs q = (objs (bearers s))(b \<mapsto> pool_mem (bearers s) b\<lparr>tunnel_list := [t1, t5], b_sess := x, b_ue := sess_ue se\<rparr>)"
    using added by (auto simp: bearer_added_def)
  have "tunnels_owned s'"
    using owns_two_tunnels [OF sgw_invD(4) [OF inv] b(2) t(4,5,3)] by (simp add: s' p q)
  moreover have "bearers_owned s'"
    using sess_bearer.owns_add_child [OF sgw_invD(3) [OF inv] x b(2)] x by (simp add: s' q)
  moreover have "sess_owned s'"
    using ue_sess.owns_set_child [OF sgw_invD(2) [OF inv] x] x by (simp add: s')
  moreover have "bearers_ok s'"
    using sgw_invD(7) [OF inv] x b clean by (fastforce simp: bearers_ok_def s' q intro: clean_buffer_ok)
  ultimately show ?thesis
    using inv x b t by (auto simp: sgw_inv_def ctx_inv_def ues_ok_def sesss_ok_def tunnels_ok_def ue_nodes_ok_def
        gtp_inv_def peers_ok_def p s')
qed

lemma sgw_inv_sess_added:
  assumes inv: "sgw_inv s" and clean: "clean_slots s" and added: "sess_added u a e x s s'"
  shows "sgw_inv s'"
proof -
  obtain b t1 t5 r1 r5 p q k ue where x: "x \<noteq> 0" "objs (sesss s) x = None" and b: "b \<noteq> 0" "objs (bearers s) b = None"
    and t: "t1 \<noteq> 0" "t5 \<noteq> 0" "t1 \<noteq> t5" "objs (tunnels s) t1 = None" "objs (tunnels s) t5 = None"
    and u: "objs (ues s) u = Some ue"
    and s': "s' = s\<lparr>tunnels := p, bearers := q, sesss := k, ues := pool_set u (ue\<lparr>sess_list := sess_list ue @ [x]\<rparr>) (ues s)\<rparr>"
    and p: "objs p = (objs (tunnels s))(t1 \<mapsto> new_tunnel OGS_GTP_F_TEID_S1_U_SGW_GTP_U t1 b r1,
             t5 \<mapsto> new_tunnel OGS_GTP_F_TEID_S5_S8_SGW_GTP_U t5 b r5)"
    and q: "objs q = (objs (bearers s))(b \<mapsto> pool_mem (bearers s) b\<lparr>tunnel_list := [t1, t5], b_sess := x, b_ue := u, ebi := e\<rparr>)"
    and k: "objs k = (objs (sesss s))(x \<mapsto> pool_mem (sesss s) x\<lparr>sgw_s5c_teid := SGW_S5C_INDEX_TO_TEID x, apn := a,
             sess_ue := u, sess_gnode := None, bearer_list := [b]\<rparr>)"
    using added unfolding sess_added_def by blast
  have "tunnels_owned s'"
    using owns_two_tunnels [OF sgw_invD(4) [OF inv] b(2) t(4,5,3)] by (simp add: s' p q)
  moreover have "bearers_owned s'"
  proof -
    have "owns bearer_list b_sess ((objs (sesss s))(x \<mapsto> pool_mem (sesss s) x\<lparr>sgw_s5c_teid := SGW_S5C_INDEX_TO_TEID x, apn := a,
             sess_ue := u, sess_gnode := None, bearer_list := []\<rparr>)) (objs (bearers s))"
      using sgw_invD(3) [OF inv] x(2) by (rule sess_bearer.owns_new_parent) simp
    from sess_bearer.owns_add_child [OF this _ b(2), of x _ "pool_mem (bearers s) b\<lparr>tunnel_list := [t1, t5], b_sess := x, b_ue := u, ebi := e\<rparr>"]
    show ?thesis by (simp add: s' q k)
  qed
  moreover have "sess_owned s'"
    using ue_sess.owns_add_child [OF sgw_invD(2) [OF inv] u x(2)] u by (simp add: s' k)
  moreover have "bearers_ok s'"
    using sgw_invD(7) [OF inv] x b clean by (fastforce simp: bearers_ok_def s' q k intro: clean_buffer_ok)
  ultimately show ?thesis
    using inv x b t u by (auto simp: sgw_inv_def ctx_inv_def ues_ok_def sesss_ok_def tunnels_ok_def ue_nodes_ok_def
        gtp_inv_def peers_ok_def p k s')
qed

text \<open>A user is added with no session; the node and the state flags are what the slot held.\<close>

lemma ue_add_spec:
  assumes E: "sgw_env_ok E" and len: "length bytes \<le> max_imsi_len E"
  shows "safe (sgw_ue_add E bytes s) (\<lambda>(u, s'). u \<noteq> 0 \<and> objs (ues s) u = None
     \<and> (\<exists>p ue. s' = s\<lparr>ues := p, sgw_ue_list := sgw_ue_list s @ [u]\<rparr> \<and> objs p = (objs (ues s))(u \<mapsto> ue)
        \<and> sgw_s11_teid ue = u \<and> sess_list ue = [] \<and> imsi_bcd ue = buffer_to_bcd E bytes))"
proof -
  have "\<exists>p' ue. s\<lparr>ues := pool_set u v p, sgw_ue_list := l\<rparr> = s\<lparr>ues := p', sgw_ue_list := l\<rparr> \<and> objs p' = (objs (ues s))(u \<mapsto> ue)
      \<and> sgw_s11_teid ue = u \<and> sess_list ue = [] \<and> imsi_bcd ue = buffer_to_bcd E bytes"
    if "objs p = (objs (ues s))(u \<mapsto> w)" "sgw_s11_teid v = u" "sess_list v = []" "imsi_bcd v = buffer_to_bcd E bytes" for u v w p l
    using that by (intro exI [of _ "pool_set u v p"] exI [of _ v]) simp
  then show ?thesis
    using len by (auto simp: sgw_ue_add_def Let_def sgw_env_okD [OF E] set_ue_def simp del: ex_simps dest!: pool_alloc_facts)
qed

lemma sgw_inv_ue_added:
  assumes inv: "sgw_inv s" and u: "u \<noteq> 0" "objs (ues s) u = None" and p: "objs p = (objs (ues s))(u \<mapsto> ue)"
    and ue: "sgw_s11_teid ue = u" "sess_list ue = []" "node_ok s (ue_gnode ue)"
  shows "sgw_inv (s\<lparr>ues := p, sgw_ue_list := sgw_ue_list s @ [u]\<rparr>)"
proof -
  have "owns sess_list sess_ue (objs p) (objs (sesss s))"
    unfolding p using sgw_invD(2) [OF inv] u(2) ue(2) by (rule ue_sess.owns_new_parent)
  then show ?thesis
    using inv u ue by (auto simp: sgw_inv_def ctx_inv_def ctx_defs gtp_inv_def peers_ok_def p)
qed

subsection \<open>Removals\<close>

lemma tunnel_remove_each_eq:
  assumes E: "sgw_env_ok E" and "b \<noteq> 0" "objs (bearers s) b = Some be" "tunnel_list be = ts" "distinct ts"
    and "\<forall>t \<in> set ts. t \<noteq> 0 \<and> (\<exists>tu. objs (tunnels s) t = Some tu \<and> t_bearer tu = b)"
  shows "tunnel_remove_each E ts s = Inr (s\<lparr>bearers := pool_set b (be\<lparr>tunnel_list := []\<rparr>) (bearers s),
     tunnels := (tunnels s)\<lparr>pool_live := pool_live (tunnels s) - set ts\<rparr>\<rparr>)"
  using assms(2-)
proof (induction ts arbitrary: s be)
  case Nil
  then have "be\<lparr>tunnel_list := []\<rparr> = be" by (cases be) simp
  then show ?case using Nil by (simp add: pool_set_same)
next
  case (Cons t ts)
  obtain tu where tu: "objs (tunnels s) t = Some tu" "t_bearer tu = b" "t \<noteq> 0" using Cons.prems(5) by auto
  define s1 where "s1 = s\<lparr>bearers := pool_set b (be\<lparr>tunnel_list := ts\<rparr>) (bearers s), tunnels := pool_free t (tunnels s)\<rparr>"
  have "sgw_tunnel_remove E t s = Inr s1"
    using tu Cons.prems by (simp add: sgw_tunnel_remove_def Let_def sgw_env_okD [OF E] set_bearer_def s1_def)
  moreover have "tunnel_remove_each E ts s1 = Inr (s1\<lparr>bearers := pool_set b (be\<lparr>tunnel_list := ts, tunnel_list := []\<rparr>) (bearers s1),
     tunnels := (tunnels s1)\<lparr>pool_live := pool_live (tunnels s1) - set ts\<rparr>\<rparr>)"
    by (rule Cons.IH) (use Cons.prems in \<open>auto simp: s1_def\<close>)
  moreover have "pool_live (tunnels s) - {t} - set ts = pool_live (tunnels s) - set (t # ts)" by auto
  ultimately show ?case by (simp add: s1_def pool_free_def)
qed

lemma buffer_free_each_ok:
  "\<forall>i \<in> set is. i < length pks \<and> pks ! i \<noteq> None \<Longrightarrow> distinct is \<Longrightarrow> \<exists>pks'. buffer_free_each is pks = Inr pks'"
proof (induction "is" pks rule: buffer_free_each.induct)
  case (2 i "is" pks)
  then have "\<forall>j \<in> set is. j < length (pks[i := None]) \<and> pks[i := None] ! j \<noteq> None" by (auto simp: nth_list_update)
  then show ?case using 2 by (auto split: option.split)
qed simp

text \<open>
  The sessions outside \<open>X\<close> keep their bearers and the bearers outside \<open>B\<close> their tunnels; nothing
  else of the live objects is left.
\<close>

abbreviation kept_bearers :: "index set \<Rightarrow> sgw_state \<Rightarrow> index set" where
  "kept_bearers X s \<equiv> {b. \<forall>be. objs (bearers s) b = Some be \<longrightarrow> b_sess be \<in> - X}"

abbreviation kept_tunnels :: "index set \<Rightarrow> sgw_state \<Rightarrow> index set" where
  "kept_tunnels B s \<equiv> {t. \<forall>tu. objs (tunnels s) t = Some tu \<longrightarrow> t_bearer tu \<in> B}"

definition lower_ok :: "sgw_state \<Rightarrow> bool" where
  "lower_ok s \<longleftrightarrow> tunnels_owned s \<and> tunnels_ok s \<and> (\<forall>b be. objs (bearers s) b = Some be \<longrightarrow> b \<noteq> 0 \<and> buffer_ok be)"

lemma lower_ok_cut:
  assumes "lower_ok s" and "objs (bearers t) = objs (bearers s) |` B" "objs (tunnels t) = objs (tunnels s) |` kept_tunnels B s"
    and "gnodes t = gnodes s"
  shows "lower_ok t"
  using assms bearer_tunnel.owns_restrict [of "objs (bearers s)" "objs (tunnels s)" B]
  by (auto simp: lower_ok_def tunnels_ok_def restrict_map_def split: if_splits)

lemma bearer_remove_ok:
  assumes E: "sgw_env_ok E" and low: "lower_ok s" and b: "objs (bearers s) b = Some be"
    and x: "b_sess be = x" "x \<noteq> 0" "objs (sesss s) x = Some se"
  shows "\<exists>p q. sgw_bearer_remove E b s = Inr (s\<lparr>sesss := pool_set x (se\<lparr>bearer_list := remove1 b (bearer_list se)\<rparr>) (sesss s),
       tunnels := p, bearers := q\<rparr>)
     \<and> objs q = objs (bearers s) |` (- {b}) \<and> objs p = objs (tunnels s) |` kept_tunnels (- {b}) s"
proof -
  have own: "tunnels_owned s" and ok: "b \<noteq> 0" "buffer_ok be" "\<And>t tu. objs (tunnels s) t = Some tu \<Longrightarrow> t \<noteq> 0"
    using low b by (auto simp: lower_ok_def tunnels_ok_def)
  have kids: "{t. \<exists>tu. objs (tunnels s) t = Some tu \<and> t_bearer tu = b} = set (tunnel_list be)"
    by (rule bearer_tunnel.owns_free_child_of_none [OF own b])
  define s1 where "s1 = set_sess x (se\<lparr>bearer_list := remove1 b (bearer_list se)\<rparr>) s"
  obtain pks where pks: "buffer_free_each [0..<num_buffered_pkt be] (buffered_pkts be) = Inr pks"
    using buffer_free_each_ok [of "[0..<num_buffered_pkt be]" "buffered_pkts be"] ok(2) by (auto simp: buffer_ok_def)
  have ts: "\<forall>t \<in> set (tunnel_list be). t \<noteq> 0 \<and> (\<exists>tu. objs (tunnels s1) t = Some tu \<and> t_bearer tu = b)"
    using kids ok(3) by (auto simp: s1_def)
  have "sgw_tunnel_remove_all E b s1 = Inr (s1\<lparr>bearers := pool_set b (be\<lparr>tunnel_list := []\<rparr>) (bearers s1),
     tunnels := (tunnels s1)\<lparr>pool_live := pool_live (tunnels s1) - set (tunnel_list be)\<rparr>\<rparr>)"
    using tunnel_remove_each_eq [OF E ok(1) _ refl bearer_tunnel.owns_distinct [OF own b] ts] b ok(1)
    by (simp add: sgw_tunnel_remove_all_def s1_def)
  then have "sgw_bearer_remove E b s = Inr (s\<lparr>sesss := pool_set x (se\<lparr>bearer_list := remove1 b (bearer_list se)\<rparr>) (sesss s),
       tunnels := (tunnels s)\<lparr>pool_live := pool_live (tunnels s) - set (tunnel_list be)\<rparr>,
       bearers := pool_free b (pool_set b (be\<lparr>tunnel_list := [], buffered_pkts := pks\<rparr>) (bearers s))\<rparr>)"
    using b x ok(1) pks
    by (simp add: sgw_bearer_remove_def Let_def sgw_env_okD [OF E] s1_def [symmetric])
      (simp add: s1_def set_sess_def set_bearer_def)
  moreover have "objs ((tunnels s)\<lparr>pool_live := pool_live (tunnels s) - set (tunnel_list be)\<rparr>) = objs (tunnels s) |` kept_tunnels (- {b}) s"
    unfolding objs_minus using kids [symmetric] by (intro restrict_map_eqI) auto
  moreover have "objs (pool_free b (pool_set b (be\<lparr>tunnel_list := [], buffered_pkts := pks\<rparr>) (bearers s))) = objs (bearers s) |` (- {b})"
    using b by (auto simp: restrict_map_def fun_eq_iff)
  ultimately show ?thesis by blast
qed

lemma bearer_remove_each_ok:
  assumes E: "sgw_env_ok E" and x: "x \<noteq> 0"
  shows "lower_ok s \<Longrightarrow> objs (sesss s) x = Some se \<Longrightarrow> bearer_list se = bs \<Longrightarrow> distinct bs \<Longrightarrow>
     \<forall>b \<in> set bs. \<exists>be. objs (bearers s) b = Some be \<and> b_sess be = x \<Longrightarrow>
     \<exists>p q. bearer_remove_each E bs s = Inr (s\<lparr>sesss := pool_set x (se\<lparr>bearer_list := []\<rparr>) (sesss s), tunnels := p, bearers := q\<rparr>)
       \<and> objs q = objs (bearers s) |` (- set bs) \<and> objs p = objs (tunnels s) |` kept_tunnels (- set bs) s"
proof (induction bs arbitrary: s se)
  case Nil
  then have "se\<lparr>bearer_list := []\<rparr> = se" by (cases se) simp
  then have "bearer_remove_each E [] s = Inr (s\<lparr>sesss := pool_set x (se\<lparr>bearer_list := []\<rparr>) (sesss s),
      tunnels := tunnels s, bearers := bearers s\<rparr>)"
    using Nil by (simp add: pool_set_same)
  moreover have "objs (tunnels s) |` kept_tunnels (- set []) s = objs (tunnels s)"
    by (auto simp: restrict_map_def fun_eq_iff)
  moreover have "objs (bearers s) |` (- set []) = objs (bearers s)"
    by (auto simp: restrict_map_def)
  ultimately show ?case by metis
next
  case (Cons b bs)
  obtain be where be: "objs (bearers s) b = Some be" "b_sess be = x" using Cons.prems(5) by auto
  obtain p q where eq: "sgw_bearer_remove E b s = Inr (s\<lparr>sesss := pool_set x (se\<lparr>bearer_list := bs\<rparr>) (sesss s), tunnels := p, bearers := q\<rparr>)"
    and q: "objs q = objs (bearers s) |` (- {b})" and p: "objs p = objs (tunnels s) |` kept_tunnels (- {b}) s"
    using bearer_remove_ok [OF E Cons.prems(1) be x Cons.prems(2)] Cons.prems(3) by auto
  define s1 where "s1 = s\<lparr>sesss := pool_set x (se\<lparr>bearer_list := bs\<rparr>) (sesss s), tunnels := p, bearers := q\<rparr>"
  have "lower_ok s1"
    by (rule lower_ok_cut [OF Cons.prems(1), of _ "- {b}"]) (simp_all add: s1_def p q)
  moreover have "\<forall>c \<in> set bs. \<exists>ce. objs (bearers s1) c = Some ce \<and> b_sess ce = x"
    using Cons.prems(4,5) by (auto simp: s1_def q restrict_map_def)
  ultimately obtain p' q' where eq': "bearer_remove_each E bs s1
      = Inr (s1\<lparr>sesss := pool_set x (se\<lparr>bearer_list := bs, bearer_list := []\<rparr>) (sesss s1), tunnels := p', bearers := q'\<rparr>)"
    and q': "objs q' = objs (bearers s1) |` (- set bs)" and p': "objs p' = objs (tunnels s1) |` kept_tunnels (- set bs) s1"
    using Cons.IH [of s1 "se\<lparr>bearer_list := bs\<rparr>"] Cons.prems by (auto simp: s1_def)
  have "bearer_remove_each E (b # bs) s = Inr (s\<lparr>sesss := pool_set x (se\<lparr>bearer_list := []\<rparr>) (sesss s), tunnels := p', bearers := q'\<rparr>)"
    using eq eq' by (simp add: s1_def)
  moreover have "objs q' = objs (bearers s) |` (- set (b # bs))"
    by (auto simp: q' s1_def q restrict_map_def fun_eq_iff)
  moreover have "objs p' = objs (tunnels s) |` kept_tunnels (- set (b # bs)) s"
    by (auto simp: p' s1_def p restrict_map_def fun_eq_iff)
  ultimately show ?case by blast
qed

definition middle_ok :: "sgw_state \<Rightarrow> bool" where
  "middle_ok s \<longleftrightarrow> lower_ok s \<and> bearers_owned s \<and> (\<forall>x se. objs (sesss s) x = Some se \<longrightarrow> x \<noteq> 0)"

lemma middle_ok_cut:
  assumes "middle_ok s" and "objs (sesss t) = objs (sesss s) |` (- X)" "objs (bearers t) = objs (bearers s) |` kept_bearers X s"
    and "objs (tunnels t) = objs (tunnels s) |` kept_tunnels (kept_bearers X s) s" "gnodes t = gnodes s"
  shows "middle_ok t"
  using assms lower_ok_cut [of s t "kept_bearers X s"] sess_bearer.owns_restrict [of "objs (sesss s)" "objs (bearers s)" "- X"]
  by (auto simp: middle_ok_def restrict_map_def split: if_splits)

lemma sess_remove_ok:
  assumes E: "sgw_env_ok E" and mid: "middle_ok s" and x: "objs (sesss s) x = Some se"
    and u: "sess_ue se = u" "u \<noteq> 0" "objs (ues s) u = Some ue"
  shows "\<exists>p q k. sgw_sess_remove E x s = Inr (s\<lparr>ues := pool_set u (ue\<lparr>sess_list := remove1 x (sess_list ue)\<rparr>) (ues s),
       sesss := k, tunnels := p, bearers := q\<rparr>)
     \<and> objs k = objs (sesss s) |` (- {x}) \<and> objs q = objs (bearers s) |` kept_bearers {x} s
     \<and> objs p = objs (tunnels s) |` kept_tunnels (kept_bearers {x} s) s"
proof -
  have own: "bearers_owned s" and low: "lower_ok s" and x0: "x \<noteq> 0" using mid x by (auto simp: middle_ok_def)
  have kids: "{b. \<exists>be. objs (bearers s) b = Some be \<and> b_sess be = x} = set (bearer_list se)"
    by (rule sess_bearer.owns_free_child_of_none [OF own x])
  define s1 where "s1 = set_ue u (ue\<lparr>sess_list := remove1 x (sess_list ue)\<rparr>) s"
  have low1: "lower_ok s1" using low by (simp add: lower_ok_def tunnels_ok_def s1_def)
  have x1: "objs (sesss s1) x = Some se" using x by (simp add: s1_def)
  have bs: "\<forall>b \<in> set (bearer_list se). \<exists>be. objs (bearers s1) b = Some be \<and> b_sess be = x"
    using kids by (auto simp: s1_def)
  obtain p q where eq: "bearer_remove_each E (bearer_list se) s1
      = Inr (s1\<lparr>sesss := pool_set x (se\<lparr>bearer_list := []\<rparr>) (sesss s1), tunnels := p, bearers := q\<rparr>)"
    and q: "objs q = objs (bearers s1) |` (- set (bearer_list se))"
    and p: "objs p = objs (tunnels s1) |` kept_tunnels (- set (bearer_list se)) s1"
    using bearer_remove_each_ok [OF E x0 low1 x1 refl sess_bearer.owns_distinct [OF own x] bs] by auto
  define k where "k = pool_free x (pool_set x (se\<lparr>bearer_list := []\<rparr>) (sesss s))"
  have "sgw_sess_remove E x s = Inr (s\<lparr>ues := pool_set u (ue\<lparr>sess_list := remove1 x (sess_list ue)\<rparr>) (ues s),
       sesss := k, tunnels := p, bearers := q\<rparr>)"
    using x x0 u eq
    by (simp add: sgw_sess_remove_def sgw_bearer_remove_all_def Let_def sgw_env_okD [OF E] s1_def [symmetric] x1)
      (simp add: s1_def k_def set_ue_def)
  moreover have "objs k = objs (sesss s) |` (- {x})"
    using x by (auto simp: k_def restrict_map_def fun_eq_iff)
  moreover have "objs q = objs (bearers s) |` kept_bearers {x} s"
    unfolding q using kids [symmetric] by (simp add: s1_def) (intro restrict_map_eqI, auto)
  moreover have "objs p = objs (tunnels s) |` kept_tunnels (kept_bearers {x} s) s"
  proof -
    have "t_bearer tu \<in> - set (bearer_list se) \<longleftrightarrow> t_bearer tu \<in> kept_bearers {x} s" if "objs (tunnels s) t = Some tu" for t tu
      using kids [symmetric] low bearer_tunnel.owns_parent [of "objs (bearers s)" "objs (tunnels s)" t tu] that
      by (auto simp: lower_ok_def)
    then have "objs (tunnels s) |` kept_tunnels (- set (bearer_list se)) s = objs (tunnels s) |` kept_tunnels (kept_bearers {x} s) s"
      by (intro restrict_map_eqI) auto
    then show ?thesis unfolding p by (simp add: s1_def)
  qed
  ultimately show ?thesis by blast
qed

lemma sess_remove_each_ok:
  assumes E: "sgw_env_ok E" and u: "u \<noteq> 0"
  shows "middle_ok s \<Longrightarrow> objs (ues s) u = Some ue \<Longrightarrow> sess_list ue = xs \<Longrightarrow> distinct xs \<Longrightarrow>
     \<forall>x \<in> set xs. \<exists>se. objs (sesss s) x = Some se \<and> sess_ue se = u \<Longrightarrow>
     \<exists>p q k. sess_remove_each E xs s = Inr (s\<lparr>ues := pool_set u (ue\<lparr>sess_list := []\<rparr>) (ues s), sesss := k, tunnels := p, bearers := q\<rparr>)
       \<and> objs k = objs (sesss s) |` (- set xs) \<and> objs q = objs (bearers s) |` kept_bearers (set xs) s
       \<and> objs p = objs (tunnels s) |` kept_tunnels (kept_bearers (set xs) s) s"
proof (induction xs arbitrary: s ue)
  case Nil
  then have "ue\<lparr>sess_list := []\<rparr> = ue" by (cases ue) simp
  then have "sess_remove_each E [] s = Inr (s\<lparr>ues := pool_set u (ue\<lparr>sess_list := []\<rparr>) (ues s), sesss := sesss s,
      tunnels := tunnels s, bearers := bearers s\<rparr>)"
    using Nil by (simp add: pool_set_same)
  moreover have "objs (sesss s) |` (- set []) = objs (sesss s)" "objs (bearers s) |` kept_bearers (set []) s = objs (bearers s)"
    "objs (tunnels s) |` kept_tunnels (kept_bearers (set []) s) s = objs (tunnels s)"
    by (auto simp: restrict_map_def fun_eq_iff)
  ultimately show ?case by metis
next
  case (Cons x xs)
  obtain se where se: "objs (sesss s) x = Some se" "sess_ue se = u" using Cons.prems(5) by auto
  obtain p q k where eq: "sgw_sess_remove E x s = Inr (s\<lparr>ues := pool_set u (ue\<lparr>sess_list := xs\<rparr>) (ues s), sesss := k, tunnels := p, bearers := q\<rparr>)"
    and k: "objs k = objs (sesss s) |` (- {x})" and q: "objs q = objs (bearers s) |` kept_bearers {x} s"
    and p: "objs p = objs (tunnels s) |` kept_tunnels (kept_bearers {x} s) s"
    using sess_remove_ok [OF E Cons.prems(1) se u Cons.prems(2)] Cons.prems(3) by auto
  define s1 where "s1 = s\<lparr>ues := pool_set u (ue\<lparr>sess_list := xs\<rparr>) (ues s), sesss := k, tunnels := p, bearers := q\<rparr>"
  have "middle_ok s1"
    by (rule middle_ok_cut [OF Cons.prems(1), of _ "{x}"]) (simp_all add: s1_def p q k)
  moreover have "\<forall>y \<in> set xs. \<exists>ye. objs (sesss s1) y = Some ye \<and> sess_ue ye = u"
    using Cons.prems(4,5) by (auto simp: s1_def k restrict_map_def)
  ultimately obtain p' q' k' where eq': "sess_remove_each E xs s1 = Inr (s1\<lparr>ues := pool_set u (ue\<lparr>sess_list := xs, sess_list := []\<rparr>) (ues s1),
        sesss := k', tunnels := p', bearers := q'\<rparr>)"
    and k': "objs k' = objs (sesss s1) |` (- set xs)" and q': "objs q' = objs (bearers s1) |` kept_bearers (set xs) s1"
    and p': "objs p' = objs (tunnels s1) |` kept_tunnels (kept_bearers (set xs) s1) s1"
    using Cons.IH [of s1 "ue\<lparr>sess_list := xs\<rparr>"] Cons.prems by (auto simp: s1_def)
  have "sess_remove_each E (x # xs) s = Inr (s\<lparr>ues := pool_set u (ue\<lparr>sess_list := []\<rparr>) (ues s), sesss := k', tunnels := p', bearers := q'\<rparr>)"
    using eq eq' by (simp add: s1_def)
  moreover have "objs k' = objs (sesss s) |` (- set (x # xs))"
    by (auto simp: k' s1_def k restrict_map_def fun_eq_iff)
  moreover have "objs q' = objs (bearers s) |` kept_bearers (set (x # xs)) s"
    by (auto simp: q' s1_def q restrict_map_def fun_eq_iff)
  moreover have "objs p' = objs (tunnels s) |` kept_tunnels (kept_bearers (set (x # xs)) s) s"
    by (auto simp: p' s1_def p q restrict_map_def fun_eq_iff)
  ultimately show ?case by blast
qed

subsection \<open>Removals keep the invariant\<close>

lemma sgw_inv_lower: "sgw_inv s \<Longrightarrow> lower_ok s"
  by (auto simp: sgw_inv_def ctx_inv_def lower_ok_def bearers_ok_def)

lemma sgw_inv_middle: "sgw_inv s \<Longrightarrow> middle_ok s"
  using sgw_inv_lower by (auto simp: sgw_inv_def ctx_inv_def middle_ok_def sesss_ok_def)

text \<open>Pointers from an object to its owner.\<close>

lemma sgw_inv_ue: "sgw_inv s \<Longrightarrow> objs (ues s) u = Some ue \<Longrightarrow>
    u \<noteq> 0 \<and> sgw_s11_teid ue = u \<and> node_ok s (ue_gnode ue) \<and> distinct (sess_list ue)
    \<and> (\<forall>x \<in> set (sess_list ue). \<exists>se. objs (sesss s) x = Some se \<and> sess_ue se = u)"
  using ue_sess.owns_distinct ue_sess.owns_kid by (auto simp: sgw_inv_def ctx_inv_def ctx_defs)

lemma sgw_inv_sess: "sgw_inv s \<Longrightarrow> objs (sesss s) x = Some se \<Longrightarrow>
    x \<noteq> 0 \<and> sgw_s5c_teid se = SGW_S5C_INDEX_TO_TEID x \<and> node_ok s (sess_gnode se) \<and> sess_ue se \<noteq> 0
    \<and> (\<exists>ue. objs (ues s) (sess_ue se) = Some ue \<and> x \<in> set (sess_list ue)) \<and> distinct (bearer_list se)
    \<and> (\<forall>b \<in> set (bearer_list se). \<exists>be. objs (bearers s) b = Some be \<and> b_sess be = x)"
  using ue_sess.owns_parent [of "objs (ues s)" "objs (sesss s)" x se] sess_bearer.owns_distinct sess_bearer.owns_kid
  by (fastforce simp: sgw_inv_def ctx_inv_def ues_ok_def sesss_ok_def)

lemma sgw_inv_bearer: "sgw_inv s \<Longrightarrow> objs (bearers s) b = Some be \<Longrightarrow>
    b \<noteq> 0 \<and> buffer_ok be \<and> b_sess be \<noteq> 0 \<and> b_ue be \<noteq> 0
    \<and> (\<exists>se. objs (sesss s) (b_sess be) = Some se \<and> sess_ue se = b_ue be \<and> b \<in> set (bearer_list se))
    \<and> (\<exists>ue. objs (ues s) (b_ue be) = Some ue) \<and> distinct (tunnel_list be)
    \<and> (\<forall>t \<in> set (tunnel_list be). \<exists>tu. objs (tunnels s) t = Some tu \<and> t_bearer tu = b)"
proof -
  assume inv: "sgw_inv s" and b: "objs (bearers s) b = Some be"
  obtain se where se: "objs (sesss s) (b_sess be) = Some se" "b \<in> set (bearer_list se)"
    using sess_bearer.owns_parent [OF sgw_invD(3) [OF inv] b] by auto
  have ok: "b \<noteq> 0" "buffer_ok be" "sess_ue se = b_ue be"
    using sgw_invD(7) [OF inv] b se by (fastforce simp: bearers_ok_def)+
  have "b_sess be \<noteq> 0" "sess_ue se \<noteq> 0" "\<exists>ue. objs (ues s) (sess_ue se) = Some ue"
    using sgw_inv_sess [OF inv se(1)] by auto
  then show ?thesis
    using ok se bearer_tunnel.owns_distinct [OF sgw_invD(4) [OF inv] b] bearer_tunnel.owns_kid [OF sgw_invD(4) [OF inv] b]
    by auto
qed

lemma sgw_inv_tunnel: "sgw_inv s \<Longrightarrow> objs (tunnels s) t = Some tu \<Longrightarrow>
    t \<noteq> 0 \<and> local_teid tu = t \<and> node_ok s (t_gnode tu) \<and> t_bearer tu \<noteq> 0
    \<and> (\<exists>be. objs (bearers s) (t_bearer tu) = Some be \<and> t \<in> set (tunnel_list be))"
  using bearer_tunnel.owns_parent [OF sgw_invD(4), of s t tu] sgw_inv_bearer [of s "t_bearer tu"]
  by (fastforce simp: sgw_inv_def ctx_inv_def tunnels_ok_def)

lemma sgw_inv_cut:
  assumes inv: "sgw_inv s" and up: "sess_owned t" "ues_ok t" "ue_nodes_ok t"
    and t: "objs (sesss t) = objs (sesss s) |` (- X)" "objs (bearers t) = objs (bearers s) |` kept_bearers X s"
      "objs (tunnels t) = objs (tunnels s) |` kept_tunnels (kept_bearers X s) s"
    and same: "gnodes t = gnodes s" "xacts t = xacts s" "peers_ok t"
  shows "sgw_inv t"
proof -
  have mid: "middle_ok t" by (rule middle_ok_cut [OF sgw_inv_middle [OF inv] t same(1)])
  have "bearers_ok t"
    using sgw_inv_bearer [OF inv] by (fastforce simp: bearers_ok_def t restrict_map_def split: if_splits)
  moreover have "sesss_ok t"
    using sgw_inv_sess [OF inv] by (auto simp: sesss_ok_def t(1) restrict_map_def same split: if_splits)
  ultimately show ?thesis
    using mid up same sgw_invD(1) [OF inv] by (simp add: sgw_inv_def ctx_inv_def middle_ok_def lower_ok_def gtp_inv_def)
qed

lemma sess_remove_inv:
  assumes E: "sgw_env_ok E" and inv: "sgw_inv s" and x: "objs (sesss s) x = Some se"
  obtains t where "sgw_sess_remove E x s = Inr t" "sgw_inv t" "gnodes t = gnodes s" "xacts t = xacts s"
    "objs (sesss t) = objs (sesss s) |` (- {x})" "objs (bearers t) = objs (bearers s) |` kept_bearers {x} s"
    "objs (tunnels t) = objs (tunnels s) |` kept_tunnels (kept_bearers {x} s) s" "dom (objs (ues t)) = dom (objs (ues s))"
proof -
  obtain ue where u: "objs (ues s) (sess_ue se) = Some ue" "x \<in> set (sess_list ue)" "sess_ue se \<noteq> 0"
    using sgw_inv_sess [OF inv x] by auto
  obtain p q k where eq: "sgw_sess_remove E x s = Inr (s\<lparr>ues := pool_set (sess_ue se) (ue\<lparr>sess_list := remove1 x (sess_list ue)\<rparr>) (ues s),
       sesss := k, tunnels := p, bearers := q\<rparr>)"
    and objs: "objs k = objs (sesss s) |` (- {x})" "objs q = objs (bearers s) |` kept_bearers {x} s"
     "objs p = objs (tunnels s) |` kept_tunnels (kept_bearers {x} s) s"
    using sess_remove_ok [OF E sgw_inv_middle [OF inv] x refl u(3,1)] by blast
  define t where "t = s\<lparr>ues := pool_set (sess_ue se) (ue\<lparr>sess_list := remove1 x (sess_list ue)\<rparr>) (ues s), sesss := k, tunnels := p, bearers := q\<rparr>"
  have ues: "objs (ues t) = (objs (ues s))(sess_ue se \<mapsto> ue\<lparr>sess_list := remove1 x (sess_list ue)\<rparr>)"
    using u by (simp add: t_def)
  have upd: "(objs (sesss s))(x := None) = objs (sesss t)"
    by (auto simp: t_def objs restrict_map_def fun_eq_iff)
  have own: "sess_owned t"
    using ue_sess.owns_remove_child [OF sgw_invD(2) [OF inv] x u(1)] by (simp add: ues upd)
  have "ues_ok t" "ue_nodes_ok t" "peers_ok t"
    using sgw_invD(5,9,10) [OF inv] u ues by (auto simp: ues_ok_def ue_nodes_ok_def peers_ok_def t_def)
  then have "sgw_inv t"
    by (intro sgw_inv_cut [OF inv own, where X = "{x}"]) (simp_all add: t_def objs)
  moreover have "dom (objs (ues t)) = dom (objs (ues s))" using ues u by auto
  ultimately show thesis
    using that [of t] eq objs by (simp add: t_def)
qed

lemma bearer_remove_inv:
  assumes E: "sgw_env_ok E" and inv: "sgw_inv s" and b: "objs (bearers s) b = Some be"
  obtains t where "sgw_bearer_remove E b s = Inr t" "sgw_inv t" "gnodes t = gnodes s" "xacts t = xacts s"
    "objs (bearers t) = objs (bearers s) |` (- {b})" "objs (tunnels t) = objs (tunnels s) |` kept_tunnels (- {b}) s"
    "ues t = ues s" "dom (objs (sesss t)) = dom (objs (sesss s))"
proof -
  obtain se where x: "objs (sesss s) (b_sess be) = Some se" "sess_ue se = b_ue be" "b_sess be \<noteq> 0"
    using sgw_inv_bearer [OF inv b] by auto
  obtain p q where eq: "sgw_bearer_remove E b s = Inr (s\<lparr>sesss := pool_set (b_sess be) (se\<lparr>bearer_list := remove1 b (bearer_list se)\<rparr>) (sesss s),
       tunnels := p, bearers := q\<rparr>)"
    and objs: "objs q = objs (bearers s) |` (- {b})" "objs p = objs (tunnels s) |` kept_tunnels (- {b}) s"
    using bearer_remove_ok [OF E sgw_inv_lower [OF inv] b refl x(3,1)] by blast
  define t where "t = s\<lparr>sesss := pool_set (b_sess be) (se\<lparr>bearer_list := remove1 b (bearer_list se)\<rparr>) (sesss s), tunnels := p, bearers := q\<rparr>"
  have sesss: "objs (sesss t) = (objs (sesss s))(b_sess be \<mapsto> se\<lparr>bearer_list := remove1 b (bearer_list se)\<rparr>)"
    using x by (simp add: t_def)
  have "(objs (bearers s))(b := None) = objs (bearers t)"
    by (auto simp: t_def objs restrict_map_def fun_eq_iff)
  then have "bearers_owned t"
    using sess_bearer.owns_remove_child [OF sgw_invD(3) [OF inv] b x(1)] by (simp add: sesss)
  moreover have "sess_owned t"
    using ue_sess.owns_set_child [OF sgw_invD(2) [OF inv] x(1)] by (simp add: sesss) (simp add: t_def)
  moreover have "lower_ok t"
    by (rule lower_ok_cut [OF sgw_inv_lower [OF inv], of _ "- {b}"]) (simp_all add: t_def objs)
  moreover have "bearers_ok t"
    using sgw_inv_bearer [OF inv] x by (fastforce simp: bearers_ok_def sesss t_def objs restrict_map_def split: if_splits)
  moreover have "ues_ok t" "ue_nodes_ok t" "peers_ok t" "sesss_ok t"
    using sgw_invD(5,6,9,10) [OF inv] x by (auto simp: ues_ok_def ue_nodes_ok_def peers_ok_def sesss_ok_def sesss) (auto simp: t_def)
  ultimately have "sgw_inv t"
    using sgw_invD(1) [OF inv] by (simp add: sgw_inv_def ctx_inv_def lower_ok_def gtp_inv_def) (simp add: t_def)
  moreover have "dom (objs (sesss t)) = dom (objs (sesss s))" using sesss x by auto
  ultimately show thesis
    using that [of t] eq objs by (simp add: t_def)
qed

lemma ue_remove_inv:
  assumes E: "sgw_env_ok E" and inv: "sgw_inv s" and u: "objs (ues s) u = Some ue"
  obtains t where "sgw_ue_remove E u s = Inr t" "sgw_inv t" "gnodes t = gnodes s" "xacts t = xacts s"
    "objs (ues t) = objs (ues s) |` (- {u})" "sgw_ue_list t = remove1 u (sgw_ue_list s)"
    "objs (sesss t) = objs (sesss s) |` (- set (sess_list ue))"
    "objs (bearers t) = objs (bearers s) |` kept_bearers (set (sess_list ue)) s"
    "objs (tunnels t) = objs (tunnels s) |` kept_tunnels (kept_bearers (set (sess_list ue)) s) s"
proof -
  define s1 where "s1 = s\<lparr>sgw_ue_list := remove1 u (sgw_ue_list s)\<rparr>"
  have u0: "u \<noteq> 0" and xs: "distinct (sess_list ue)" "\<forall>x \<in> set (sess_list ue). \<exists>se. objs (sesss s1) x = Some se \<and> sess_ue se = u"
    using sgw_inv_ue [OF inv u] by (auto simp: s1_def)
  have mid: "middle_ok s1" using sgw_inv_middle [OF inv] by (simp add: s1_def middle_ok_def lower_ok_def tunnels_ok_def)
  have u1: "objs (ues s1) u = Some ue" using u by (simp add: s1_def)
  obtain p q k where eq: "sess_remove_each E (sess_list ue) s1
      = Inr (s1\<lparr>ues := pool_set u (ue\<lparr>sess_list := []\<rparr>) (ues s1), sesss := k, tunnels := p, bearers := q\<rparr>)"
    and objs: "objs k = objs (sesss s1) |` (- set (sess_list ue))" "objs q = objs (bearers s1) |` kept_bearers (set (sess_list ue)) s1"
       "objs p = objs (tunnels s1) |` kept_tunnels (kept_bearers (set (sess_list ue)) s1) s1"
    using sess_remove_each_ok [OF E u0 mid u1 refl xs] by blast
  define t where "t = s\<lparr>sgw_ue_list := remove1 u (sgw_ue_list s), ues := pool_free u (pool_set u (ue\<lparr>sess_list := []\<rparr>) (ues s)),
    sesss := k, tunnels := p, bearers := q\<rparr>"
  have run: "sgw_ue_remove E u s = Inr t"
    using u u0 eq by (simp add: sgw_ue_remove_def sgw_sess_remove_all_def sgw_env_okD [OF E] Let_def s1_def [symmetric] u1)
      (simp add: s1_def t_def)
  have ues: "objs (ues t) = objs (ues s) |` (- {u})"
    using u by (auto simp: t_def restrict_map_def fun_eq_iff)
  have kids: "{x. \<exists>se. objs (sesss s) x = Some se \<and> sess_ue se = u} = set (sess_list ue)"
    by (rule ue_sess.owns_free_child_of_none [OF sgw_invD(2) [OF inv] u])
  have "objs (sesss t) = objs (sesss s) |` {x. \<forall>se. objs (sesss s) x = Some se \<longrightarrow> sess_ue se \<in> - {u}}"
    using kids [symmetric] unfolding t_def by (simp add: objs s1_def) (intro restrict_map_eqI, auto)
  then have own: "sess_owned t"
    using ue_sess.owns_restrict [OF sgw_invD(2) [OF inv], of "- {u}"] by (simp add: ues)
  have "ues_ok t" "ue_nodes_ok t" "peers_ok t"
    using sgw_invD(5,9,10) [OF inv] u
    by (auto simp: ues_ok_def ue_nodes_ok_def peers_ok_def ues restrict_map_def dom_def split: if_splits) (auto simp: t_def)
  then have "sgw_inv t"
    by (intro sgw_inv_cut [OF inv own, where X = "set (sess_list ue)"]) (simp_all add: t_def objs s1_def)
  then show thesis
    using that [of t] run ues objs by (simp add: t_def s1_def)
qed

lemma tunnel_remove_inv:
  assumes E: "sgw_env_ok E" and inv: "sgw_inv s" and t: "objs (tunnels s) t = Some tu"
  obtains s' where "sgw_tunnel_remove E t s = Inr s'" "sgw_inv s'" "gnodes s' = gnodes s" "xacts s' = xacts s"
    "ues s' = ues s" "sesss s' = sesss s" "dom (objs (bearers s')) = dom (objs (bearers s))"
    "objs (tunnels s') = (objs (tunnels s))(t := None)"
proof -
  obtain be where b: "objs (bearers s) (t_bearer tu) = Some be" "t_bearer tu \<noteq> 0" "t \<noteq> 0"
    using sgw_inv_tunnel [OF inv t] by auto
  define s' where "s' = (set_bearer (t_bearer tu) (be\<lparr>tunnel_list := remove1 t (tunnel_list be)\<rparr>) s)\<lparr>tunnels := pool_free t (tunnels s)\<rparr>"
  have bs: "objs (bearers s') = (objs (bearers s))(t_bearer tu \<mapsto> be\<lparr>tunnel_list := remove1 t (tunnel_list be)\<rparr>)"
    using b by (simp add: s'_def)
  have "tunnels_owned s'"
    using bearer_tunnel.owns_remove_child [OF sgw_invD(4) [OF inv] t b(1)] by (simp add: bs) (simp add: s'_def)
  moreover have "bearers_owned s'"
    using sess_bearer.owns_set_child [OF sgw_invD(3) [OF inv] b(1)] by (simp add: bs) (simp add: s'_def)
  moreover have "bearers_ok s'"
    using sgw_inv_bearer [OF inv] b by (fastforce simp: bearers_ok_def bs buffer_ok_def s'_def)
  moreover have "ues_ok s'" "ue_nodes_ok s'" "peers_ok s'" "sesss_ok s'" "tunnels_ok s'" "sess_owned s'"
    using sgw_invD [OF inv] by (auto simp: s'_def ues_ok_def ue_nodes_ok_def peers_ok_def sesss_ok_def tunnels_ok_def set_bearer_def split: if_splits)
  ultimately have "sgw_inv s'"
    using sgw_invD(1) [OF inv] by (simp add: sgw_inv_def ctx_inv_def gtp_inv_def) (simp add: s'_def)
  moreover have "sgw_tunnel_remove E t s = Inr s'"
    using t b by (simp add: sgw_tunnel_remove_def Let_def sgw_env_okD [OF E] s'_def)
  moreover have "dom (objs (bearers s')) = dom (objs (bearers s))" using bs b by auto
  ultimately show thesis using that [of s'] by (simp add: s'_def)
qed

end
