(* ===== verification/Sgw_Safe.thy ===== *)
theory Sgw_Safe
  imports Sgw_Sm Sgw_Inv
begin

text \<open>
  Safety of the operations the handlers are made of: the relation \<open>grows\<close> says what a step leaves in
  place, and each operation on contexts, transactions and nodes is shown to keep the invariant and to
  touch no freed object.
\<close>

subsection \<open>What a step leaves in place\<close>

definition grows :: "index set \<Rightarrow> sgw_state \<Rightarrow> sgw_state \<Rightarrow> bool" where
  "grows D s t \<longleftrightarrow> sgw_inv t \<and> dom (gnodes s) \<subseteq> dom (gnodes t) \<and> dom (xacts s) - D \<subseteq> dom (xacts t)
     \<and> dom (objs (ues s)) \<subseteq> dom (objs (ues t)) \<and> dom (objs (sesss s)) \<subseteq> dom (objs (sesss t))
     \<and> dom (objs (bearers s)) \<subseteq> dom (objs (bearers t)) \<and> dom (objs (tunnels s)) \<subseteq> dom (objs (tunnels t))"

lemma grows_refl: "sgw_inv s \<Longrightarrow> grows D s s"
  by (auto simp: grows_def)

lemma grows_trans: "grows D s t \<Longrightarrow> grows D' t r \<Longrightarrow> grows (D \<union> D') s r"
  unfolding grows_def by (elim conjE, intro conjI) (assumption | erule (1) subset_trans | blast)+

lemma grows_mono: "grows D s t \<Longrightarrow> D \<subseteq> D' \<Longrightarrow> grows D' s t"
  by (auto simp: grows_def)

lemma grows_live:
  assumes "grows D s t"
  shows "sgw_inv t" "gnodes s g \<noteq> None \<Longrightarrow> gnodes t g \<noteq> None" "xacts s x \<noteq> None \<Longrightarrow> x \<notin> D \<Longrightarrow> xacts t x \<noteq> None"
    "objs (ues s) i \<noteq> None \<Longrightarrow> objs (ues t) i \<noteq> None" "objs (sesss s) i \<noteq> None \<Longrightarrow> objs (sesss t) i \<noteq> None"
    "objs (bearers s) i \<noteq> None \<Longrightarrow> objs (bearers t) i \<noteq> None" "objs (tunnels s) i \<noteq> None \<Longrightarrow> objs (tunnels t) i \<noteq> None"
  using assms unfolding grows_def by (auto simp: dom_def)

lemma more_eq:
  fixes s t :: sgw_state
  assumes "gtp_state.more t = gtp_state.more s"
  shows "ues t = ues s" "sesss t = sesss s" "bearers t = bearers s" "tunnels t = tunnels s" "sgw_ue_list t = sgw_ue_list s"
    "mme_s11_list t = mme_s11_list s" "pgw_s5c_list t = pgw_s5c_list s" "enb_s1u_list t = enb_s1u_list s"
    "pgw_s5u_list t = pgw_s5u_list s" "queue t = queue s"
  using assms by (cases s; cases t; simp)+

lemma sgw_inv_more:
  assumes "sgw_inv s" and "gtp_state.more t = gtp_state.more s" and "gtp_inv t" and "dom (gnodes s) \<subseteq> dom (gnodes t)"
  shows "sgw_inv t"
proof -
  have live: "gnodes s g = Some n \<Longrightarrow> \<exists>m. gnodes t g = Some m" for g n using assms(4) by (auto simp: dom_def)
  have "ues_ok t" "bearers_ok t"
    using assms(1) by (simp_all add: sgw_inv_def ctx_inv_def ues_ok_def bearers_ok_def more_eq [OF assms(2)])
  moreover have "sesss_ok t" "tunnels_ok t" "ue_nodes_ok t"
    using sgw_invD(6,8,10) [OF assms(1)] live by (fastforce simp: sesss_ok_def tunnels_ok_def ue_nodes_ok_def more_eq [OF assms(2)])+
  moreover have "peers_ok t"
    using sgw_invD(9) [OF assms(1)] assms(4) unfolding peers_ok_def more_eq [OF assms(2)] by (rule subset_trans)
  ultimately show ?thesis
    using assms(1,3) by (simp add: sgw_inv_def ctx_inv_def more_eq [OF assms(2)])
qed

lemma grows_gtp:
  assumes "sgw_inv s" and "gtp_keeps D s t"
  shows "grows D s t"
proof -
  have t: "gtp_inv t" "dom (gnodes t) = dom (gnodes s)" "dom (xacts s) - D \<subseteq> dom (xacts t)" "gtp_state.more t = gtp_state.more s"
    using assms(2) by (simp_all add: gtp_keeps_def)
  then show ?thesis
    using sgw_inv_more [OF assms(1) t(4,1)] by (simp add: grows_def more_eq [OF t(4)])
qed

lemma safe_grows_gtp: "safe m (gtp_keeps D s) \<Longrightarrow> sgw_inv s \<Longrightarrow> safe m (grows D s)"
  by (erule safe_mono) (rule grows_gtp)

lemma grows_set_ue:
  "sgw_inv s \<Longrightarrow> objs (ues s) u = Some ue \<Longrightarrow> sess_list ue' = sess_list ue \<Longrightarrow> sgw_s11_teid ue' = sgw_s11_teid ue \<Longrightarrow>
     node_ok s (ue_gnode ue') \<Longrightarrow> grows D s (set_ue u ue' s)"
  using sgw_inv_set_ue [of s u ue ue'] by (auto simp: grows_def)

lemma grows_set_sess:
  "sgw_inv s \<Longrightarrow> objs (sesss s) x = Some se \<Longrightarrow> bearer_list se' = bearer_list se \<Longrightarrow> sgw_s5c_teid se' = sgw_s5c_teid se \<Longrightarrow>
     sess_ue se' = sess_ue se \<Longrightarrow> node_ok s (sess_gnode se') \<Longrightarrow> grows D s (set_sess x se' s)"
  using sgw_inv_set_sess [of s x se se'] by (auto simp: grows_def)

lemma grows_set_bearer:
  "sgw_inv s \<Longrightarrow> objs (bearers s) b = Some be \<Longrightarrow> tunnel_list be' = tunnel_list be \<Longrightarrow> b_sess be' = b_sess be \<Longrightarrow>
     b_ue be' = b_ue be \<Longrightarrow> buffer_ok be' \<Longrightarrow> grows D s (set_bearer b be' s)"
  using sgw_inv_set_bearer [of s b be be'] by (auto simp: grows_def)

lemma grows_set_tunnel:
  "sgw_inv s \<Longrightarrow> objs (tunnels s) t = Some tu \<Longrightarrow> t_bearer tu' = t_bearer tu \<Longrightarrow> local_teid tu' = local_teid tu \<Longrightarrow>
     node_ok s (t_gnode tu') \<Longrightarrow> grows D s (set_tunnel t tu' s)"
  using sgw_inv_set_tunnel [of s t tu tu'] by (auto simp: grows_def)

subsection \<open>Peers\<close>

lemma safe_node_setup:
  assumes E: "sgw_env_ok E" and inv: "gtp_inv s" and list: "set list \<subseteq> dom (gnodes s)"
  shows "safe (sgw_node_setup E list f port k k6 s) (\<lambda>(g, list', t). gtp_inv t \<and> gtp_state.more t = gtp_state.more s
     \<and> dom (gnodes s) \<subseteq> dom (gnodes t) \<and> dom (xacts s) \<subseteq> dom (xacts t) \<and> gnodes t g \<noteq> None \<and> set list' \<subseteq> dom (gnodes t))"
  unfolding sgw_node_setup_def by (rule safe_peer_setup [OF sgw_env_okD(1) [OF E] inv list])

lemma setup_grows:
  assumes E: "sgw_env_ok E" and inv: "sgw_inv s"
  shows "safe (enb_s1u_setup E f s) (\<lambda>(g, t). grows {} s t \<and> gnodes t g \<noteq> None)"
    and "safe (pgw_s5u_setup E f s) (\<lambda>(g, t). grows {} s t \<and> gnodes t g \<noteq> None)"
    and "safe (pgw_s5c_setup E f s) (\<lambda>(g, t). grows {} s t \<and> gnodes t g \<noteq> None)"
    and "safe (sgw_mme_add_by_message E body s) (\<lambda>(r, t). grows {} s t \<and> bearers t = bearers s \<and> node_ok t r)"
proof -
  have peers: "set (enb_s1u_list s) \<subseteq> dom (gnodes s)" "set (pgw_s5u_list s) \<subseteq> dom (gnodes s)"
    "set (pgw_s5c_list s) \<subseteq> dom (gnodes s)" "set (mme_s11_list s) \<subseteq> dom (gnodes s)"
    using sgw_invD(9) [OF inv] by (auto simp: peers_ok_def)
  have t: "sgw_inv t" "grows {} s t" "bearers t = bearers s" if "gtp_inv t" "gtp_state.more t = gtp_state.more s" "dom (gnodes s) \<subseteq> dom (gnodes t)"
      "dom (xacts s) \<subseteq> dom (xacts t)" for t
    using sgw_inv_more [OF inv that(2,1,3)] that more_eq [OF that(2)] by (auto simp: grows_def)
  have upd: "grows {} s (t\<lparr>enb_s1u_list := l\<rparr>)" "grows {} s (t\<lparr>pgw_s5u_list := l\<rparr>)" "grows {} s (t\<lparr>pgw_s5c_list := l\<rparr>)"
      "grows {} s (t\<lparr>mme_s11_list := l\<rparr>)"
    if "grows {} s t" "set l \<subseteq> dom (gnodes t)" for t l
    using that by (auto simp: grows_def sgw_inv_def ctx_inv_def ctx_defs gtp_inv_def peers_ok_def)
  show "safe (enb_s1u_setup E f s) (\<lambda>(g, t). grows {} s t \<and> gnodes t g \<noteq> None)"
    unfolding enb_s1u_setup_def safe_ebind
    by (rule safe_mono [OF safe_node_setup [OF E sgw_invD(1) [OF inv] peers(1)]]) (use t upd in fastforce)
  show "safe (pgw_s5u_setup E f s) (\<lambda>(g, t). grows {} s t \<and> gnodes t g \<noteq> None)"
    unfolding pgw_s5u_setup_def safe_ebind
    by (rule safe_mono [OF safe_node_setup [OF E sgw_invD(1) [OF inv] peers(2)]]) (use t upd in fastforce)
  show "safe (pgw_s5c_setup E f s) (\<lambda>(g, t). grows {} s t \<and> gnodes t g \<noteq> None)"
    unfolding pgw_s5c_setup_def safe_ebind
    by (rule safe_mono [OF safe_node_setup [OF E sgw_invD(1) [OF inv] peers(3)]]) (use t upd in fastforce)
  have "safe (sgw_node_setup E (mme_s11_list s) f (gtpc_port s) (gtpc_sock s) (gtpc_sock6 s) s)
      (\<lambda>(g, l, t). grows {} s (t\<lparr>mme_s11_list := l\<rparr>) \<and> bearers t = bearers s \<and> gnodes t g \<noteq> None)" for f
    by (rule safe_mono [OF safe_node_setup [OF E sgw_invD(1) [OF inv] peers(4)]]) (use t upd in fastforce)
  then show "safe (sgw_mme_add_by_message E body s) (\<lambda>(r, t). grows {} s t \<and> bearers t = bearers s \<and> node_ok t r)"
    unfolding sgw_mme_add_by_message_def
    by (auto simp: case_prod_unfold grows_refl [OF inv] split: option.split elim!: safe_mono)
qed

subsection \<open>Lookups\<close>

lemma safe_find_interface:
  assumes inv: "sgw_inv s" and b: "objs (bearers s) b \<noteq> None"
  shows "safe (sgw_tunnel_find_by_interface_type b iface s)
     (\<lambda>r. \<forall>t. r = Some t \<longrightarrow> (\<exists>tu. objs (tunnels s) t = Some tu \<and> t_bearer tu = b \<and> interface_type tu = iface))"
proof -
  obtain be where be: "objs (bearers s) b = Some be" using b by auto
  have "\<forall>t \<in> set (tunnel_list be). \<exists>tu. objs (tunnels s) t = Some tu \<and> t_bearer tu = b"
    using sgw_inv_bearer [OF inv be] by blast
  then show ?thesis
    by (auto simp: sgw_tunnel_find_by_interface_type_def be intro!: safe_list_find)
qed

lemma safe_find_tunnel:
  assumes "sgw_inv s" and "objs (bearers s) b \<noteq> None"
  shows "safe (ebind (sgw_tunnel_find_by_interface_type b iface s) non_null)
     (\<lambda>t. \<exists>tu. objs (tunnels s) t = Some tu \<and> t_bearer tu = b \<and> interface_type tu = iface)"
  unfolding safe_ebind by (rule safe_mono [OF safe_find_interface [OF assms]]) simp

lemma safe_find_by_sess_ebi:
  assumes inv: "sgw_inv s" and x: "objs (sesss s) x = Some se"
  shows "safe (sgw_bearer_find_by_sess_ebi x e s)
     (\<lambda>r. \<forall>b. r = Some b \<longrightarrow> (\<exists>be. objs (bearers s) b = Some be \<and> b_sess be = x \<and> ebi be = e))"
proof -
  have "\<forall>b \<in> set (bearer_list se). \<exists>be. objs (bearers s) b = Some be \<and> b_sess be = x"
    using sgw_inv_sess [OF inv x] by blast
  then show ?thesis
    by (auto simp: sgw_bearer_find_by_sess_ebi_def x intro!: safe_list_find)
qed

lemma safe_find_in_sessions:
  assumes inv: "sgw_inv s"
  shows "\<forall>x \<in> set xs. objs (sesss s) x \<noteq> None \<Longrightarrow> safe (bearer_find_in_sessions xs e s)
     (\<lambda>r. \<forall>b. r = Some b \<longrightarrow> (\<exists>be. objs (bearers s) b = Some be \<and> b_sess be \<in> set xs \<and> ebi be = e))"
proof (induction xs)
  case (Cons x xs)
  then obtain se where se: "objs (sesss s) x = Some se" by auto
  have "safe (sgw_bearer_find_by_sess_ebi x e s) (\<lambda>r. case r of
      Some b \<Rightarrow> \<exists>be. objs (bearers s) b = Some be \<and> b_sess be \<in> set (x # xs) \<and> ebi be = e
    | None \<Rightarrow> safe (bearer_find_in_sessions xs e s)
        (\<lambda>r. \<forall>b. r = Some b \<longrightarrow> (\<exists>be. objs (bearers s) b = Some be \<and> b_sess be \<in> set (x # xs) \<and> ebi be = e)))"
    by (rule safe_mono [OF safe_find_by_sess_ebi [OF inv se]])
      (use Cons in \<open>auto split: option.split elim!: safe_mono\<close>)
  then show ?case by (auto elim!: safe_mono split: option.splits)
qed simp

lemma safe_find_by_ue_ebi:
  assumes inv: "sgw_inv s" and u: "objs (ues s) u \<noteq> None"
  shows "safe (sgw_bearer_find_by_ue_ebi u e s)
     (\<lambda>r. \<forall>b. r = Some b \<longrightarrow> (\<exists>be. objs (bearers s) b = Some be \<and> b_ue be = u \<and> ebi be = e))"
proof -
  obtain ue where ue: "objs (ues s) u = Some ue" using u by auto
  have xs: "\<forall>x \<in> set (sess_list ue). \<exists>se. objs (sesss s) x = Some se \<and> sess_ue se = u"
    using sgw_inv_ue [OF inv ue] by blast
  then have "\<forall>x \<in> set (sess_list ue). objs (sesss s) x \<noteq> None" by auto
  from safe_find_in_sessions [OF inv this, of e]
  have "safe (bearer_find_in_sessions (sess_list ue) e s)
     (\<lambda>r. \<forall>b. r = Some b \<longrightarrow> (\<exists>be. objs (bearers s) b = Some be \<and> b_ue be = u \<and> ebi be = e))"
    by (rule safe_mono) (use xs sgw_inv_bearer [OF inv] in fastforce)
  then show ?thesis by (simp add: sgw_bearer_find_by_ue_ebi_def ue)
qed

lemma safe_sess_find_by_ebi:
  assumes inv: "sgw_inv s" and u: "objs (ues s) u \<noteq> None"
  shows "safe (sgw_sess_find_by_ebi u e s) (\<lambda>r. \<forall>x. r = Some x \<longrightarrow> objs (sesss s) x \<noteq> None)"
  unfolding sgw_sess_find_by_ebi_def safe_ebind
  by (rule safe_mono [OF safe_find_by_ue_ebi [OF assms]])
    (use sgw_inv_bearer [OF inv] in \<open>fastforce split: option.split\<close>)

lemma safe_default_bearer:
  assumes inv: "sgw_inv s" and x: "objs (sesss s) x \<noteq> None"
  shows "safe (ebind (sgw_default_bearer_in_sess x s) non_null) (\<lambda>b. objs (bearers s) b \<noteq> None)"
proof -
  obtain se where se: "objs (sesss s) x = Some se" using x by auto
  then show ?thesis
    using sgw_inv_sess [OF inv se] by (auto simp: sgw_default_bearer_in_sess_def split: list.splits)
qed

subsection \<open>Sending\<close>

lemma safe_send_request:
  assumes E: "sgw_env_ok E" and inv: "sgw_inv s" and x: "xacts s x \<noteq> None" and g: "node_ok s gnode"
  shows "safe (sgw_send_request E x gnode teid body s) (grows {} s)"
proof (cases gnode)
  case None
  then show ?thesis by (auto simp: sgw_send_request_def ptr_def ogs_gtp_xact_local_create_def)
next
  case (Some h)
  have h: "gnodes s h \<noteq> None" using g Some by simp
  have "safe (ogs_gtp_xact_local_create E h (body_type body) teid body s) (\<lambda>(y, t).
      safe (ebind (ogs_gtp_xact_associate x y t) (\<lambda>t. ogs_gtp_xact_commit E y t)) (gtp_keeps {} s))"
  proof (rule safe_mono [OF safe_local_create [OF sgw_env_okD(1) [OF E] sgw_invD(1) [OF inv] h, where D = "{}"]], clarify)
    fix y t ya assume t: "gtp_keeps {} s t" and y: "xacts s y = None" "xacts t y = Some ya"
    have live: "gtp_inv t" "xacts t x \<noteq> None" "x \<noteq> y" using t x y by (auto simp: gtp_keeps_def)
    have "safe (ogs_gtp_xact_commit E y t') (gtp_keeps {} s)" if "gtp_keeps {} t t'" for t'
    proof (rule safe_mono [OF safe_commit [OF sgw_env_okD(1) [OF E]]])
      show "gtp_inv t'" "xacts t' y \<noteq> None" using that y by (auto simp: gtp_keeps_def)
      fix t'' assume "gtp_keeps {y} t' t''"
      then have "gtp_keeps {y} s t''" using t that gtp_keeps_trans by (metis sup_bot_left)
      then show "gtp_keeps {} s t''" using y(1) by (auto simp: gtp_keeps_def)
    qed
    then show "safe (ebind (ogs_gtp_xact_associate x y t) (\<lambda>t. ogs_gtp_xact_commit E y t)) (gtp_keeps {} s)"
      unfolding safe_ebind using safe_associate [OF live(1,2) _ live(3), where D = "{}"] y(2)
      by (auto elim!: safe_mono)
  qed
  then show ?thesis
    using Some by (auto simp: sgw_send_request_def ptr_def case_prod_unfold intro: grows_gtp [OF inv] elim!: safe_mono)
qed

lemma safe_send_answer:
  assumes E: "sgw_env_ok E" and inv: "sgw_inv s" and x: "xacts s x \<noteq> None"
  shows "safe (sgw_send_answer E x teid body s) (grows {x} s)"
  unfolding sgw_send_answer_def
  by (intro vc_assert safe_grows_gtp [OF safe_answer [OF sgw_env_okD(1) [OF E] sgw_invD(1) [OF inv] x] inv])

lemma safe_xact_assoc:
  assumes inv: "sgw_inv s" and x: "xacts s x \<noteq> None"
  shows "safe (xact_assoc x s) (\<lambda>y. xacts s y \<noteq> None \<and> y \<noteq> x)"
  using x xact_inv_assoc [OF sgw_invD(1) [OF inv, unfolded gtp_inv_def]] by (fastforce simp: xact_assoc_def)

lemma safe_xact_commit:
  assumes E: "sgw_env_ok E" and inv: "sgw_inv s" and x: "xacts s x \<noteq> None"
  shows "safe (ogs_gtp_xact_commit E x s) (grows {x} s)"
  by (rule safe_grows_gtp [OF safe_commit [OF sgw_env_okD(1) [OF E] sgw_invD(1) [OF inv] x] inv])

lemma safe_bearer_set_uli:
  assumes inv: "sgw_inv s" and b: "objs (bearers s) b \<noteq> None" and "octet \<noteq> []"
  shows "safe (bearer_set_uli b octet s) (grows {} s)"
proof -
  obtain be where be: "objs (bearers s) b = Some be" using b by auto
  then show ?thesis
    using sgw_inv_bearer [OF inv be] safe_parse_uli [OF assms(3)]
    by (auto simp: bearer_set_uli_def buffer_ok_def elim!: safe_mono intro!: grows_set_bearer [OF inv])
qed

lemma safe_local_f_teid: "safe (local_f_teid iface teid addr addr6) (\<lambda>f. True)"
  by (auto simp: local_f_teid_def ogs_gtp_sockaddr_to_f_teid_def split: option.split)

subsection \<open>Rules for the steps of a handler\<close>

text \<open>
  One rule per step of a handler. After an update or a call, the rest of the handler is entered with
  a new state that \<open>grows\<close> from the old one; that an object is still live is found from the chain of
  these facts.
\<close>

named_theorems sgw_vc \<open>rules for the steps of a handler\<close>

declare vc_deref [sgw_vc] vc_assert [sgw_vc] vc_non_null [sgw_vc] vc_option [sgw_vc] vc_if [sgw_vc] vc_bind_option [sgw_vc] vc_bind_if [sgw_vc] vc_bind_Inr [sgw_vc] vc_assoc [sgw_vc]

lemma ue_state_sel [simp]:
  "sess_list (SGW_RESET_UE_STATE st ue) = sess_list ue" "sgw_s11_teid (SGW_RESET_UE_STATE st ue) = sgw_s11_teid ue"
  "ue_gnode (SGW_RESET_UE_STATE st ue) = ue_gnode ue" "mme_s11_teid (SGW_RESET_UE_STATE st ue) = mme_s11_teid ue"
  "sess_list (SGW_SET_UE_STATE st ue) = sess_list ue" "sgw_s11_teid (SGW_SET_UE_STATE st ue) = sgw_s11_teid ue"
  "ue_gnode (SGW_SET_UE_STATE st ue) = ue_gnode ue" "mme_s11_teid (SGW_SET_UE_STATE st ue) = mme_s11_teid ue"
  by (simp_all add: SGW_RESET_UE_STATE_def SGW_SET_UE_STATE_def)

text \<open>The node of an updated object is the one it had or a live one.\<close>

lemma vc_let_ue [sgw_vc]:
  assumes inv: "sgw_inv s" and u: "objs (ues s) u = Some ue" and eq: "sess_list ue' = sess_list ue" "sgw_s11_teid ue' = sgw_s11_teid ue"
    and node: "ue_gnode ue' = ue_gnode ue" and "\<And>t. grows {} s t \<Longrightarrow> safe (f t) Q"
  shows "safe (Let (set_ue u ue' s) f) Q"
  using grows_set_ue [OF inv u eq] node sgw_inv_ue [OF inv u] assms(6) by simp

lemma vc_let_sess [sgw_vc]:
  assumes inv: "sgw_inv s" and x: "objs (sesss s) x = Some se" and eq: "bearer_list se' = bearer_list se"
      "sgw_s5c_teid se' = sgw_s5c_teid se" "sess_ue se' = sess_ue se"
    and node: "sess_gnode se' = sess_gnode se \<or> (\<exists>g. sess_gnode se' = Some g \<and> gnodes s g \<noteq> None)"
    and "\<And>t. grows {} s t \<Longrightarrow> safe (f t) Q"
  shows "safe (Let (set_sess x se' s) f) Q"
proof -
  have "node_ok s (sess_gnode se')" using node sgw_inv_sess [OF inv x] by auto
  then show ?thesis using grows_set_sess [OF inv x eq] assms(7) by simp
qed

lemma vc_let_tunnel [sgw_vc]:
  assumes inv: "sgw_inv s" and t: "objs (tunnels s) i = Some tu" and eq: "t_bearer tu' = t_bearer tu" "local_teid tu' = local_teid tu"
    and node: "t_gnode tu' = t_gnode tu \<or> (\<exists>g. t_gnode tu' = Some g \<and> gnodes s g \<noteq> None)"
    and "\<And>t. grows {} s t \<Longrightarrow> safe (f t) Q"
  shows "safe (Let (set_tunnel i tu' s) f) Q"
proof -
  have "node_ok s (t_gnode tu')" using node sgw_inv_tunnel [OF inv t] by auto
  then show ?thesis using grows_set_tunnel [OF inv t eq] assms(6) by simp
qed

lemma vc_let_bearer [sgw_vc]: "safe (f (t_bearer tu)) Q \<Longrightarrow> safe (Let (t_bearer tu) f) Q"
  by simp

lemma vc_let_bearer_tunnel [sgw_vc]:
  assumes inv: "sgw_inv s" and b: "objs (bearers s) b = Some be" and t: "objs (tunnels s) i = Some tu"
    and eq: "t_bearer tu' = t_bearer tu" "local_teid tu' = local_teid tu" "t_gnode tu' = t_gnode tu"
    and rest: "\<And>t. grows {} s t \<Longrightarrow> safe (f t) Q"
  shows "safe (let s1 = set_bearer b (be\<lparr>ebi := e\<rparr>) s in Let (set_tunnel i tu' s1) f) Q"
proof -
  have 1: "grows {} s (set_bearer b (be\<lparr>ebi := e\<rparr>) s)"
    using sgw_inv_bearer [OF inv b] by (intro grows_set_bearer [OF inv b]) (auto simp: buffer_ok_def)
  have 2: "grows {} (set_bearer b (be\<lparr>ebi := e\<rparr>) s) (set_tunnel i tu' (set_bearer b (be\<lparr>ebi := e\<rparr>) s))"
    using sgw_inv_tunnel [OF inv t] t eq by (intro grows_set_tunnel [OF grows_live(1) [OF 1]]) auto
  show ?thesis using grows_trans [OF 1 2] rest by simp
qed

lemma vc_tunnel_find_by_teid [sgw_vc]:
  "(\<And>t. objs (tunnels s) t \<noteq> None \<Longrightarrow> safe (f t) Q) \<Longrightarrow> safe (ebind (non_null (sgw_tunnel_find_by_teid teid s)) f) Q"
  by (auto simp: sgw_tunnel_find_by_teid_def)

lemma vc_last_bearer_remove [sgw_vc]:
  "sgw_env_ok E \<Longrightarrow> sgw_inv s \<Longrightarrow> objs (bearers s) b \<noteq> None \<Longrightarrow> safe (sgw_bearer_remove E b s) sgw_inv"
  by (auto elim: bearer_remove_inv)

lemma safe_tunnel_add:
  assumes E: "sgw_env_ok E" and inv: "sgw_inv s" and b: "objs (bearers s) b \<noteq> None"
  shows "safe (sgw_tunnel_add E b iface s) (\<lambda>(t, s'). grows {} s s' \<and> objs (tunnels s') t \<noteq> None)"
proof -
  obtain be where be: "objs (bearers s) b = Some be" using b by auto
  show ?thesis
    by (rule safe_mono [OF tunnel_add_spec [OF E be]])
      (use be in \<open>auto simp: grows_def sgw_inv_tunnel_added [OF inv be]\<close>)
qed

lemma vc_tunnel_add [sgw_vc]:
  assumes "sgw_env_ok E" and "sgw_inv s" and "objs (bearers s) b \<noteq> None"
    and "\<And>t s'. grows {} s s' \<Longrightarrow> objs (tunnels s') t \<noteq> None \<Longrightarrow> safe (f t s') Q"
  shows "safe (ebind (sgw_tunnel_add E b iface s) (\<lambda>(t, s). f t s)) Q"
  by (rule vc_bind2 [OF safe_tunnel_add [OF assms(1-3)]]) (use assms(4) in blast)

lemma safe_bearer_add:
  assumes E: "sgw_env_ok E" and inv: "sgw_inv s" and clean: "clean_slots s" and x: "objs (sesss s) x \<noteq> None"
  shows "safe (sgw_bearer_add E x s) (\<lambda>(b, s'). grows {} s s' \<and> objs (bearers s') b \<noteq> None)"
proof -
  obtain se where se: "objs (sesss s) x = Some se" using x by auto
  have "grows {} s s' \<and> objs (bearers s') b \<noteq> None" if "bearer_added x se b s s'" for b s'
    using sgw_inv_bearer_added [OF inv clean se that] that se by (auto simp: grows_def bearer_added_def)
  then show ?thesis by (intro safe_mono [OF bearer_add_spec [OF E se]]) auto
qed

lemma vc_bearer_add [sgw_vc]:
  assumes "sgw_env_ok E" and "sgw_inv s" and "clean_slots s" and "objs (sesss s) x \<noteq> None"
    and "\<And>b s'. grows {} s s' \<Longrightarrow> objs (bearers s') b \<noteq> None \<Longrightarrow> safe (f b s') Q"
  shows "safe (ebind (sgw_bearer_add E x s) (\<lambda>(b, s). f b s)) Q"
  by (rule vc_bind2 [OF safe_bearer_add [OF assms(1-4)]]) (use assms(5) in blast)

lemma safe_sess_add:
  assumes E: "sgw_env_ok E" and inv: "sgw_inv s" and clean: "clean_slots s" and u: "objs (ues s) u \<noteq> None"
  shows "safe (sgw_sess_add E u a e s) (\<lambda>(x, s'). grows {} s s' \<and> objs (sesss s') x \<noteq> None)"
proof -
  obtain ue where ue: "objs (ues s) u = Some ue" using u by auto
  have "grows {} s s' \<and> objs (sesss s') x \<noteq> None" if "sess_added u a' e x s s'" for x s' a'
    using sgw_inv_sess_added [OF inv clean that] that by (auto simp: grows_def sess_added_def)
  then show ?thesis by (intro safe_mono [OF sess_add_spec [OF E ue]]) auto
qed

lemma vc_setup [sgw_vc]:
  "sgw_env_ok E \<Longrightarrow> sgw_inv s \<Longrightarrow> (\<And>g t. grows {} s t \<Longrightarrow> gnodes t g \<noteq> None \<Longrightarrow> safe (f g t) Q) \<Longrightarrow>
     safe (ebind (enb_s1u_setup E h s) (\<lambda>(g, t). f g t)) Q"
  "sgw_env_ok E \<Longrightarrow> sgw_inv s \<Longrightarrow> (\<And>g t. grows {} s t \<Longrightarrow> gnodes t g \<noteq> None \<Longrightarrow> safe (f g t) Q) \<Longrightarrow>
     safe (ebind (pgw_s5u_setup E h s) (\<lambda>(g, t). f g t)) Q"
  "sgw_env_ok E \<Longrightarrow> sgw_inv s \<Longrightarrow> (\<And>g t. grows {} s t \<Longrightarrow> gnodes t g \<noteq> None \<Longrightarrow> safe (f g t) Q) \<Longrightarrow>
     safe (ebind (pgw_s5c_setup E h s) (\<lambda>(g, t). f g t)) Q"
  by (rule vc_bind2, rule setup_grows, assumption, assumption, simp)+

lemma vc_find [sgw_vc]:
  "sgw_inv s \<Longrightarrow> objs (bearers s) b \<noteq> None \<Longrightarrow>
     (\<And>t. objs (tunnels s) t \<noteq> None \<Longrightarrow> safe (f t) Q) \<Longrightarrow> safe (ebind (ebind (sgw_s1u_tunnel_in_bearer b s) non_null) f) Q"
  "sgw_inv s \<Longrightarrow> objs (bearers s) b \<noteq> None \<Longrightarrow>
     (\<And>t. objs (tunnels s) t \<noteq> None \<Longrightarrow> safe (f t) Q) \<Longrightarrow> safe (ebind (ebind (sgw_s5u_tunnel_in_bearer b s) non_null) f) Q"
  unfolding sgw_s1u_tunnel_in_bearer_def sgw_s5u_tunnel_in_bearer_def
  by (rule vc_bind, rule safe_find_tunnel, assumption, assumption, fastforce)+

lemma vc_default_bearer [sgw_vc]:
  "sgw_inv s \<Longrightarrow> objs (sesss s) x \<noteq> None \<Longrightarrow> (\<And>b. objs (bearers s) b \<noteq> None \<Longrightarrow> safe (f b) Q) \<Longrightarrow>
     safe (ebind (ebind (sgw_default_bearer_in_sess x s) non_null) f) Q"
  by (rule vc_bind, rule safe_default_bearer, assumption, assumption, simp)

lemma vc_find_by_ue_ebi [sgw_vc]:
  assumes "sgw_inv s" and "objs (ues s) u \<noteq> None" and "safe a Q" and "\<And>b. objs (bearers s) b \<noteq> None \<Longrightarrow> safe (f b) Q"
  shows "safe (ebind (sgw_bearer_find_by_ue_ebi u e s) (\<lambda>r. case r of None \<Rightarrow> a | Some b \<Rightarrow> f b)) Q"
  by (rule vc_bind [OF safe_find_by_ue_ebi [OF assms(1,2)]]) (use assms(3,4) in \<open>auto split: option.split\<close>)

lemma vc_find_by_ue_ebi_non_null [sgw_vc]:
  "sgw_inv s \<Longrightarrow> objs (ues s) u \<noteq> None \<Longrightarrow> (\<And>b. objs (bearers s) b \<noteq> None \<Longrightarrow> safe (f b) Q) \<Longrightarrow>
     safe (ebind (ebind (sgw_bearer_find_by_ue_ebi u e s) non_null) f) Q"
  unfolding safe_ebind [of "ebind _ _"] safe_ebind [of _ non_null]
  by (rule safe_mono, rule safe_find_by_ue_ebi, assumption, assumption, fastforce)

lemma vc_find_by_sess_ebi [sgw_vc]:
  "sgw_inv s \<Longrightarrow> objs (sesss s) x \<noteq> None \<Longrightarrow> (\<And>b. objs (bearers s) b \<noteq> None \<Longrightarrow> safe (f b) Q) \<Longrightarrow>
     safe (ebind (ebind (sgw_bearer_find_by_sess_ebi x e s) non_null) f) Q"
  unfolding safe_ebind [of "ebind _ _"] safe_ebind [of _ non_null] not_None_eq
  by (elim exE, rule safe_mono, rule safe_find_by_sess_ebi, assumption, assumption, fastforce)

lemma vc_sess_find_by_ebi_non_null [sgw_vc]:
  "sgw_inv s \<Longrightarrow> objs (ues s) u \<noteq> None \<Longrightarrow> (\<And>x. objs (sesss s) x \<noteq> None \<Longrightarrow> safe (f x) Q) \<Longrightarrow>
     safe (ebind (ebind (sgw_sess_find_by_ebi u e s) non_null) f) Q"
  unfolding safe_ebind [of "ebind _ _"] safe_ebind [of _ non_null]
  by (rule safe_mono, rule safe_sess_find_by_ebi, assumption, assumption, simp)

lemma vc_set_uli [sgw_vc]:
  "sgw_inv s \<Longrightarrow> objs (bearers s) b \<noteq> None \<Longrightarrow> octet \<noteq> [] \<Longrightarrow> (\<And>t. grows {} s t \<Longrightarrow> safe (f t) Q) \<Longrightarrow>
     safe (ebind (bearer_set_uli b octet s) f) Q"
  by (rule vc_bind, rule safe_bearer_set_uli, assumption, assumption, assumption, simp)

lemma vc_local_f_teid [sgw_vc]: "(\<And>h. safe (f h) Q) \<Longrightarrow> safe (ebind (local_f_teid iface teid addr addr6) f) Q"
  by (rule vc_bind, rule safe_local_f_teid, simp)

lemma vc_ip_to_f_teid [sgw_vc]: "(\<And>h l. safe (f h l) Q) \<Longrightarrow> safe (ebind (ogs_gtp_ip_to_f_teid ip h) (\<lambda>(h, l). f h l)) Q"
  by (rule vc_bind, rule safe_ip_to_f_teid, simp split: prod.split)

lemma vc_xact_assoc [sgw_vc]:
  "sgw_inv s \<Longrightarrow> xacts s x \<noteq> None \<Longrightarrow> (\<And>y. xacts s y \<noteq> None \<Longrightarrow> y \<noteq> x \<Longrightarrow> safe (f y) Q) \<Longrightarrow> safe (ebind (xact_assoc x s) f) Q"
  by (rule vc_bind, rule safe_xact_assoc, assumption, assumption, simp)

lemma vc_commit [sgw_vc]:
  "sgw_env_ok E \<Longrightarrow> sgw_inv s \<Longrightarrow> xacts s x \<noteq> None \<Longrightarrow> (\<And>t. grows {x} s t \<Longrightarrow> safe (f t) Q) \<Longrightarrow>
     safe (ebind (ogs_gtp_xact_commit E x s) f) Q"
  by (rule vc_bind, rule safe_xact_commit, assumption, assumption, assumption, simp)

lemma vc_send_answer [sgw_vc]:
  "sgw_env_ok E \<Longrightarrow> sgw_inv s \<Longrightarrow> xacts s x \<noteq> None \<Longrightarrow> (\<And>t. grows {x} s t \<Longrightarrow> safe (f t) Q) \<Longrightarrow>
     safe (ebind (sgw_send_answer E x teid body s) f) Q"
  by (rule vc_bind, rule safe_send_answer, assumption, assumption, assumption, simp)

lemma vc_last_request [sgw_vc]:
  "sgw_env_ok E \<Longrightarrow> sgw_inv s \<Longrightarrow> xacts s x \<noteq> None \<Longrightarrow> node_ok s gnode \<Longrightarrow> safe (sgw_send_request E x gnode teid body s) sgw_inv"
  by (rule safe_mono, erule (3) safe_send_request, simp add: grows_def)

lemma vc_last_answer [sgw_vc]:
  "sgw_env_ok E \<Longrightarrow> sgw_inv s \<Longrightarrow> xacts s x \<noteq> None \<Longrightarrow> safe (sgw_send_answer E x teid body s) sgw_inv"
  by (rule safe_mono, erule (2) safe_send_answer, simp add: grows_def)

lemma vc_last_commit [sgw_vc]:
  "sgw_env_ok E \<Longrightarrow> sgw_inv s \<Longrightarrow> xacts s x \<noteq> None \<Longrightarrow> safe (ogs_gtp_xact_commit E x s) sgw_inv"
  by (rule safe_mono, erule (2) safe_xact_commit, simp add: grows_def)

lemma vc_done_ue [sgw_vc]:
  assumes inv: "sgw_inv s" and u: "objs (ues s) u = Some ue" and eq: "sess_list ue' = sess_list ue" "sgw_s11_teid ue' = sgw_s11_teid ue"
    and node: "ue_gnode ue' = ue_gnode ue" and "\<And>t. grows {} s t \<Longrightarrow> Q t"
  shows "safe (Inr (set_ue u ue' s)) Q"
  using grows_set_ue [OF inv u eq] node sgw_inv_ue [OF inv u] assms(6) by simp

text \<open>
  The side conditions the steps leave: the invariant of the present state and the liveness of a
  pointer, from the chain of \<open>grows\<close> facts; the nodes of live objects are live.
\<close>

lemma vc_done: "Q s \<Longrightarrow> safe (Inr s) Q"
  by simp

lemma node_okI: "gnodes s g \<noteq> None \<Longrightarrow> node_ok s (Some g)"
  by simp

lemma object_node_ok:
  "objs (ues s) u = Some ue \<Longrightarrow> sgw_inv s \<Longrightarrow> node_ok s (ue_gnode ue)"
  "objs (sesss s) x = Some se \<Longrightarrow> sgw_inv s \<Longrightarrow> node_ok s (sess_gnode se)"
  using sgw_inv_ue sgw_inv_sess by blast+

lemma tunnel_node_live: "objs (tunnels s) t = Some tu \<Longrightarrow> t_gnode tu = Some g \<Longrightarrow> sgw_inv s \<Longrightarrow> gnodes s g \<noteq> None"
  using sgw_inv_tunnel by blast

lemma tunnel_bearer_live: "objs (tunnels s) t = Some tu \<Longrightarrow> sgw_inv s \<Longrightarrow> objs (bearers s) (t_bearer tu) \<noteq> None"
  using sgw_inv_tunnel by blast

lemma bearer_sess_live: "objs (bearers s) b = Some be \<Longrightarrow> sgw_inv s \<Longrightarrow> objs (sesss s) (b_sess be) \<noteq> None"
  using sgw_inv_bearer by blast

lemma bearer_ue_live: "objs (bearers s) b = Some be \<Longrightarrow> sgw_inv s \<Longrightarrow> objs (ues s) (b_ue be) \<noteq> None"
  using sgw_inv_bearer by blast

lemma sess_ue_live: "objs (sesss s) x = Some se \<Longrightarrow> sgw_inv s \<Longrightarrow> objs (ues s) (sess_ue se) \<noteq> None"
  using sgw_inv_sess by blast

lemma new_node_live:
  "gnodes s g \<noteq> None \<Longrightarrow> t_gnode (tu\<lparr>t_gnode := Some g\<rparr>) = a \<or> (\<exists>h. t_gnode (tu\<lparr>t_gnode := Some g\<rparr>) = Some h \<and> gnodes s h \<noteq> None)"
  "gnodes s g \<noteq> None \<Longrightarrow> sess_gnode (se\<lparr>sess_gnode := Some g\<rparr>) = c \<or> (\<exists>h. sess_gnode (se\<lparr>sess_gnode := Some g\<rparr>) = Some h \<and> gnodes s h \<noteq> None)"
  by simp_all

lemmas sgw_owner = object_node_ok tunnel_bearer_live bearer_sess_live bearer_ue_live sess_ue_live
lemmas sgw_side = grows_live node_okI new_node_live conjI vc_done

subsection \<open>The user plane\<close>

lemma safe_tunnel_send:
  assumes inv: "sgw_inv s" and "node_ok s (t_gnode tu)"
  shows "safe (tunnel_send E tu pk s) (\<lambda>(rv, t). \<exists>g. t_gnode tu = Some g \<and> t = s\<lparr>sent := sent s @ [(g, pk)]\<rparr>)"
  using assms by (auto simp: tunnel_send_def ogs_gtp_sendto_def)

lemma grows_sent: "sgw_inv s \<Longrightarrow> grows {} s (s\<lparr>sent := l\<rparr>)"
  using sgw_inv_more [of s "s\<lparr>sent := l\<rparr>"] sgw_invD(1) [of s] by (simp add: grows_def gtp_inv_def)

lemma safe_end_marker:
  assumes inv: "sgw_inv s" and t: "objs (tunnels s) t \<noteq> None"
  shows "safe (sgw_gtp_send_end_marker E t s) (grows {} s)"
proof -
  obtain tu where tu: "objs (tunnels s) t = Some tu" using t by auto
  then have "node_ok s (t_gnode tu)" using sgw_inv_tunnel [OF inv tu] by blast
  then show ?thesis
    unfolding sgw_gtp_send_end_marker_def
    using tu grows_sent [OF inv] by (auto intro!: safe_mono [OF safe_tunnel_send [OF inv]])
qed

lemma vc_end_marker [sgw_vc]:
  "sgw_inv s \<Longrightarrow> objs (tunnels s) i \<noteq> None \<Longrightarrow> (\<And>t. grows {} s t \<Longrightarrow> safe (f t) Q) \<Longrightarrow>
     safe (ebind (sgw_gtp_send_end_marker E i s) f) Q"
  by (rule vc_bind, rule safe_end_marker, assumption, assumption, simp)

end
