(* ===== verification/Sgw_Handlers.thy ===== *)
theory Sgw_Handlers
  imports Sgw_Safe
begin

text \<open>
  Every handler of the serving gateway keeps the invariant and faults only by a failed assertion.
  The hypotheses are those the code needs: the user or session and the transaction it is given are
  live, a location element is not empty, a free bearer has no packets left over.
\<close>

subsection \<open>Parts of handlers\<close>

lemma safe_handler_parts:
  assumes "sgw_env_ok E" "sgw_inv s" "objs (ues s) u \<noteq> None" "xacts s xa \<noteq> None"
  shows "objs (bearers s) b \<noteq> None \<Longrightarrow> uli \<noteq> Some [] \<Longrightarrow>
      safe (modify_bearer_accept E u b enb_f uli s) (\<lambda>t. sgw_inv t \<and> xacts t xa \<noteq> None)"
    and "objs (sesss s) x \<noteq> None \<Longrightarrow> octet \<noteq> [] \<Longrightarrow>
      safe (create_session_forward E xa u x req bc mme_f pgw_f octet s) sgw_inv"
    and "octet \<noteq> [] \<Longrightarrow> safe (create_bearer_forward E xa u rsp bc e enb_f sgw_f octet s) sgw_inv"
    and "objs (sesss s) x \<noteq> None \<Longrightarrow> xacts s ya \<noteq> None \<Longrightarrow> xa \<noteq> ya \<Longrightarrow>
      safe (create_session_answer E ya xa x u rsp' bc e pgw_s5c_f pgw_s5u_f s) sgw_inv"
  using assms
  unfolding modify_bearer_accept_def create_session_forward_def create_bearer_forward_def create_session_answer_def
  by - (assumption | rule sgw_vc | (rule sgw_owner, assumption) | (rule tunnel_node_live, assumption, assumption)
      | rule sgw_side | (simp; fail))+

lemma vc_modify_bearer_accept [sgw_vc]:
  assumes "sgw_env_ok E" "sgw_inv s" "objs (ues s) u \<noteq> None" "xacts s xa \<noteq> None" "objs (bearers s) b \<noteq> None" "uli \<noteq> Some []"
    and "\<And>t. sgw_inv t \<Longrightarrow> xacts t xa \<noteq> None \<Longrightarrow> safe (f t) Q"
  shows "safe (ebind (modify_bearer_accept E u b enb_f uli s) f) Q"
  by (rule vc_bind [OF safe_handler_parts(1) [OF assms(1-6)]]) (use assms(7) in blast)

lemma vc_create_bearer_forward [sgw_vc]:
  "sgw_env_ok E \<Longrightarrow> sgw_inv s \<Longrightarrow> objs (ues s) u \<noteq> None \<Longrightarrow> xacts s xa \<noteq> None \<Longrightarrow> octet \<noteq> [] \<Longrightarrow>
     safe (create_bearer_forward E xa u rsp bc e enb_f sgw_f octet s) sgw_inv"
  by (rule safe_handler_parts(3))

lemma vc_create_session_answer [sgw_vc]:
  "sgw_env_ok E \<Longrightarrow> sgw_inv s \<Longrightarrow> objs (ues s) u \<noteq> None \<Longrightarrow> xacts s xa \<noteq> None \<Longrightarrow> objs (sesss s) x \<noteq> None \<Longrightarrow>
     xacts s ya \<noteq> None \<Longrightarrow> xa \<noteq> ya \<Longrightarrow> safe (create_session_answer E ya xa x u rsp bc e pgw_s5c_f pgw_s5u_f s) sgw_inv"
  by (rule safe_handler_parts(4))

subsection \<open>Handlers without loops\<close>

lemma safe_plain_handlers:
  assumes "sgw_env_ok E" "sgw_inv s" "objs (ues s) u \<noteq> None" "xacts s xa \<noteq> None"
  shows "safe (sgw_s11_handle_delete_session_request E xa u dsq s) sgw_inv"
    and "mbq_user_location_information mbq \<noteq> Some [] \<Longrightarrow> safe (sgw_s11_handle_modify_bearer_request E xa u mbq s) sgw_inv"
    and "cbp_user_location_information cbp \<noteq> Some [] \<Longrightarrow> safe (sgw_s11_handle_create_bearer_response E xa u cbp s) sgw_inv"
    and "safe (sgw_s11_handle_update_bearer_response E xa u bm s) sgw_inv"
    and "safe (sgw_s11_handle_delete_bearer_response E xa u bm s) sgw_inv"
    and "safe (sgw_s11_handle_downlink_data_notification_ack E xa u s) sgw_inv"
    and "objs (sesss s) x \<noteq> None \<Longrightarrow> safe (sgw_s5c_handle_create_session_response E xa x csp s) sgw_inv"
    and "objs (sesss s) x \<noteq> None \<Longrightarrow> clean_slots s \<Longrightarrow> safe (sgw_s5c_handle_create_bearer_request E xa x cbq s) sgw_inv"
    and "objs (sesss s) x \<noteq> None \<Longrightarrow> safe (sgw_s5c_handle_update_bearer_request E xa x bm s) sgw_inv"
    and "objs (sesss s) x \<noteq> None \<Longrightarrow> safe (sgw_s5c_handle_delete_bearer_request E xa x dbq s) sgw_inv"
  using assms
  unfolding sgw_s11_handle_delete_session_request_def sgw_s11_handle_modify_bearer_request_def
    sgw_s11_handle_create_bearer_response_def sgw_s11_handle_update_bearer_response_def
    sgw_s11_handle_delete_bearer_response_def sgw_s11_handle_downlink_data_notification_ack_def
    sgw_s5c_handle_create_session_response_def sgw_s5c_handle_create_bearer_request_def
    sgw_s5c_handle_update_bearer_request_def sgw_s5c_handle_delete_bearer_request_def
  by - (assumption | rule sgw_vc | (rule sgw_owner, assumption) | (rule tunnel_node_live, assumption, assumption)
      | rule sgw_side | (simp; fail))+

subsection \<open>Sessions\<close>

lemma vc_create_session_forward [sgw_vc]:
  "sgw_env_ok E \<Longrightarrow> sgw_inv s \<Longrightarrow> objs (ues s) u \<noteq> None \<Longrightarrow> xacts s xa \<noteq> None \<Longrightarrow> objs (sesss s) x \<noteq> None \<Longrightarrow> octet \<noteq> [] \<Longrightarrow>
     safe (create_session_forward E xa u x req bc mme_f pgw_f octet s) sgw_inv"
  by (rule safe_handler_parts(2))

lemma vc_bind_session [sgw_vc]:
  assumes "sgw_env_ok E" "sgw_inv s" "clean_slots s" "objs (ues s) u \<noteq> None"
    and none: "safe (a s) Q"
    and some: "\<And>x t. grows {} s t \<Longrightarrow> objs (sesss t) x \<noteq> None \<Longrightarrow> safe (k x t) Q"
  shows "safe (ebind (sgw_sess_find_by_ebi u e s) (\<lambda>r. ebind (case r of
       None \<Rightarrow> (case nm of None \<Rightarrow> Inr (None, s)
                | Some a \<Rightarrow> ebind (sgw_sess_add E u (fqdn_parse E a) e s) (\<lambda>(x, s). Inr (Some x, s)))
     | Some x \<Rightarrow> Inr (Some x, s)) (\<lambda>(xo, t). case xo of None \<Rightarrow> a t | Some x \<Rightarrow> k x t))) Q"
proof (rule vc_bind [OF safe_sess_find_by_ebi [OF assms(2,4)]])
  fix r assume r: "\<forall>x. r = Some x \<longrightarrow> objs (sesss s) x \<noteq> None"
  have "safe (sgw_sess_add E u nm' e s) (\<lambda>(x, t). safe (k x t) Q)" for nm'
    by (rule safe_mono [OF safe_sess_add [OF assms(1-4)]]) (use some in auto)
  then show "safe (ebind (case r of
       None \<Rightarrow> (case nm of None \<Rightarrow> Inr (None, s)
                | Some a \<Rightarrow> ebind (sgw_sess_add E u (fqdn_parse E a) e s) (\<lambda>(x, s). Inr (Some x, s)))
     | Some x \<Rightarrow> Inr (Some x, s)) (\<lambda>(xo, t). case xo of None \<Rightarrow> a t | Some x \<Rightarrow> k x t)) Q"
    using none some [OF grows_refl [OF assms(2)]] r by (auto split: option.split elim!: safe_mono)
qed

lemma safe_create_session_request:
  assumes "sgw_env_ok E" "sgw_inv s" "objs (ues s) u \<noteq> None" "xacts s xa \<noteq> None" "clean_slots s"
    and "csq_user_location_information req \<noteq> Some []"
  shows "safe (sgw_s11_handle_create_session_request E xa u req s) sgw_inv"
  using assms unfolding sgw_s11_handle_create_session_request_def
  by - (assumption | rule sgw_vc | rule sgw_side | (simp; fail))+

text \<open>Removing the session frees its bearers and tunnels and leaves the transactions alone.\<close>

lemma vc_sess_remove [sgw_vc]:
  assumes "sgw_env_ok E" "sgw_inv s" "objs (sesss s) x \<noteq> None"
    and "\<And>t. sgw_inv t \<Longrightarrow> xacts t = xacts s \<Longrightarrow> safe (f t) Q"
  shows "safe (ebind (sgw_sess_remove E x s) f) Q"
proof -
  obtain se where "objs (sesss s) x = Some se" using assms(3) by auto
  from sess_remove_inv [OF assms(1,2) this] assms(4) show ?thesis by (metis ebind_Inr)
qed

lemma safe_delete_session_response:
  assumes "sgw_env_ok E" "sgw_inv s" "objs (sesss s) x \<noteq> None" "xacts s xa \<noteq> None"
  shows "safe (sgw_s5c_handle_delete_session_response E xa x rsp s) sgw_inv"
  using assms unfolding sgw_s5c_handle_delete_session_response_def
  by - (assumption | rule sgw_vc | (rule sgw_owner, assumption) | (simp; fail) | rule sgw_side)+

subsection \<open>Releasing the access bearers\<close>

lemma vc_find_s1u:
  assumes "sgw_inv s" and "objs (bearers s) b \<noteq> None"
    and "\<And>t tu. objs (tunnels s) t = Some tu \<Longrightarrow> safe (f t) Q"
  shows "safe (ebind (ebind (sgw_s1u_tunnel_in_bearer b s) non_null) f) Q"
  using assms by (intro vc_find) auto

lemma safe_release_bearers:
  "sgw_inv s \<Longrightarrow> \<forall>b \<in> set bs. objs (bearers s) b \<noteq> None \<Longrightarrow> safe (release_bearers bs s) (grows {} s)"
proof (induction bs arbitrary: s)
  case (Cons b bs)
  show ?case
    unfolding release_bearers.simps
  proof (rule vc_find_s1u)
    fix t tu assume tu: "objs (tunnels s) t = Some tu"
    let ?s = "set_tunnel t (tu\<lparr>remote_teid := 0\<rparr>) s"
    have g: "grows {} s ?s"
      using sgw_inv_tunnel [OF Cons.prems(1) tu] by (intro grows_set_tunnel [OF Cons.prems(1) tu]) auto
    have "safe (release_bearers bs ?s) (grows {} ?s)"
      using Cons.prems(2) by (intro Cons.IH grows_live(1) [OF g]) simp
    then show "safe (ebind (get_tunnel s t) (\<lambda>tu. release_bearers bs (set_tunnel t (tu\<lparr>remote_teid := 0\<rparr>) s))) (grows {} s)"
      using grows_trans [OF g] tu by (auto elim!: safe_mono)
  qed (use Cons.prems in auto)
qed (simp add: grows_refl)

lemma safe_release_sessions:
  "sgw_inv s \<Longrightarrow> \<forall>x \<in> set xs. objs (sesss s) x \<noteq> None \<Longrightarrow> safe (release_sessions xs s) (grows {} s)"
proof (induction xs arbitrary: s)
  case (Cons x xs)
  then obtain se where se: "objs (sesss s) x = Some se" by auto
  have bs: "\<forall>b \<in> set (bearer_list se). objs (bearers s) b \<noteq> None"
    using sgw_inv_sess [OF Cons.prems(1) se] by auto
  have "safe (release_sessions xs t) (grows {} s)" if g: "grows {} s t" for t
    using Cons.prems(2) grows_trans [OF g]
    by (auto intro!: safe_mono [OF Cons.IH [OF grows_live(1) [OF g]]] grows_live(5) [OF g, simplified])
  then show ?case
    using se by (auto intro: safe_mono [OF safe_release_bearers [OF Cons.prems(1) bs]])
qed (simp add: grows_refl)

lemma safe_release_access_bearers_request:
  assumes E: "sgw_env_ok E" and inv: "sgw_inv s" and u: "objs (ues s) u \<noteq> None" and xa: "xacts s xa \<noteq> None"
  shows "safe (sgw_s11_handle_release_access_bearers_request E xa u s) sgw_inv"
proof -
  obtain ue where ue: "objs (ues s) u = Some ue" using u by auto
  define ue' where "ue' = SGW_RESET_UE_STATE SGW_DL_NOTI_SENT (SGW_SET_UE_STATE SGW_S1U_INACTIVE ue)"
  have g: "grows {} s (set_ue u ue' s)"
    using sgw_inv_ue [OF inv ue] by (intro grows_set_ue [OF inv ue]) (auto simp: ue'_def)
  have xs: "\<forall>x \<in> set (sess_list ue'). objs (sesss (set_ue u ue' s)) x \<noteq> None"
    using sgw_inv_ue [OF inv ue] by (fastforce simp: ue'_def)
  have "safe (release_sessions (sess_list ue') (set_ue u ue' s)) (grows {} s)"
    by (rule safe_mono [OF safe_release_sessions [OF grows_live(1) [OF g] xs]]) (use grows_trans [OF g] in simp)
  then have "safe (ebind (release_sessions (sess_list ue') (set_ue u ue' s)) (\<lambda>t.
      sgw_send_answer E xa (mme_s11_teid ue') (Release_Access_Bearers_Response OGS_GTP_CAUSE_REQUEST_ACCEPTED) t)) sgw_inv"
    by (rule vc_bind) (use xa in \<open>auto intro!: vc_last_answer [OF E] dest: grows_live\<close>)
  then show ?thesis
    using ue by (simp add: sgw_s11_handle_release_access_bearers_request_def Let_def ue'_def)
qed

subsection \<open>Downlink data notification\<close>

lemma safe_lo_dldata_notification:
  assumes E: "sgw_env_ok E" and inv: "sgw_inv s" and b: "objs (bearers s) b \<noteq> None"
  shows "safe (sgw_s11_handle_lo_dldata_notification E b s) sgw_inv"
proof -
  obtain be ue where be: "objs (bearers s) b = Some be" and ue: "objs (ues s) (b_ue be) = Some ue"
    using b sgw_inv_bearer [OF inv] by blast
  have "safe (ogs_gtp_xact_local_create E (ptr (ue_gnode ue)) ty teid body s) (\<lambda>(x, t). safe (ogs_gtp_xact_commit E x t) sgw_inv)"
    for ty teid body
  proof (cases "ue_gnode ue")
    case None
    then show ?thesis by (simp add: ptr_def ogs_gtp_xact_local_create_def)
  next
    case (Some g)
    have g: "gnodes s g \<noteq> None" using sgw_inv_ue [OF inv ue] Some by blast
    show ?thesis
      unfolding Some ptr_def option.case
      by (rule safe_mono [OF safe_local_create [OF sgw_env_okD(1) [OF E] sgw_invD(1) [OF inv] g, where D = "{}"]])
        (auto intro!: vc_last_commit [OF E] dest: grows_gtp [OF inv] grows_live)
  qed
  then show ?thesis
    using be ue by (simp add: sgw_s11_handle_lo_dldata_notification_def Let_def case_prod_unfold)
qed

subsection \<open>Indirect data forwarding\<close>

lemma grows_chain: "grows {} s t \<Longrightarrow> grows {} t r \<Longrightarrow> grows {} s r"
  using grows_trans by fastforce

lemma safe_indirect_tunnel:
  assumes "sgw_env_ok E" "sgw_inv s" "objs (bearers s) b \<noteq> None"
  shows "safe (indirect_tunnel E b iface f s) (\<lambda>(h, t). grows {} s t)"
  using assms unfolding indirect_tunnel_def
  by - (assumption | rule sgw_vc | rule vc_done_pair grows_chain | rule sgw_side | (simp; fail))+

lemma safe_indirect_option:
  assumes "sgw_env_ok E" "sgw_inv s" "objs (bearers s) b \<noteq> None"
  shows "safe (case o' of None \<Rightarrow> Inr (None, s)
     | Some f \<Rightarrow> ebind (indirect_tunnel E b iface f s) (\<lambda>(f, s). Inr (Some f, s))) (\<lambda>(h, t). grows {} s t)"
  using safe_indirect_tunnel [OF assms] grows_refl [OF assms(2)]
  by (auto split: option.split elim!: safe_mono simp: case_prod_unfold)

text \<open>
  The loop stops before the end of the array when one of the first entries is absent; the reply has
  room for every entry it can reach.
\<close>

lemma safe_indirect_loop:
  assumes E: "sgw_env_ok E"
  shows "sgw_inv s \<Longrightarrow> objs (ues s) u \<noteq> None \<Longrightarrow> i \<in> set is \<Longrightarrow> reqs ! i = None \<Longrightarrow> sorted is \<Longrightarrow>
     i < length reqs \<Longrightarrow> i < length rsps \<Longrightarrow>
     safe (indirect_loop E u reqs is rsps s) (\<lambda>(r, t). grows {} s t)"
proof (induction "is" arbitrary: rsps s)
  case (Cons j js)
  have j: "j < length reqs" "j < length rsps"
    using Cons.prems(3,5-7) by auto
  show ?case
  proof (cases "reqs ! j")
    case None
    then show ?thesis using j Cons.prems(1) by (simp add: array_read_def grows_refl)
  next
    case (Some bc)
    then have "i \<noteq> j" using Cons.prems(4) by auto
    then have i: "i \<in> set js" using Cons.prems(3) by auto
    have rest: "safe (indirect_loop E u reqs js rsps' t) (\<lambda>(r, t). grows {} s t)"
      if "grows {} s t" "length rsps' = length rsps" for t rsps'
      using that Cons.prems i grows_live [OF that(1)]
      by (intro safe_mono [OF Cons.IH [of t rsps']]) (auto intro: grows_chain)
    have dl_ul: "safe (case p of None \<Rightarrow> Inr (None, t) | Some f \<Rightarrow> ebind (indirect_tunnel E b iface f t) (\<lambda>(f, s). Inr (Some f, s)))
        (\<lambda>(h, t). grows {} s t)" if "grows {} s t" "objs (bearers s) b \<noteq> None" for p b iface t
      by (rule safe_mono [OF safe_indirect_option [OF E grows_live(1) [OF that(1)] grows_live(6) [OF that]]])
        (use grows_chain [OF that(1)] in auto)
    show ?thesis
      unfolding indirect_loop.simps array_read_ok [OF j(1)] Some ebind_Inr option.case
      apply (rule vc_option, simp add: grows_refl [OF Cons.prems(1)])
      apply (rule vc_find_by_ue_ebi_non_null [OF Cons.prems(1,2)])
      apply (rule vc_bind2 [OF dl_ul [OF grows_refl [OF Cons.prems(1)]]], assumption)
      apply (rule vc_bind2 [OF dl_ul], assumption, assumption)
      apply (rule vc_deref, erule grows_live, assumption)
      apply (simp only: Let_def array_write_ok [OF j(2)] ebind_Inr)
      apply (rule rest, assumption, simp only: length_list_update)
      done
  qed
qed simp

lemma safe_create_indirect_request:
  assumes E: "sgw_env_ok E" and inv: "sgw_inv s" and u: "objs (ues s) u \<noteq> None" and xa: "xacts s xa \<noteq> None"
    and reqs: "length reqs = GTP_MAX_NUM_OF_INDIRECT_TUNNEL" "None \<in> set reqs"
  shows "safe (sgw_s11_handle_create_indirect_data_forwarding_tunnel_request E xa u reqs s) sgw_inv"
proof -
  obtain i where i: "i < GTP_MAX_NUM_OF_INDIRECT_TUNNEL" "reqs ! i = None"
    using reqs by (metis in_set_conv_nth)
  have "safe (indirect_loop E u reqs [0..<Suc GTP_MAX_NUM_OF_INDIRECT_TUNNEL] (replicate GTP_MAX_NUM_OF_INDIRECT_TUNNEL None) s)
      (\<lambda>(r, t). grows {} s t)"
    using i reqs(1) by (intro safe_indirect_loop [OF E inv u, of i]) (simp_all del: upt_Suc)
  then have "safe (ebind (indirect_loop E u reqs [0..<Suc GTP_MAX_NUM_OF_INDIRECT_TUNNEL] (replicate GTP_MAX_NUM_OF_INDIRECT_TUNNEL None) s)
      (\<lambda>(r, s). case r of None \<Rightarrow> Inr s | Some rsps \<Rightarrow> ebind (get_ue s u) (\<lambda>ue.
         sgw_send_answer E xa (mme_s11_teid ue) (Create_Indirect_Tunnel_Response OGS_GTP_CAUSE_REQUEST_ACCEPTED rsps) s))) sgw_inv"
  proof (rule vc_bind2)
    fix r t assume g: "grows {} s t"
    note live = grows_live [OF g]
    show "safe (case r of None \<Rightarrow> Inr t | Some rsps \<Rightarrow> ebind (get_ue t u) (\<lambda>ue.
         sgw_send_answer E xa (mme_s11_teid ue) (Create_Indirect_Tunnel_Response OGS_GTP_CAUSE_REQUEST_ACCEPTED rsps) t)) sgw_inv"
      using live(1) live(3) [OF xa] live(4) [OF u] by (auto split: option.split intro!: vc_last_answer [OF E])
  qed
  then show ?thesis
    by (simp add: sgw_s11_handle_create_indirect_data_forwarding_tunnel_request_def del: upt_Suc)
qed

text \<open>Removing forwarding tunnels leaves everything above the tunnels in place.\<close>

definition keeps_upper :: "sgw_state \<Rightarrow> sgw_state \<Rightarrow> bool" where
  "keeps_upper s t \<longleftrightarrow> sgw_inv t \<and> xacts t = xacts s \<and> ues t = ues s \<and> sesss t = sesss s
     \<and> dom (objs (bearers t)) = dom (objs (bearers s))"

lemma keeps_upper_trans: "keeps_upper s t \<Longrightarrow> keeps_upper t r \<Longrightarrow> keeps_upper s r"
  by (simp add: keeps_upper_def)

lemma safe_indirect_remove_tunnels:
  assumes E: "sgw_env_ok E"
  shows "sgw_inv s \<Longrightarrow> \<forall>t \<in> set ts. objs (tunnels s) t \<noteq> None \<Longrightarrow> distinct ts \<Longrightarrow>
     safe (indirect_remove_tunnels E ts s) (keeps_upper s)"
proof (induction ts arbitrary: s)
  case (Cons t ts)
  obtain tu where tu: "objs (tunnels s) t = Some tu" using Cons.prems(2) by auto
  obtain s' where s': "sgw_tunnel_remove E t s = Inr s'" "keeps_upper s s'" "objs (tunnels s') = (objs (tunnels s))(t := None)"
    by (rule tunnel_remove_inv [OF E Cons.prems(1) tu]) (auto simp: keeps_upper_def)
  have "safe (indirect_remove_tunnels E ts s') (keeps_upper s')"
    using Cons.prems(2,3) s' by (intro Cons.IH) (auto simp: keeps_upper_def)
  then have "safe (indirect_remove_tunnels E ts s') (keeps_upper s)"
    by (rule safe_mono) (rule keeps_upper_trans [OF s'(2)])
  moreover have "safe (indirect_remove_tunnels E ts s) (keeps_upper s)"
    using Cons.prems by (intro Cons.IH) auto
  ultimately show ?case using tu s'(1) by simp
qed (simp add: keeps_upper_def)

lemma safe_indirect_remove_bearers:
  assumes E: "sgw_env_ok E"
  shows "sgw_inv s \<Longrightarrow> \<forall>b \<in> set bs. objs (bearers s) b \<noteq> None \<Longrightarrow> safe (indirect_remove_bearers E bs s) (keeps_upper s)"
proof (induction bs arbitrary: s)
  case (Cons b bs)
  obtain be where be: "objs (bearers s) b = Some be" using Cons.prems(2) by auto
  have ts: "\<forall>t \<in> set (tunnel_list be). objs (tunnels s) t \<noteq> None" "distinct (tunnel_list be)"
    using sgw_inv_bearer [OF Cons.prems(1) be] by auto
  have rest: "safe (indirect_remove_bearers E bs t) (keeps_upper s)" if t: "keeps_upper s t" for t
  proof (rule safe_mono [OF Cons.IH])
    show "sgw_inv t" "\<forall>b \<in> set bs. objs (bearers t) b \<noteq> None"
      using t Cons.prems(2) by (auto simp: keeps_upper_def domIff [symmetric] simp del: not_None_eq)
  qed (rule keeps_upper_trans [OF t])
  then show ?case
    using be by (auto intro: safe_mono [OF safe_indirect_remove_tunnels [OF E Cons.prems(1) ts]])
qed (simp add: keeps_upper_def)

lemma safe_indirect_remove_sessions:
  assumes E: "sgw_env_ok E"
  shows "sgw_inv s \<Longrightarrow> \<forall>x \<in> set xs. objs (sesss s) x \<noteq> None \<Longrightarrow> safe (indirect_remove_sessions E xs s) (keeps_upper s)"
proof (induction xs arbitrary: s)
  case (Cons x xs)
  obtain se where se: "objs (sesss s) x = Some se" using Cons.prems(2) by auto
  have bs: "\<forall>b \<in> set (bearer_list se). objs (bearers s) b \<noteq> None"
    using sgw_inv_sess [OF Cons.prems(1) se] by auto
  have "safe (indirect_remove_sessions E xs t) (keeps_upper s)" if t: "keeps_upper s t" for t
    using t Cons.prems(2) by (intro safe_mono [OF Cons.IH] keeps_upper_trans [OF t]) (auto simp: keeps_upper_def)
  then show ?case
    using se by (auto intro: safe_mono [OF safe_indirect_remove_bearers [OF E Cons.prems(1) bs]])
qed (simp add: keeps_upper_def)

lemma safe_delete_indirect_request:
  assumes E: "sgw_env_ok E" and inv: "sgw_inv s" and u: "objs (ues s) u \<noteq> None" and xa: "xacts s xa \<noteq> None"
  shows "safe (sgw_s11_handle_delete_indirect_data_forwarding_tunnel_request E xa u s) sgw_inv"
proof -
  obtain ue where ue: "objs (ues s) u = Some ue" using u by auto
  have xs: "\<forall>x \<in> set (sess_list ue). objs (sesss s) x \<noteq> None" using sgw_inv_ue [OF inv ue] by auto
  have "safe (sgw_send_answer E xa teid body t) sgw_inv" if "keeps_upper s t" for t teid body
    using that xa by (intro vc_last_answer [OF E]) (auto simp: keeps_upper_def)
  then show ?thesis
    using ue by (auto simp: sgw_s11_handle_delete_indirect_data_forwarding_tunnel_request_def
        intro: safe_mono [OF safe_indirect_remove_sessions [OF E inv xs]])
qed

end
