(* ===== verification/Sgw_System.thy ===== *)
theory Sgw_System
  imports Sgw_Handlers
begin

text \<open>
  The serving gateway as a whole: the user plane, the dispatch of an event, and the step relation of
  the gateway, whose steps are a received datagram, the next event of the queue and the expiry of a
  transaction's timer. The invariant holds in every state of a run.
\<close>

subsection \<open>The user plane\<close>

lemma sgw_inv_queue [simp]: "sgw_inv (s\<lparr>queue := q\<rparr>) = sgw_inv s" "sgw_inv (s\<lparr>replies := r\<rparr>) = sgw_inv s"
  by (simp_all add: sgw_inv_def ctx_inv_def ctx_defs gtp_inv_def peers_ok_def)

lemma grows_queue [simp]: "grows D s (t\<lparr>queue := q\<rparr>) = grows D s t"
  by (simp add: grows_def)

lemma safe_event_push: "sgw_inv s \<Longrightarrow> safe (sgw_event_push E e s) (grows {} s)"
  by (auto simp: sgw_event_push_def grows_refl)

text \<open>
  What the loop over the buffered packets does: the packets leave in the order of the buffer, each
  under the TEID of the tunnel, and their entries are freed.
\<close>

definition free_entries :: "nat list \<Rightarrow> 'p option list \<Rightarrow> 'p option list" where
  "free_entries ns pks = foldl (\<lambda>ps i. ps[i := None]) pks ns"

lemma free_entries_simps [simp]:
  "free_entries [] pks = pks" "free_entries (i # ns) pks = free_entries ns (pks[i := None])"
  by (simp_all add: free_entries_def)

lemma length_free_entries [simp]: "length (free_entries ns pks) = length pks"
  by (induction ns arbitrary: pks) auto

abbreviation with_teid :: "u32 \<Rightarrow> gtp_body packet option \<Rightarrow> gtp_body packet" where
  "with_teid teid p \<equiv> gtpu_set_teid teid (the p)"

lemma flush_each_ok:
  assumes g: "t_gnode tu = Some g" "gnodes s g = Some n" "gn_sock n \<noteq> None" "g \<noteq> 0"
  shows "distinct ns \<Longrightarrow> \<forall>i \<in> set ns. i < length pks \<and> pks ! i \<noteq> None \<Longrightarrow>
     flush_each E tu ns pks s
       = Inr (free_entries ns pks, s\<lparr>sent := sent s @ map (\<lambda>i. (g, with_teid (remote_teid tu) (pks ! i))) ns\<rparr>)"
  using g(2)
proof (induction ns arbitrary: pks s)
  case (Cons i js)
  obtain pk where pk: "i < length pks" "pks ! i = Some pk" using Cons.prems(2) by auto
  have eq: "map (\<lambda>k. (g, with_teid (remote_teid tu) (pks[i := None] ! k))) js
      = map (\<lambda>k. (g, with_teid (remote_teid tu) (pks ! k))) js"
    using Cons.prems(1) by (intro map_cong) (auto, metis nth_list_update_neq)
  let ?s = "s\<lparr>sent := sent s @ [(g, gtpu_set_teid (remote_teid tu) pk)]\<rparr>"
  have "\<forall>k \<in> set js. k < length (pks[i := None]) \<and> pks[i := None] ! k \<noteq> None"
    using Cons.prems(1,2) by (auto simp: nth_list_update)
  then have "flush_each E tu js (pks[i := None]) ?s
      = Inr (free_entries js (pks[i := None]), ?s\<lparr>sent := sent ?s @ map (\<lambda>k. (g, with_teid (remote_teid tu) (pks ! k))) js\<rparr>)"
    using Cons.IH [of "pks[i := None]" ?s] Cons.prems(1,3) eq by simp
  then show ?case
    using Cons.prems(3) pk g(1,3,4) by (simp add: tunnel_send_def ogs_gtp_sendto_def)
qed simp

lemma flush_each_fault:
  assumes "sgw_inv s" and "node_ok s (t_gnode tu)"
  shows "distinct ns \<Longrightarrow> \<forall>i \<in> set ns. i < length pks \<and> pks ! i \<noteq> None \<Longrightarrow>
     safe (flush_each E tu ns pks s) (\<lambda>(pks', t). length pks' = length pks \<and> grows {} s t \<and> objs (bearers t) = objs (bearers s))"
proof (cases ns)
  case (Cons i js)
  assume ns: "distinct ns" "\<forall>i \<in> set ns. i < length pks \<and> pks ! i \<noteq> None"
  show ?thesis
  proof (cases "\<exists>g n. t_gnode tu = Some g \<and> gnodes s g = Some n \<and> gn_sock n \<noteq> None \<and> g \<noteq> 0")
    case True
    then obtain g n where g: "t_gnode tu = Some g" "gnodes s g = Some n" "gn_sock n \<noteq> None" "g \<noteq> 0" by blast
    show ?thesis
      by (simp add: flush_each_ok [OF g ns] grows_sent [OF assms(1)])
  next
    case False
    then show ?thesis
      using assms(2) ns Cons by (auto simp: tunnel_send_def ogs_gtp_sendto_def)
  qed
qed (simp add: grows_refl assms)

lemma safe_tunnel_send_grows:
  assumes "sgw_inv s" and "objs (tunnels s) t = Some tu"
  shows "safe (tunnel_send E tu pk s) (\<lambda>(rv, t). grows {} s t)"
proof -
  have "node_ok s (t_gnode tu)" using sgw_inv_tunnel [OF assms] by blast
  from safe_tunnel_send [OF assms(1) this] show ?thesis
    by (rule safe_mono) (use grows_sent [OF assms(1)] in auto)
qed

lemma safe_forward:
  "sgw_inv s \<Longrightarrow> (\<And>t. r = Some t \<Longrightarrow> objs (tunnels s) t \<noteq> None) \<Longrightarrow> safe (forward E r pk s) sgw_inv"
  unfolding forward_def by (auto simp: case_prod_unfold grows_def intro!: safe_mono [OF safe_tunnel_send_grows])

lemma grows_buffer:
  assumes inv: "sgw_inv s" and b: "objs (bearers s) b = Some be" and be': "tunnel_list be' = tunnel_list be" "b_sess be' = b_sess be"
    "b_ue be' = b_ue be" "buffer_ok be'"
  shows "sgw_inv (set_bearer b be' s)"
  using grows_set_bearer [OF inv b be'] by (simp add: grows_def)

lemma safe_downlink_idle:
  assumes inv: "sgw_inv s" and b: "objs (bearers s) b = Some be"
  shows "safe (downlink_idle E b pk s) sgw_inv"
proof -
  obtain se ue where se: "objs (sesss s) (b_sess be) = Some se" and ue: "objs (ues s) (sess_ue se) = Some ue"
    and ok: "buffer_ok be"
    using sgw_inv_bearer [OF inv b] by auto
  have push: "safe (ebind (sgw_event_push E e s) (\<lambda>s. Inr (set_ue (sess_ue se) (SGW_SET_UE_STATE st ue) s)))
      (\<lambda>t. sgw_inv t \<and> objs (bearers t) = objs (bearers s))" for e st
  proof (rule vc_bind [OF safe_event_push [OF inv, THEN safe_conj, of E e "\<lambda>t. ues t = ues s \<and> bearers t = bearers s"]])
    show "safe (sgw_event_push E e s) (\<lambda>t. ues t = ues s \<and> bearers t = bearers s)"
      by (simp add: sgw_event_push_def)
    fix t assume t: "grows {} s t \<and> ues t = ues s \<and> bearers t = bearers s"
    then have ue': "objs (ues t) (sess_ue se) = Some ue" and inv': "sgw_inv t" using ue by (auto simp: grows_def)
    show "safe (Inr (set_ue (sess_ue se) (SGW_SET_UE_STATE st ue) t)) (\<lambda>t. sgw_inv t \<and> objs (bearers t) = objs (bearers s))"
      using grows_set_ue [OF inv' ue', of "SGW_SET_UE_STATE st ue" "{}"] sgw_inv_ue [OF inv' ue'] t by (simp add: grows_def)
  qed
  have store: "buffer_ok (be\<lparr>buffered_pkts := (buffered_pkts be)[num_buffered_pkt be := Some pk], num_buffered_pkt := num_buffered_pkt be + 1\<rparr>)"
    if "num_buffered_pkt be < MAX_NUM_OF_PACKET_BUFFER"
    using ok that by (auto simp: buffer_ok_def nth_list_update less_Suc_eq)
  have last: "safe (if num_buffered_pkt be < MAX_NUM_OF_PACKET_BUFFER then
         ebind (array_write (buffered_pkts be) (num_buffered_pkt be) (Some pk)) (\<lambda>pks.
         Inr (set_bearer b (be\<lparr>buffered_pkts := pks, num_buffered_pkt := num_buffered_pkt be + 1\<rparr>) t))
       else Inr t) sgw_inv" if "sgw_inv t" "objs (bearers t) = objs (bearers s)" for t
    using that b ok store by (auto intro!: grows_buffer [of t b be] simp: buffer_ok_def)
  have "safe (ebind (if c then ebind (sgw_event_push E e s) (\<lambda>s. Inr (set_ue (sess_ue se) (SGW_SET_UE_STATE st ue) s)) else Inr s)
      (\<lambda>t. if num_buffered_pkt be < MAX_NUM_OF_PACKET_BUFFER then
         ebind (array_write (buffered_pkts be) (num_buffered_pkt be) (Some pk)) (\<lambda>pks.
         Inr (set_bearer b (be\<lparr>buffered_pkts := pks, num_buffered_pkt := num_buffered_pkt be + 1\<rparr>) t))
       else Inr t)) sgw_inv" for c e st
    by (rule vc_bind_if, rule vc_bind [OF push], rule last) (use last [OF inv refl] in simp_all)
  moreover have "b_sess be \<noteq> 0" "sess_ue se \<noteq> 0"
    using sgw_inv_bearer [OF inv b] sgw_inv_sess [OF inv se] by auto
  ultimately show ?thesis
    using inv by (simp add: downlink_idle_def b se ue del: safe_ebind)
qed

lemma safe_downlink_active:
  assumes inv: "sgw_inv s" and b: "objs (bearers s) b = Some be" and tu: "objs (tunnels s) t = Some tu"
  shows "safe (downlink_active E b tu pk s) sgw_inv"
proof -
  have node: "node_ok s (t_gnode tu)" using sgw_inv_tunnel [OF inv tu] by blast
  have "safe (ebind (flush_each E tu [0..<num_buffered_pkt be] (buffered_pkts be) s) (\<lambda>(pks, s).
      let s = set_bearer b (be\<lparr>buffered_pkts := pks, num_buffered_pkt := 0\<rparr>) s in
      ebind (tunnel_send E tu pk' s) (\<lambda>(_, s). Inr s))) sgw_inv" for pk'
  proof (rule vc_bind2 [OF flush_each_fault [OF inv node]])
    show "\<forall>i \<in> set [0..<num_buffered_pkt be]. i < length (buffered_pkts be) \<and> buffered_pkts be ! i \<noteq> None"
      using sgw_inv_bearer [OF inv b] by (auto simp: buffer_ok_def)
    fix pks :: "gtp_body packet option list" and r
    assume r: "length pks = length (buffered_pkts be) \<and> grows {} s r \<and> objs (bearers r) = objs (bearers s)"
    let ?r = "set_bearer b (be\<lparr>buffered_pkts := pks, num_buffered_pkt := 0\<rparr>) r"
    have inv': "sgw_inv ?r"
      using r b sgw_inv_bearer [OF inv b] by (intro grows_buffer [where be = be]) (auto simp: grows_def buffer_ok_def)
    have "node_ok ?r (t_gnode tu)"
      using r node grows_live(2) [of "{}" s r] by auto
    from safe_tunnel_send [OF inv' this, of E pk']
    show "safe (let s = ?r in ebind (tunnel_send E tu pk' s) (\<lambda>(_, s). Inr s)) sgw_inv"
      using grows_sent [OF inv'] by (auto simp: grows_def elim!: safe_mono)
  qed simp
  then show ?thesis
    using b node unfolding downlink_active_def by (auto simp del: safe_ebind intro!: vc_deref vc_non_null vc_assert)
qed

lemma safe_downlink:
  assumes inv: "sgw_inv s" and b: "objs (bearers s) b = Some be"
  shows "safe (downlink E b pk s) sgw_inv"
  unfolding downlink_def sgw_s1u_tunnel_in_bearer_def
proof (rule vc_bind [OF safe_find_interface [OF inv]], use b in simp, rule vc_non_null)
  fix r t assume "\<forall>t. r = Some t \<longrightarrow> (\<exists>tu. objs (tunnels s) t = Some tu \<and> t_bearer tu = b
      \<and> interface_type tu = OGS_GTP_F_TEID_S1_U_SGW_GTP_U)" "r = Some t"
  then obtain tu where tu: "objs (tunnels s) t = Some tu" by auto
  then show "safe (ebind (get_tunnel s t) (\<lambda>tu. if remote_teid tu \<noteq> 0 then downlink_active E b tu pk s
     else downlink_idle E b pk s)) sgw_inv"
    using safe_downlink_active [OF inv b tu] safe_downlink_idle [OF inv b] by simp
qed

lemma safe_tunnel_deliver:
  assumes inv: "sgw_inv s" and t: "objs (tunnels s) t \<noteq> None"
  shows "safe (tunnel_deliver E t pk s) sgw_inv"
proof -
  obtain tu be where tu: "objs (tunnels s) t = Some tu" and be: "objs (bearers s) (t_bearer tu) = Some be"
    using t sgw_inv_tunnel [OF inv] by fastforce
  have fwd: "safe (ebind (sgw_tunnel_find_by_interface_type (t_bearer tu) iface s) (\<lambda>r. forward E r pk s)) sgw_inv" for iface
    by (rule vc_bind [OF safe_find_interface [OF inv]]) (use be in \<open>auto intro!: safe_forward [OF inv]\<close>)
  show ?thesis
    using tu safe_downlink [OF inv be] inv fwd unfolding tunnel_deliver_def
    by (auto simp: Let_def sgw_s5u_tunnel_in_bearer_def simp del: safe_ebind intro!: vc_assert)
qed

text \<open>
  A datagram of the user plane that holds all the header its flags announce. An empty one is
  dropped by the code; a shorter one is read past its end.
\<close>

lemma safe_echo_req: "12 \<le> length pkb \<Longrightarrow> safe (ogs_gtp_handle_echo_req pkb) (\<lambda>r. True)"
  by (auto simp: ogs_gtp_handle_echo_req_def Let_def)

lemma safe_gtpv1_u_recv_cb:
  assumes inv: "sgw_inv s" and len: "bytes = [] \<or> 12 \<le> length bytes"
  shows "safe (gtpv1_u_recv_cb E sender bytes s) sgw_inv"
proof (cases "bytes = []")
  case False
  then have len: "12 \<le> length bytes" using len by simp
  have "safe (case sgw_tunnel_find_by_teid teid s of None \<Rightarrow> Inr s | Some t \<Rightarrow> tunnel_deliver E t pk s) sgw_inv" for teid pk
    using safe_tunnel_deliver [OF inv] inv by (auto simp: sgw_tunnel_find_by_teid_def)
  moreover have "safe (ebind (ogs_gtp_handle_echo_req bytes) (\<lambda>r. case r of
      None \<Rightarrow> Inr s | Some rsp \<Rightarrow> Inr (s\<lparr>replies := replies s @ [(sender, rsp)]\<rparr>))) sgw_inv"
    by (rule vc_bind [OF safe_echo_req [OF len]]) (use inv in \<open>simp split: option.split\<close>)
  ultimately show ?thesis
    using False len inv by (simp add: gtpv1_u_recv_cb_def)
qed (simp add: gtpv1_u_recv_cb_def inv)

subsection \<open>Dispatch\<close>

text \<open>
  What the gateway relies on of a parsed message: a location element has an octet of flags, the
  array of bearer contexts of an indirect tunnel request has its eleven entries, one of them absent.
\<close>

fun body_ok :: "gtp_body \<Rightarrow> bool" where
  "body_ok (Create_Session_Request req) \<longleftrightarrow> csq_user_location_information req \<noteq> Some []"
| "body_ok (Modify_Bearer_Request req) \<longleftrightarrow> mbq_user_location_information req \<noteq> Some []"
| "body_ok (Create_Bearer_Response rsp) \<longleftrightarrow> cbp_user_location_information rsp \<noteq> Some []"
| "body_ok (Create_Indirect_Tunnel_Request reqs) \<longleftrightarrow> length reqs = GTP_MAX_NUM_OF_INDIRECT_TUNNEL \<and> None \<in> set reqs"
| "body_ok _ \<longleftrightarrow> True"

text \<open>
  And of a queued event: a new user's IMSI fits its array, the bearer of a notification is still
  live, and no free bearer has packets left over.
\<close>

fun event_ok :: "sgw_env \<Rightarrow> sgw_event \<Rightarrow> sgw_state \<Rightarrow> bool" where
  "event_ok E (SGW_EVT_S11_MESSAGE mo) s \<longleftrightarrow> clean_slots s \<and> (\<forall>m. mo = Some m \<longrightarrow> body_ok (m_body m) \<and>
     (m_teid m = 0 \<longrightarrow> (\<forall>bytes. csq_imsi (as_create_session_request E (m_body m)) = Some bytes \<longrightarrow> length bytes \<le> max_imsi_len E)))"
| "event_ok E (SGW_EVT_S5C_MESSAGE mo) s \<longleftrightarrow> clean_slots s \<and> (\<forall>m. mo = Some m \<longrightarrow> body_ok (m_body m))"
| "event_ok E (SGW_EVT_LO_DLDATA_NOTI b) s \<longleftrightarrow> objs (bearers s) b \<noteq> None"

lemma safe_s11_dispatch:
  assumes "sgw_env_ok E" "sgw_inv s" "clean_slots s" "objs (ues s) u \<noteq> None" "xacts s xa \<noteq> None" "body_ok body"
  shows "safe (s11_dispatch E xa u body s) sgw_inv"
  using assms
  by (cases body)
    (auto intro!: safe_create_session_request safe_plain_handlers safe_release_access_bearers_request safe_create_indirect_request
      safe_delete_indirect_request)

lemma safe_s5c_dispatch:
  assumes "sgw_env_ok E" "sgw_inv s" "clean_slots s" "objs (sesss s) x \<noteq> None" "xacts s xa \<noteq> None"
  shows "safe (s5c_dispatch E xa x body s) sgw_inv"
proof -
  obtain u where u: "objs (ues s) u \<noteq> None" using assms(2,4) sgw_inv_sess by fastforce
  note plain = safe_plain_handlers [OF assms(1,2) u assms(5)]
  show ?thesis
    using assms by (cases body) (auto intro!: plain safe_delete_session_response)
qed

text \<open>The transaction of a received message; every object stays where it is.\<close>

lemma receive_bearers: "gtp_keeps D s t \<Longrightarrow> bearers t = bearers (s :: sgw_state)"
  by (rule more_eq(3)) (simp add: gtp_keeps_def)

lemma safe_sgw_receive:
  assumes E: "sgw_env_ok E" and inv: "sgw_inv s" and g: "node_ok s g"
  shows "safe (ogs_gtp_xact_receive E (ptr g) ty sqn s) (\<lambda>(rv, x, t). grows {} s t \<and> bearers t = bearers s \<and> xacts t x \<noteq> None)"
proof (cases g)
  case None
  then show ?thesis by (simp add: ptr_def ogs_gtp_xact_receive_def ogs_gtp_xact_find_by_xid_def)
next
  case (Some h)
  have "safe (ogs_gtp_xact_receive E h ty sqn s) (\<lambda>(rv, x, t). gtp_keeps {} s t \<and> xacts t x \<noteq> None)"
    using g Some by (intro safe_receive [OF sgw_env_okD(1) [OF E] sgw_invD(1) [OF inv]]) simp
  then show ?thesis
    unfolding Some ptr_def option.case
    by (rule safe_mono) (use grows_gtp [OF inv] receive_bearers in fastforce)
qed

lemma clean_slots_bearers: "bearers t = bearers s \<Longrightarrow> clean_slots t = clean_slots s"
  by (simp add: clean_slots_def)

text \<open>
  The user of a message on S11. A new user is live only after its node was set: until then it keeps
  the pointer its slot held.
\<close>

lemma ue_list_commute: "s\<lparr>sgw_ue_list := l, ues := p\<rparr> = s\<lparr>ues := p, sgw_ue_list := l\<rparr>"
  by simp

lemma safe_s11_new_ue:
  assumes E: "sgw_env_ok E" and inv: "sgw_inv s" and g: "gnodes s g \<noteq> None" and len: "length bytes \<le> max_imsi_len E"
  shows "safe (ebind (sgw_ue_add E bytes s) (\<lambda>(u, s). ebind (get_ue s u) (\<lambda>ue. Inr (Some u, set_ue u (ue\<lparr>ue_gnode := Some g\<rparr>) s))))
     (\<lambda>(r, t). sgw_inv t \<and> bearers t = bearers s \<and> (\<forall>u. r = Some u \<longrightarrow> objs (ues t) u \<noteq> None))"
proof (rule vc_bind2 [OF ue_add_spec [OF E len]], elim conjE exE)
  fix u t p ue assume u: "u \<noteq> 0" "objs (ues s) u = None" and t: "t = s\<lparr>ues := p, sgw_ue_list := sgw_ue_list s @ [u]\<rparr>"
    and p: "objs p = (objs (ues s))(u \<mapsto> ue)" and ue: "sgw_s11_teid ue = u" "sess_list ue = []"
  have "sgw_inv (s\<lparr>ues := pool_set u (ue\<lparr>ue_gnode := Some g\<rparr>) p, sgw_ue_list := sgw_ue_list s @ [u]\<rparr>)"
    using p ue g by (intro sgw_inv_ue_added [OF inv u, of _ "ue\<lparr>ue_gnode := Some g\<rparr>"]) auto
  then show "safe (ebind (get_ue t u) (\<lambda>ue. Inr (Some u, set_ue u (ue\<lparr>ue_gnode := Some g\<rparr>) t)))
     (\<lambda>(r, t). sgw_inv t \<and> bearers t = bearers s \<and> (\<forall>u. r = Some u \<longrightarrow> objs (ues t) u \<noteq> None))"
    using p by (simp add: t set_ue_def ue_list_commute)
qed

lemma safe_s11_ue:
  assumes E: "sgw_env_ok E" and inv: "sgw_inv s"
    and len: "m_teid m = 0 \<longrightarrow> (\<forall>bytes. csq_imsi (as_create_session_request E (m_body m)) = Some bytes \<longrightarrow> length bytes \<le> max_imsi_len E)"
  shows "safe (s11_ue E m s) (\<lambda>(r, t). sgw_inv t \<and> bearers t = bearers s \<and> (\<forall>u. r = Some u \<longrightarrow> objs (ues t) u \<noteq> None))"
proof (cases "m_teid m = 0")
  case False
  then show ?thesis using inv by (simp add: s11_ue_def sgw_ue_find_by_teid_def)
next
  case True
  have "safe (ebind (sgw_mme_add_by_message E (m_body m) s) (\<lambda>(mme, s).
        ebind (non_null mme) (\<lambda>mme.
        ebind (sgw_ue_add_by_message E (m_body m) s) (\<lambda>(u, s).
        ebind (non_null u) (\<lambda>u.
        ebind (get_ue s u) (\<lambda>ue.
        Inr (Some u, set_ue u (ue\<lparr>ue_gnode := Some mme\<rparr>) s)))))))
     (\<lambda>(r, t). sgw_inv t \<and> bearers t = bearers s \<and> (\<forall>u. r = Some u \<longrightarrow> objs (ues t) u \<noteq> None))"
  proof (rule vc_bind2 [OF setup_grows(4) [OF E inv]], rule vc_non_null)
    fix r t g assume t: "grows {} s t \<and> bearers t = bearers s \<and> node_ok t r" and r: "r = Some g"
    have g: "sgw_inv t" "gnodes t g \<noteq> None" using t r by (auto simp: grows_def)
    note new = safe_s11_new_ue [OF E g]
    show "safe (ebind (sgw_ue_add_by_message E (m_body m) t) (\<lambda>(u, s). ebind (non_null u) (\<lambda>u. ebind (get_ue s u) (\<lambda>ue.
        Inr (Some u, set_ue u (ue\<lparr>ue_gnode := Some g\<rparr>) s)))))
     (\<lambda>(r, t). sgw_inv t \<and> bearers t = bearers s \<and> (\<forall>u. r = Some u \<longrightarrow> objs (ues t) u \<noteq> None))"
    proof (cases "csq_imsi (as_create_session_request E (m_body m))")
      case (Some bytes)
      then have "length bytes \<le> max_imsi_len E" using len True by blast
      from new [OF this] show ?thesis
        using Some t by (simp add: sgw_ue_add_by_message_def case_prod_unfold)
    qed (simp add: sgw_ue_add_by_message_def)
  qed
  then show ?thesis using True by (simp add: s11_ue_def del: safe_ebind)
qed

theorem safe_sgw_state_operational:
  assumes E: "sgw_env_ok E" and inv: "sgw_inv s" and ev: "event_ok E e s"
  shows "safe (sgw_state_operational E e s) sgw_inv"
proof (cases e)
  case (SGW_EVT_S11_MESSAGE mo)
  show ?thesis
    unfolding SGW_EVT_S11_MESSAGE sgw_state_operational.simps
  proof (rule vc_non_null, rule vc_bind2 [OF safe_s11_ue [OF E inv]], use ev SGW_EVT_S11_MESSAGE in simp, rule vc_non_null)
    fix m r t u assume m: "mo = Some m" and t: "sgw_inv t \<and> bearers t = bearers s \<and> (\<forall>u. r = Some u \<longrightarrow> objs (ues t) u \<noteq> None)"
      and r: "r = Some u"
    obtain ue where ue: "objs (ues t) u = Some ue" using t r by auto
    have "node_ok t (ue_gnode ue)" using sgw_inv_ue [OF _ ue] t by blast
    then have rcv: "safe (ogs_gtp_xact_receive E (ptr (ue_gnode ue)) (body_type (m_body m)) (m_sqn m) t)
        (\<lambda>(rv, x, t'). grows {} t t' \<and> bearers t' = bearers t \<and> xacts t' x \<noteq> None)"
      using t by (intro safe_sgw_receive [OF E]) auto
    have "safe (ogs_gtp_xact_receive E (ptr (ue_gnode ue)) (body_type (m_body m)) (m_sqn m) t) (\<lambda>(rv, x, t').
        safe (if rv \<noteq> OGS_OK then Inr t' else s11_dispatch E x u (m_body m) t') sgw_inv)"
    proof (rule safe_mono [OF rcv])
      fix a :: "rv \<times> index \<times> sgw_state" assume "case a of (rv, x, t') \<Rightarrow> grows {} t t' \<and> bearers t' = bearers t \<and> xacts t' x \<noteq> None"
      then obtain rv x t' where a: "a = (rv, x, t')" and t': "grows {} t t'" "bearers t' = bearers t" "xacts t' x \<noteq> None"
        by (cases a) auto
      have "sgw_inv t'" "objs (ues t') u \<noteq> None" "clean_slots t'"
        using grows_live(1,4) [OF t'(1)] t r t'(2) ev SGW_EVT_S11_MESSAGE by (simp_all add: clean_slots_bearers [of t' s])
      then show "case a of (rv, x, t') \<Rightarrow> safe (if rv \<noteq> OGS_OK then Inr t' else s11_dispatch E x u (m_body m) t') sgw_inv"
        using a t'(3) safe_s11_dispatch [OF E] ev m SGW_EVT_S11_MESSAGE by simp
    qed
    then show "safe (ebind (get_ue t u) (\<lambda>ue.
       ebind (ogs_gtp_xact_receive E (ptr (ue_gnode ue)) (body_type (m_body m)) (m_sqn m) t) (\<lambda>(rv, x, s).
       if rv \<noteq> OGS_OK then Inr s else s11_dispatch E x u (m_body m) s))) sgw_inv"
      using ue by (simp add: case_prod_unfold)
  qed
next
  case (SGW_EVT_S5C_MESSAGE mo)
  show ?thesis
    unfolding SGW_EVT_S5C_MESSAGE sgw_state_operational.simps
  proof (rule vc_non_null, rule vc_non_null)
    fix m x assume m: "mo = Some m" and x: "sgw_sess_find_by_teid (m_teid m) s = Some x"
    obtain se where se: "objs (sesss s) x = Some se" using x by (auto simp: sgw_sess_find_by_teid_def Let_def split: if_splits)
    have "node_ok s (sess_gnode se)" using sgw_inv_sess [OF inv se] by blast
    note rcv = safe_sgw_receive [OF E inv this, of "body_type (m_body m)" "m_sqn m"]
    have "safe (ogs_gtp_xact_receive E (ptr (sess_gnode se)) (body_type (m_body m)) (m_sqn m) s) (\<lambda>(rv, xa, t').
        safe (if rv \<noteq> OGS_OK then Inr t' else s5c_dispatch E xa x (m_body m) t') sgw_inv)"
    proof (rule safe_mono [OF rcv])
      fix a :: "rv \<times> index \<times> sgw_state" assume "case a of (rv, xa, t') \<Rightarrow> grows {} s t' \<and> bearers t' = bearers s \<and> xacts t' xa \<noteq> None"
      then obtain rv xa t' where a: "a = (rv, xa, t')" and t': "grows {} s t'" "bearers t' = bearers s" "xacts t' xa \<noteq> None"
        by (cases a) auto
      have "sgw_inv t'" "objs (sesss t') x \<noteq> None" "clean_slots t'"
        using grows_live(1,5) [OF t'(1)] se t'(2) ev SGW_EVT_S5C_MESSAGE by (simp_all add: clean_slots_bearers [of t' s])
      then show "case a of (rv, xa, t') \<Rightarrow> safe (if rv \<noteq> OGS_OK then Inr t' else s5c_dispatch E xa x (m_body m) t') sgw_inv"
        using a t'(3) safe_s5c_dispatch [OF E] by simp
    qed
    then show "safe (ebind (get_sess s x) (\<lambda>se.
       ebind (ogs_gtp_xact_receive E (ptr (sess_gnode se)) (body_type (m_body m)) (m_sqn m) s) (\<lambda>(rv, xa, s).
       if rv \<noteq> OGS_OK then Inr s else s5c_dispatch E xa x (m_body m) s))) sgw_inv"
      using se by (simp add: case_prod_unfold)
  qed
next
  case (SGW_EVT_LO_DLDATA_NOTI b)
  then show ?thesis
    using ev safe_lo_dldata_notification [OF E inv] by simp
qed

subsection \<open>Runs of the gateway\<close>

text \<open>
  The inputs of the gateway: a datagram on the user plane, a datagram on the control plane with what
  parsing it yields, the next event of the queue, the expiry of a response or a holding timer.
\<close>

datatype sgw_input =
    User_Datagram ogs_sockaddr "u8 list"
  | Control_Datagram bool u32 "gtp_message option"
  | Next_Event
  | Response_Expiry index
  | Holding_Expiry index

fun sgw_exec :: "sgw_env \<Rightarrow> sgw_input \<Rightarrow> sgw_state \<Rightarrow> sgw_state res" where
  "sgw_exec E (User_Datagram sender bytes) s = gtpv1_u_recv_cb E sender bytes s"
| "sgw_exec E (Control_Datagram presence teid m) s = gtpv2_c_recv_cb E presence teid m s"
| "sgw_exec E Next_Event s = sgw_main_pop E s"
| "sgw_exec E (Response_Expiry x) s = fire_response E x s"
| "sgw_exec E (Holding_Expiry x) s = fire_holding E x s"

fun input_ok :: "sgw_env \<Rightarrow> sgw_input \<Rightarrow> sgw_state \<Rightarrow> bool" where
  "input_ok E (User_Datagram sender bytes) s \<longleftrightarrow> bytes = [] \<or> 12 \<le> length bytes"
| "input_ok E Next_Event s \<longleftrightarrow> (case queue s of [] \<Rightarrow> True | e # es \<Rightarrow> event_ok E e s)"
| "input_ok E _ s \<longleftrightarrow> True"

lemma event_ok_queue [simp]: "event_ok E e (s\<lparr>queue := q\<rparr>) = event_ok E e s"
  by (cases e) (simp_all add: clean_slots_def)

lemma safe_sgw_exec:
  assumes E: "sgw_env_ok E" and inv: "sgw_inv s" and ok: "input_ok E i s"
  shows "safe (sgw_exec E i s) sgw_inv"
proof (cases i)
  case (User_Datagram sender bytes)
  then show ?thesis using safe_gtpv1_u_recv_cb [OF inv] ok by simp
next
  case (Control_Datagram presence teid m)
  have "safe (sgw_event_push E e s) sgw_inv" for e
    by (rule safe_mono [OF safe_event_push [OF inv]]) (simp add: grows_def)
  then show ?thesis using Control_Datagram by (simp add: gtpv2_c_recv_cb_def)
next
  case Next_Event
  then show ?thesis
    using safe_sgw_state_operational [OF E] inv ok by (auto simp: sgw_main_pop_def split: list.splits)
next
  case (Response_Expiry x)
  then show ?thesis
    using safe_fire_response [OF sgw_env_okD(1) [OF E] sgw_invD(1) [OF inv], of x] grows_gtp [OF inv]
    by (auto simp: grows_def elim!: safe_mono)
next
  case (Holding_Expiry x)
  then show ?thesis
    using safe_fire_holding [OF sgw_env_okD(1) [OF E] sgw_invD(1) [OF inv], of x] grows_gtp [OF inv]
    by (auto simp: grows_def elim!: safe_mono)
qed

text \<open>The gateway after its sockets were opened: no peer, no transaction, no context, no event.\<close>

definition sgw_init :: "sgw_state \<Rightarrow> bool" where
  "sgw_init s \<longleftrightarrow> gnodes s = Map.empty \<and> xacts s = Map.empty \<and> objs (ues s) = Map.empty \<and> objs (sesss s) = Map.empty
     \<and> objs (bearers s) = Map.empty \<and> objs (tunnels s) = Map.empty \<and> sgw_ue_list s = [] \<and> mme_s11_list s = []
     \<and> pgw_s5c_list s = [] \<and> enb_s1u_list s = [] \<and> pgw_s5u_list s = [] \<and> queue s = []"

inductive sgw_step :: "sgw_state \<Rightarrow> sgw_state \<Rightarrow> bool" where
  sgw_stepI: "sgw_env_ok E \<Longrightarrow> input_ok E i s \<Longrightarrow> sgw_exec E i s = Inr t \<Longrightarrow> sgw_step s t"

inductive_cases sgw_stepE: "sgw_step s t"

lemma sgw_init_inv: "sgw_init s \<Longrightarrow> sgw_inv s"
  by (simp add: sgw_init_def sgw_inv_def ctx_inv_def ctx_defs gtp_inv_def xact_inv_def owns_def peers_ok_def)

interpretation sgw_runs: invariant_system sgw_init sgw_step sgw_inv
proof unfold_locales
  show "sgw_init s \<Longrightarrow> sgw_inv s" for s by (rule sgw_init_inv)
  show "sgw_inv s \<Longrightarrow> sgw_step s t \<Longrightarrow> sgw_inv t" for s t
    by (elim sgw_stepE) (metis safe_sgw_exec safeD)
qed

end
