(* ===== verification/Sgw_Demo.thy ===== *)
theory Sgw_Demo
  imports Sgw_System Gtp_Props
begin

text \<open>
  A gateway with one user, one session with its default bearer, and three peers: the instance the
  properties of the serving gateway are evaluated on.
\<close>

subsection \<open>Environment\<close>

definition demo_env :: sgw_env where
  "demo_env = gnode_env.extend small_env \<lparr>ue_pick = pick4, sess_pick = pick4, bearer_pick = pick4, tunnel_pick = pick4,
     max_ue = 4, max_tunnel = 4, max_imsi_len = 8, max_apn_len = 100,
     buffer_to_bcd = (\<lambda>bs. map (char_of :: nat \<Rightarrow> char) (map unat bs)), fqdn_parse = (\<lambda>bs. map (char_of :: nat \<Rightarrow> char) (map unat bs)),
     no_ipv4 = False, no_ipv6 = False, prefer_ipv4 = False, build_ok = (\<lambda>_. True),
     event_new_ok = (\<lambda>q. length q < 8), queue_push_ok = (\<lambda>q. length q < 8),
     union_view = (\<lambda>_. \<lparr>csq_imsi = None, csq_access_point_name = None, csq_sender_f_teid = None, csq_pgw_address = None,
       csq_user_location_information = None, csq_bearer_contexts = None, csq_rest = []\<rparr>),
     raw_bytes = (\<lambda>n. replicate n 0)\<rparr>"

lemma demo_env_sel [simp]:
  "ue_pick demo_env = pick4" "sess_pick demo_env = pick4" "bearer_pick demo_env = pick4" "tunnel_pick demo_env = pick4"
  "max_ue demo_env = 4" "max_tunnel demo_env = 4" "max_imsi_len demo_env = 8" "max_apn_len demo_env = 100"
  "build_ok demo_env = (\<lambda>_. True)" "event_new_ok demo_env = (\<lambda>q. length q < 8)" "queue_push_ok demo_env = (\<lambda>q. length q < 8)"
  "raw_bytes demo_env = (\<lambda>n. replicate n 0)" "xact_alloc demo_env = pool4" "node_alloc demo_env = pool4"
  "timer_add demo_env = (\<lambda>k i. Some None)" "list_add demo_env = (\<lambda>xs x. xs @ [x])" "list_remove demo_env = (\<lambda>xs x. remove1 x xs)"
  "sendto_ok demo_env = (\<lambda>_ _. True)" "next_id demo_env = (\<lambda>i mn mx. if i = mx then mn else i + 1)"
  "filter_ip_version demo_env = (\<lambda>addr _ _ _. addr)" "fill_scope_id demo_env = Some" "body_len demo_env = (\<lambda>_. 0)"
  by (simp_all add: demo_env_def gnode_env.extend_def small_env_def)

lemma demo_env_ok [simp]: "sgw_env_ok demo_env"
  by (simp add: sgw_env_ok_def pick4_ok gtp_env_ok_def pool4_free)

subsection \<open>State\<close>

text \<open>
  Node 1 is the MME, node 2 the packet gateway, node 3 the base station. The arguments are the state
  flags of the user, the TEID of the base station and the packets that wait for it.
\<close>

definition demo_ue :: "u32 \<Rightarrow> sgw_ue" where
  "demo_ue st = \<lparr>sgw_s11_teid = 1, mme_s11_teid = 17, imsi = [0x21, 0x43], imsi_len = 2, imsi_bcd = ''1234'', ue_state = st,
     sess_list = [1], ue_gnode = Some 1\<rparr>"

definition demo_sess :: sgw_sess where
  "demo_sess = \<lparr>sgw_s5c_teid = 0x80000001, pgw_s5c_teid = 34, apn = ''internet'', bearer_list = [1], sess_gnode = Some 2,
     sess_ue = 1\<rparr>"

definition demo_bearer :: "gtp_body packet list \<Rightarrow> sgw_bearer" where
  "demo_bearer pks = \<lparr>ebi = 5, b_tai = \<lparr>tai_plmn_id = [0, 1, 2], tac = 3\<rparr>, b_e_cgi = \<lparr>e_cgi_plmn_id = [0, 1, 2], cell_id = 4\<rparr>,
     num_buffered_pkt = length pks,
     buffered_pkts = map Some pks @ replicate (MAX_NUM_OF_PACKET_BUFFER - length pks) None,
     tunnel_list = [1, 2], b_sess = 1, b_ue = 1\<rparr>"

definition demo_s1u :: "u32 \<Rightarrow> sgw_tunnel" where
  "demo_s1u teid = \<lparr>interface_type = OGS_GTP_F_TEID_S1_U_SGW_GTP_U, local_teid = 1, remote_teid = teid, t_bearer = 1, t_gnode = Some 3\<rparr>"

definition demo_s5u :: sgw_tunnel where
  "demo_s5u = \<lparr>interface_type = OGS_GTP_F_TEID_S5_S8_SGW_GTP_U, local_teid = 2, remote_teid = 68, t_bearer = 1, t_gnode = Some 2\<rparr>"

definition demo_state :: "u32 \<Rightarrow> u32 \<Rightarrow> gtp_body packet list \<Rightarrow> sgw_state" where
  "demo_state st teid pks = gtp_state.extend (empty_state\<lparr>gnodes := [1 \<mapsto> peer_node, 2 \<mapsto> peer_node, 3 \<mapsto> peer_node]\<rparr>)
     \<lparr>ues = \<lparr>pool_mem = (\<lambda>_. demo_ue st), pool_live = {1}\<rparr>,
      sesss = \<lparr>pool_mem = (\<lambda>_. demo_sess), pool_live = {1}\<rparr>,
      bearers = \<lparr>pool_mem = (\<lambda>i. if i = 1 then demo_bearer pks else demo_bearer []), pool_live = {1}\<rparr>,
      tunnels = \<lparr>pool_mem = (\<lambda>i. if i = 1 then demo_s1u teid else demo_s5u), pool_live = {1, 2}\<rparr>,
      sgw_ue_list = [1], mme_s11_list = [1], pgw_s5c_list = [2], enb_s1u_list = [3], pgw_s5u_list = [2],
      gtpc_port = 2123, gtpu_port = 2152, gtpc_sock = Some 1, gtpc_sock6 = None,
      gtpc_addr = Some \<lparr>sa_family = AF_INET, sin_port = 0x4B08, sin_addr = [127, 0, 0, 2]\<rparr>, gtpc_addr6 = None,
      gtpu_sock = Some 2, gtpu_sock6 = None,
      gtpu_addr = Some \<lparr>sa_family = AF_INET, sin_port = 0x6808, sin_addr = [127, 0, 0, 2]\<rparr>, gtpu_addr6 = None,
      queue = [], replies = []\<rparr>"

lemma demo_state_sel [simp]:
  "gnodes (demo_state st teid pks) = [1 \<mapsto> peer_node, 2 \<mapsto> peer_node, 3 \<mapsto> peer_node]" "xacts (demo_state st teid pks) = Map.empty"
  "sent (demo_state st teid pks) = []" "g_xact_id (demo_state st teid pks) = 0"
  "objs (ues (demo_state st teid pks)) = [1 \<mapsto> demo_ue st]" "objs (sesss (demo_state st teid pks)) = [1 \<mapsto> demo_sess]"
  "objs (bearers (demo_state st teid pks)) = [1 \<mapsto> demo_bearer pks]"
  "objs (tunnels (demo_state st teid pks)) = [1 \<mapsto> demo_s1u teid, 2 \<mapsto> demo_s5u]"
  "sgw_ue_list (demo_state st teid pks) = [1]" "mme_s11_list (demo_state st teid pks) = [1]" "pgw_s5c_list (demo_state st teid pks) = [2]"
  "enb_s1u_list (demo_state st teid pks) = [3]" "pgw_s5u_list (demo_state st teid pks) = [2]" "queue (demo_state st teid pks) = []"
  "pool_live (ues (demo_state st teid pks)) = {1}" "pool_live (sesss (demo_state st teid pks)) = {1}"
  "pool_live (bearers (demo_state st teid pks)) = {1}" "pool_live (tunnels (demo_state st teid pks)) = {1, 2}"
  by (auto simp: demo_state_def gtp_state.extend_def empty_state_def objs_def fun_eq_iff)

lemma demo_sel [simp]:
  "sgw_s11_teid (demo_ue st) = 1" "mme_s11_teid (demo_ue st) = 17" "ue_state (demo_ue st) = st" "sess_list (demo_ue st) = [1]"
  "ue_gnode (demo_ue st) = Some 1" "sgw_s5c_teid demo_sess = 0x80000001" "pgw_s5c_teid demo_sess = 34" "bearer_list demo_sess = [1]"
  "sess_gnode demo_sess = Some 2" "sess_ue demo_sess = 1" "ebi (demo_bearer pks) = 5" "num_buffered_pkt (demo_bearer pks) = length pks"
  "tunnel_list (demo_bearer pks) = [1, 2]" "b_sess (demo_bearer pks) = 1" "b_ue (demo_bearer pks) = 1"
  "interface_type (demo_s1u teid) = 1" "local_teid (demo_s1u teid) = 1" "remote_teid (demo_s1u teid) = teid" "t_bearer (demo_s1u teid) = 1"
  "t_gnode (demo_s1u teid) = Some 3" "interface_type demo_s5u = 4" "local_teid demo_s5u = 2" "remote_teid demo_s5u = 68"
  "t_bearer demo_s5u = 1" "t_gnode demo_s5u = Some 2"
  by (simp_all add: demo_ue_def demo_sess_def demo_bearer_def demo_s1u_def demo_s5u_def)

lemma demo_buffer: "length pks \<le> MAX_NUM_OF_PACKET_BUFFER \<Longrightarrow> buffer_ok (demo_bearer pks)"
  by (auto simp: buffer_ok_def demo_bearer_def nth_append)

lemma demo_gtp_inv: "gtp_inv (demo_state st teid pks)"
  by (auto simp: gtp_inv_def xact_inv_def org_list_def split: if_splits originator.splits)

lemma demo_inv [simp]: "length pks \<le> MAX_NUM_OF_PACKET_BUFFER \<Longrightarrow> sgw_inv (demo_state st teid pks)"
  using demo_gtp_inv [of st teid pks] demo_buffer [of pks]
  by (auto simp: sgw_inv_def ctx_inv_def ctx_defs owns_def peers_ok_def SGW_S5C_INDEX_TO_TEID_def split: if_splits)

lemma demo_clean [simp]: "clean_slots (demo_state st teid pks)"
  by (auto simp: clean_slots_def) (auto simp: demo_state_def gtp_state.extend_def demo_bearer_def)

lemma demo_s1u_found [simp]: "sgw_s1u_tunnel_in_bearer 1 (demo_state st teid pks) = Inr (Some 1)"
  by (simp add: sgw_s1u_tunnel_in_bearer_def sgw_tunnel_find_by_interface_type_def)

lemma demo_s5u_found [simp]: "sgw_s5u_tunnel_in_bearer 1 (demo_state st teid pks) = Inr (Some 2)"
  by (simp add: sgw_s5u_tunnel_in_bearer_def sgw_tunnel_find_by_interface_type_def)

end
