(* ===== verification/Sgw_User.thy ===== *)
theory Sgw_User
  imports Sgw_Demo
begin

text \<open>
  What the user plane of the serving gateway does with a packet: uplink and indirect forwarding, the
  packet buffer of an idle bearer as a bounded queue, and the notification of the MME.
\<close>

subsection \<open>Bounded queues\<close>

text \<open>
  The contract of a queue of limited capacity that drops what does not fit: \<open>put\<close> appends where
  there is room, \<open>clear\<close> empties.
\<close>

locale bounded_queue =
  fixes wf :: "'q \<Rightarrow> bool" and content :: "'q \<Rightarrow> 'p list" and cap :: nat
    and put :: "'p \<Rightarrow> 'q \<Rightarrow> 'q" and clear :: "'q \<Rightarrow> 'q"
  assumes wf_put: "wf q \<Longrightarrow> length (content q) < cap \<Longrightarrow> wf (put p q)"
    and content_put: "wf q \<Longrightarrow> length (content q) < cap \<Longrightarrow> content (put p q) = content q @ [p]"
    and wf_clear: "wf q \<Longrightarrow> wf (clear q)"
    and content_clear: "wf q \<Longrightarrow> content (clear q) = []"
    and content_cap: "wf q \<Longrightarrow> length (content q) \<le> cap"
begin

definition offer :: "'p \<Rightarrow> 'q \<Rightarrow> 'q" where
  "offer p q = (if length (content q) < cap then put p q else q)"

lemma wf_offer: "wf q \<Longrightarrow> wf (offer p q)"
  by (simp add: offer_def wf_put)

lemma content_offer: "wf q \<Longrightarrow> content (offer p q) = take cap (content q @ [p])"
  using content_cap [of q] by (auto simp: offer_def content_put)

lemma wf_offers: "wf q \<Longrightarrow> wf (fold offer ps q)"
  by (induction ps arbitrary: q) (simp_all add: wf_offer)

lemma content_offers: "wf q \<Longrightarrow> content (fold offer ps q) = take cap (content q @ ps)"
proof (induction ps arbitrary: q)
  case Nil
  then show ?case using content_cap by simp
next
  case (Cons p ps)
  then have "content (fold offer (p # ps) q) = take cap (take cap (content q @ [p]) @ ps)"
    by (simp add: wf_offer content_offer)
  also have "\<dots> = take cap (content q @ p # ps)"
    using content_cap [OF Cons.prems] by (cases "length (content q) < cap") auto
  finally show ?case .
qed

end

subsection \<open>The packet buffer of a bearer\<close>

definition pending :: "sgw_bearer \<Rightarrow> gtp_body packet list" where
  "pending be = map the (take (num_buffered_pkt be) (buffered_pkts be))"

definition buffer_put :: "gtp_body packet \<Rightarrow> sgw_bearer \<Rightarrow> sgw_bearer" where
  "buffer_put pk be = be\<lparr>buffered_pkts := (buffered_pkts be)[num_buffered_pkt be := Some pk], num_buffered_pkt := num_buffered_pkt be + 1\<rparr>"

definition buffer_flush :: "sgw_bearer \<Rightarrow> sgw_bearer" where
  "buffer_flush be = be\<lparr>buffered_pkts := free_entries [0..<num_buffered_pkt be] (buffered_pkts be), num_buffered_pkt := 0\<rparr>"

lemma length_pending: "buffer_ok be \<Longrightarrow> length (pending be) = num_buffered_pkt be"
  by (simp add: pending_def buffer_ok_def)

interpretation packet_buffer: bounded_queue buffer_ok pending MAX_NUM_OF_PACKET_BUFFER buffer_put buffer_flush
proof unfold_locales
  fix be pk assume be: "buffer_ok be" and room: "length (pending be) < MAX_NUM_OF_PACKET_BUFFER"
  then have n: "num_buffered_pkt be < length (buffered_pkts be)" by (simp add: length_pending buffer_ok_def)
  then show "buffer_ok (buffer_put pk be)"
    using be by (auto simp: buffer_put_def buffer_ok_def nth_list_update less_Suc_eq)
  show "pending (buffer_put pk be) = pending be @ [pk]"
    using n by (simp add: pending_def buffer_put_def take_Suc_conv_app_nth)
next
  fix be assume be: "buffer_ok be"
  then show "buffer_ok (buffer_flush be)" by (simp add: buffer_flush_def buffer_ok_def)
  show "pending (buffer_flush be) = []" by (simp add: buffer_flush_def pending_def)
  show "length (pending be) \<le> MAX_NUM_OF_PACKET_BUFFER" using be by (simp add: length_pending) (simp add: buffer_ok_def)
qed

subsection \<open>A packet for a bearer without a path\<close>

text \<open>What such a packet leaves behind: the notification of the MME, unless it was sent, and the packet itself.\<close>

definition dl_notified :: "sgw_env \<Rightarrow> index \<Rightarrow> index \<Rightarrow> sgw_ue \<Rightarrow> sgw_state \<Rightarrow> sgw_state" where
  "dl_notified E b u ue s =
     (if ue_state ue AND SGW_DL_NOTI_SENT = 0
      then set_ue u (SGW_SET_UE_STATE SGW_DL_NOTI_SENT ue)
        (if queue_push_ok E (queue s) then s\<lparr>queue := queue s @ [SGW_EVT_LO_DLDATA_NOTI b]\<rparr> else s)
      else s)"

lemma dl_notified_sel [simp]:
  "bearers (dl_notified E b u ue s) = bearers s" "sent (dl_notified E b u ue s) = sent s" "sesss (dl_notified E b u ue s) = sesss s"
  "tunnels (dl_notified E b u ue s) = tunnels s" "gnodes (dl_notified E b u ue s) = gnodes s"
  by (simp_all add: dl_notified_def set_ue_def)

lemma downlink_idle_eq:
  assumes inv: "sgw_inv s" and b: "objs (bearers s) b = Some be" and ue: "objs (ues s) (b_ue be) = Some ue"
    and idle: "ue_state ue AND SGW_S1U_INACTIVE \<noteq> 0" and ev: "ue_state ue AND SGW_DL_NOTI_SENT = 0 \<longrightarrow> event_new_ok E (queue s)"
  shows "downlink_idle E b pk s = Inr (set_bearer b (packet_buffer.offer pk be) (dl_notified E b (b_ue be) ue s))"
proof -
  obtain se where se: "objs (sesss s) (b_sess be) = Some se" "sess_ue se = b_ue be" "b_sess be \<noteq> 0" "b_ue be \<noteq> 0" and ok: "buffer_ok be"
    using sgw_inv_bearer [OF inv b] by auto
  have same: "set_bearer b be t = t" if "objs (bearers t) b = Some be" for t
    using that by (simp add: set_bearer_def pool_set_same)
  show ?thesis
    using b ue se idle ev ok same
    by (simp add: downlink_idle_def sgw_event_push_def dl_notified_def packet_buffer.offer_def length_pending buffer_put_def
        buffer_ok_def Let_def)
qed

lemma noti_flags [simp]: "SGW_DL_NOTI_SENT \<noteq> 0"
  "(st OR SGW_DL_NOTI_SENT) AND SGW_DL_NOTI_SENT \<noteq> 0" "(st OR SGW_DL_NOTI_SENT) AND SGW_S1U_INACTIVE = st AND SGW_S1U_INACTIVE"
  by (simp_all add: SGW_DL_NOTI_SENT_def SGW_S1U_INACTIVE_def bit.conj_disj_distrib2)

lemma dl_notified_ue:
  assumes "objs (ues s) u = Some ue"
  obtains ue' where "objs (ues (dl_notified E b u ue s)) u = Some ue'" "ue_state ue' AND SGW_DL_NOTI_SENT \<noteq> 0"
    "ue_state ue' AND SGW_S1U_INACTIVE = ue_state ue AND SGW_S1U_INACTIVE"
proof -
  have ex: "\<exists>ue'. objs (ues (dl_notified E b u ue s)) u = Some ue' \<and> ue_state ue' AND SGW_DL_NOTI_SENT \<noteq> 0
      \<and> ue_state ue' AND SGW_S1U_INACTIVE = ue_state ue AND SGW_S1U_INACTIVE"
    using assms by (auto simp: dl_notified_def SGW_SET_UE_STATE_def set_ue_def)
  then show thesis using that by blast
qed

lemma downlink_idle_tunnel:
  assumes "sgw_s1u_tunnel_in_bearer b s = Inr (Some t)" and "objs (tunnels s) t = Some tu" and "remote_teid tu = 0"
  shows "downlink E b pk s = downlink_idle E b pk s"
  using assms by (simp add: downlink_def)

lemma offer_sel [simp]:
  "tunnel_list (packet_buffer.offer pk be) = tunnel_list be" "b_sess (packet_buffer.offer pk be) = b_sess be"
  "b_ue (packet_buffer.offer pk be) = b_ue be" "ebi (packet_buffer.offer pk be) = ebi be"
  by (simp_all add: packet_buffer.offer_def buffer_put_def)

lemma offers_sel [simp]:
  "tunnel_list (fold packet_buffer.offer pks be) = tunnel_list be" "b_ue (fold packet_buffer.offer pks be) = b_ue be"
  by (induction pks arbitrary: be) simp_all


text \<open>Finding a tunnel reads the bearer's list and the tunnels only.\<close>

lemma find_interface_cong:
  "objs (bearers s) b = Some be \<Longrightarrow> objs (bearers s') b = Some be' \<Longrightarrow> tunnel_list be' = tunnel_list be \<Longrightarrow>
     objs (tunnels s') = objs (tunnels s) \<Longrightarrow>
     sgw_tunnel_find_by_interface_type b iface s' = sgw_tunnel_find_by_interface_type b iface s"
  by (simp add: sgw_tunnel_find_by_interface_type_def)

lemmas s1u_cong = find_interface_cong [where iface = OGS_GTP_F_TEID_S1_U_SGW_GTP_U, folded sgw_s1u_tunnel_in_bearer_def]

fun downlinks :: "sgw_env \<Rightarrow> index \<Rightarrow> gtp_body packet list \<Rightarrow> sgw_state \<Rightarrow> sgw_state res" where
  "downlinks E b [] s = Inr s"
| "downlinks E b (pk # pks) s = ebind (downlink E b pk s) (downlinks E b pks)"

lemma downlinks_idle:
  assumes "sgw_inv s" and "objs (bearers s) b = Some be" and "objs (ues s) (b_ue be) = Some ue"
    and "ue_state ue AND SGW_S1U_INACTIVE \<noteq> 0"
    and "ue_state ue AND SGW_DL_NOTI_SENT = 0 \<longrightarrow> event_new_ok E (queue s)"
    and "sgw_s1u_tunnel_in_bearer b s = Inr (Some t)" and "objs (tunnels s) t = Some tu" and "remote_teid tu = 0"
  shows "\<exists>s'. downlinks E b pks s = Inr s' \<and> sgw_inv s' \<and> objs (bearers s') b = Some (fold packet_buffer.offer pks be)
     \<and> sent s' = sent s \<and> objs (tunnels s') = objs (tunnels s) \<and> gnodes s' = gnodes s
     \<and> queue s' = queue s @ (if pks \<noteq> [] \<and> ue_state ue AND SGW_DL_NOTI_SENT = 0 \<and> queue_push_ok E (queue s)
                              then [SGW_EVT_LO_DLDATA_NOTI b] else [])"
  using assms
proof (induction pks arbitrary: s be ue)
  case (Cons pk pks)
  let ?s = "set_bearer b (packet_buffer.offer pk be) (dl_notified E b (b_ue be) ue s)"
  have run: "downlink E b pk s = Inr ?s"
    using downlink_idle_tunnel [OF Cons.prems(6-8), of E pk] downlink_idle_eq [OF Cons.prems(1-5), of pk] by simp
  have inv: "sgw_inv ?s"
    using safe_downlink [OF Cons.prems(1,2), of E pk] by (simp add: run)
  have be: "objs (bearers ?s) b = Some (packet_buffer.offer pk be)" using Cons.prems(2) by simp
  obtain ue' where ue': "objs (ues ?s) (b_ue be) = Some ue'" "ue_state ue' AND SGW_DL_NOTI_SENT \<noteq> 0"
      "ue_state ue' AND SGW_S1U_INACTIVE = ue_state ue AND SGW_S1U_INACTIVE"
    using dl_notified_ue [OF Cons.prems(3), of E b] by auto
  have t: "sgw_s1u_tunnel_in_bearer b ?s = Inr (Some t)"
    using s1u_cong [OF Cons.prems(2) be] Cons.prems(6) by simp
  have q: "queue ?s = queue s @ (if ue_state ue AND SGW_DL_NOTI_SENT = 0 \<and> queue_push_ok E (queue s) then [SGW_EVT_LO_DLDATA_NOTI b] else [])"
    by (simp add: dl_notified_def set_bearer_def set_ue_def)
  show ?case
    using Cons.IH [OF inv be] ue' t Cons.prems(4,7,8) run q by auto
qed simp

subsection \<open>A packet for a bearer with a path\<close>

lemma downlink_active_eq:
  assumes inv: "sgw_inv s" and b: "objs (bearers s) b = Some be" and tu: "t_gnode tu = Some g" "gnodes s g = Some n" "gn_sock n \<noteq> None"
  shows "downlink_active E b tu pk s = Inr ((set_bearer b (buffer_flush be) s)
     \<lparr>sent := sent s @ map (\<lambda>p. (g, gtpu_set_teid (remote_teid tu) p)) (pending be @ [pk])\<rparr>)"
proof -
  have g: "g \<noteq> 0" using xact_inv_distinct [OF sgw_invD(1) [OF inv, unfolded gtp_inv_def] tu(2)] by simp
  have ok: "buffer_ok be" using sgw_inv_bearer [OF inv b] by blast
  then have idx: "\<forall>i \<in> set [0..<num_buffered_pkt be]. i < length (buffered_pkts be) \<and> buffered_pkts be ! i \<noteq> None"
    by (auto simp: buffer_ok_def)
  have pend: "map (\<lambda>i. (g, with_teid (remote_teid tu) (buffered_pkts be ! i))) [0..<num_buffered_pkt be]
      = map (\<lambda>p. (g, gtpu_set_teid (remote_teid tu) p)) (pending be)"
    using ok by (intro nth_equalityI) (auto simp: pending_def buffer_ok_def)
  show ?thesis
    using b tu g flush_each_ok [OF tu g distinct_upt idx, of E] pend
    by (auto simp: downlink_active_def tunnel_send_def ogs_gtp_sendto_def buffer_flush_def set_bearer_def Let_def)
qed

subsection \<open>Properties\<close>

text \<open>
  The specification of a bearer's downlink: a queue of the packets that wait, and the path to the
  base station. A path sends what waits and then the packet, an idle user's packet is kept while
  there is room, any other is dropped.
\<close>

datatype dl_path = Connected index u32 | Waiting | Disconnected

fun dl_spec :: "dl_path \<Rightarrow> gtp_body packet \<Rightarrow> gtp_body packet list \<Rightarrow> (index \<times> gtp_body packet) list \<times> gtp_body packet list" where
  "dl_spec (Connected g teid) pk q = (map (\<lambda>p. (g, gtpu_set_teid teid p)) (q @ [pk]), [])"
| "dl_spec Waiting pk q = ([], take MAX_NUM_OF_PACKET_BUFFER (q @ [pk]))"
| "dl_spec Disconnected pk q = ([], q)"

definition path_of :: "sgw_tunnel \<Rightarrow> sgw_ue \<Rightarrow> dl_path" where
  "path_of tu ue = (if remote_teid tu \<noteq> 0 then Connected (ptr (t_gnode tu)) (remote_teid tu)
     else if ue_state ue AND SGW_S1U_INACTIVE \<noteq> 0 then Waiting else Disconnected)"

text \<open>(C6) The downlink of a bearer refines the queue of the specification: whatever the path is,
  the packets that leave and the packets that wait afterwards are those the specification computes
  from the packets that waited before. Buffered packets keep their order and leave before the new
  one, and at most 512 wait.\<close>

theorem downlink_refines_queue:
  assumes inv: "sgw_inv s" and b: "objs (bearers s) b = Some be" and ue: "objs (ues s) (b_ue be) = Some ue"
    and t: "sgw_s1u_tunnel_in_bearer b s = Inr (Some t)" "objs (tunnels s) t = Some tu"
    and path: "remote_teid tu \<noteq> 0 \<longrightarrow> (\<exists>g n. t_gnode tu = Some g \<and> gnodes s g = Some n \<and> gn_sock n \<noteq> None)"
    and ev: "event_new_ok E (queue s)"
  shows "\<exists>s' be'. downlink E b pk s = Inr s' \<and> objs (bearers s') b = Some be'
    \<and> (\<exists>out. sent s' = sent s @ out \<and> (out, pending be') = dl_spec (path_of tu ue) pk (pending be))"
proof (cases "remote_teid tu = 0")
  case False
  then obtain g n where g: "t_gnode tu = Some g" "gnodes s g = Some n" "gn_sock n \<noteq> None" using path by auto
  have "downlink E b pk s = downlink_active E b tu pk s" using t False by (simp add: downlink_def)
  moreover have "buffer_ok be" using sgw_inv_bearer [OF inv b] by blast
  ultimately show ?thesis
    using downlink_active_eq [OF inv b g, of E pk] False g b packet_buffer.content_clear
    by (auto simp: path_of_def ptr_def)
next
  case True
  have idle: "downlink E b pk s = downlink_idle E b pk s" by (rule downlink_idle_tunnel [OF t True])
  show ?thesis
  proof (cases "ue_state ue AND SGW_S1U_INACTIVE = 0")
    case False
    have "buffer_ok be" using sgw_inv_bearer [OF inv b] by blast
    then show ?thesis
      using downlink_idle_eq [OF inv b ue False, of E pk] ev idle True False b packet_buffer.content_offer
      by (simp add: path_of_def)
  next
    case active: True
    obtain se where "objs (sesss s) (b_sess be) = Some se" "sess_ue se = b_ue be" "b_sess be \<noteq> 0" "b_ue be \<noteq> 0"
      using sgw_inv_bearer [OF inv b] by auto
    then have "downlink E b pk s = Inr s" using idle active b ue by (simp add: downlink_idle_def)
    then show ?thesis using b active True by (simp add: path_of_def)
  qed
qed

definition demo_pk :: "u8 \<Rightarrow> gtp_body packet" where
  "demo_pk n = GTPv1U 0x30 255 0x400 0x2000000 [n]"

lemma demo_pending [simp]: "pending (demo_bearer pks) = pks"
  by (simp add: pending_def demo_bearer_def map_idI)

theorem downlink_refines_queue_witness:
  "\<exists>s' be'. downlink demo_env 1 (demo_pk 8) (demo_state 0 51 [demo_pk 7]) = Inr s' \<and> objs (bearers s') 1 = Some be'
     \<and> sent s' = [(3, gtpu_set_teid 51 (demo_pk 7)), (3, gtpu_set_teid 51 (demo_pk 8))] \<and> pending be' = []"
  using downlink_refines_queue [of "demo_state 0 51 [demo_pk 7]" 1 "demo_bearer [demo_pk 7]" "demo_ue 0" 1 "demo_s1u 51" demo_env "demo_pk 8"]
  by (auto simp: path_of_def ptr_def MAX_NUM_OF_PACKET_BUFFER_def)



text \<open>The MME is told once about a user's waiting packets: of any number of packets for an idle
  bearer, only the first of a user that was not announced queues a notification, and it names the
  bearer.\<close>

theorem one_notification:
  assumes "sgw_inv s" and "objs (bearers s) b = Some be" and "objs (ues s) (b_ue be) = Some ue"
    and "ue_state ue AND SGW_S1U_INACTIVE \<noteq> 0" and "event_new_ok E (queue s)"
    and "sgw_s1u_tunnel_in_bearer b s = Inr (Some t)" and "objs (tunnels s) t = Some tu" and "remote_teid tu = 0"
    and "pks \<noteq> []"
  shows "\<exists>s'. downlinks E b pks s = Inr s' \<and> queue s' = queue s @
    (if ue_state ue AND SGW_DL_NOTI_SENT = 0 \<and> queue_push_ok E (queue s) then [SGW_EVT_LO_DLDATA_NOTI b] else [])"
  using downlinks_idle [OF assms(1-4) _ assms(6-8), of E pks] assms(5,9) by auto

theorem one_notification_witness:
  "\<exists>s'. downlinks demo_env 1 [demo_pk 7, demo_pk 8, demo_pk 9] (demo_state 1 0 []) = Inr s' \<and> queue s' = [SGW_EVT_LO_DLDATA_NOTI 1]"
  using one_notification [of "demo_state 1 0 []" 1 "demo_bearer []" "demo_ue 1" demo_env 1 "demo_s1u 0" "[demo_pk 7, demo_pk 8, demo_pk 9]"]
  by (auto simp: SGW_S1U_INACTIVE_def SGW_DL_NOTI_SENT_def)

text \<open>An uplink packet goes to the packet gateway: a datagram for the TEID of an S1-U tunnel is
  sent, with the TEID replaced by the packet gateway's and everything else as received, to the node
  of the bearer's S5 tunnel; nothing else changes.\<close>

theorem uplink_forwarded:
  assumes inv: "sgw_inv s" and len: "8 \<le> length bytes" and ty: "bytes ! 1 = OGS_GTPU_MSGTYPE_GPDU \<or> bytes ! 1 = OGS_GTPU_MSGTYPE_END_MARKER"
    and t: "objs (tunnels s) (ntohl (word32 (drop 4 bytes))) = Some tu" "interface_type tu = OGS_GTP_F_TEID_S1_U_SGW_GTP_U"
    and t5: "sgw_s5u_tunnel_in_bearer (t_bearer tu) s = Inr (Some t5)" "objs (tunnels s) t5 = Some tu5"
    and g: "t_gnode tu5 = Some g" "gnodes s g = Some n" "gn_sock n \<noteq> None"
  shows "gtpv1_u_recv_cb E sender bytes s = Inr (s\<lparr>sent := sent s @
    [(g, GTPv1U (bytes ! 0) (bytes ! 1) (word16 (drop 2 bytes)) (htonl (remote_teid tu5)) (drop 8 bytes))]\<rparr>)"
proof -
  have "g \<noteq> 0" using xact_inv_distinct [OF sgw_invD(1) [OF inv, unfolded gtp_inv_def] g(2)] by simp
  moreover have "t_bearer tu \<noteq> 0" using sgw_inv_tunnel [OF inv t(1)] by blast
  moreover have "bytes ! 1 \<noteq> OGS_GTPU_MSGTYPE_ECHO_REQ" using ty by auto
  moreover have "bytes \<noteq> []" "Suc 0 < length bytes" using len by auto
  ultimately show ?thesis
    using len ty t t5 g
    by (auto simp: gtpv1_u_recv_cb_def sgw_tunnel_find_by_teid_def tunnel_deliver_def Let_def forward_def tunnel_send_def
        ogs_gtp_sendto_def gtpu_set_teid_def)
qed

definition demo_addr :: ogs_sockaddr where
  "demo_addr = \<lparr>sa_family = AF_INET, sin_port = 0x6808, sin_addr = [127, 0, 0, 5]\<rparr>"

lemma demo_word: "ntohl (word32 [0, 0, 0, 1, 9]) = 1" "ntohl (word32 [0, 0, 0, 9, 9]) = 9"
  by (simp_all add: word32_def htonl_def)

theorem uplink_forwarded_witness:
  "gtpv1_u_recv_cb demo_env demo_addr [0x30, 255, 0, 1, 0, 0, 0, 1, 9] (demo_state 0 51 [])
    = Inr ((demo_state 0 51 [])\<lparr>sent := [(2, GTPv1U 0x30 255 (word16 [0, 1, 0, 0, 0, 1, 9]) (htonl 68) [9])]\<rparr>)"
  using uplink_forwarded [of "demo_state 0 51 []" "[0x30, 255, 0, 1, 0, 0, 0, 1, 9]" "demo_s1u 51" 2 demo_s5u 2 peer_node demo_env demo_addr]
  by (simp add: demo_word)

text \<open>A user packet or an end marker for a TEID that no tunnel of the gateway has is dropped:
  nothing is sent, buffered or announced.\<close>

lemma unknown_teid_dropped:
  assumes "8 \<le> length bytes" and "bytes ! 1 = OGS_GTPU_MSGTYPE_GPDU \<or> bytes ! 1 = OGS_GTPU_MSGTYPE_END_MARKER"
    and "objs (tunnels s) (ntohl (word32 (drop 4 bytes))) = None"
  shows "gtpv1_u_recv_cb E sender bytes s = Inr s"
  using assms by (auto simp: gtpv1_u_recv_cb_def sgw_tunnel_find_by_teid_def)

lemma unknown_teid_dropped_instance:
  "gtpv1_u_recv_cb demo_env demo_addr [0x30, 255, 0, 1, 0, 0, 0, 9, 9] (demo_state 0 51 []) = Inr (demo_state 0 51 [])"
  using unknown_teid_dropped [of "[0x30, 255, 0, 1, 0, 0, 0, 9, 9]" "demo_state 0 51 []" demo_env demo_addr]
  by (simp add: demo_word)

end
