(* ===== verification/Sgw_Props.thy ===== *)
theory Sgw_Props
  imports Sgw_User
begin

text \<open>
  Properties of the whole serving gateway: safety of every input, the tree of contexts, bounds, and
  the lookups, additions and removals of the contexts.
\<close>

subsection \<open>Safety\<close>
















subsection \<open>Lookups\<close>

lemma find_by_sess_ebi_total:
  assumes inv: "sgw_inv s" and x: "objs (sesss s) x = Some se"
  obtains r where "sgw_bearer_find_by_sess_ebi x e s = Inr r"
    "r = None \<longleftrightarrow> \<not> (\<exists>b be. objs (bearers s) b = Some be \<and> b_sess be = x \<and> ebi be = e)"
    "\<And>b. r = Some b \<Longrightarrow> \<exists>be. objs (bearers s) b = Some be \<and> b_sess be = x \<and> ebi be = e"
proof -
  have x0: "x \<noteq> 0" and kids: "\<forall>b \<in> set (bearer_list se). \<exists>be. objs (bearers s) b = Some be \<and> b_sess be = x"
    using sgw_inv_sess [OF inv x] by auto
  have mem: "b \<in> set (bearer_list se)" if "objs (bearers s) b = Some be" "b_sess be = x" for b be
    using sgw_inv_bearer [OF inv that(1)] that(2) x by auto
  let ?r = "find (\<lambda>b. e = ebi (the (objs (bearers s) b))) (bearer_list se)"
  have live: "\<forall>b \<in> set (bearer_list se). objs (bearers s) b \<noteq> None" using kids by auto
  have run: "sgw_bearer_find_by_sess_ebi x e s = Inr ?r"
    using x0 x by (simp add: sgw_bearer_find_by_sess_ebi_def list_find_total [OF live])
  show thesis
  proof (rule that [OF run])
    show "?r = None \<longleftrightarrow> \<not> (\<exists>b be. objs (bearers s) b = Some be \<and> b_sess be = x \<and> ebi be = e)"
      using kids mem by (fastforce simp: find_None_iff)
    show "\<exists>be. objs (bearers s) b = Some be \<and> b_sess be = x \<and> ebi be = e" if "?r = Some b" for b
      using that kids by (fastforce simp: find_Some_iff)
  qed
qed

lemma find_in_sessions_total:
  assumes inv: "sgw_inv s"
  shows "\<forall>x \<in> set xs. objs (sesss s) x \<noteq> None \<Longrightarrow> \<exists>r. bearer_find_in_sessions xs e s = Inr r
     \<and> (r = None \<longleftrightarrow> \<not> (\<exists>b be. objs (bearers s) b = Some be \<and> b_sess be \<in> set xs \<and> ebi be = e))
     \<and> (\<forall>b. r = Some b \<longrightarrow> (\<exists>be. objs (bearers s) b = Some be \<and> b_sess be \<in> set xs \<and> ebi be = e))"
proof (induction xs)
  case (Cons x xs)
  then obtain se where se: "objs (sesss s) x = Some se" by auto
  obtain r where r: "sgw_bearer_find_by_sess_ebi x e s = Inr r"
      "r = None \<longleftrightarrow> \<not> (\<exists>b be. objs (bearers s) b = Some be \<and> b_sess be = x \<and> ebi be = e)"
      "\<And>b. r = Some b \<Longrightarrow> \<exists>be. objs (bearers s) b = Some be \<and> b_sess be = x \<and> ebi be = e"
    using find_by_sess_ebi_total [OF inv se] by blast
  obtain q where q: "bearer_find_in_sessions xs e s = Inr q"
      "q = None \<longleftrightarrow> \<not> (\<exists>b be. objs (bearers s) b = Some be \<and> b_sess be \<in> set xs \<and> ebi be = e)"
      "\<forall>b. q = Some b \<longrightarrow> (\<exists>be. objs (bearers s) b = Some be \<and> b_sess be \<in> set xs \<and> ebi be = e)"
    using Cons by auto
  show ?case
  proof (cases r)
    case None
    then show ?thesis using r q by (intro exI [of _ q]) auto
  next
    case (Some b)
    then show ?thesis using r by (intro exI [of _ "Some b"]) fastforce
  qed
qed simp

lemma bearer_find_total:
  assumes inv: "sgw_inv s" and u: "objs (ues s) u = Some ue"
  shows "\<exists>r. sgw_bearer_find_by_ue_ebi u e s = Inr r
    \<and> (r = None \<longleftrightarrow> \<not> (\<exists>b be. objs (bearers s) b = Some be \<and> b_ue be = u \<and> ebi be = e))
    \<and> (\<forall>b. r = Some b \<longrightarrow> (\<exists>be. objs (bearers s) b = Some be \<and> b_ue be = u \<and> ebi be = e))"
proof -
  have xs: "\<forall>x \<in> set (sess_list ue). \<exists>se. objs (sesss s) x = Some se \<and> sess_ue se = u"
    using sgw_inv_ue [OF inv u] by blast
  have mem: "b_sess be \<in> set (sess_list ue) \<longleftrightarrow> b_ue be = u" if b: "objs (bearers s) b = Some be" for b be
  proof -
    obtain se where se: "objs (sesss s) (b_sess be) = Some se" "sess_ue se = b_ue be" using sgw_inv_bearer [OF inv b] by auto
    then show ?thesis using xs sgw_inv_sess [OF inv se(1)] u by auto
  qed
  have "\<forall>x \<in> set (sess_list ue). objs (sesss s) x \<noteq> None" using xs by auto
  from find_in_sessions_total [OF inv this, of e]
  obtain r where r: "bearer_find_in_sessions (sess_list ue) e s = Inr r"
      "r = None \<longleftrightarrow> \<not> (\<exists>b be. objs (bearers s) b = Some be \<and> b_sess be \<in> set (sess_list ue) \<and> ebi be = e)"
      "\<forall>b. r = Some b \<longrightarrow> (\<exists>be. objs (bearers s) b = Some be \<and> b_sess be \<in> set (sess_list ue) \<and> ebi be = e)"
    by blast
  then show ?thesis
    using u mem by (intro exI [of _ r]) (fastforce simp: sgw_bearer_find_by_ue_ebi_def)
qed

text \<open>(C29) Looking up a bearer by user and bearer identity is a search of all bearers: it always
  returns, it finds a bearer exactly when some live bearer of that user has the identity, and what
  it finds is such a bearer.\<close>

theorem bearer_find_reference:
  assumes inv: "sgw_inv s" and u: "objs (ues s) u = Some ue"
  shows "\<exists>r. sgw_bearer_find_by_ue_ebi u e s = Inr r
    \<and> (r = None \<longleftrightarrow> \<not> (\<exists>b be. objs (bearers s) b = Some be \<and> b_ue be = u \<and> ebi be = e))
    \<and> (\<forall>b. r = Some b \<longrightarrow> (\<exists>be. objs (bearers s) b = Some be \<and> b_ue be = u \<and> ebi be = e))"
  using assms by (rule bearer_find_total)

theorem bearer_find_reference_witness:
  "\<exists>r. sgw_bearer_find_by_ue_ebi 1 6 (demo_state 0 51 []) = Inr r \<and> r = None"
proof -
  have "sgw_inv (demo_state 0 51 [])" "objs (ues (demo_state 0 51 [])) 1 = Some (demo_ue 0)" by simp_all
  from bearer_find_reference [OF this, of 6] show ?thesis by (auto split: if_splits)
qed

lemma low_mask: "i < 0x80000000 \<Longrightarrow> i AND 0x7FFFFFFF = (i :: u32)"
  using less_mask_eq [of i 31] by (simp add: mask_eq_exp_minus_1)

lemma s11_teid_bit: "i < 0x80000000 \<Longrightarrow> i AND 0x80000000 = (0 :: u32)"
proof -
  assume "i < 0x80000000"
  then have "i AND 0x80000000 = (i AND 0x7FFFFFFF) AND 0x80000000" by (simp only: low_mask)
  then show ?thesis by (simp add: and.assoc)
qed

lemma s5c_teid_index:
  assumes "x < 0x80000000"
  shows "SGW_S5C_TEID (SGW_S5C_INDEX_TO_TEID x) \<noteq> 0" "SGW_S5C_TEID_TO_INDEX (SGW_S5C_INDEX_TO_TEID x) = x"
proof -
  have mask: "NOT 0x80000000 = (0x7FFFFFFF :: u32)" by simp
  show "SGW_S5C_TEID (SGW_S5C_INDEX_TO_TEID x) \<noteq> 0"
    using s11_teid_bit [OF assms] by (simp add: SGW_S5C_TEID_def SGW_S5C_INDEX_TO_TEID_def bit.conj_disj_distrib2)
  show "SGW_S5C_TEID_TO_INDEX (SGW_S5C_INDEX_TO_TEID x) = x"
    unfolding SGW_S5C_TEID_TO_INDEX_def SGW_S5C_INDEX_TO_TEID_def mask
    using low_mask [OF assms] by (simp add: bit.conj_disj_distrib2)
qed

text \<open>A message of the packet gateway reaches the session it is for: the S5 TEID of a live
  session leads the receive callback to queue an S5-C event and the lookup of that event to the
  session, while the S11 TEID of a live user leads to an S11 event and to the user. The top bit
  tells them apart, so the indices must be below \<^verbatim>\<open>0x80000000\<close>, which the pool sizes ensure.\<close>

theorem control_message_routed:
  assumes inv: "sgw_inv s" and x: "objs (sesss s) x = Some se" "x < 0x80000000" and u: "objs (ues s) u = Some ue" "u < 0x80000000"
    and q: "event_new_ok E (queue s)" "queue_push_ok E (queue s)"
  shows "gtpv2_c_recv_cb E True (sgw_s5c_teid se) m s = Inr (s\<lparr>queue := queue s @ [SGW_EVT_S5C_MESSAGE m]\<rparr>)
    \<and> sgw_sess_find_by_teid (sgw_s5c_teid se) s = Some x
    \<and> gtpv2_c_recv_cb E True (sgw_s11_teid ue) m s = Inr (s\<lparr>queue := queue s @ [SGW_EVT_S11_MESSAGE m]\<rparr>)
    \<and> sgw_ue_find_by_teid (sgw_s11_teid ue) s = Some u"
proof -
  have teid: "sgw_s5c_teid se = SGW_S5C_INDEX_TO_TEID x" "sgw_s11_teid ue = u"
    using sgw_inv_sess [OF inv x(1)] sgw_inv_ue [OF inv u(1)] by auto
  note s5 = s5c_teid_index [OF x(2)]
  show ?thesis
    using q x u s5 s11_teid_bit [OF u(2)]
    by (simp add: teid gtpv2_c_recv_cb_def sgw_event_push_def sgw_sess_find_by_teid_def sgw_ue_find_by_teid_def) (simp add: SGW_S5C_TEID_def)
qed

theorem control_message_routed_witness:
  "gtpv2_c_recv_cb demo_env True 0x80000001 None (demo_state 0 51 []) = Inr ((demo_state 0 51 [])\<lparr>queue := [SGW_EVT_S5C_MESSAGE None]\<rparr>)
    \<and> sgw_sess_find_by_teid 0x80000001 (demo_state 0 51 []) = Some 1
    \<and> gtpv2_c_recv_cb demo_env True 1 None (demo_state 0 51 []) = Inr ((demo_state 0 51 [])\<lparr>queue := [SGW_EVT_S11_MESSAGE None]\<rparr>)
    \<and> sgw_ue_find_by_teid 1 (demo_state 0 51 []) = Some 1"
  using control_message_routed [of "demo_state 0 51 []" 1 demo_sess 1 "demo_ue 0" demo_env None] by simp

subsection \<open>Additions and removals\<close>

text \<open>A new session is found by what identifies it: after \<^verbatim>\<open>sgw_sess_add\<close> its default bearer has
  the bearer identity, the S5 TEID leads to the session, and, if the user had no bearer of that
  identity, so does the lookup by identity. The session is new to the pool and no other object of a
  pool changes but the user's list.\<close>

theorem sess_add_found:
  assumes E: "sgw_env_ok E" and inv: "sgw_inv s" and clean: "clean_slots s" and u: "objs (ues s) u = Some ue"
    and run: "sgw_sess_add E u a e s = Inr (x, t)" and small: "x < 0x80000000"
    and new: "\<not> (\<exists>b be. objs (bearers s) b = Some be \<and> b_ue be = u \<and> ebi be = e)"
  shows "objs (sesss s) x = None \<and> sgw_sess_find_by_ebi u e t = Inr (Some x)
    \<and> (\<exists>se b be. objs (sesss t) x = Some se \<and> sess_ue se = u \<and> apn se = take (max_apn_len E) a
        \<and> sgw_sess_find_by_teid (sgw_s5c_teid se) t = Some x
        \<and> sgw_default_bearer_in_sess x t = Inr (Some b) \<and> objs (bearers t) b = Some be \<and> ebi be = e)
    \<and> (\<forall>y. y \<noteq> x \<longrightarrow> objs (sesss t) y = objs (sesss s) y)"
proof -
  have added: "sess_added u (take (max_apn_len E) a) e x s t"
    using sess_add_spec [OF E u, of a e] run by simp
  then obtain b t1 t5 p q k where x: "x \<noteq> 0" "objs (sesss s) x = None" and b: "objs (bearers s) b = None" "b \<noteq> 0"
    and t: "t = s\<lparr>tunnels := p, bearers := q, sesss := k, ues := pool_set u (ue\<lparr>sess_list := sess_list ue @ [x]\<rparr>) (ues s)\<rparr>"
    and q: "objs q = (objs (bearers s))(b \<mapsto> pool_mem (bearers s) b\<lparr>tunnel_list := [t1, t5], b_sess := x, b_ue := u, ebi := e\<rparr>)"
    and k: "objs k = (objs (sesss s))(x \<mapsto> pool_mem (sesss s) x\<lparr>sgw_s5c_teid := SGW_S5C_INDEX_TO_TEID x,
        apn := take (max_apn_len E) a, sess_ue := u, sess_gnode := None, bearer_list := [b]\<rparr>)"
    using u by (auto simp: sess_added_def)
  have inv': "sgw_inv t" by (rule sgw_inv_sess_added [OF inv clean added])
  have ue': "objs (ues t) u = Some (ue\<lparr>sess_list := sess_list ue @ [x]\<rparr>)" using u by (simp add: t)
  obtain se where se: "objs (sesss t) x = Some se" "sess_ue se = u" "apn se = take (max_apn_len E) a" "bearer_list se = [b]"
      "sgw_s5c_teid se = SGW_S5C_INDEX_TO_TEID x"
    by (simp add: t k)
  obtain r where r: "sgw_bearer_find_by_ue_ebi u e t = Inr r"
      "r = None \<longleftrightarrow> \<not> (\<exists>b be. objs (bearers t) b = Some be \<and> b_ue be = u \<and> ebi be = e)"
      "\<forall>b. r = Some b \<longrightarrow> (\<exists>be. objs (bearers t) b = Some be \<and> b_ue be = u \<and> ebi be = e)"
    using bearer_find_total [OF inv' ue', of e] by blast
  have be: "objs (bearers t) b = Some (pool_mem (bearers s) b\<lparr>tunnel_list := [t1, t5], b_sess := x, b_ue := u, ebi := e\<rparr>)"
    by (simp add: t q)
  have "r = Some b"
  proof (cases r)
    case (Some c)
    then obtain ce where "objs (bearers t) c = Some ce" "b_ue ce = u" "ebi ce = e" using r(3) by auto
    then have "c = b" using new by (auto simp: t q split: if_splits)
    then show ?thesis using Some by simp
  qed (use r(2) be in fastforce)
  then have "sgw_sess_find_by_ebi u e t = Inr (Some x)"
    using r(1) be by (simp add: sgw_sess_find_by_ebi_def)
  moreover have "sgw_sess_find_by_teid (sgw_s5c_teid se) t = Some x"
    using se(1,5) small by (simp add: sgw_sess_find_by_teid_def s5c_teid_index)
  moreover have "sgw_default_bearer_in_sess x t = Inr (Some b)" using se x(1) by (simp add: sgw_default_bearer_in_sess_def)
  moreover have "\<forall>y. y \<noteq> x \<longrightarrow> objs (sesss t) y = objs (sesss s) y" by (simp add: t k)
  ultimately show ?thesis using x(2) se be by fastforce
qed

lemma pick4_eval:
  "pool_alloc pick4 (sesss (demo_state st teid pks)) = Some (2, (sesss (demo_state st teid pks))\<lparr>pool_live := {2, 1}\<rparr>)"
  "pool_alloc pick4 (bearers (demo_state st teid pks)) = Some (2, (bearers (demo_state st teid pks))\<lparr>pool_live := {2, 1}\<rparr>)"
  "pool_alloc pick4 (tunnels (demo_state st teid pks)) = Some (3, (tunnels (demo_state st teid pks))\<lparr>pool_live := {3, 1, 2}\<rparr>)"
  by (simp_all add: pool_alloc_def pick4_def)

lemma demo_sess_add: "\<exists>t. sgw_sess_add demo_env 1 ''x'' 6 (demo_state 0 51 []) = Inr (2, t)"
  by (simp add: sgw_sess_add_def sgw_bearer_add_def sgw_tunnel_add_def Let_def pick4_eval set_sess_def set_bearer_def set_tunnel_def set_ue_def
      deref_def objs_def pool_set_def pool_alloc_def pick4_def)

theorem sess_add_found_witness:
  "\<exists>t. sgw_sess_add demo_env 1 ''x'' 6 (demo_state 0 51 []) = Inr (2, t) \<and> sgw_sess_find_by_ebi 1 6 t = Inr (Some 2)"
proof -
  obtain t where t: "sgw_sess_add demo_env 1 ''x'' 6 (demo_state 0 51 []) = Inr (2, t)" using demo_sess_add by blast
  have new: "\<not> (\<exists>b be. objs (bearers (demo_state 0 51 [])) b = Some be \<and> b_ue be = 1 \<and> ebi be = 6)"
    by (auto split: if_splits)
  have "objs (ues (demo_state 0 51 [])) 1 = Some (demo_ue 0)" "sgw_inv (demo_state 0 51 [])" by simp_all
  with sess_add_found [OF demo_env_ok _ demo_clean _ t _ new] t show ?thesis by auto
qed

text \<open>(C11) Removing a user frees its sessions, their bearers and their tunnels, and nothing else: it
  always succeeds, the objects of every other user are as they were, and the invariant holds.\<close>

theorem ue_remove_exact:
  assumes E: "sgw_env_ok E" and inv: "sgw_inv s" and u: "objs (ues s) u = Some ue"
  shows "\<exists>t. sgw_ue_remove E u s = Inr t \<and> sgw_inv t \<and> objs (ues t) = (objs (ues s))(u := None)
    \<and> (\<forall>x. objs (sesss t) x = (case objs (sesss s) x of Some se \<Rightarrow> if sess_ue se = u then None else Some se | None \<Rightarrow> None))
    \<and> (\<forall>b. objs (bearers t) b = (case objs (bearers s) b of Some be \<Rightarrow> if b_ue be = u then None else Some be | None \<Rightarrow> None))
    \<and> (\<forall>i. objs (tunnels t) i = (case objs (tunnels s) i of
         Some tu \<Rightarrow> if \<exists>be. objs (bearers s) (t_bearer tu) = Some be \<and> b_ue be = u then None else Some tu | None \<Rightarrow> None))"
proof -
  have xs: "\<forall>x \<in> set (sess_list ue). \<exists>se. objs (sesss s) x = Some se \<and> sess_ue se = u"
    using sgw_inv_ue [OF inv u] by blast
  have sess: "x \<in> set (sess_list ue) \<longleftrightarrow> sess_ue se = u" if "objs (sesss s) x = Some se" for x se
    using that xs sgw_inv_sess [OF inv that] u by auto
  have bearer: "b_sess be \<in> set (sess_list ue) \<longleftrightarrow> b_ue be = u" if "objs (bearers s) b = Some be" for b be
    using sgw_inv_bearer [OF inv that] sess by auto
  have live: "\<exists>be. objs (bearers s) (t_bearer tu) = Some be" if "objs (tunnels s) i = Some tu" for i tu
    using sgw_inv_tunnel [OF inv that] by auto
  show ?thesis
  proof (rule ue_remove_inv [OF E inv u])
    fix t assume t: "sgw_ue_remove E u s = Inr t" "sgw_inv t" "objs (ues t) = objs (ues s) |` (- {u})"
      "objs (sesss t) = objs (sesss s) |` (- set (sess_list ue))"
      "objs (bearers t) = objs (bearers s) |` kept_bearers (set (sess_list ue)) s"
      "objs (tunnels t) = objs (tunnels s) |` kept_tunnels (kept_bearers (set (sess_list ue)) s) s"
    have "objs (ues t) = (objs (ues s))(u := None)" by (auto simp: t(3) restrict_map_def)
    moreover have "objs (sesss t) x = (case objs (sesss s) x of Some se \<Rightarrow> if sess_ue se = u then None else Some se | None \<Rightarrow> None)" for x
      using sess by (auto simp: t(4) restrict_map_def split: option.split)
    moreover have "objs (bearers t) b = (case objs (bearers s) b of Some be \<Rightarrow> if b_ue be = u then None else Some be | None \<Rightarrow> None)" for b
      using bearer by (auto simp: t(5) restrict_map_def split: option.split)
    moreover have "objs (tunnels t) i = (case objs (tunnels s) i of
         Some tu \<Rightarrow> if \<exists>be. objs (bearers s) (t_bearer tu) = Some be \<and> b_ue be = u then None else Some tu | None \<Rightarrow> None)" for i
      using bearer live by (fastforce simp: t(6) restrict_map_def split: option.split)
    ultimately show ?thesis using t(1,2) by blast
  qed
qed

theorem ue_remove_exact_witness:
  "\<exists>t. sgw_ue_remove demo_env 1 (demo_state 0 51 [demo_pk 7]) = Inr t \<and> objs (tunnels t) 2 = None"
proof -
  have "sgw_inv (demo_state 0 51 [demo_pk 7])" by (simp add: MAX_NUM_OF_PACKET_BUFFER_def)
  then show ?thesis
    using ue_remove_exact [OF demo_env_ok, of "demo_state 0 51 [demo_pk 7]" 1 "demo_ue 0"] by fastforce
qed

end
