(* ===== verification/Sgw_Control.thy ===== *)
theory Sgw_Control
  imports Sgw_Props
begin

text \<open>
  What the handlers of the serving gateway do to the contexts and which message they send, and the
  places where the code goes wrong on inputs the safety theorem excludes.
\<close>

subsection \<open>Inputs the code does not survive\<close>

lemma free_entries_other: "i \<notin> set ns \<Longrightarrow> free_entries ns pks ! i = pks ! i"
  by (induction ns arbitrary: pks) auto

lemma free_entries_nth: "i \<in> set ns \<Longrightarrow> i < length pks \<Longrightarrow> free_entries ns pks ! i = None"
proof (induction ns arbitrary: pks)
  case (Cons k ns)
  then show ?case by (cases "i \<in> set ns") (auto simp: free_entries_other)
qed simp

lemma buffer_free_each_result: "buffer_free_each ns pks = Inr pks' \<Longrightarrow> pks' = free_entries ns pks"
  by (induction ns pks rule: buffer_free_each.induct) (auto simp: ebind_eq_Inr split: option.splits if_splits)

lemma pool_mem_set [simp]: "pool_mem (pool_set i v p) i = v"
  by (simp add: pool_set_def)

text \<open>The memory of a removed bearer: the counter is what it was, the packets are freed.\<close>

lemma bearer_remove_memory:
  assumes E: "sgw_env_ok E" and inv: "sgw_inv s" and b: "objs (bearers s) b = Some be"
  obtains t where "sgw_bearer_remove E b s = Inr t" "sgw_inv t" "objs (bearers t) b = None" "gnodes t = gnodes s"
    "num_buffered_pkt (pool_mem (bearers t) b) = num_buffered_pkt be"
    "buffered_pkts (pool_mem (bearers t) b) = free_entries [0..<num_buffered_pkt be] (buffered_pkts be)"
proof -
  obtain t where t: "sgw_bearer_remove E b s = Inr t" "sgw_inv t" "objs (bearers t) = objs (bearers s) |` (- {b})" "gnodes t = gnodes s"
    by (rule bearer_remove_inv [OF E inv b])
  have ts: "distinct (tunnel_list be)" "\<forall>i \<in> set (tunnel_list be). i \<noteq> 0 \<and> (\<exists>tu. objs (tunnels s) i = Some tu \<and> t_bearer tu = b)"
    and b0: "b \<noteq> 0"
    using sgw_inv_bearer [OF inv b] sgw_inv_tunnel [OF inv] by fastforce+
  obtain se where se: "objs (sesss s) (b_sess be) = Some se" "b_sess be \<noteq> 0" using sgw_inv_bearer [OF inv b] by auto
  let ?s = "set_sess (b_sess be) (se\<lparr>bearer_list := remove1 b (bearer_list se)\<rparr>) s"
  have all: "sgw_tunnel_remove_all E b ?s = Inr (?s\<lparr>bearers := pool_set b (be\<lparr>tunnel_list := []\<rparr>) (bearers ?s),
     tunnels := (tunnels ?s)\<lparr>pool_live := pool_live (tunnels ?s) - set (tunnel_list be)\<rparr>\<rparr>)"
    using tunnel_remove_each_eq [OF E b0, of ?s be] ts b b0 by (simp add: sgw_tunnel_remove_all_def)
  have "num_buffered_pkt (pool_mem (bearers t) b) = num_buffered_pkt be
      \<and> buffered_pkts (pool_mem (bearers t) b) = free_entries [0..<num_buffered_pkt be] (buffered_pkts be)"
    using t(1) b b0 se all
    by (auto simp: sgw_bearer_remove_def Let_def sgw_env_okD [OF E] ebind_eq_Inr set_bearer_def dest!: buffer_free_each_result)
  with t show thesis by (intro that [of t]) simp_all
qed

text \<open>(C37) A bearer that is removed while packets wait poisons its slot: \<^verbatim>\<open>sgw_bearer_remove\<close> frees the
  packets and leaves the counter, \<^verbatim>\<open>sgw_bearer_add\<close> does not reset it, so the first downlink packet of
  the next bearer in that slot is sent together with packets that were freed.\<close>

theorem stale_packets_used:
  assumes E: "sgw_env_ok E" and inv: "sgw_inv s" and b: "objs (bearers s) b = Some be" and n: "0 < num_buffered_pkt be"
    and remove: "sgw_bearer_remove E b s = Inr t" and x: "objs (sesss t) x = Some se" and add: "sgw_bearer_add E x t = Inr (b, t')"
    and g: "t_gnode tu = Some g" "gnodes t' g = Some nd" "gn_sock nd \<noteq> None"
  shows "downlink_active E b tu pk t' = Inl Dangling_Pointer"
proof -
  have ok: "buffer_ok be" using sgw_inv_bearer [OF inv b] by blast
  have mem: "num_buffered_pkt (pool_mem (bearers t) b) = num_buffered_pkt be"
      "buffered_pkts (pool_mem (bearers t) b) = free_entries [0..<num_buffered_pkt be] (buffered_pkts be)"
    using bearer_remove_memory [OF E inv b] remove by (metis sum.inject(2))+
  obtain be' where be': "objs (bearers t') b = Some be'" "num_buffered_pkt be' = num_buffered_pkt be"
      "buffered_pkts be' = free_entries [0..<num_buffered_pkt be] (buffered_pkts be)"
    using safeD [OF bearer_add_spec [OF E x] add] mem by (auto simp: bearer_added_def)
  have len: "0 < length (buffered_pkts be)" using ok n by (simp add: buffer_ok_def)
  have "flush_each E tu [0..<num_buffered_pkt be'] (buffered_pkts be') t' = Inl Dangling_Pointer"
    using be' n len free_entries_nth [of 0 "[0..<num_buffered_pkt be]" "buffered_pkts be"] by (simp add: upt_conv_Cons)
  then show ?thesis using be'(1) g by (auto simp: downlink_active_def)
qed

theorem stale_packets_used_witness:
  "\<exists>t t'. sgw_bearer_remove demo_env 1 (demo_state 1 0 [demo_pk 7]) = Inr t \<and> sgw_bearer_add demo_env 1 t = Inr (1, t')
    \<and> downlink_active demo_env 1 (demo_s1u 51) (demo_pk 8) t' = Inl Dangling_Pointer"
proof -
  let ?s = "demo_state 1 0 [demo_pk 7]"
  have inv: "sgw_inv ?s" by (simp add: MAX_NUM_OF_PACKET_BUFFER_def)
  have b: "objs (bearers ?s) 1 = Some (demo_bearer [demo_pk 7])" by simp
  obtain t where t: "sgw_bearer_remove demo_env 1 ?s = Inr t" "gnodes t = gnodes ?s" "ues t = ues ?s" "dom (objs (sesss t)) = {1}"
      "objs (bearers t) = Map.empty" "objs (tunnels t) = Map.empty" "sgw_inv t"
    by (rule bearer_remove_inv [OF demo_env_ok inv b]) (auto simp: restrict_map_def fun_eq_iff split: if_splits)
  have live: "pool_live (bearers t) = {}" "pool_live (tunnels t) = {}" using t(5,6) by (simp_all add: objs_live)
  obtain se where se: "objs (sesss t) 1 = Some se" using t(4) by (auto simp: dom_def set_eq_iff)
  have "sess_ue se \<noteq> 0" using sgw_inv_sess [OF t(7) se] by blast
  moreover have "1 \<in> pool_live (sesss t)" "pool_mem (sesss t) 1 = se" using se by (auto simp: objs_def split: if_splits)
  ultimately obtain t' where add: "sgw_bearer_add demo_env 1 t = Inr (1, t')"
    using live by (auto simp: sgw_bearer_add_def sgw_tunnel_add_def Let_def pool_alloc_def pick4_def set_sess_def set_bearer_def
        set_tunnel_def deref_def objs_def pool_set_def)
  then have "gnodes t' = gnodes ?s"
    using safeD [OF bearer_add_spec [OF demo_env_ok se] add] t(2) by (auto simp: bearer_added_def)
  then show ?thesis
    using stale_packets_used [OF demo_env_ok inv b _ t(1) se add, of "demo_s1u 51" 3 peer_node "demo_pk 8"] t(1) add by simp
qed

text \<open>An IMSI longer than the array overruns it: \<^verbatim>\<open>sgw_ue_add\<close> copies as many octets as the element
  has into a field of \<^verbatim>\<open>OGS_MAX_IMSI_LEN\<close> octets, whenever a user can be allocated.\<close>

theorem imsi_overrun:
  assumes "sgw_env_ok E" and "pool_alloc (ue_pick E) (ues s) = Some (u, p)" and "u \<le> max_ue E" and "max_imsi_len E < length bytes"
  shows "sgw_ue_add E bytes s = Inl Out_Of_Bounds"
proof -
  have "u \<noteq> 0 \<and> objs p = (objs (ues s))(u \<mapsto> pool_mem (ues s) u)"
    using pool_alloc_facts [OF assms(2) sgw_env_okD(2) [OF assms(1)]] by blast
  moreover have "bytes \<noteq> []" using assms(4) by auto
  ultimately show ?thesis
    using assms by (auto simp: sgw_ue_add_def word_neq_0_conv)
qed

theorem imsi_overrun_witness: "sgw_ue_add demo_env (replicate 9 0x11) (demo_state 0 51 []) = Inl Out_Of_Bounds"
  using imsi_overrun [of demo_env "demo_state 0 51 []" 2 "(ues (demo_state 0 51 []))\<lparr>pool_live := {2, 1}\<rparr>" "replicate 9 0x11"]
  by (simp add: pool_alloc_def pick4_def)

lemma indirect_loop_past_end:
  assumes reqs: "length reqs = n" and rsps: "length rsps = n"
    and all: "\<And>i. i < n \<Longrightarrow> \<exists>bc e b be. reqs ! i = Some bc \<and> eps_bearer_id bc = Some e \<and> s1_u_enodeb_f_teid bc = None
      \<and> s12_rnc_f_teid bc = None \<and> sgw_bearer_find_by_ue_ebi u e s = Inr (Some b) \<and> objs (bearers s) b = Some be"
  shows "i \<le> n \<Longrightarrow> indirect_loop E u reqs [i..<Suc n] rsps s = Inl Out_Of_Bounds"
  using rsps
proof (induction "n - i" arbitrary: i rsps)
  case 0
  then show ?case using reqs by (simp add: array_read_def)
next
  case (Suc k)
  then have i: "i < n" "k = n - Suc i" by auto
  obtain bc e b be where bc: "reqs ! i = Some bc" "eps_bearer_id bc = Some e" "s1_u_enodeb_f_teid bc = None"
      "s12_rnc_f_teid bc = None" "sgw_bearer_find_by_ue_ebi u e s = Inr (Some b)" "objs (bearers s) b = Some be"
    using all [OF i(1)] by blast
  have upt: "[i..<Suc n] = i # [Suc i..<Suc n]" using i by (simp add: upt_conv_Cons)
  have "indirect_loop E u reqs [Suc i..<Suc n] (rsps[i := None]) s = Inl Out_Of_Bounds"
    using Suc.hyps(1) [of "Suc i" "rsps[i := None]"] i Suc.prems(2) by simp
  then show ?case
    unfolding upt using bc i reqs Suc.prems(2) by (simp add: Let_def del: upt_Suc)
qed

text \<open>A request for indirect forwarding that uses all eleven bearer contexts is read past its end:
  the loop stops at the first absent context and there is none.\<close>

theorem indirect_contexts_overrun:
  assumes inv: "sgw_inv s" and u: "objs (ues s) u = Some ue" and xa: "xa \<noteq> 0"
    and reqs: "length reqs = GTP_MAX_NUM_OF_INDIRECT_TUNNEL"
    and all: "\<And>bc. bc \<in> set reqs \<Longrightarrow> \<exists>bc' e b be. bc = Some bc' \<and> eps_bearer_id bc' = Some e \<and> s1_u_enodeb_f_teid bc' = None
      \<and> s12_rnc_f_teid bc' = None \<and> objs (bearers s) b = Some be \<and> b_ue be = u \<and> ebi be = e"
  shows "sgw_s11_handle_create_indirect_data_forwarding_tunnel_request E xa u reqs s = Inl Out_Of_Bounds"
proof -
  have "\<exists>bc e b be. reqs ! i = Some bc \<and> eps_bearer_id bc = Some e \<and> s1_u_enodeb_f_teid bc = None
      \<and> s12_rnc_f_teid bc = None \<and> sgw_bearer_find_by_ue_ebi u e s = Inr (Some b) \<and> objs (bearers s) b = Some be"
    if i: "i < GTP_MAX_NUM_OF_INDIRECT_TUNNEL" for i
  proof -
    obtain bc e where bc: "reqs ! i = Some bc" "eps_bearer_id bc = Some e" "s1_u_enodeb_f_teid bc = None" "s12_rnc_f_teid bc = None"
      and ex: "\<exists>b be. objs (bearers s) b = Some be \<and> b_ue be = u \<and> ebi be = e"
      using all [OF nth_mem [of i reqs]] i reqs by auto
    obtain r where r: "sgw_bearer_find_by_ue_ebi u e s = Inr r" "r \<noteq> None" "\<forall>b. r = Some b \<longrightarrow> (\<exists>be. objs (bearers s) b = Some be)"
      using bearer_find_total [OF inv u, of e] ex by blast
    then show ?thesis using bc by auto
  qed
  from indirect_loop_past_end [OF reqs _ this, of "replicate GTP_MAX_NUM_OF_INDIRECT_TUNNEL None" 0 E]
  show ?thesis
    using xa sgw_inv_ue [OF inv u]
    by (simp add: sgw_s11_handle_create_indirect_data_forwarding_tunnel_request_def del: upt_Suc)
qed

theorem indirect_contexts_overrun_witness:
  "sgw_s11_handle_create_indirect_data_forwarding_tunnel_request demo_env 7 1
     (replicate 11 (Some (zero_bearer_context\<lparr>eps_bearer_id := Some 5\<rparr>))) (demo_state 0 51 []) = Inl Out_Of_Bounds"
proof -
  have "sgw_inv (demo_state 0 51 [])" "objs (ues (demo_state 0 51 [])) 1 = Some (demo_ue 0)" by simp_all
  from indirect_contexts_overrun [OF this, of 7 "replicate 11 (Some (zero_bearer_context\<lparr>eps_bearer_id := Some 5\<rparr>))" demo_env]
  show ?thesis by (auto simp: GTP_MAX_NUM_OF_INDIRECT_TUNNEL_def zero_bearer_context_def)
qed

subsection \<open>Sending\<close>

text \<open>
  A request of the peer that was received and is not answered yet: where an answer goes, and what it
  leaves in the transaction.
\<close>

definition unanswered :: "index \<Rightarrow> gtp_body gtp_xact \<Rightarrow> gtp_node \<Rightarrow> sgw_state \<Rightarrow> bool" where
  "unanswered x xa n s \<longleftrightarrow> xacts s x = Some xa \<and> x_org xa = OGS_GTP_REMOTE_ORIGINATOR \<and> x_step xa = 1
     \<and> gnodes s (x_gnode xa) = Some n \<and> gn_sock n \<noteq> None"

abbreviation answer_pk :: "sgw_env \<Rightarrow> gtp_body gtp_xact \<Rightarrow> u32 \<Rightarrow> gtp_body \<Rightarrow> gtp_body packet" where
  "answer_pk E xa teid body \<equiv> GTPv2C (tx_header E (body_type body) teid (x_xid xa) body) body"

lemma send_answer_ok:
  assumes inv: "gtp_inv s" and x: "unanswered x xa n s" and ok: "build_ok E body" "\<And>pk. sendto_ok E n pk"
    and stage: "ogs_gtp_xact_get_stage (body_type body) (x_xid xa) = GTP_XACT_FINAL_STAGE"
  shows "sgw_send_answer E x teid body s
    = Inr ((set_xact x (xa\<lparr>x_seq := (x_seq xa)[1 := (body_type body, Some (answer_pk E xa teid body))], x_step := 2\<rparr>) s)
        \<lparr>sent := sent s @ [(x_gnode xa, answer_pk E xa teid body)]\<rparr>)"
proof -
  have live: "x \<noteq> 0" "x_gnode xa \<noteq> 0" "xact_wf xa" using gtp_inv_live [OF inv] x by (auto simp: unanswered_def)
  then obtain a b c where "x_seq xa = [a, b, c]" by (auto simp: xact_wf_def list3)
  then show ?thesis
    using live x ok stage
    by (auto simp: unanswered_def sgw_send_answer_def ogs_gtp_xact_update_tx_def ogs_gtp_xact_commit_def seq_last_def xact_send_last_def
        ogs_gtp_sendto_def tx_header_def set_xact_def Let_def numeral_2_eq_2)
qed

lemma response_final:
  "ogs_gtp_xact_get_stage (body_type (Modify_Bearer_Response c)) xid = GTP_XACT_FINAL_STAGE"
  "ogs_gtp_xact_get_stage (body_type (Release_Access_Bearers_Response c)) xid = GTP_XACT_FINAL_STAGE"
  by (simp_all add: ogs_gtp_xact_get_stage_def)


subsection \<open>Modify Bearer Request\<close>

text \<open>A Modify Bearer Request for a bearer the user does not have is answered with \<^emph>\<open>context not
  found\<close> to the MME's TEID, and no context changes.\<close>

theorem modify_bearer_unknown:
  assumes inv: "sgw_inv s" and u: "objs (ues s) u = Some ue" and x: "unanswered x xa n s"
    and net: "\<And>b. build_ok E b" "\<And>pk. sendto_ok E n pk"
    and req: "mbq_bearer_contexts req = Some bc" "eps_bearer_id bc = Some e" "s1_u_enodeb_f_teid bc = Some enb_f"
    and none: "\<not> (\<exists>b be. objs (bearers s) b = Some be \<and> b_ue be = u \<and> ebi be = e)"
  shows "\<exists>t. sgw_s11_handle_modify_bearer_request E x u req s = Inr t \<and> gtp_state.more t = gtp_state.more s
    \<and> sent t = sent s @ [(x_gnode xa, answer_pk E xa (mme_s11_teid ue) (Modify_Bearer_Response OGS_GTP_CAUSE_CONTEXT_NOT_FOUND))]"
proof -
  have "x \<noteq> 0" "u \<noteq> 0"
    using gtp_inv_live [OF sgw_invD(1) [OF inv]] sgw_inv_ue [OF inv u] x by (auto simp: unanswered_def)
  moreover have "sgw_bearer_find_by_ue_ebi u e s = Inr None" using bearer_find_total [OF inv u, of e] none by auto
  ultimately show ?thesis
    using u req send_answer_ok [OF sgw_invD(1) [OF inv] x net response_final(1), of "mme_s11_teid ue" OGS_GTP_CAUSE_CONTEXT_NOT_FOUND]
    by (simp add: sgw_s11_handle_modify_bearer_request_def set_xact_def)
qed




subsection \<open>A gateway with a request to answer\<close>

definition demo_xact :: "u8 \<Rightarrow> gtp_body gtp_xact" where
  "demo_xact ty = (new_xact OGS_GTP_REMOTE_ORIGINATOR 9 1 None (Some GTP_T3_DUPLICATED_DURATION))
     \<lparr>x_seq := [(ty, None), (0, None), (0, None)], x_step := 1\<rparr>"

definition demo_busy :: "u8 \<Rightarrow> sgw_state \<Rightarrow> sgw_state" where
  "demo_busy ty s = s\<lparr>xacts := [1 \<mapsto> demo_xact ty], gnodes := [1 \<mapsto> peer_node\<lparr>remote_list := [1]\<rparr>, 2 \<mapsto> peer_node, 3 \<mapsto> peer_node]\<rparr>"

lemma demo_busy_sel [simp]:
  "xacts (demo_busy ty s) = [1 \<mapsto> demo_xact ty]"
  "gnodes (demo_busy ty s) = [1 \<mapsto> peer_node\<lparr>remote_list := [1]\<rparr>, 2 \<mapsto> peer_node, 3 \<mapsto> peer_node]"
  "sent (demo_busy ty s) = sent s" "gtp_state.more (demo_busy ty s) = gtp_state.more s"
  "x_gnode (demo_xact ty) = 1" "x_org (demo_xact ty) = OGS_GTP_REMOTE_ORIGINATOR" "x_step (demo_xact ty) = 1" "x_xid (demo_xact ty) = 9"
  "assoc_xact (demo_xact ty) = None"
  by (simp_all add: demo_busy_def demo_xact_def new_xact_def)

lemma demo_busy_more [simp]:
  "ues (demo_busy ty s) = ues s" "sesss (demo_busy ty s) = sesss s" "bearers (demo_busy ty s) = bearers s" "tunnels (demo_busy ty s) = tunnels s"
  "enb_s1u_list (demo_busy ty s) = enb_s1u_list s" "pgw_s5c_list (demo_busy ty s) = pgw_s5c_list s"
  by (simp_all add: demo_busy_def)

lemma demo_busy_inv [simp]:
  assumes "length pks \<le> MAX_NUM_OF_PACKET_BUFFER"
  shows "sgw_inv (demo_busy ty (demo_state st teid pks))"
proof (rule sgw_inv_more [OF demo_inv [OF assms]])
  have "xact_wf (demo_xact ty)"
    by (rule xact_wf_new [where ty = ty and pk = "GTPv2C undefined Release_Access_Bearers_Request"]) (simp_all add: demo_xact_def new_xact_def)
  then have "xact_inv ((gnodes (demo_state st teid pks))(1 \<mapsto> set_org_list OGS_GTP_REMOTE_ORIGINATOR [1] peer_node)) (Map.empty(1 \<mapsto> demo_xact ty))"
    using xact_inv_insert [OF demo_gtp_inv [of st teid pks, unfolded gtp_inv_def], of 1 1 peer_node "demo_xact ty"]
    by (simp add: org_list_def)
  then show "gtp_inv (demo_busy ty (demo_state st teid pks))"
    by (simp add: gtp_inv_def set_org_list_def fun_upd_twist)
qed (auto simp: dom_def)

lemma demo_busy_unanswered: "unanswered 1 (demo_xact ty) (peer_node\<lparr>remote_list := [1]\<rparr>) (demo_busy ty s)"
  by (simp add: unanswered_def)

lemma demo_busy_found [simp]:
  "sgw_bearer_find_by_ue_ebi 1 5 (demo_busy ty (demo_state st teid pks)) = Inr (Some 1)"
  "sgw_s1u_tunnel_in_bearer 1 (demo_busy ty (demo_state st teid pks)) = Inr (Some 1)"
  by (simp_all add: sgw_bearer_find_by_ue_ebi_def sgw_bearer_find_by_sess_ebi_def sgw_s1u_tunnel_in_bearer_def
      sgw_tunnel_find_by_interface_type_def)

definition demo_enb :: f_teid where
  "demo_enb = zero_f_teid\<lparr>ft_ipv4 := True, ft_teid := htonl 52\<rparr>"

abbreviation demo_bc :: "u8 \<Rightarrow> bearer_context" where
  "demo_bc e \<equiv> zero_bearer_context\<lparr>eps_bearer_id := Some e, s1_u_enodeb_f_teid := Some demo_enb\<rparr>"


definition demo_mbq :: "u8 \<Rightarrow> modify_bearer_request" where
  "demo_mbq e = \<lparr>mbq_bearer_contexts = Some (demo_bc e), mbq_user_location_information = None, mbq_rest = []\<rparr>"

theorem modify_bearer_unknown_witness:
  "\<exists>t. sgw_s11_handle_modify_bearer_request demo_env 1 1 (demo_mbq 6) (demo_busy 34 (demo_state 1 0 [])) = Inr t
    \<and> sent t = [(1, answer_pk demo_env (demo_xact 34) 17 (Modify_Bearer_Response 64))]"
proof -
  have inv: "sgw_inv (demo_busy 34 (demo_state 1 0 []))" by simp
  have u: "objs (ues (demo_busy 34 (demo_state 1 0 []))) 1 = Some (demo_ue 1)" by simp
  have none: "\<not> (\<exists>b be. objs (bearers (demo_busy 34 (demo_state 1 0 []))) b = Some be \<and> b_ue be = 1 \<and> ebi be = 6)"
    by (auto split: if_splits)
  show ?thesis
    using modify_bearer_unknown [OF inv u demo_busy_unanswered _ _ _ _ _ none, of demo_env "demo_mbq 6" "demo_bc 6" demo_enb]
    by (auto simp: demo_mbq_def)
qed


subsection \<open>Release Access Bearers Request\<close>

text \<open>Clearing the TEIDs of a set of tunnels.\<close>

definition cleared :: "index set \<Rightarrow> sgw_state \<Rightarrow> sgw_state \<Rightarrow> bool" where
  "cleared Z s t \<longleftrightarrow> (\<exists>p. t = s\<lparr>tunnels := p\<rparr>
     \<and> (\<forall>i. objs p i = map_option (\<lambda>tu. if i \<in> Z then tu\<lparr>remote_teid := 0\<rparr> else tu) (objs (tunnels s) i)))"

lemma cleared_refl: "cleared {} s s"
  by (auto simp: cleared_def option.map_ident intro: exI [of _ "tunnels s"])

lemma cleared_sel:
  assumes "cleared Z s t"
  shows "bearers t = bearers s" "sesss t = sesss s" "ues t = ues s"
    "objs (tunnels t) i = map_option (\<lambda>tu. if i \<in> Z then tu\<lparr>remote_teid := 0\<rparr> else tu) (objs (tunnels s) i)"
  using assms by (auto simp: cleared_def)

lemma cleared_trans: "cleared Z s t \<Longrightarrow> cleared Y t r \<Longrightarrow> cleared (Z \<union> Y) s r"
  unfolding cleared_def by (elim exE conjE) (auto simp: option.map_comp comp_def intro!: exI option.map_cong)

lemma cleared_set: "objs (tunnels s) i = Some tu \<Longrightarrow> cleared {i} s (set_tunnel i (tu\<lparr>remote_teid := 0\<rparr>) s)"
  by (auto simp: cleared_def set_tunnel_def option.map_ident intro!: exI [of _ "pool_set i (tu\<lparr>remote_teid := 0\<rparr>) (tunnels s)"])

lemma list_find_map:
  assumes "\<And>i. m' i = map_option (f i) (m i)" and "\<And>i v. P (f i v) = P v"
  shows "list_find m' P l = list_find m P l"
proof (induction l)
  case (Cons a l)
  then show ?case using assms by (cases "m a") (simp_all add: deref_def)
qed simp

lemma cleared_find:
  assumes "cleared Z s t"
  shows "sgw_s1u_tunnel_in_bearer b t = sgw_s1u_tunnel_in_bearer b s"
proof -
  have "list_find (objs (tunnels t)) (\<lambda>tu. interface_type tu = OGS_GTP_F_TEID_S1_U_SGW_GTP_U) l
      = list_find (objs (tunnels s)) (\<lambda>tu. interface_type tu = OGS_GTP_F_TEID_S1_U_SGW_GTP_U) l" for l
    by (rule list_find_map [OF cleared_sel(4) [OF assms]]) simp
  then show ?thesis
    by (simp add: sgw_s1u_tunnel_in_bearer_def sgw_tunnel_find_by_interface_type_def cleared_sel(1) [OF assms])
qed

lemma cleared_inv: "sgw_inv s \<Longrightarrow> objs (tunnels s) i = Some tu \<Longrightarrow> sgw_inv (set_tunnel i (tu\<lparr>remote_teid := 0\<rparr>) s)"
  using sgw_inv_tunnel [of s i tu] by (intro grows_live(1) [OF grows_set_tunnel]) auto

lemma release_bearers_spec:
  "sgw_inv s \<Longrightarrow> \<forall>b \<in> set bs. objs (bearers s) b \<noteq> None \<Longrightarrow> safe (release_bearers bs s) (\<lambda>t. sgw_inv t \<and> (\<exists>Z. cleared Z s t
     \<and> (\<forall>b \<in> set bs. \<exists>i \<in> Z. sgw_s1u_tunnel_in_bearer b s = Inr (Some i) \<and> objs (tunnels s) i \<noteq> None)))"
proof (induction bs arbitrary: s)
  case Nil
  then show ?case using cleared_refl by auto
next
  case (Cons b bs)
  have step: "safe (release_bearers bs (set_tunnel i (tu\<lparr>remote_teid := 0\<rparr>) s)) (\<lambda>t. sgw_inv t \<and> (\<exists>Z. cleared Z s t
     \<and> (\<forall>b \<in> set (b # bs). \<exists>i \<in> Z. sgw_s1u_tunnel_in_bearer b s = Inr (Some i) \<and> objs (tunnels s) i \<noteq> None)))"
    if tu: "objs (tunnels s) i = Some tu" and b: "sgw_s1u_tunnel_in_bearer b s = Inr (Some i)" for i tu
  proof (rule safe_mono [OF Cons.IH [OF cleared_inv [OF Cons.prems(1) tu]]])
    note c = cleared_set [OF tu]
    have live: "objs (tunnels (set_tunnel i (tu\<lparr>remote_teid := 0\<rparr>) s)) j \<noteq> None \<longleftrightarrow> objs (tunnels s) j \<noteq> None" for j
      unfolding cleared_sel(4) [OF c] by (simp add: map_option_case split: option.split)
    show "\<forall>c \<in> set bs. objs (bearers (set_tunnel i (tu\<lparr>remote_teid := 0\<rparr>) s)) c \<noteq> None" using Cons.prems(2) by simp
    fix t assume "sgw_inv t \<and> (\<exists>Z. cleared Z (set_tunnel i (tu\<lparr>remote_teid := 0\<rparr>) s) t
       \<and> (\<forall>b \<in> set bs. \<exists>j \<in> Z. sgw_s1u_tunnel_in_bearer b (set_tunnel i (tu\<lparr>remote_teid := 0\<rparr>) s) = Inr (Some j)
            \<and> objs (tunnels (set_tunnel i (tu\<lparr>remote_teid := 0\<rparr>) s)) j \<noteq> None))"
    then obtain Z where Z: "sgw_inv t" "cleared Z (set_tunnel i (tu\<lparr>remote_teid := 0\<rparr>) s) t"
        "\<forall>b \<in> set bs. \<exists>j \<in> Z. sgw_s1u_tunnel_in_bearer b s = Inr (Some j) \<and> objs (tunnels s) j \<noteq> None"
      unfolding cleared_find [OF c] live by blast
    then show "sgw_inv t \<and> (\<exists>Z. cleared Z s t
       \<and> (\<forall>b \<in> set (b # bs). \<exists>i \<in> Z. sgw_s1u_tunnel_in_bearer b s = Inr (Some i) \<and> objs (tunnels s) i \<noteq> None))"
      using b tu by (intro conjI exI [of _ "{i} \<union> Z"] cleared_trans [OF c]) fastforce+
  qed
  have live: "objs (bearers s) b \<noteq> None" using Cons.prems(2) by simp
  have "safe (sgw_s1u_tunnel_in_bearer b s) (\<lambda>r. \<forall>i. r = Some i \<longrightarrow> (\<exists>tu. objs (tunnels s) i = Some tu))"
    using safe_find_interface [OF Cons.prems(1) live, of OGS_GTP_F_TEID_S1_U_SGW_GTP_U]
    unfolding sgw_s1u_tunnel_in_bearer_def by (rule safe_mono) blast
  then show ?case
    by (cases "sgw_s1u_tunnel_in_bearer b s") (auto simp del: list.set not_None_eq intro!: step)
qed

lemma release_sessions_spec:
  "sgw_inv s \<Longrightarrow> \<forall>x \<in> set xs. objs (sesss s) x \<noteq> None \<Longrightarrow> safe (release_sessions xs s) (\<lambda>t. sgw_inv t \<and> (\<exists>Z. cleared Z s t
     \<and> (\<forall>b be. objs (bearers s) b = Some be \<and> b_sess be \<in> set xs \<longrightarrow> (\<exists>i \<in> Z. sgw_s1u_tunnel_in_bearer b s = Inr (Some i) \<and> objs (tunnels s) i \<noteq> None))))"
proof (induction xs arbitrary: s)
  case Nil
  then show ?case using cleared_refl by auto
next
  case (Cons x xs)
  obtain se where se: "objs (sesss s) x = Some se" using Cons.prems(2) by auto
  have bs: "\<forall>b \<in> set (bearer_list se). objs (bearers s) b \<noteq> None"
    using sgw_inv_sess [OF Cons.prems(1) se] by auto
  have mem: "b \<in> set (bearer_list se)" if "objs (bearers s) b = Some be" "b_sess be = x" for b be
    using sgw_inv_bearer [OF Cons.prems(1) that(1)] that(2) se by auto
  have "safe (release_sessions xs r) (\<lambda>t. sgw_inv t \<and> (\<exists>Z. cleared Z s t
     \<and> (\<forall>b be. objs (bearers s) b = Some be \<and> b_sess be \<in> set (x # xs) \<longrightarrow> (\<exists>i \<in> Z. sgw_s1u_tunnel_in_bearer b s = Inr (Some i) \<and> objs (tunnels s) i \<noteq> None))))"
    if r: "sgw_inv r" "cleared Y s r" and Y: "\<forall>b \<in> set (bearer_list se). \<exists>i \<in> Y. sgw_s1u_tunnel_in_bearer b s = Inr (Some i) \<and> objs (tunnels s) i \<noteq> None"
    for r Y
  proof (rule safe_mono [OF Cons.IH [OF r(1)]])
    show "\<forall>x \<in> set xs. objs (sesss r) x \<noteq> None" using Cons.prems(2) by (simp add: cleared_sel(2) [OF r(2)])
    fix t assume "sgw_inv t \<and> (\<exists>Z. cleared Z r t \<and> (\<forall>b be. objs (bearers r) b = Some be \<and> b_sess be \<in> set xs \<longrightarrow>
      (\<exists>i \<in> Z. sgw_s1u_tunnel_in_bearer b r = Inr (Some i) \<and> objs (tunnels r) i \<noteq> None)))"
    then obtain Z where Z: "sgw_inv t" "cleared Z r t" "\<forall>b be. objs (bearers s) b = Some be \<and> b_sess be \<in> set xs \<longrightarrow>
      (\<exists>i \<in> Z. sgw_s1u_tunnel_in_bearer b s = Inr (Some i) \<and> objs (tunnels s) i \<noteq> None)"
      by (auto simp: cleared_sel [OF r(2)] cleared_find [OF r(2)])
    have "\<exists>i \<in> Y \<union> Z. sgw_s1u_tunnel_in_bearer b s = Inr (Some i) \<and> objs (tunnels s) i \<noteq> None"
      if "objs (bearers s) b = Some be" "b_sess be \<in> set (x # xs)" for b be
      using that Y Z(3) mem [OF that(1)] by (metis UnI1 UnI2 set_ConsD)
    with Z show "sgw_inv t \<and> (\<exists>Z. cleared Z s t \<and> (\<forall>b be. objs (bearers s) b = Some be \<and> b_sess be \<in> set (x # xs) \<longrightarrow>
      (\<exists>i \<in> Z. sgw_s1u_tunnel_in_bearer b s = Inr (Some i) \<and> objs (tunnels s) i \<noteq> None)))"
      using cleared_trans [OF r(2) Z(2)] by blast
  qed
  then show ?case
    using se by (auto simp del: list.set intro!: safe_mono [OF release_bearers_spec [OF Cons.prems(1) bs]])
qed

lemma send_answer_more:
  assumes "sgw_env_ok E" "sgw_inv s" "xacts s x \<noteq> None"
  shows "safe (sgw_send_answer E x teid body s) (\<lambda>t. gtp_state.more t = gtp_state.more s)"
proof -
  have "safe (ogs_gtp_xact_update_tx E x (body_type body) teid body s) (\<lambda>t. safe (ogs_gtp_xact_commit E x t) (\<lambda>r. gtp_state.more r = gtp_state.more s))"
  proof (rule safe_mono [OF safe_update_tx [OF sgw_invD(1) [OF assms(2)] assms(3), where D = "{}"]])
    fix t assume "gtp_keeps {} s t"
    then have t: "gtp_inv t" "xacts t x \<noteq> None" "gtp_state.more t = gtp_state.more s" using assms(3) by (auto simp: gtp_keeps_def)
    show "safe (ogs_gtp_xact_commit E x t) (\<lambda>r. gtp_state.more r = gtp_state.more s)"
      by (rule safe_mono [OF safe_commit [OF sgw_env_okD(1) [OF assms(1)] t(1,2)]]) (simp add: gtp_keeps_def t(3))
  qed
  then show ?thesis by (simp add: sgw_send_answer_def)
qed

text \<open>(C26) Releasing the access bearers makes the user idle: every bearer of the user is kept and its
  S1-U tunnel has no base station TEID any more, the user is marked inactive and a new notification
  may be sent.\<close>

theorem release_makes_idle:
  assumes E: "sgw_env_ok E" and inv: "sgw_inv s" and u: "objs (ues s) u = Some ue" and xa: "xacts s x \<noteq> None"
    and run: "sgw_s11_handle_release_access_bearers_request E x u s = Inr t"
  shows "(\<exists>ue'. objs (ues t) u = Some ue' \<and> ue_state ue' AND SGW_S1U_INACTIVE \<noteq> 0 \<and> ue_state ue' AND SGW_DL_NOTI_SENT = 0)
    \<and> (\<forall>b be. objs (bearers s) b = Some be \<and> b_ue be = u \<longrightarrow> objs (bearers t) b = Some be
        \<and> (\<exists>i tu. sgw_s1u_tunnel_in_bearer b t = Inr (Some i) \<and> objs (tunnels t) i = Some tu \<and> remote_teid tu = 0))"
proof -
  define ue' where "ue' = SGW_RESET_UE_STATE SGW_DL_NOTI_SENT (SGW_SET_UE_STATE SGW_S1U_INACTIVE ue)"
  define s1 where "s1 = set_ue u ue' s"
  have g: "grows {} s s1"
    using sgw_inv_ue [OF inv u] unfolding s1_def by (intro grows_set_ue [OF inv u]) (auto simp: ue'_def)
  have xs: "\<forall>y \<in> set (sess_list ue). \<exists>se. objs (sesss s) y = Some se \<and> sess_ue se = u" using sgw_inv_ue [OF inv u] by blast
  have mem: "b_sess be \<in> set (sess_list ue)" if "objs (bearers s) b = Some be" "b_ue be = u" for b be
    using sgw_inv_bearer [OF inv that(1)] sgw_inv_sess [OF inv] that(2) u by fastforce
  have "\<forall>y \<in> set (sess_list ue). objs (sesss s1) y \<noteq> None" using xs by (auto simp: s1_def)
  note spec = release_sessions_spec [OF grows_live(1) [OF g] this]
  have "ebind (release_sessions (sess_list ue) s1) (\<lambda>r. sgw_send_answer E x (mme_s11_teid ue)
      (Release_Access_Bearers_Response OGS_GTP_CAUSE_REQUEST_ACCEPTED) r) = Inr t"
    using run u by (auto simp: sgw_s11_handle_release_access_bearers_request_def Let_def s1_def ue'_def ebind_eq_Inr)
  then obtain r where r: "release_sessions (sess_list ue) s1 = Inr r"
      "sgw_send_answer E x (mme_s11_teid ue) (Release_Access_Bearers_Response OGS_GTP_CAUSE_REQUEST_ACCEPTED) r = Inr t"
    by (auto simp: ebind_eq_Inr)
  obtain Z where Z: "sgw_inv r" "cleared Z s1 r" "\<forall>b be. objs (bearers s1) b = Some be \<and> b_sess be \<in> set (sess_list ue) \<longrightarrow>
      (\<exists>i \<in> Z. sgw_s1u_tunnel_in_bearer b s1 = Inr (Some i) \<and> objs (tunnels s1) i \<noteq> None)"
    using spec r(1) by auto
  have "xacts r x \<noteq> None" using xa Z(2) by (auto simp: cleared_def s1_def)
  then have more: "gtp_state.more t = gtp_state.more r"
    using safeD [OF send_answer_more [OF E Z(1)] r(2)] by simp
  note eq = more_eq [OF more] cleared_sel [OF Z(2)]
  have "ue_state ue' AND SGW_S1U_INACTIVE \<noteq> 0" "ue_state ue' AND SGW_DL_NOTI_SENT = 0"
    by (simp_all add: ue'_def SGW_RESET_UE_STATE_def SGW_SET_UE_STATE_def SGW_S1U_INACTIVE_def SGW_DL_NOTI_SENT_def
        bit.conj_disj_distrib2 and.assoc)
  moreover have "objs (ues t) u = Some ue'" using u by (simp add: eq s1_def)
  moreover have "\<exists>i tu. sgw_s1u_tunnel_in_bearer b t = Inr (Some i) \<and> objs (tunnels t) i = Some tu \<and> remote_teid tu = 0"
    if b: "objs (bearers s) b = Some be" "b_ue be = u" for b be
  proof -
    obtain i tu where i: "i \<in> Z" "sgw_s1u_tunnel_in_bearer b s1 = Inr (Some i)" "objs (tunnels s1) i = Some tu"
      using Z(3) mem [OF b] b by (fastforce simp: s1_def)
    have "sgw_s1u_tunnel_in_bearer b t = sgw_s1u_tunnel_in_bearer b r"
      by (simp add: sgw_s1u_tunnel_in_bearer_def sgw_tunnel_find_by_interface_type_def eq)
    then show ?thesis using i cleared_find [OF Z(2), of b] by (simp add: eq)
  qed
  moreover have "objs (bearers t) b = Some be" if "objs (bearers s) b = Some be" for b be using that by (simp add: eq s1_def)
  ultimately show ?thesis by blast
qed

lemma demo_release:
  "\<exists>t. sgw_s11_handle_release_access_bearers_request demo_env 1 1 (demo_busy 170 (demo_state 0 51 [])) = Inr t"
proof -
  let ?s = "demo_busy 170 (demo_state 0 51 [])"
  define r where "r = set_tunnel 1 (demo_s1u 51\<lparr>remote_teid := 0\<rparr>)
    (set_ue 1 (SGW_RESET_UE_STATE SGW_DL_NOTI_SENT (SGW_SET_UE_STATE SGW_S1U_INACTIVE (demo_ue 0))) ?s)"
  have find: "sgw_s1u_tunnel_in_bearer 1 (set_ue 1 v ?s) = Inr (Some 1)" for v
    by (simp add: sgw_s1u_tunnel_in_bearer_def sgw_tunnel_find_by_interface_type_def)
  have "sgw_s11_handle_release_access_bearers_request demo_env 1 1 ?s
      = sgw_send_answer demo_env 1 17 (Release_Access_Bearers_Response 16) r"
    by (simp add: sgw_s11_handle_release_access_bearers_request_def Let_def find r_def)
  moreover have "gtp_inv r" "unanswered 1 (demo_xact 170) (peer_node\<lparr>remote_list := [1]\<rparr>) r"
    using sgw_invD(1) [of ?s] by (simp_all add: r_def gtp_inv_def unanswered_def)
  ultimately show ?thesis
    using send_answer_ok [of r 1 "demo_xact 170" _ demo_env, OF _ _ _ _ response_final(2)] by simp
qed

theorem release_makes_idle_witness:
  "\<exists>t. sgw_s11_handle_release_access_bearers_request demo_env 1 1 (demo_busy 170 (demo_state 0 51 [])) = Inr t
    \<and> (\<exists>i tu. sgw_s1u_tunnel_in_bearer 1 t = Inr (Some i) \<and> objs (tunnels t) i = Some tu \<and> remote_teid tu = 0)"
proof -
  obtain t where t: "sgw_s11_handle_release_access_bearers_request demo_env 1 1 (demo_busy 170 (demo_state 0 51 [])) = Inr t"
    using demo_release by blast
  have "sgw_inv (demo_busy 170 (demo_state 0 51 []))" "objs (ues (demo_busy 170 (demo_state 0 51 []))) 1 = Some (demo_ue 0)" by simp_all
  note idle = release_makes_idle [OF demo_env_ok this _ t]
  have "objs (bearers (demo_busy 170 (demo_state 0 51 []))) 1 = Some (demo_bearer []) \<and> b_ue (demo_bearer []) = 1"
    "xacts (demo_busy 170 (demo_state 0 51 [])) 1 \<noteq> None" by simp_all
  with idle t show ?thesis by blast
qed

subsection \<open>Create Session Request\<close>














lemma set_same_addr [simp]:
  "gtpc_addr (set_ue i ue s) = gtpc_addr s" "gtpc_addr6 (set_ue i ue s) = gtpc_addr6 s"
  "gtpu_addr (set_ue i ue s) = gtpu_addr s" "gtpu_addr6 (set_ue i ue s) = gtpu_addr6 s"
  "gtpu_addr (set_sess i se s) = gtpu_addr s" "gtpu_addr6 (set_sess i se s) = gtpu_addr6 s"
  by (simp_all add: set_ue_def set_sess_def)




end
