(* ===== verification/Nas_Types.thy ===== *)
theory Nas_Types
  imports Prelude
begin

text \<open>
  Values of NAS information elements, \<^verbatim>\<open>src/lib/nas/types.c\<close> and \<^verbatim>\<open>src/lib/nas/conv.c\<close>: bit rates, the
  APN-AMBR and the EPS quality of service, identities of networks, lists of tracking areas and the
  IMSI. The layout of \<^verbatim>\<open>ogs_plmn_id_t\<close> belongs to the base library and is an argument.
\<close>

subsection \<open>Bit rates\<close>

text \<open>
  \<^verbatim>\<open>br_calculate\<close>: the length, the octet, and the extended octets, which keep the value they had where
  the code does not write them. The rate is in kbps.
\<close>

definition br_low :: "u8 \<Rightarrow> u8 \<Rightarrow> nat \<Rightarrow> nat \<Rightarrow> nat \<times> u8 \<times> u8" where
  "br_low br extended len input =
     (if 1 \<le> input \<and> input \<le> 63 then (max len 1, of_nat input, extended)
      else if 64 \<le> input \<and> input \<le> 568 then (max len 1, of_nat ((input - 64) div 8 + 64), extended)
      else if 568 < input \<and> input < 576 then (max len 1, 127, extended)
      else if 576 \<le> input \<and> input \<le> 8640 then (max len 1, of_nat ((input - 576) div 64 + 128), extended)
      else if 8640 < input \<and> input < 8700 then (max len 1, 254, extended)
      else if 8700 \<le> input \<and> input \<le> 16000 then (max len 2, 254, of_nat ((input - 8600) div 100))
      else if 16000 < input \<and> input < 17 * 1024 then (max len 2, 254, 74)
      else if 17 * 1024 \<le> input \<and> input \<le> 128 * 1024 then (max len 2, 254, of_nat ((input - 16 * 1024) div 1024 + 74))
      else if 128 * 1024 < input \<and> input < 130 * 1024 then (max len 2, 254, 186)
      else if 130 * 1024 \<le> input \<and> input \<le> 256 * 1024 then (max len 2, 254, of_nat ((input - 128 * 1024) div (2 * 1024) + 186))
      else (len, br, extended))"

definition br_calculate :: "u8 \<Rightarrow> u8 \<Rightarrow> u8 \<Rightarrow> nat \<Rightarrow> nat \<times> u8 \<times> u8 \<times> u8" where
  "br_calculate br extended extended2 input =
     (if input < 1 then (1, 0xff, extended, extended2)
      else
        let (len, extended2, input) =
          (if input > 65200 * 1024 then (3, 254, input mod (256 * 1024))
           else if 256 * 1024 \<le> input \<and> input \<le> 65200 * 1024 then (3, of_nat (input div (256 * 1024)), input mod (256 * 1024))
           else (0, extended2, input));
          (len, br, extended) = br_low br extended len input in
        (len, br, extended, extended2))"



record eps_qos =
  qos_length :: nat
  qos_qci :: u8
  ul_mbr :: "u8 \<times> u8 \<times> u8"
  dl_mbr :: "u8 \<times> u8 \<times> u8"
  ul_gbr :: "u8 \<times> u8 \<times> u8"
  dl_gbr :: "u8 \<times> u8 \<times> u8"

text \<open>A rate of 0 leaves its octets 0; each triple is the octet with its two extensions.\<close>

definition qos_rate :: "u64 \<Rightarrow> nat \<times> u8 \<times> u8 \<times> u8" where
  "qos_rate bps = (if unat bps div 1024 = 0 then (0, 0, 0, 0) else br_calculate 0 0 0 (unat bps div 1024))"

definition eps_qos_build :: "u8 \<Rightarrow> u64 \<Rightarrow> u64 \<Rightarrow> u64 \<Rightarrow> u64 \<Rightarrow> eps_qos" where
  "eps_qos_build qci dl_mbr_bps ul_mbr_bps dl_gbr_bps ul_gbr_bps =
     (let (a, dm) = qos_rate dl_mbr_bps; (b, um) = qos_rate ul_mbr_bps; (c, dg) = qos_rate dl_gbr_bps; (d, ug) = qos_rate ul_gbr_bps in
      \<lparr>qos_length = max (max (max a b) c) d * 4 + 1, qos_qci = qci, ul_mbr = um, dl_mbr = dm, ul_gbr = ug, dl_gbr = dg\<rparr>)"

subsection \<open>Networks and tracking areas\<close>

text \<open>The digits of the network code in an \<^verbatim>\<open>ogs_plmn_id_t\<close>.\<close>

record plmn_layout =
  pl_mnc1 :: "u8 list \<Rightarrow> u8"
  pl_mnc2 :: "u8 list \<Rightarrow> u8"
  pl_mnc3 :: "u8 list \<Rightarrow> u8"
  pl_set_mnc :: "u8 \<Rightarrow> u8 \<Rightarrow> u8 \<Rightarrow> u8 list \<Rightarrow> u8 list"

definition ogs_nas_from_plmn_id :: "plmn_layout \<Rightarrow> u8 list \<Rightarrow> u8 list" where
  "ogs_nas_from_plmn_id L plmn_id =
     (if pl_mnc1 L plmn_id \<noteq> 0xf
      then [plmn_id ! 0, push_bit 4 (pl_mnc3 L plmn_id) OR (plmn_id ! 1 AND 0xF), push_bit 4 (pl_mnc2 L plmn_id) OR pl_mnc1 L plmn_id]
      else plmn_id)"

definition ogs_nas_to_plmn_id :: "plmn_layout \<Rightarrow> u8 list \<Rightarrow> u8 list" where
  "ogs_nas_to_plmn_id L nas =
     (if pl_mnc1 L nas \<noteq> 0xf
      then pl_set_mnc L (nas ! 2 AND 0xF) (drop_bit 4 (nas ! 2)) (drop_bit 4 (nas ! 1)) nas
      else nas)"

definition OGS_NAS_MAX_TAI_LIST_LEN :: nat where "OGS_NAS_MAX_TAI_LIST_LEN = 96"

text \<open>\<^verbatim>\<open>tai0_list_t\<close> is an array of these, \<^verbatim>\<open>tai2_list_t\<close> has one type and number for its array of areas.\<close>

record tai0 =
  t0_type :: u8
  t0_num :: nat
  t0_plmn_id :: "u8 list"
  t0_tac :: "u16 list"

record tai2_list =
  t2_type :: u8
  t2_num :: nat
  t2_tai :: "(u8 list \<times> u16) list"

definition tai_head :: "u8 \<Rightarrow> nat \<Rightarrow> u8" where
  "tai_head ty num = push_bit 5 ty OR of_nat (num - 1)"

fun tac_image :: "u16 list \<Rightarrow> u8 list" where
  "tac_image [] = []"
| "tac_image (t # ts) = bytes16 (htons t) @ tac_image ts"

text \<open>
  The loop over the areas of the first kind; \<open>max_tai\<close> is \<^verbatim>\<open>OGS_MAX_NUM_OF_TAI\<close>, the size of every
  array. The flag tells that the list overflowed, which ends the function.
\<close>

fun tai0_loop :: "plmn_layout \<Rightarrow> nat \<Rightarrow> tai0 list \<Rightarrow> u8 list \<Rightarrow> (bool \<times> u8 list) res" where
  "tai0_loop L max_tai [] buffer = Inl Out_Of_Bounds"
| "tai0_loop L max_tai (e # es) buffer =
     (if t0_num e = 0 then Inr (False, buffer)
      else
        ebind (ogs_assert (t0_type e = 0)) (\<lambda>_.
        ebind (ogs_assert (t0_num e < max_tai)) (\<lambda>_.
        if length buffer + (1 + 3 + 2 * t0_num e) > OGS_NAS_MAX_TAI_LIST_LEN then Inr (True, buffer)
        else tai0_loop L max_tai es (buffer @ [tai_head (t0_type e) (t0_num e)] @ ogs_nas_from_plmn_id L (t0_plmn_id e)
               @ tac_image (take (t0_num e) (t0_tac e))))))"

fun tai2_image :: "plmn_layout \<Rightarrow> (u8 list \<times> u16) list \<Rightarrow> u8 list" where
  "tai2_image L [] = []"
| "tai2_image L ((plmn, t) # ts) = ogs_nas_from_plmn_id L plmn @ bytes16 (htons t) @ tai2_image L ts"

definition ogs_nas_tai_list_build :: "plmn_layout \<Rightarrow> nat \<Rightarrow> tai0 list \<Rightarrow> tai2_list \<Rightarrow> u8 list res" where
  "ogs_nas_tai_list_build L max_tai source0 source2 =
     ebind (tai0_loop L max_tai source0 []) (\<lambda>(over, buffer).
     if over \<or> t2_num source2 = 0 then Inr buffer
     else
       ebind (ogs_assert (t2_type source2 = 1 \<or> t2_type source2 = 2)) (\<lambda>_.
       ebind (ogs_assert (t2_num source2 < max_tai)) (\<lambda>_.
       if length buffer + (1 + (3 + 2) * t2_num source2) > OGS_NAS_MAX_TAI_LIST_LEN then Inr buffer
       else Inr (buffer @ [tai_head (t2_type source2) (t2_num source2)] @ tai2_image L (take (t2_num source2) (t2_tai source2))))))"

subsection \<open>IMSI\<close>

record nas_imsi =
  imsi_digits :: "u8 list"
  imsi_odd :: bool

text \<open>
  The digits go into the caller's array, then a terminator at the place the length gives. The length
  is that of the received element and is not checked; the array is an argument with its size.
\<close>

definition ogs_nas_imsi_to_bcd :: "nas_imsi \<Rightarrow> u8 \<Rightarrow> u8 list \<Rightarrow> u8 list res" where
  "ogs_nas_imsi_to_bcd imsi imsi_len bcd =
     (if length bcd < 15 then Inl Out_Of_Bounds
      else
        let bcd = map (\<lambda>d. 48 + d) (imsi_digits imsi) @ drop 15 bcd;
            bcd_len = 2 * int (unat imsi_len) - 1 in
        ebind (if imsi_odd imsi then Inr bcd_len
               else if bcd_len < 0 then Inl Out_Of_Bounds
               else ebind (array_read bcd (nat bcd_len)) (\<lambda>_. Inr (bcd_len - 1))) (\<lambda>bcd_len.
        if bcd_len < 0 then Inl Out_Of_Bounds else array_write bcd (nat bcd_len) 0))"

definition bcd_octet :: "u8 \<Rightarrow> u8 \<Rightarrow> u8" where
  "bcd_octet hi lo = (push_bit 4 (48 + hi) AND 0xf0) OR ((48 + lo) AND 0x0f)"

text \<open>The array and the length; for an even number of digits the last octet is read.\<close>

definition ogs_nas_imsi_to_buffer :: "nas_imsi \<Rightarrow> u8 \<Rightarrow> u8 list \<Rightarrow> (u8 list \<times> u8) res" where
  "ogs_nas_imsi_to_buffer imsi imsi_len buf =
     (if length buf < 8 then Inl Out_Of_Bounds
      else
        let d = imsi_digits imsi;
            buf = [bcd_octet (d ! 1) (d ! 0), bcd_octet (d ! 3) (d ! 2), bcd_octet (d ! 5) (d ! 4), bcd_octet (d ! 7) (d ! 6),
              bcd_octet (d ! 9) (d ! 8), bcd_octet (d ! 11) (d ! 10), bcd_octet (d ! 13) (d ! 12), (48 + d ! 14) AND 0x0f] @ drop 8 buf in
        if imsi_odd imsi then Inr (buf, imsi_len)
        else ebind (array_read buf (unat (imsi_len - 1))) (\<lambda>_. Inr (buf, imsi_len - 1)))"

subsection \<open>What the bit rate octets mean\<close>










subsection \<open>Tracking area lists\<close>

text \<open>The element of one partial list.\<close>

definition tai0_image :: "plmn_layout \<Rightarrow> tai0 \<Rightarrow> u8 list" where
  "tai0_image L e = [tai_head (t0_type e) (t0_num e)] @ ogs_nas_from_plmn_id L (t0_plmn_id e) @ tac_image (take (t0_num e) (t0_tac e))"

definition tai2_list_image :: "plmn_layout \<Rightarrow> tai2_list \<Rightarrow> u8 list" where
  "tai2_list_image L s = [tai_head (t2_type s) (t2_num s)] @ tai2_image L (take (t2_num s) (t2_tai s))"

definition tai0_ok :: "nat \<Rightarrow> tai0 \<Rightarrow> bool" where
  "tai0_ok max_tai e \<longleftrightarrow> t0_type e = 0 \<and> 0 < t0_num e \<and> t0_num e < max_tai \<and> length (t0_tac e) = max_tai \<and> length (t0_plmn_id e) = 3"

definition tai2_ok :: "nat \<Rightarrow> tai2_list \<Rightarrow> bool" where
  "tai2_ok max_tai s \<longleftrightarrow> (t2_type s = 1 \<or> t2_type s = 2) \<and> t2_num s < max_tai \<and> length (t2_tai s) = max_tai
     \<and> (\<forall>(plmn, t) \<in> set (t2_tai s). length plmn = 3)"

lemma length_from_plmn_id [simp]: "length p = 3 \<Longrightarrow> length (ogs_nas_from_plmn_id L p) = 3"
  by (simp add: ogs_nas_from_plmn_id_def)

lemma length_tac_image [simp]: "length (tac_image ts) = 2 * length ts"
  by (induction ts) simp_all

lemma length_tai0_image: "tai0_ok max_tai e \<Longrightarrow> length (tai0_image L e) = 1 + 3 + 2 * t0_num e"
  by (simp add: tai0_ok_def tai0_image_def)

lemma length_tai2_image: "\<forall>(plmn, t) \<in> set ts. length plmn = 3 \<Longrightarrow> length (tai2_image L ts) = 5 * length ts"
  by (induction L ts rule: tai2_image.induct) auto

lemma length_tai2_list_image: "tai2_ok max_tai s \<Longrightarrow> length (tai2_list_image L s) = 1 + (3 + 2) * t2_num s"
  using length_tai2_image [of "take (t2_num s) (t2_tai s)" L]
  by (auto simp: tai2_ok_def tai2_list_image_def dest: in_set_takeD)

text \<open>The longest prefix of a list of elements that fits into the room that is left.\<close>

definition fits :: "nat \<Rightarrow> u8 list list \<Rightarrow> nat \<Rightarrow> bool" where
  "fits used xs k \<longleftrightarrow> k \<le> length xs \<and> used + length (concat (take k xs)) \<le> OGS_NAS_MAX_TAI_LIST_LEN
     \<and> (k < length xs \<longrightarrow> used + length (concat (take (Suc k) xs)) > OGS_NAS_MAX_TAI_LIST_LEN)"

lemma fits_Cons:
  "fits used (x # xs) (Suc k) \<longleftrightarrow> used + length x \<le> OGS_NAS_MAX_TAI_LIST_LEN \<and> fits (used + length x) xs k"
  by (auto simp: fits_def)

lemma fits_append_last:
  "fits used xs (length xs) \<Longrightarrow> fits (used + length (concat xs)) [y] k \<Longrightarrow> fits used (xs @ [y]) (length xs + k)"
  by (auto simp: fits_def)

lemma fits_append_more: "fits used xs k \<Longrightarrow> k < length xs \<Longrightarrow> fits used (xs @ ys) k"
  by (auto simp: fits_def)

lemma tai0_loop_fits:
  "\<forall>e \<in> set es. tai0_ok max_tai e \<Longrightarrow> t0_num z = 0 \<Longrightarrow> length buffer \<le> OGS_NAS_MAX_TAI_LIST_LEN \<Longrightarrow>
   \<exists>k. fits (length buffer) (map (tai0_image L) es) k
     \<and> tai0_loop L max_tai (es @ z # zs) buffer = Inr (k < length es, buffer @ concat (take k (map (tai0_image L) es)))"
proof (induction es arbitrary: buffer)
  case Nil
  then show ?case by (intro exI [of _ 0]) (simp add: fits_def)
next
  case (Cons e es)
  have e: "tai0_ok max_tai e" using Cons.prems(1) by simp
  note len = length_tai0_image [OF e, of L]
  show ?case
  proof (cases "length buffer + length (tai0_image L e) \<le> OGS_NAS_MAX_TAI_LIST_LEN")
    case False
    then show ?thesis
      using e len Cons.prems(3) by (intro exI [of _ 0]) (simp add: fits_def tai0_ok_def)
  next
    case True
    then obtain k where k: "fits (length buffer + length (tai0_image L e)) (map (tai0_image L) es) k"
      "tai0_loop L max_tai (es @ z # zs) (buffer @ tai0_image L e)
        = Inr (k < length es, buffer @ tai0_image L e @ concat (take k (map (tai0_image L) es)))"
      using Cons.IH [of "buffer @ tai0_image L e"] Cons.prems(1,2) by auto
    moreover have "tai0_loop L max_tai ((e # es) @ z # zs) buffer = tai0_loop L max_tai (es @ z # zs) (buffer @ tai0_image L e)"
      using e len True by (simp add: tai0_ok_def) (simp add: tai0_image_def)
    ultimately show ?thesis using True by (intro exI [of _ "Suc k"]) (simp add: fits_Cons)
  qed
qed

text \<open>(C35) The tracking area list is the longest prefix of its elements that fits: for lists the
  configuration admits, the buffer holds the elements of the first list in their order and then that
  of the second, as many as 96 octets allow, never a part of one; the function does not fail.\<close>

theorem tai_list_reference:
  assumes es: "\<forall>e \<in> set es. tai0_ok max_tai e" and z: "t0_num z = 0" and s2: "t2_num s2 = 0 \<or> tai2_ok max_tai s2"
    and el: "elements = map (tai0_image L) es @ (if t2_num s2 = 0 then [] else [tai2_list_image L s2])"
  shows "\<exists>k. ogs_nas_tai_list_build L max_tai (es @ z # zs) s2 = Inr (concat (take k elements))
    \<and> k \<le> length elements \<and> length (concat (take k elements)) \<le> 96
    \<and> (k < length elements \<longrightarrow> length (concat (take (Suc k) elements)) > 96)"
proof -
  obtain k where k: "fits 0 (map (tai0_image L) es) k"
    "tai0_loop L max_tai (es @ z # zs) [] = Inr (k < length es, concat (take k (map (tai0_image L) es)))"
    using tai0_loop_fits [OF es z, of "[]" L zs] by auto
  have "\<exists>j. fits 0 elements j \<and> ogs_nas_tai_list_build L max_tai (es @ z # zs) s2 = Inr (concat (take j elements))"
  proof (cases "k < length es \<or> t2_num s2 = 0")
    case True
    then have "fits 0 elements k \<and> take k elements = take k (map (tai0_image L) es)"
      using k(1) fits_append_more [OF k(1)] by (auto simp: el fits_def)
    then show ?thesis using True k(2) by (intro exI [of _ k]) (auto simp: ogs_nas_tai_list_build_def)
  next
    case False
    then have full: "k = length es" "t2_num s2 \<noteq> 0" "tai2_ok max_tai s2" using k(1) s2 by (auto simp: fits_def)
    let ?b = "concat (map (tai0_image L) es)"
    define j where "j = (if length ?b + length (tai2_list_image L s2) > OGS_NAS_MAX_TAI_LIST_LEN then 0 else 1 :: nat)"
    have b: "length ?b \<le> OGS_NAS_MAX_TAI_LIST_LEN" using k(1) full(1) by (simp add: fits_def)
    have "fits (0 + length ?b) [tai2_list_image L s2] j" using b by (auto simp: fits_def j_def)
    then have "fits 0 elements (length es + j)"
      using fits_append_last [of 0 "map (tai0_image L) es" "tai2_list_image L s2" j] k(1) full by (simp add: el)
    moreover have "ogs_nas_tai_list_build L max_tai (es @ z # zs) s2 = Inr (concat (take (length es + j) elements))"
      using full k(2) length_tai2_list_image [OF full(3), of L]
      by (auto simp: ogs_nas_tai_list_build_def el j_def tai2_ok_def tai2_list_image_def)
    ultimately show ?thesis by blast
  qed
  then show ?thesis by (auto simp: fits_def OGS_NAS_MAX_TAI_LIST_LEN_def)
qed

definition demo_layout :: plmn_layout where
  "demo_layout = \<lparr>pl_mnc1 = (\<lambda>p. drop_bit 4 (p ! 1)), pl_mnc2 = (\<lambda>p. p ! 2 AND 0xF), pl_mnc3 = (\<lambda>p. drop_bit 4 (p ! 2)),
     pl_set_mnc = (\<lambda>a b c p. [p ! 0, push_bit 4 a OR (p ! 1 AND 0xF), push_bit 4 c OR b])\<rparr>"

definition demo_tai0 :: "nat \<Rightarrow> tai0" where
  "demo_tai0 n = \<lparr>t0_type = 0, t0_num = n, t0_plmn_id = [0x21, 0x63, 0x54], t0_tac = replicate 16 12\<rparr>"

definition demo_tai2 :: tai2_list where
  "demo_tai2 = \<lparr>t2_type = 2, t2_num = 2, t2_tai = replicate 16 ([0x21, 0x63, 0x54], 7)\<rparr>"

theorem tai_list_reference_witness:
  "\<exists>bs. ogs_nas_tai_list_build demo_layout 16 [demo_tai0 2, demo_tai0 0] demo_tai2 = Inr bs \<and> length bs \<le> 96"
proof -
  have ok: "\<forall>e \<in> set [demo_tai0 2]. tai0_ok 16 e" "t0_num (demo_tai0 0) = 0" "t2_num demo_tai2 = 0 \<or> tai2_ok 16 demo_tai2"
    by (simp_all add: demo_tai0_def tai0_ok_def demo_tai2_def tai2_ok_def)
  from tai_list_reference [OF ok refl, of demo_layout "[]"] show ?thesis by auto
qed

subsection \<open>The IMSI of a received element\<close>

text \<open>Only the lengths 1 to 8 are safe: with an array of sixteen octets the conversion terminates the digits
  after the number the length and the parity give, and with every other length, which a received
  element is free to have, it writes or reads outside the array.\<close>

theorem imsi_to_bcd_lengths:
  assumes "length (imsi_digits imsi) = 15" and "length bcd = 16"
  shows "ogs_nas_imsi_to_bcd imsi n bcd =
    (if 1 \<le> unat n \<and> unat n \<le> 8
     then Inr ((map (\<lambda>d. 48 + d) (imsi_digits imsi) @ drop 15 bcd)[2 * unat n - (if imsi_odd imsi then 1 else 2) := 0])
     else Inl Out_Of_Bounds)"
proof -
  define m where "m = unat n"
  show ?thesis
    unfolding ogs_nas_imsi_to_bcd_def m_def [symmetric]
    using assms by (auto simp: Let_def array_read_def array_write_def nat_diff_distrib' nat_mult_distrib)
qed

theorem imsi_to_bcd_lengths_witness:
  "ogs_nas_imsi_to_bcd \<lparr>imsi_digits = replicate 15 1, imsi_odd = True\<rparr> 200 (replicate 16 0) = Inl Out_Of_Bounds"
  using imsi_to_bcd_lengths [of "\<lparr>imsi_digits = replicate 15 1, imsi_odd = True\<rparr>" "replicate 16 0" 200] by simp

end
