(* ===== verification/Nas_Security.thy ===== *)
theory Nas_Security
  imports Prelude
begin

text \<open>
  The protection of NAS messages by the MME: \<^verbatim>\<open>src/src/mme/nas-security.c\<close> and the reception of a NAS
  message in \<^verbatim>\<open>src/src/mme/s1ap-path.c\<close>. The ciphers and the packet buffers belong to the base
  library and are fields of the environment, as is the encoder of plain messages. A packet buffer
  is the octets before and after its data pointer: the calculation of a MAC uses the octets before
  the message and overwrites what lies there.
\<close>

subsection \<open>Data\<close>

record pkbuf =
  pk_head :: "u8 list"
  pk_data :: "u8 list"

record 'b nas_message =
  nm_security_header_type :: u8
  nm_protocol_discriminator :: u8
  nm_body :: 'b

text \<open>The part of \<^verbatim>\<open>mme_ue_t\<close> that the protection reads and writes; \<open>ul_count\<close> is the \<^verbatim>\<open>i32\<close> view of the union.\<close>

record nas_ue =
  security_context_available :: bool
  mac_failed :: bool
  knas_int :: "u8 list"
  knas_enc :: "u8 list"
  dl_count :: u32
  ul_count :: u32
  selected_enc_algorithm :: u8
  selected_int_algorithm :: u8

record nas_security_header_type =
  integrity_protected :: bool
  ciphered :: bool
  new_security_context :: bool
  service_request :: bool

text \<open>
  Snow 3G, AES and ZUC of the base library, without the length argument, which is that of the data; the
  packet buffer's operations, null when they fail; the plain encoder, null when it returns an
  error; what an array holds before it is written; and whether an event can be made and queued.
\<close>

record 'b nas_env =
  snow_3g_f8 :: "u8 list \<Rightarrow> u32 \<Rightarrow> u32 \<Rightarrow> u8 \<Rightarrow> u8 list \<Rightarrow> u8 list"
  snow_3g_f9 :: "u8 list \<Rightarrow> u32 \<Rightarrow> u32 \<Rightarrow> u8 \<Rightarrow> u8 list \<Rightarrow> u8 list"
  aes_ctr128_encrypt :: "u8 list \<Rightarrow> u8 list \<Rightarrow> u8 list \<Rightarrow> u8 list"
  aes_cmac_calculate :: "u8 list \<Rightarrow> u8 list \<Rightarrow> u8 list"
  zuc_eea3 :: "u8 list \<Rightarrow> u32 \<Rightarrow> u32 \<Rightarrow> u8 \<Rightarrow> u8 list \<Rightarrow> u8 list"
  zuc_eia3 :: "u8 list \<Rightarrow> u32 \<Rightarrow> u32 \<Rightarrow> u8 \<Rightarrow> u8 list \<Rightarrow> u32"
  pkbuf_push :: "pkbuf \<Rightarrow> nat \<Rightarrow> pkbuf option"
  pkbuf_pull :: "pkbuf \<Rightarrow> nat \<Rightarrow> pkbuf option"
  pkbuf_trim :: "pkbuf \<Rightarrow> nat \<Rightarrow> pkbuf"
  pkbuf_put_data :: "pkbuf \<Rightarrow> u8 list \<Rightarrow> pkbuf"
  plain_encode :: "'b nas_message \<Rightarrow> pkbuf option res"
  raw_mac :: "u8 list"
  raw_headroom :: "u8 list"
  nas_event_new_ok :: bool
  nas_queue_push_ok :: bool

definition NAS_SECURITY_BEARER :: u8 where "NAS_SECURITY_BEARER = 0"
definition NAS_SECURITY_DOWNLINK_DIRECTION :: u8 where "NAS_SECURITY_DOWNLINK_DIRECTION = 1"
definition NAS_SECURITY_UPLINK_DIRECTION :: u8 where "NAS_SECURITY_UPLINK_DIRECTION = 0"
definition NAS_SECURITY_MAC_SIZE :: nat where "NAS_SECURITY_MAC_SIZE = 4"

text \<open>The fields \<^verbatim>\<open>sqn\<close> and \<^verbatim>\<open>overflow\<close> of the union \<^verbatim>\<open>ul_count\<close>: the lowest octet and the two above it.\<close>

definition ul_sqn :: "u32 \<Rightarrow> u8" where "ul_sqn c = ucast c"

definition ul_overflow_inc :: "u32 \<Rightarrow> u32" where
  "ul_overflow_inc c = (c AND 0xFF0000FF) OR push_bit 8 (ucast (ucast (drop_bit 8 c) + 1 :: u16))"

definition ul_set_sqn :: "u8 \<Rightarrow> u32 \<Rightarrow> u32" where
  "ul_set_sqn n c = (c AND 0xFFFFFF00) OR ucast n"

text \<open>Both receive paths move the count the same way.\<close>

definition ul_count_receive :: "u8 \<Rightarrow> u32 \<Rightarrow> u32" where
  "ul_count_receive n c = ul_set_sqn n (if ul_sqn c > n then ul_overflow_inc c else c)"

subsection \<open>Algorithms\<close>

definition nas_ivec :: "u32 \<Rightarrow> u8 \<Rightarrow> u8 \<Rightarrow> nat \<Rightarrow> u8 list" where
  "nas_ivec count bearer direction n =
     bytes32 (htonl count) @ [push_bit 3 bearer OR push_bit 2 direction] @ replicate (n - 5) 0"

text \<open>The MAC is written over \<open>mac\<close>; the null algorithm leaves it as it was.\<close>

definition nas_mac_calculate ::
  "('b, 'z) nas_env_scheme \<Rightarrow> u8 \<Rightarrow> u8 list \<Rightarrow> u32 \<Rightarrow> u8 \<Rightarrow> u8 \<Rightarrow> pkbuf \<Rightarrow> u8 list \<Rightarrow> (pkbuf \<times> u8 list) res" where
  "nas_mac_calculate E algorithm_identity key count bearer direction p mac =
     ebind (ogs_assert (bearer \<le> 0x1f)) (\<lambda>_.
     ebind (ogs_assert (direction = 0 \<or> direction = 1)) (\<lambda>_.
     ebind (ogs_assert (pk_data p \<noteq> [])) (\<lambda>_.
     if algorithm_identity = 1 then
       Inr (p, snow_3g_f9 E key count (push_bit 27 (ucast bearer)) direction (pk_data p))
     else if algorithm_identity = 2 then
       (case pkbuf_push E p 8 of
          None \<Rightarrow> Inl Out_Of_Bounds
        | Some p \<Rightarrow>
            let p = p\<lparr>pk_data := nas_ivec count bearer direction 8 @ drop 8 (pk_data p)\<rparr>;
                mac = take 4 (aes_cmac_calculate E key (pk_data p)) in
            (case pkbuf_pull E p 8 of None \<Rightarrow> Inl Out_Of_Bounds | Some p \<Rightarrow> Inr (p, mac)))
     else if algorithm_identity = 3 then
       Inr (p, bytes32 (ntohl (zuc_eia3 E key count (ucast bearer) direction (pk_data p))))
     else if algorithm_identity = 0 then Inr (p, mac)
     else Inl Assert_Failed)))"

definition nas_encrypt ::
  "('b, 'z) nas_env_scheme \<Rightarrow> u8 \<Rightarrow> u8 list \<Rightarrow> u32 \<Rightarrow> u8 \<Rightarrow> u8 \<Rightarrow> pkbuf \<Rightarrow> pkbuf res" where
  "nas_encrypt E algorithm_identity key count bearer direction p =
     ebind (ogs_assert (bearer \<le> 0x1f)) (\<lambda>_.
     ebind (ogs_assert (direction = 0 \<or> direction = 1)) (\<lambda>_.
     ebind (ogs_assert (pk_data p \<noteq> [])) (\<lambda>_.
     if algorithm_identity = 1 then
       Inr (p\<lparr>pk_data := snow_3g_f8 E key count (ucast bearer) direction (pk_data p)\<rparr>)
     else if algorithm_identity = 2 then
       Inr (p\<lparr>pk_data := aes_ctr128_encrypt E key (nas_ivec count bearer direction 16) (pk_data p)\<rparr>)
     else if algorithm_identity = 3 then
       Inr (p\<lparr>pk_data := zuc_eea3 E key count (ucast bearer) direction (pk_data p)\<rparr>)
     else if algorithm_identity = 0 then Inr p
     else Inl Assert_Failed)))"

subsection \<open>Downlink\<close>

text \<open>What the security header type asks for: integrity, a new context, ciphering.\<close>

definition encode_flags :: "u8 \<Rightarrow> (bool \<times> bool \<times> bool) option" where
  "encode_flags ty =
     (if ty = 1 then Some (True, False, False) else if ty = 2 then Some (True, False, True)
      else if ty = 3 then Some (True, True, False) else if ty = 4 then Some (True, True, True) else None)"

definition nas_header_image :: "u8 \<Rightarrow> u8 \<Rightarrow> u8 list \<Rightarrow> u8 \<Rightarrow> u8 list" where
  "nas_header_image ty pd mac sqn = [push_bit 4 ty OR (pd AND 0xF)] @ mac @ [sqn]"

text \<open>
  A message that is protected, under the current downlink count, and the count moved on. The result of
  the encoder is the return value, true for \<^verbatim>\<open>OGS_OK\<close>, the packet, if one was assigned, and the user.
\<close>

definition nas_protected_encode ::
  "('b, 'z) nas_env_scheme \<Rightarrow> nas_ue \<Rightarrow> bool \<Rightarrow> bool \<Rightarrow> 'b nas_message \<Rightarrow> (bool \<times> pkbuf option \<times> nas_ue) res" where
  "nas_protected_encode E ue integ ciph message =
     (let sqn = ucast (dl_count ue AND 0xff) in
      ebind (ebind (plain_encode E message) non_null) (\<lambda>p.
      ebind (if ciph then nas_encrypt E (selected_enc_algorithm ue) (knas_enc ue) (dl_count ue) NAS_SECURITY_BEARER
               NAS_SECURITY_DOWNLINK_DIRECTION p else Inr p) (\<lambda>p.
      ebind (non_null (pkbuf_push E p 1)) (\<lambda>p.
      let p = p\<lparr>pk_data := sqn # drop 1 (pk_data p)\<rparr> in
      ebind (if integ then nas_mac_calculate E (selected_int_algorithm ue) (knas_int ue) (dl_count ue) NAS_SECURITY_BEARER
               NAS_SECURITY_DOWNLINK_DIRECTION p (raw_mac E) else Inr (p, replicate NAS_SECURITY_MAC_SIZE 0)) (\<lambda>(p, mac).
      let ue = ue\<lparr>dl_count := (dl_count ue + 1) AND 0xffffff\<rparr> in
      ebind (non_null (pkbuf_push E p 5)) (\<lambda>p.
      let p = p\<lparr>pk_data := nas_header_image (nm_security_header_type message) (nm_protocol_discriminator message) mac sqn
            @ drop 6 (pk_data p)\<rparr> in
      Inr (True, Some p, ue\<lparr>security_context_available := True\<rparr>)))))))"

definition nas_security_encode ::
  "('b, 'z) nas_env_scheme \<Rightarrow> nas_ue \<Rightarrow> 'b nas_message \<Rightarrow> (bool \<times> pkbuf option \<times> nas_ue) res" where
  "nas_security_encode E ue message =
     (if nm_security_header_type message = 0 then
        ebind (plain_encode E message) (\<lambda>r. Inr (r \<noteq> None, r, ue))
      else case encode_flags (nm_security_header_type message) of
        None \<Rightarrow> Inr (False, None, ue)
      | Some (integ, fresh, ciph) \<Rightarrow>
        let ue = (if fresh then ue\<lparr>dl_count := 0, ul_count := 0\<rparr> else ue);
            ciph = (ciph \<and> selected_enc_algorithm ue \<noteq> 0);
            integ = (integ \<and> selected_int_algorithm ue \<noteq> 0) in
        if ciph \<or> integ then nas_protected_encode E ue integ ciph message else Inr (True, None, ue))"

subsection \<open>Uplink\<close>

text \<open>The Service Request carries five bits of the sequence number and half of the MAC.\<close>

definition short_sqn :: "u8 \<Rightarrow> u8 \<Rightarrow> u8" where
  "short_sqn sqn low = low + (if sqn AND 0x1f > low then (sqn AND 0xe0) + 0x20 else sqn AND 0xe0)"

definition nas_service_decode ::
  "('b, 'z) nas_env_scheme \<Rightarrow> nas_ue \<Rightarrow> pkbuf \<Rightarrow> (bool \<times> pkbuf \<times> nas_ue) res" where
  "nas_service_decode E ue p =
     (if selected_int_algorithm ue = 0 then Inr (False, p, ue)
      else
        ebind (array_read (pk_data p) 1) (\<lambda>ksi_and_sequence_number.
        let ue = ue\<lparr>ul_count := ul_count_receive (short_sqn (ul_sqn (ul_count ue)) (ksi_and_sequence_number AND 0x1f)) (ul_count ue)\<rparr> in
        ebind (array_read (pk_data p) 2) (\<lambda>m2.
        ebind (array_read (pk_data p) 3) (\<lambda>m3.
        ebind (nas_mac_calculate E (selected_int_algorithm ue) (knas_int ue) (ul_count ue) NAS_SECURITY_BEARER
          NAS_SECURITY_UPLINK_DIRECTION (pkbuf_trim E p 2) (raw_mac E)) (\<lambda>(p, mac).
        let p = pkbuf_put_data E p [m2, m3] in
        Inr (True, p, if take 2 (drop 2 mac) \<noteq> take 2 (drop 2 (pk_data p)) then ue\<lparr>mac_failed := True\<rparr> else ue))))))"

text \<open>
  The part for a message with a security header. The header is read where it was left by the
  reception; the MAC in it is written back after the calculation, which may have overwritten it.
\<close>

definition nas_protected_decode ::
  "('b, 'z) nas_env_scheme \<Rightarrow> nas_ue \<Rightarrow> bool \<Rightarrow> bool \<Rightarrow> pkbuf \<Rightarrow> (bool \<times> pkbuf \<times> nas_ue) res" where
  "nas_protected_decode E ue integ ciph p =
     ebind (non_null (pkbuf_push E p 6)) (\<lambda>p.
     let original_mac = take 4 (drop 1 (pk_data p)) in
     ebind (array_read (pk_data p) 5) (\<lambda>sqn.
     ebind (non_null (pkbuf_pull E p 5)) (\<lambda>p.
     let ue = ue\<lparr>ul_count := ul_count_receive sqn (ul_count ue)\<rparr> in
     ebind (if integ then
         ebind (nas_mac_calculate E (selected_int_algorithm ue) (knas_int ue) (ul_count ue) NAS_SECURITY_BEARER
           NAS_SECURITY_UPLINK_DIRECTION p (raw_mac E)) (\<lambda>(p, mac).
         let p = p\<lparr>pk_head := take (length (pk_head p) - 4) (pk_head p) @ original_mac\<rparr> in
         Inr (p, if original_mac \<noteq> mac then ue\<lparr>mac_failed := True\<rparr> else ue))
       else Inr (p, ue)) (\<lambda>(p, ue).
     ebind (non_null (pkbuf_pull E p 1)) (\<lambda>p.
     ebind (if ciph then nas_encrypt E (selected_enc_algorithm ue) (knas_enc ue) (ul_count ue) NAS_SECURITY_BEARER
              NAS_SECURITY_UPLINK_DIRECTION p else Inr p) (\<lambda>p.
     Inr (True, p, ue)))))))"

definition nas_security_decode ::
  "('b, 'z) nas_env_scheme \<Rightarrow> nas_ue \<Rightarrow> nas_security_header_type \<Rightarrow> pkbuf \<Rightarrow> (bool \<times> pkbuf \<times> nas_ue) res" where
  "nas_security_decode E ue ty p =
     (if service_request ty then nas_service_decode E ue p
      else
        let ty = (if security_context_available ue then ty
                  else ty\<lparr>integrity_protected := False, new_security_context := False, ciphered := False\<rparr>);
            ue = (if new_security_context ty then ue\<lparr>ul_count := 0\<rparr> else ue);
            ciph = (ciphered ty \<and> selected_enc_algorithm ue \<noteq> 0);
            integ = (integrity_protected ty \<and> selected_int_algorithm ue \<noteq> 0) in
        if ciph \<or> integ then nas_protected_decode E ue integ ciph p else Inr (True, p, ue))"

subsection \<open>Reception\<close>

definition no_security :: nas_security_header_type where
  "no_security = \<lparr>integrity_protected = False, ciphered = False, new_security_context = False, service_request = False\<rparr>"

text \<open>The type of the event and whether the security header is taken off, by the header type.\<close>

definition receive_flags :: "u8 \<Rightarrow> (nas_security_header_type \<times> bool) option" where
  "receive_flags ty =
     (if ty = 0 then Some (no_security, False)
      else if ty = 12 then Some (no_security\<lparr>service_request := True\<rparr>, False)
      else map_option (\<lambda>(i, f, c). (no_security\<lparr>integrity_protected := i, new_security_context := f, ciphered := c\<rparr>, True))
             (encode_flags ty))"

datatype nas_event = MME_EVT_EMM_MESSAGE nas_security_header_type pkbuf | MME_EVT_ESM_MESSAGE pkbuf

definition nas_event_push :: "('b, 'z) nas_env_scheme \<Rightarrow> nas_event \<Rightarrow> nas_event list res" where
  "nas_event_push E e =
     ebind (ogs_assert (nas_event_new_ok E)) (\<lambda>_. Inr (if nas_queue_push_ok E then [e] else []))"

text \<open>The user is that of the S1 context, if it has one already. The result is the return value, the events queued, the user.\<close>

definition s1ap_send_to_nas ::
  "('b, 'z) nas_env_scheme \<Rightarrow> nas_ue option \<Rightarrow> u8 list \<Rightarrow> (bool \<times> nas_event list \<times> nas_ue option) res" where
  "s1ap_send_to_nas E uo pdu =
     (let nasbuf = \<lparr>pk_head = raw_headroom E, pk_data = pdu\<rparr> in
      ebind (array_read (pk_data nasbuf) 0) (\<lambda>sh.
      case receive_flags (drop_bit 4 sh) of
        None \<Rightarrow> Inr (False, [], uo)
      | Some (ty, off) \<Rightarrow>
        ebind (if off then non_null (pkbuf_pull E nasbuf 6) else Inr nasbuf) (\<lambda>nasbuf.
        ebind (case uo of
            None \<Rightarrow> Inr (nasbuf, None)
          | Some ue \<Rightarrow> ebind (nas_security_decode E ue ty nasbuf) (\<lambda>(rv, p, ue). ebind (ogs_assert rv) (\<lambda>_. Inr (p, Some ue))))
          (\<lambda>(nasbuf, uo).
        ebind (array_read (pk_data nasbuf) 0) (\<lambda>h.
        if h AND 0xF = 7 then
          ebind (nas_event_push E (MME_EVT_EMM_MESSAGE ty nasbuf)) (\<lambda>es. Inr (True, es, uo))
        else if h AND 0xF = 2 then
          ebind (non_null uo) (\<lambda>_. ebind (nas_event_push E (MME_EVT_ESM_MESSAGE nasbuf)) (\<lambda>es. Inr (True, es, uo)))
        else Inl Assert_Failed)))))"

end
