(* ===== verification/Nas_Props.thy ===== *)
theory Nas_Props
  imports Nas_Security
begin

text \<open>
  What the protection of NAS messages achieves: the counts of both directions, the recovery of a
  protected message, the check of its MAC, and what a damaged message does to the state.
\<close>

subsection \<open>Counts\<close>

text \<open>A NAS count is a 16-bit overflow counter and an 8-bit sequence number.\<close>

definition nas_count :: "u16 \<Rightarrow> u8 \<Rightarrow> u32" where
  "nas_count h l = push_bit 8 (ucast h) OR ucast l"

lemma octet_bit: "8 \<le> i \<Longrightarrow> \<not> bit (l :: u8) i" and half_bit: "16 \<le> i \<Longrightarrow> \<not> bit (h :: u16) i"
  by (auto dest: bit_imp_le_length)

lemma octet_bounds: "unat (l :: u8) < 256" "unat (h :: u16) < 65536"
  using unsigned_less [of l] unsigned_less [of h] by simp_all

lemma ul_sqn_nas_count [simp]: "ul_sqn (nas_count h l) = l"
  by (rule bit_word_eqI) (simp add: ul_sqn_def nas_count_def bit_simps)

lemma ul_set_sqn_nas_count [simp]: "ul_set_sqn n (nas_count h l) = nas_count h n"
proof (rule bit_word_eqI)
  have mask: "(0xFFFFFF00 :: u32) = push_bit 8 (mask 24)" by (simp add: mask_eq_exp_minus_1)
  fix i assume "i < LENGTH(32)"
  then show "bit (ul_set_sqn n (nas_count h l)) i = bit (nas_count h n) i"
    by (cases "i < 8") (auto simp: ul_set_sqn_def nas_count_def mask bit_simps octet_bit)
qed

lemma ul_overflow_inc_nas_count [simp]: "ul_overflow_inc (nas_count h l) = nas_count (h + 1) l"
proof (rule bit_word_eqI)
  have mask: "(0xFF0000FF :: u32) = push_bit 24 (mask 8) OR mask 8" by (simp add: mask_eq_exp_minus_1)
  have h: "ucast (drop_bit 8 (nas_count h l)) = h"
    by (rule bit_word_eqI) (auto simp: nas_count_def bit_simps octet_bit)
  fix i assume "i < LENGTH(32)"
  then show "bit (ul_overflow_inc (nas_count h l)) i = bit (nas_count (h + 1) l) i"
    unfolding ul_overflow_inc_def h
    by (cases "i < 8"; cases "i < 24") (auto simp: nas_count_def mask bit_simps octet_bit half_bit)
qed

lemma unat_nas_count: "unat (nas_count h l) = unat h * 256 + unat l"
proof -
  have "push_bit 8 (ucast h) AND (ucast l :: u32) = 0"
    by (rule bit_word_eqI) (auto simp: bit_simps octet_bit)
  then have "nas_count h l = ucast h * 256 + ucast l"
    using word_plus_and_or [of "push_bit 8 (ucast h)" "ucast l :: u32"] by (simp add: nas_count_def push_bit_eq_mult)
  then have "unat (nas_count h l) = (unat h * 256 mod 2 ^ 32 + unat l) mod 2 ^ 32"
    using octet_bounds(1) [of l] octet_bounds(2) [of h] by (simp add: unat_word_ariths unsigned_ucast_eq take_bit_nat_eq_self)
  also have "\<dots> = unat h * 256 + unat l" using octet_bounds(1) [of l] octet_bounds(2) [of h] by (simp add: mod_less)
  finally show ?thesis .
qed

lemma nas_count_cases:
  assumes "unat c < 2 ^ 24"
  obtains h l where "c = nas_count h l"
proof
  show "c = nas_count (of_nat (unat c div 256)) (of_nat (unat c mod 256))"
    by (rule word_unat_eq_iff [THEN iffD2]) (use assms in \<open>simp add: unat_nas_count unat_of_nat\<close>)
qed

lemma unat_count_receive:
  "unat (ul_count_receive n (nas_count h l)) =
     (if n < l then (unat h + 1) mod 65536 * 256 + unat n else unat h * 256 + unat n)"
  by (simp add: ul_count_receive_def unat_nas_count unat_word_ariths)

lemma count_step:
  fixes h l k :: nat
  assumes "h < 65536" "l < 256" "k < 256"
  shows "(if (l + k) mod 256 < l then (h + 1) mod 65536 * 256 + (l + k) mod 256 else h * 256 + (l + k) mod 256)
    = (h * 256 + l + k) mod 2 ^ 24"
proof (cases "l + k < 256")
  case True
  then show ?thesis using assms by simp
next
  case False
  then have s: "(l + k) mod 256 = l + k - 256" "l + k - 256 < l" using assms by (simp_all add: mod_if)
  have "(h + 1) mod 65536 * 256 + (l + k - 256) = (h * 256 + l + k) mod 2 ^ 24"
  proof (cases "h = 65535")
    case True
    then have "h * 256 + l + k = 2 ^ 24 + (l + k - 256)" using False by simp
    then show ?thesis using True assms by (simp add: mod_if)
  next
    case h: False
    then show ?thesis using assms False by simp
  qed
  then show ?thesis using s by simp
qed

text \<open>The count advances by the distance to the received sequence number, below 256, modulo \<open>2 ^ 24\<close>.\<close>

lemma count_receive_advance:
  assumes "unat c < 2 ^ 24" "k < 256"
  shows "unat (ul_count_receive (ul_sqn c + of_nat k) c) = (unat c + k) mod 2 ^ 24"
proof -
  obtain h l where c: "c = nas_count h l" using nas_count_cases assms(1) by blast
  have n: "unat (l + of_nat k :: u8) = (unat l + k) mod 256"
    using assms(2) by (simp add: unat_word_ariths unat_of_nat)
  show ?thesis
    using count_step [OF octet_bounds(2) [of h] octet_bounds(1) [of l] assms(2)]
    by (simp add: c unat_count_receive word_less_nat_alt n unat_nas_count split: if_splits)
qed

lemma advanced_count:
  assumes "unat base < 2 ^ 24" "k < 256" "c = of_nat ((unat base + k) mod 2 ^ 24)"
  shows "ucast c = ul_sqn base + of_nat k" "c = ul_count_receive (ul_sqn base + of_nat k) base"
proof -
  have u: "unat c = (unat base + k) mod 2 ^ 24" using assms(3) by (simp add: unat_of_nat mod_mod_cancel)
  show "ucast c = ul_sqn base + of_nat k"
    by (rule word_unat_eq_iff [THEN iffD2]) (simp add: u ul_sqn_def unat_word_ariths unat_of_nat unsigned_ucast_eq take_bit_eq_mod mod_simps mod_mod_cancel)
  show "c = ul_count_receive (ul_sqn base + of_nat k) base"
    by (rule word_unat_eq_iff [THEN iffD2]) (simp only: count_receive_advance [OF assms(1,2)] u)
qed

lemma low_five: "unat (w AND 0x1f :: u8) = unat w mod 32" and high_three: "unat (w AND 0xe0 :: u8) = unat w div 32 * 32"
proof -
  have "w AND 0x1f = take_bit 5 w" by (simp add: take_bit_eq_mask mask_eq_exp_minus_1)
  then show "unat (w AND 0x1f) = unat w mod 32" by (simp add: take_bit_eq_mod unat_mod_distrib)
  have mask: "(0xe0 :: u8) = push_bit 5 (mask 3)" by (simp add: mask_eq_exp_minus_1)
  have "w AND 0xe0 = push_bit 5 (drop_bit 5 w)"
    unfolding mask by (intro bit_word_eqI) (auto simp: bit_simps octet_bit)
  moreover have "unat (drop_bit 5 w) = unat w div 32" by (simp add: drop_bit_eq_div unat_div_distrib)
  ultimately show "unat (w AND 0xe0) = unat w div 32 * 32"
    using octet_bounds(1) [of w] by (simp add: push_bit_eq_mult unat_word_ariths)
qed

lemma short_step:
  fixes s k :: nat
  assumes "s < 256" "k < 32"
  shows "((s + k) mod 32 + (if (s + k) mod 32 < s mod 32 then (s div 32 * 32 + 32) mod 256 else s div 32 * 32)) mod 256 = (s + k) mod 256"
proof -
  define q r where "q = s div 32" and "r = s mod 32"
  have s: "s = q * 32 + r" "r < 32" "q < 8" using assms(1) by (simp_all add: q_def r_def)
  have m: "(s + k) mod 32 = (r + k) mod 32" by (simp add: r_def mod_simps)
  show ?thesis
  proof (cases "r + k < 32")
    case True
    then show ?thesis using s m by simp
  next
    case False
    then have "(r + k) mod 32 = r + k - 32" "r + k - 32 < r" using s assms(2) by (simp_all add: mod_if)
    moreover have "(r + k - 32 + (q * 32 + 32) mod 256) mod 256 = (r + k - 32 + (q * 32 + 32)) mod 256"
      by (rule mod_add_right_eq)
    moreover have "r + k - 32 + (q * 32 + 32) = q * 32 + r + k" using False by simp
    ultimately show ?thesis using s m by simp
  qed
qed

lemma short_sqn_advance: "k < 32 \<Longrightarrow> short_sqn sqn ((sqn + of_nat k) AND 0x1f) = sqn + of_nat k"
proof (rule word_unat_eq_iff [THEN iffD2])
  assume k: "k < 32"
  define n where "n = sqn + of_nat k"
  have sum: "unat n = (unat sqn + k) mod 256" using k by (simp add: n_def unat_word_ariths unat_of_nat)
  have low: "unat (n AND 0x1f) = (unat sqn + k) mod 32" by (simp add: low_five sum mod_mod_cancel)
  have "unat (short_sqn sqn (n AND 0x1f)) = unat n"
    using short_step [OF octet_bounds(1) [of sqn] k]
    by (simp add: short_sqn_def word_less_nat_alt low low_five [of sqn] high_three unat_word_ariths sum split: if_splits)
  then show "unat (short_sqn sqn ((sqn + of_nat k) AND 0x1f)) = unat (sqn + of_nat k)" by (simp add: n_def)
qed

subsection \<open>The environment\<close>

text \<open>
  What the code relies on: packet buffers with the layout of their data, ciphers that are undone by
  a second application with the same arguments and keep the length, MACs of the documented length,
  sixteen octets of headroom.
\<close>

definition nas_env_ok :: "('b, 'z) nas_env_scheme \<Rightarrow> bool" where
  "nas_env_ok E \<longleftrightarrow>
     (\<forall>p n. pkbuf_push E p n = (if n \<le> length (pk_head p)
        then Some \<lparr>pk_head = take (length (pk_head p) - n) (pk_head p), pk_data = drop (length (pk_head p) - n) (pk_head p) @ pk_data p\<rparr>
        else None))
   \<and> (\<forall>p n. pkbuf_pull E p n = (if n \<le> length (pk_data p)
        then Some \<lparr>pk_head = pk_head p @ take n (pk_data p), pk_data = drop n (pk_data p)\<rparr> else None))
   \<and> (\<forall>p n. n \<le> length (pk_data p) \<longrightarrow> pkbuf_trim E p n = p\<lparr>pk_data := take n (pk_data p)\<rparr>)
   \<and> (\<forall>p bs. pkbuf_put_data E p bs = p\<lparr>pk_data := pk_data p @ bs\<rparr>)
   \<and> (\<forall>k c b d x. snow_3g_f8 E k c b d (snow_3g_f8 E k c b d x) = x \<and> length (snow_3g_f8 E k c b d x) = length x)
   \<and> (\<forall>k v x. aes_ctr128_encrypt E k v (aes_ctr128_encrypt E k v x) = x \<and> length (aes_ctr128_encrypt E k v x) = length x)
   \<and> (\<forall>k c b d x. zuc_eea3 E k c b d (zuc_eea3 E k c b d x) = x \<and> length (zuc_eea3 E k c b d x) = length x)
   \<and> (\<forall>k c b d x. length (snow_3g_f9 E k c b d x) = 4) \<and> (\<forall>k x. length (aes_cmac_calculate E k x) = 16)
   \<and> length (raw_headroom E) = 16"

lemma pkbuf_laws:
  assumes "nas_env_ok E"
  shows "pkbuf_push E p n = (if n \<le> length (pk_head p)
        then Some \<lparr>pk_head = take (length (pk_head p) - n) (pk_head p), pk_data = drop (length (pk_head p) - n) (pk_head p) @ pk_data p\<rparr>
        else None)"
    "pkbuf_pull E p n = (if n \<le> length (pk_data p)
        then Some \<lparr>pk_head = pk_head p @ take n (pk_data p), pk_data = drop n (pk_data p)\<rparr> else None)"
    "n \<le> length (pk_data p) \<Longrightarrow> pkbuf_trim E p n = p\<lparr>pk_data := take n (pk_data p)\<rparr>"
    "pkbuf_put_data E p bs = p\<lparr>pk_data := pk_data p @ bs\<rparr>"
    "length (raw_headroom E) = 16"
  using assms by (simp_all add: nas_env_ok_def)

text \<open>The algorithms as functions of the data.\<close>

definition nas_cipher :: "('b, 'z) nas_env_scheme \<Rightarrow> u8 \<Rightarrow> u8 list \<Rightarrow> u32 \<Rightarrow> u8 \<Rightarrow> u8 list \<Rightarrow> u8 list" where
  "nas_cipher E alg key count direction x =
     (if alg = 1 then snow_3g_f8 E key count 0 direction x
      else if alg = 2 then aes_ctr128_encrypt E key (nas_ivec count 0 direction 16) x
      else if alg = 3 then zuc_eea3 E key count 0 direction x else x)"

definition nas_mac :: "('b, 'z) nas_env_scheme \<Rightarrow> u8 \<Rightarrow> u8 list \<Rightarrow> u32 \<Rightarrow> u8 \<Rightarrow> u8 list \<Rightarrow> u8 list" where
  "nas_mac E alg key count direction x =
     (if alg = 1 then snow_3g_f9 E key count 0 direction x
      else if alg = 2 then take 4 (aes_cmac_calculate E key (nas_ivec count 0 direction 8 @ x))
      else bytes32 (ntohl (zuc_eia3 E key count 0 direction x)))"

lemma nas_cipher_laws:
  assumes "nas_env_ok E"
  shows "nas_cipher E alg key count direction (nas_cipher E alg key count direction x) = x"
    "length (nas_cipher E alg key count direction x) = length x"
  using assms by (simp_all add: nas_cipher_def nas_env_ok_def)

lemma nas_cipher_Nil:
  assumes "nas_env_ok E"
  shows "nas_cipher E alg key count direction x = [] \<longleftrightarrow> x = []"
  using nas_cipher_laws(2) [OF assms, of alg key count direction x] by (metis length_0_conv)

lemma length_nas_mac: "nas_env_ok E \<Longrightarrow> length (nas_mac E alg key count direction x) = 4"
  by (simp add: nas_mac_def nas_env_ok_def)

lemma length_nas_ivec [simp]: "5 \<le> n \<Longrightarrow> length (nas_ivec count bearer direction n) = n"
  by (simp add: nas_ivec_def)

definition known_alg :: "u8 \<Rightarrow> bool" where "known_alg alg \<longleftrightarrow> alg = 1 \<or> alg = 2 \<or> alg = 3"

lemma nas_encrypt_eq:
  assumes "alg = 0 \<or> known_alg alg" "direction = 0 \<or> direction = 1" "pk_data p \<noteq> []"
  shows "nas_encrypt E alg key count NAS_SECURITY_BEARER direction p = Inr (p\<lparr>pk_data := nas_cipher E alg key count direction (pk_data p)\<rparr>)"
  using assms by (auto simp: nas_encrypt_def nas_cipher_def NAS_SECURITY_BEARER_def known_alg_def)

text \<open>The MAC is that of the data; the octets before the data may be lost, at most eight.\<close>

lemma nas_mac_calculate_eq:
  assumes E: "nas_env_ok E" and "known_alg alg" "direction = 0 \<or> direction = 1" "pk_data p \<noteq> []" and head: "8 \<le> length (pk_head p)"
  obtains hd where "length hd = length (pk_head p)" "take (length hd - 8) hd = take (length hd - 8) (pk_head p)"
    "nas_mac_calculate E alg key count NAS_SECURITY_BEARER direction p m = Inr (p\<lparr>pk_head := hd\<rparr>, nas_mac E alg key count direction (pk_data p))"
proof (cases "alg = 2")
  case True
  have "nas_mac_calculate E alg key count NAS_SECURITY_BEARER direction p m =
      Inr (p\<lparr>pk_head := take (length (pk_head p) - 8) (pk_head p) @ nas_ivec count 0 direction 8\<rparr>, nas_mac E alg key count direction (pk_data p))"
    using assms True by (simp add: nas_mac_calculate_def pkbuf_laws [OF E] Let_def nas_mac_def NAS_SECURITY_BEARER_def)
  then show thesis using that [of "take (length (pk_head p) - 8) (pk_head p) @ nas_ivec count 0 direction 8"] head by simp
next
  case False
  have "nas_mac_calculate E alg key count NAS_SECURITY_BEARER direction p m = Inr (p, nas_mac E alg key count direction (pk_data p))"
    using assms False by (auto simp: nas_mac_calculate_def nas_mac_def NAS_SECURITY_BEARER_def known_alg_def)
  then show thesis using that [of "pk_head p"] by simp
qed

subsection \<open>Protected messages\<close>

text \<open>
  The reference for both directions: the header, the MAC over the sequence number and the body, and
  the body, ciphered if the header type and the selected algorithm say so.
\<close>

definition nas_protect :: "('b, 'z) nas_env_scheme \<Rightarrow> nas_ue \<Rightarrow> bool \<Rightarrow> u8 \<Rightarrow> u8 \<Rightarrow> u8 \<Rightarrow> u32 \<Rightarrow> u8 list \<Rightarrow> u8 list" where
  "nas_protect E ue ciph ty pd direction c plain =
     (let body = (if ciph then nas_cipher E (selected_enc_algorithm ue) (knas_enc ue) c direction plain else plain) in
      nas_header_image ty pd (nas_mac E (selected_int_algorithm ue) (knas_int ue) c direction (ucast c # body)) (ucast c) @ body)"

definition algs_ok :: "nas_ue \<Rightarrow> bool" where
  "algs_ok ue \<longleftrightarrow> known_alg (selected_int_algorithm ue) \<and> (selected_enc_algorithm ue = 0 \<or> known_alg (selected_enc_algorithm ue))"

lemma encrypt_if_eq:
  assumes "algs_ok ue" "direction = 0 \<or> direction = 1" "pk_data p \<noteq> []"
  shows "(if ciph \<and> selected_enc_algorithm ue \<noteq> 0 then nas_encrypt E (selected_enc_algorithm ue) key c NAS_SECURITY_BEARER direction p else Inr p)
    = Inr (p\<lparr>pk_data := if ciph then nas_cipher E (selected_enc_algorithm ue) key c direction (pk_data p) else pk_data p\<rparr>)"
  using assms nas_encrypt_eq [of "selected_enc_algorithm ue" direction p E key c] by (auto simp: algs_ok_def nas_cipher_def)

lemma int_alg_nonzero [simp]: "algs_ok ue \<Longrightarrow> selected_int_algorithm ue \<noteq> 0"
  by (auto simp: algs_ok_def known_alg_def)

lemma protected_decode:
  assumes E: "nas_env_ok E" and alg: "algs_ok ue"
    and p: "pk_head p = hd0 @ [oct] @ mac @ [sqn]" "length mac = 4" "3 \<le> length hd0" "pk_data p \<noteq> []"
    and c: "c = ul_count_receive sqn (ul_count ue)"
  shows "\<exists>h. nas_protected_decode E ue True (ciph \<and> selected_enc_algorithm ue \<noteq> 0) p = Inr (True,
      \<lparr>pk_head = h, pk_data = if ciph then nas_cipher E (selected_enc_algorithm ue) (knas_enc ue) c 0 (pk_data p) else pk_data p\<rparr>,
      ue\<lparr>ul_count := c, mac_failed := mac_failed ue \<or> mac \<noteq> nas_mac E (selected_int_algorithm ue) (knas_int ue) c 0 (sqn # pk_data p)\<rparr>)"
proof -
  obtain a b d e where mac: "mac = [a, b, d, e]" using p(2) by (auto simp: length_Suc_conv numeral_eq_Suc)
  define q where "q = \<lparr>pk_head = hd0 @ [oct] @ mac, pk_data = sqn # pk_data p\<rparr>"
  have push: "pkbuf_push E p 6 = Some \<lparr>pk_head = hd0, pk_data = [oct] @ mac @ [sqn] @ pk_data p\<rparr>"
    using p by (simp add: pkbuf_laws [OF E])
  have pull: "pkbuf_pull E \<lparr>pk_head = hd0, pk_data = [oct] @ mac @ [sqn] @ pk_data p\<rparr> 5 = Some q"
    by (simp add: pkbuf_laws [OF E] q_def mac)
  have "8 \<le> length (pk_head q)" "pk_data q \<noteq> []" using p(2,3) by (simp_all add: q_def)
  then obtain hd where hd: "nas_mac_calculate E (selected_int_algorithm ue) (knas_int ue) c NAS_SECURITY_BEARER 0 q (raw_mac E)
      = Inr (q\<lparr>pk_head := hd\<rparr>, nas_mac E (selected_int_algorithm ue) (knas_int ue) c 0 (sqn # pk_data p))"
    using nas_mac_calculate_eq [OF E, of "selected_int_algorithm ue" 0 q "knas_int ue" c "raw_mac E"] alg
    by (auto simp: algs_ok_def q_def)
  define ue1 where "ue1 = ue\<lparr>ul_count := c, mac_failed := mac_failed ue \<or> mac \<noteq> nas_mac E (selected_int_algorithm ue) (knas_int ue) c 0 (sqn # pk_data p)\<rparr>"
  have ue1: "algs_ok ue1" "selected_enc_algorithm ue1 = selected_enc_algorithm ue" "knas_enc ue1 = knas_enc ue" "ul_count ue1 = c"
    using alg by (simp_all add: ue1_def algs_ok_def)
  define r where "r = \<lparr>pk_head = take (length hd - 4) hd @ mac @ [sqn], pk_data = pk_data p\<rparr>"
  have next_step: "nas_protected_decode E ue True (ciph \<and> selected_enc_algorithm ue \<noteq> 0) p
      = ebind (if ciph \<and> selected_enc_algorithm ue1 \<noteq> 0 then nas_encrypt E (selected_enc_algorithm ue1) (knas_enc ue1) c NAS_SECURITY_BEARER 0 r
          else Inr r) (\<lambda>p. Inr (True, p, ue1))"
    unfolding nas_protected_decode_def push
    using pull hd
    by (auto simp: Let_def c [symmetric] mac NAS_SECURITY_UPLINK_DIRECTION_def q_def pkbuf_laws(2) [OF E] r_def ue1_def)
  have "pk_data r \<noteq> []" using p(4) by (simp add: r_def)
  from encrypt_if_eq [OF ue1(1) _ this, of 0 ciph E "knas_enc ue1" c] show ?thesis
    unfolding next_step by (simp add: ue1 r_def) (simp add: ue1_def)
qed

lemma decode_protected:
  assumes E: "nas_env_ok E" and alg: "algs_ok ue" and avail: "security_context_available ue"
    and ty: "\<not> service_request ty" "integrity_protected ty"
    and p: "pk_head p = hd0 @ [oct] @ mac @ [sqn]" "length mac = 4" "3 \<le> length hd0" "pk_data p \<noteq> []"
    and c: "c = ul_count_receive sqn (if new_security_context ty then 0 else ul_count ue)"
  shows "\<exists>h. nas_security_decode E ue ty p = Inr (True,
      \<lparr>pk_head = h, pk_data = if ciphered ty then nas_cipher E (selected_enc_algorithm ue) (knas_enc ue) c 0 (pk_data p) else pk_data p\<rparr>,
      ue\<lparr>ul_count := c, mac_failed := mac_failed ue \<or> mac \<noteq> nas_mac E (selected_int_algorithm ue) (knas_int ue) c 0 (sqn # pk_data p)\<rparr>)"
proof -
  define ue0 where "ue0 = (if new_security_context ty then ue\<lparr>ul_count := 0\<rparr> else ue)"
  have "algs_ok ue0" "c = ul_count_receive sqn (ul_count ue0)" using alg c by (simp_all add: ue0_def algs_ok_def)
  from protected_decode [OF E this(1) p this(2), of "ciphered ty"] show ?thesis
    using ty avail alg by (auto simp: nas_security_decode_def Let_def ue0_def)
qed

lemma header_nibbles:
  fixes ty pd :: u8
  assumes "ty < 16"
  shows "drop_bit 4 (push_bit 4 ty OR (pd AND 0xF)) = ty"
proof (rule bit_word_eqI)
  have low: "pd AND 0xF = take_bit 4 pd" by (simp add: take_bit_eq_mask mask_eq_exp_minus_1)
  have "take_bit 4 ty = ty"
    using assms by (intro word_unat_eq_iff [THEN iffD2]) (simp add: take_bit_eq_mod unat_mod_distrib word_less_nat_alt)
  then have high: "\<not> bit ty i" if "4 \<le> i" for i using that by (metis bit_take_bit_iff not_less)
  fix i assume "i < LENGTH(8)"
  then show "bit (drop_bit 4 (push_bit 4 ty OR (pd AND 0xF))) i = bit ty i"
    unfolding low by (cases "i < 4") (auto simp: bit_simps high)
qed

lemma encode_flags_small: "encode_flags ty = Some f \<Longrightarrow> ty < 16 \<and> ty \<noteq> 0 \<and> ty \<noteq> 12 \<and> fst f"
  by (auto simp: encode_flags_def split: if_splits)

lemma send_to_nas_protected:
  assumes E: "nas_env_ok E" and alg: "algs_ok ue" and avail: "security_context_available ue"
    and fl: "encode_flags ty = Some (True, fresh, ciph)" and body: "body \<noteq> []" and mac: "length mac = 4"
    and ok: "nas_event_new_ok E" "nas_queue_push_ok E"
    and c: "c = ul_count_receive sqn (if fresh then 0 else ul_count ue)"
    and plain: "plain = (if ciph then nas_cipher E (selected_enc_algorithm ue) (knas_enc ue) c 0 body else body)" "hd plain AND 0xF = 7"
  shows "\<exists>p. s1ap_send_to_nas E (Some ue) (nas_header_image ty pd mac sqn @ body) = Inr (True,
      [MME_EVT_EMM_MESSAGE (no_security\<lparr>integrity_protected := True, new_security_context := fresh, ciphered := ciph\<rparr>) p],
      Some (ue\<lparr>ul_count := c, mac_failed := mac_failed ue \<or> mac \<noteq> nas_mac E (selected_int_algorithm ue) (knas_int ue) c 0 (sqn # body)\<rparr>))
    \<and> pk_data p = plain"
proof -
  define pdu where "pdu = nas_header_image ty pd mac sqn @ body"
  define st where "st = no_security\<lparr>integrity_protected := True, new_security_context := fresh, ciphered := ciph\<rparr>"
  define q where "q = \<lparr>pk_head = raw_headroom E @ [push_bit 4 ty OR (pd AND 0xF)] @ mac @ [sqn], pk_data = body\<rparr>"
  note small = encode_flags_small [OF fl]
  have pull: "pkbuf_pull E \<lparr>pk_head = raw_headroom E, pk_data = pdu\<rparr> 6 = Some q"
    using mac by (simp add: pkbuf_laws [OF E] pdu_def q_def nas_header_image_def)
  have "pdu ! 0 = push_bit 4 ty OR (pd AND 0xF)" and ne: "pdu \<noteq> []" by (simp_all add: pdu_def nas_header_image_def)
  then have "drop_bit 4 (pdu ! 0) = ty" using header_nibbles small by metis
  then have flags: "receive_flags (drop_bit 4 (pdu ! 0)) = Some (st, True)"
    using small fl by (simp add: receive_flags_def st_def)
  have st: "\<not> service_request st" "integrity_protected st" "new_security_context st = fresh" "ciphered st = ciph"
    by (simp_all add: st_def no_security_def)
  obtain h where dec: "nas_security_decode E ue st q = Inr (True, \<lparr>pk_head = h, pk_data = plain\<rparr>, ue\<lparr>ul_count := c,
      mac_failed := mac_failed ue \<or> mac \<noteq> nas_mac E (selected_int_algorithm ue) (knas_int ue) c 0 (sqn # body)\<rparr>)"
    using decode_protected [OF E alg avail st(1,2), of q "raw_headroom E" "push_bit 4 ty OR (pd AND 0xF)" mac sqn c] body mac c
      pkbuf_laws(5) [OF E] by (auto simp: q_def st plain)
  have "plain \<noteq> []" using body nas_cipher_Nil [OF E] by (simp add: plain(1))
  then have "plain ! 0 AND 0xF = 7" "0 < length plain" using plain(2) by (simp_all add: hd_conv_nth)
  then show ?thesis
    using flags ne ok by (simp add: s1ap_send_to_nas_def Let_def pdu_def [symmetric] pull dec nas_event_push_def st_def [symmetric])
qed

text \<open>(C30) A message the user protected is accepted: if its count is the last one received or at most
  255 further, modulo \<open>2 ^ 24\<close>, the reception recovers the plain message and hands it on, does not
  report a wrong MAC, and takes over the count.\<close>

theorem uplink_accepted:
  assumes E: "nas_env_ok E" and alg: "algs_ok ue" and avail: "security_context_available ue"
    and fl: "encode_flags ty = Some (True, fresh, ciph)" and plain: "plain \<noteq> []" "hd plain AND 0xF = 7"
    and ok: "nas_event_new_ok E" "nas_queue_push_ok E"
    and c: "unat (ul_count ue) < 2 ^ 24" "k < 256" "c = of_nat ((unat (if fresh then 0 else ul_count ue) + k) mod 2 ^ 24)"
  shows "\<exists>st p. s1ap_send_to_nas E (Some ue) (nas_protect E ue ciph ty pd NAS_SECURITY_UPLINK_DIRECTION c plain)
      = Inr (True, [MME_EVT_EMM_MESSAGE st p], Some (ue\<lparr>ul_count := c\<rparr>)) \<and> pk_data p = plain"
proof -
  let ?base = "if fresh then 0 else ul_count ue"
  define body where "body = (if ciph then nas_cipher E (selected_enc_algorithm ue) (knas_enc ue) c 0 plain else plain)"
  have base: "unat ?base < 2 ^ 24" using c(1) by simp
  have rcv: "c = ul_count_receive (ucast c) ?base" using advanced_count [OF base c(2,3)] by simp
  have inv: "plain = (if ciph then nas_cipher E (selected_enc_algorithm ue) (knas_enc ue) c 0 body else body)"
    by (simp add: body_def nas_cipher_laws [OF E])
  have "body \<noteq> []" using plain(1) nas_cipher_Nil [OF E] by (simp add: body_def)
  from send_to_nas_protected [OF E alg avail fl this length_nas_mac [OF E] ok rcv inv plain(2), of pd
      "selected_int_algorithm ue" "knas_int ue" c 0 "ucast c # body"]
  show ?thesis by (auto simp: nas_protect_def body_def [symmetric] NAS_SECURITY_UPLINK_DIRECTION_def)
qed


subsection \<open>Service Request\<close>

lemma service_octets:
  fixes ksi low :: u8
  assumes "ksi AND 0x1f = 0"
  shows "(ksi OR (low AND 0x1f)) AND 0x1f = low AND 0x1f"
proof -
  have "(ksi OR (low AND 0x1f)) AND 0x1f = (ksi AND 0x1f) OR (low AND 0x1f AND 0x1f)"
    by (simp add: bit.conj_disj_distrib2 and.assoc)
  then show ?thesis using assms by (simp add: and.assoc)
qed

text \<open>(C32) A Service Request of the user is accepted although it carries five bits of the count only: if
  the count is the last one received or at most 31 further, the estimate is the user's count, the
  short MAC fits, and the message is handed on unchanged.\<close>

theorem service_request_accepted:
  assumes E: "nas_env_ok E" and alg: "algs_ok ue" and ok: "nas_event_new_ok E" "nas_queue_push_ok E"
    and c: "unat (ul_count ue) < 2 ^ 24" "k < 32" "c = of_nat ((unat (ul_count ue) + k) mod 2 ^ 24)"
    and pdu: "ksi AND 0x1f = 0" "pdu = [0xC7, ksi OR (ucast c AND 0x1f)]"
  shows "\<exists>p. s1ap_send_to_nas E (Some ue) (pdu @ drop 2 (nas_mac E (selected_int_algorithm ue) (knas_int ue) c NAS_SECURITY_UPLINK_DIRECTION pdu))
      = Inr (True, [MME_EVT_EMM_MESSAGE (no_security\<lparr>service_request := True\<rparr>) p], Some (ue\<lparr>ul_count := c\<rparr>))
    \<and> pk_data p = pdu @ drop 2 (nas_mac E (selected_int_algorithm ue) (knas_int ue) c NAS_SECURITY_UPLINK_DIRECTION pdu)"
proof -
  define mac where "mac = nas_mac E (selected_int_algorithm ue) (knas_int ue) c 0 pdu"
  obtain a b m2 m3 where mac: "mac = [a, b, m2, m3]"
    using length_nas_mac [OF E, of "selected_int_algorithm ue" "knas_int ue" c 0 pdu] by (auto simp: mac_def length_Suc_conv numeral_eq_Suc)
  define p where "p = \<lparr>pk_head = raw_headroom E, pk_data = pdu @ [m2, m3]\<rparr>"
  have kb: "k < 256" using c(2) by simp
  note adv = advanced_count [OF c(1) kb c(3)]
  have low: "pk_data p ! 1 AND 0x1f = (ul_sqn (ul_count ue) + of_nat k) AND 0x1f"
    using service_octets [OF pdu(1)] by (simp add: p_def pdu(2) adv(1))
  have cnt: "ul_count_receive (short_sqn (ul_sqn (ul_count ue)) (pk_data p ! 1 AND 0x1f)) (ul_count ue) = c"
    unfolding low short_sqn_advance [OF c(2)] using adv(2) by simp
  have trim: "pkbuf_trim E p 2 = \<lparr>pk_head = raw_headroom E, pk_data = pdu\<rparr>"
    by (simp add: pkbuf_laws [OF E] p_def pdu(2))
  have dir: "(0 :: u8) = 0 \<or> (0 :: u8) = 1" by simp
  have ne: "pk_data \<lparr>pk_head = raw_headroom E, pk_data = pdu\<rparr> \<noteq> []" "8 \<le> length (pk_head \<lparr>pk_head = raw_headroom E, pk_data = pdu\<rparr>)"
    using pkbuf_laws(5) [OF E] by (simp_all add: pdu(2))
  have ka: "known_alg (selected_int_algorithm ue)" using alg by (simp add: algs_ok_def)
  obtain h where h: "nas_mac_calculate E (selected_int_algorithm ue) (knas_int ue) c NAS_SECURITY_BEARER 0 \<lparr>pk_head = raw_headroom E, pk_data = pdu\<rparr> (raw_mac E)
      = Inr (\<lparr>pk_head = h, pk_data = pdu\<rparr>, mac)"
    using nas_mac_calculate_eq [OF E ka dir ne, of "knas_int ue" c "raw_mac E"] by (auto simp: mac_def)
  have dec: "nas_service_decode E ue p = Inr (True, \<lparr>pk_head = h, pk_data = pdu @ [m2, m3]\<rparr>, ue\<lparr>ul_count := c\<rparr>)"
    using alg cnt trim h mac pdu(2)
    by (simp add: nas_service_decode_def Let_def NAS_SECURITY_UPLINK_DIRECTION_def pkbuf_laws(4) [OF E]) (simp add: p_def)
  have "s1ap_send_to_nas E (Some ue) (pdu @ [m2, m3])
      = Inr (True, [MME_EVT_EMM_MESSAGE (no_security\<lparr>service_request := True\<rparr>) \<lparr>pk_head = h, pk_data = pdu @ [m2, m3]\<rparr>], Some (ue\<lparr>ul_count := c\<rparr>))"
    using dec ok pdu(2)
    by (simp add: s1ap_send_to_nas_def Let_def receive_flags_def nas_security_decode_def p_def [symmetric])
      (simp add: p_def nas_event_push_def)
  then show ?thesis by (simp add: mac_def [symmetric] mac NAS_SECURITY_UPLINK_DIRECTION_def)
qed

text \<open>A Service Request for a user without an integrity algorithm aborts the MME: the decoder
  returns an error and its caller asserts that it does not, for every message of that type.\<close>

lemma service_request_aborts:
  assumes "drop_bit 4 (hd pdu) = 12" and "pdu \<noteq> []" and "selected_int_algorithm ue = 0"
  shows "s1ap_send_to_nas E (Some ue) pdu = Inl Assert_Failed"
  using assms by (simp add: s1ap_send_to_nas_def hd_conv_nth receive_flags_def nas_security_decode_def nas_service_decode_def)

subsection \<open>Downlink\<close>

text \<open>A sequence of messages to one user, in the order they are sent.\<close>

fun nas_encode_all :: "('b, 'z) nas_env_scheme \<Rightarrow> nas_ue \<Rightarrow> 'b nas_message list \<Rightarrow> (pkbuf list \<times> nas_ue) res" where
  "nas_encode_all E ue [] = Inr ([], ue)"
| "nas_encode_all E ue (m # ms) =
     ebind (nas_security_encode E ue m) (\<lambda>(rv, r, ue).
     ebind (non_null r) (\<lambda>p.
     ebind (nas_encode_all E ue ms) (\<lambda>(ps, ue). Inr (p # ps, ue))))"

definition encodes_to :: "('b, 'z) nas_env_scheme \<Rightarrow> 'b nas_message \<Rightarrow> u8 list \<Rightarrow> bool" where
  "encodes_to E m plain \<longleftrightarrow> (\<exists>p. plain_encode E m = Inr (Some p) \<and> 16 \<le> length (pk_head p) \<and> pk_data p = plain \<and> plain \<noteq> [])"

lemma encode_protected:
  assumes E: "nas_env_ok E" and alg: "algs_ok ue" and fl: "encode_flags (nm_security_header_type m) = Some (True, False, ciph)"
    and m: "encodes_to E m plain"
  shows "\<exists>p. nas_security_encode E ue m
      = Inr (True, Some p, ue\<lparr>dl_count := (dl_count ue + 1) AND 0xffffff, security_context_available := True\<rparr>)
    \<and> pk_data p = nas_protect E ue ciph (nm_security_header_type m) (nm_protocol_discriminator m) 1 (dl_count ue) plain"
proof -
  obtain p0 where p0: "plain_encode E m = Inr (Some p0)" "16 \<le> length (pk_head p0)" "pk_data p0 = plain" "plain \<noteq> []"
    using m by (auto simp: encodes_to_def)
  define body where "body = (if ciph then nas_cipher E (selected_enc_algorithm ue) (knas_enc ue) (dl_count ue) 1 plain else plain)"
  define sqn :: u8 where "sqn = ucast (dl_count ue AND 0xff)"
  have mask: "(0xff :: u32) = mask 8" by (simp add: mask_eq_exp_minus_1)
  have sqn: "sqn = ucast (dl_count ue)"
    unfolding sqn_def mask by (rule bit_word_eqI) (auto simp: bit_simps)
  define p1 where "p1 = \<lparr>pk_head = take (length (pk_head p0) - 1) (pk_head p0), pk_data = sqn # body\<rparr>"
  have enc: "(if ciph \<and> selected_enc_algorithm ue \<noteq> 0 then nas_encrypt E (selected_enc_algorithm ue) (knas_enc ue) (dl_count ue) NAS_SECURITY_BEARER
      NAS_SECURITY_DOWNLINK_DIRECTION p0 else Inr p0) = Inr (p0\<lparr>pk_data := body\<rparr>)"
    using encrypt_if_eq [OF alg, of 1 p0 ciph E "knas_enc ue" "dl_count ue"] p0(3,4)
    unfolding body_def NAS_SECURITY_DOWNLINK_DIRECTION_def by blast
  have push: "pkbuf_push E (p0\<lparr>pk_data := body\<rparr>) 1 = Some \<lparr>pk_head = pk_head p1, pk_data = drop (length (pk_head p0) - 1) (pk_head p0) @ body\<rparr>"
    using p0 by (simp add: pkbuf_laws [OF E] p1_def)
  have ka: "known_alg (selected_int_algorithm ue)" using alg by (simp add: algs_ok_def)
  have pre: "(1 :: u8) = 0 \<or> (1 :: u8) = 1" "pk_data p1 \<noteq> []" "8 \<le> length (pk_head p1)" using p0(2) by (simp_all add: p1_def)
  obtain h where h: "length h = length (pk_head p1)"
    "nas_mac_calculate E (selected_int_algorithm ue) (knas_int ue) (dl_count ue) NAS_SECURITY_BEARER 1 p1 (raw_mac E)
      = Inr (p1\<lparr>pk_head := h\<rparr>, nas_mac E (selected_int_algorithm ue) (knas_int ue) (dl_count ue) 1 (sqn # body))"
    using nas_mac_calculate_eq [OF E ka pre, of "knas_int ue" "dl_count ue" "raw_mac E"] by (auto simp: p1_def)
  have d1: "drop 1 (drop (length (pk_head p0) - 1) (pk_head p0) @ body) = body" using p0(2) by simp
  define p2 where "p2 = \<lparr>pk_head = take (length h - 5) h, pk_data = drop (length h - 5) h @ sqn # body\<rparr>"
  have push5: "pkbuf_push E (p1\<lparr>pk_head := h\<rparr>) 5 = Some p2"
    using h(1) p0(2) by (simp add: pkbuf_laws [OF E] p2_def p1_def)
  have d6: "drop 6 (pk_data p2) = body" using h(1) p0(2) by (simp add: p2_def p1_def numeral_eq_Suc)
  define p3 where "p3 = p2\<lparr>pk_data := nas_header_image (nm_security_header_type m) (nm_protocol_discriminator m)
    (nas_mac E (selected_int_algorithm ue) (knas_int ue) (dl_count ue) 1 (sqn # body)) sqn @ body\<rparr>"
  have "nas_protected_encode E ue True (ciph \<and> selected_enc_algorithm ue \<noteq> 0) m
      = Inr (True, Some p3, ue\<lparr>dl_count := (dl_count ue + 1) AND 0xffffff, security_context_available := True\<rparr>)"
    unfolding nas_protected_encode_def p0(1) ebind_Inr non_null_Some enc Let_def push sqn_def [symmetric]
    using h(2) push5 d1 d6 by (simp add: p1_def NAS_SECURITY_DOWNLINK_DIRECTION_def p3_def)
  moreover have "pk_data p3 = nas_protect E ue ciph (nm_security_header_type m) (nm_protocol_discriminator m) 1 (dl_count ue) plain"
    by (simp add: p3_def nas_protect_def Let_def body_def sqn)
  moreover have "nas_security_encode E ue m = nas_protected_encode E ue True (ciph \<and> selected_enc_algorithm ue \<noteq> 0) m"
    using encode_flags_small [OF fl] fl alg by (simp add: nas_security_encode_def)
  ultimately show ?thesis by simp
qed

lemma next_dl_count:
  fixes c :: u32
  assumes "unat c < 2 ^ 24"
  shows "unat ((c + 1) AND 0xffffff) = (unat c + 1) mod 2 ^ 24"
proof -
  have "(c + 1) AND 0xffffff = take_bit 24 (c + 1)" by (simp add: take_bit_eq_mask mask_eq_exp_minus_1)
  then show ?thesis using assms by (simp add: take_bit_eq_mod unat_mod_distrib unat_word_ariths)
qed

lemma encode_all_protected:
  assumes E: "nas_env_ok E"
  shows "algs_ok ue \<Longrightarrow> unat (dl_count ue) < 2 ^ 24 \<Longrightarrow> length plains = length ms \<Longrightarrow>
    (\<And>i. i < length ms \<Longrightarrow> encode_flags (nm_security_header_type (ms ! i)) = Some (True, False, ciph i) \<and> encodes_to E (ms ! i) (plains ! i)) \<Longrightarrow>
    \<exists>ps ue'. nas_encode_all E ue ms = Inr (ps, ue') \<and> length ps = length ms
      \<and> unat (dl_count ue') = (unat (dl_count ue) + length ms) mod 2 ^ 24
      \<and> (\<forall>i < length ms. pk_data (ps ! i) = nas_protect E ue (ciph i) (nm_security_header_type (ms ! i)) (nm_protocol_discriminator (ms ! i))
           1 (of_nat ((unat (dl_count ue) + i) mod 2 ^ 24)) (plains ! i))"
proof (induction ms arbitrary: ue plains ciph)
  case (Cons m ms)
  obtain pl pls where pl: "plains = pl # pls" "length pls = length ms" using Cons.prems(3) by (cases plains) auto
  define ue1 where "ue1 = ue\<lparr>dl_count := (dl_count ue + 1) AND 0xffffff, security_context_available := True\<rparr>"
  obtain p where p: "nas_security_encode E ue m = Inr (True, Some p, ue1)"
      "pk_data p = nas_protect E ue (ciph 0) (nm_security_header_type m) (nm_protocol_discriminator m) 1 (dl_count ue) pl"
    using encode_protected [OF E Cons.prems(1), of m "ciph 0" pl] Cons.prems(4) [of 0] by (auto simp: ue1_def pl)
  have u1: "algs_ok ue1" "unat (dl_count ue1) = (unat (dl_count ue) + 1) mod 2 ^ 24"
    using Cons.prems(1) next_dl_count [OF Cons.prems(2)] by (simp_all add: ue1_def algs_ok_def)
  have small: "unat (dl_count ue1) < 2 ^ 24" by (simp add: u1(2))
  have each: "encode_flags (nm_security_header_type (ms ! i)) = Some (True, False, ciph (Suc i)) \<and> encodes_to E (ms ! i) (pls ! i)"
    if "i < length ms" for i using Cons.prems(4) [of "Suc i"] that by (simp add: pl)
  obtain ps ue' where rest: "nas_encode_all E ue1 ms = Inr (ps, ue')" "length ps = length ms"
      "unat (dl_count ue') = (unat (dl_count ue1) + length ms) mod 2 ^ 24"
      "\<forall>i < length ms. pk_data (ps ! i) = nas_protect E ue1 (ciph (Suc i)) (nm_security_header_type (ms ! i)) (nm_protocol_discriminator (ms ! i))
           1 (of_nat ((unat (dl_count ue1) + i) mod 2 ^ 24)) (pls ! i)"
    using Cons.IH [OF u1(1) small pl(2), of "\<lambda>i. ciph (Suc i)"] each by blast
  have same: "nas_protect E ue1 = nas_protect E ue" by (simp add: nas_protect_def ue1_def fun_eq_iff)
  have "of_nat (unat (dl_count ue) mod 2 ^ 24) = dl_count ue" using Cons.prems(2) by simp
  then have "\<forall>i < Suc (length ms). pk_data ((p # ps) ! i) = nas_protect E ue (ciph i) (nm_security_header_type ((m # ms) ! i))
      (nm_protocol_discriminator ((m # ms) ! i)) 1 (of_nat ((unat (dl_count ue) + i) mod 2 ^ 24)) (plains ! i)"
    using p(2) rest(4) same by (auto simp: less_Suc_eq_0_disj pl u1(2) mod_simps)
  then show ?case using p(1) rest(1-3) by (simp add: u1(2) mod_simps)
qed simp

text \<open>(C31) No count protects two downlink messages of a security context: the messages sent one after the
  other leave as the reference says, the first under the current count and each further one under
  the next, modulo \<open>2 ^ 24\<close>, so up to \<open>2 ^ 24\<close> messages the counts, and with them the inputs of the
  ciphers, are pairwise different.\<close>

theorem downlink_counts:
  assumes "nas_env_ok E" and "algs_ok ue" and "unat (dl_count ue) < 2 ^ 24" and "length plains = length ms"
    and "\<And>i. i < length ms \<Longrightarrow> encode_flags (nm_security_header_type (ms ! i)) = Some (True, False, ciph i) \<and> encodes_to E (ms ! i) (plains ! i)"
    and count: "\<And>i. count i = of_nat ((unat (dl_count ue) + i) mod 2 ^ 24)"
  shows "\<exists>ps ue'. nas_encode_all E ue ms = Inr (ps, ue') \<and> length ps = length ms
    \<and> (\<forall>i < length ms. pk_data (ps ! i) = nas_protect E ue (ciph i) (nm_security_header_type (ms ! i)) (nm_protocol_discriminator (ms ! i))
         NAS_SECURITY_DOWNLINK_DIRECTION (count i) (plains ! i))
    \<and> (length ms \<le> 2 ^ 24 \<longrightarrow> inj_on count {..<length ms})"
proof -
  have unat: "unat (count i) = (unat (dl_count ue) + i) mod 2 ^ 24" for i
    by (simp add: count unat_of_nat mod_mod_cancel)
  have "inj_on count {..<length ms}" if len: "length ms \<le> 2 ^ 24"
  proof (rule inj_onI)
    fix i j assume ij: "i \<in> {..<length ms}" "j \<in> {..<length ms}" and "count i = count j"
    then have "(unat (dl_count ue) + i) mod 2 ^ 24 = (unat (dl_count ue) + j) mod 2 ^ 24" by (metis unat)
    then have "i mod 2 ^ 24 = j mod 2 ^ 24" by (simp add: nat_mod_eq_iff)
    then show "i = j" using ij len by simp
  qed
  then show ?thesis
    using encode_all_protected [OF assms(1-4), of ciph] assms(5) by (auto simp: count NAS_SECURITY_DOWNLINK_DIRECTION_def)
qed

subsection \<open>An instance\<close>

text \<open>A keystream of one octet, a MAC that adds up the octets, and a user with AES for both.\<close>

definition toy_cipher :: "u32 \<Rightarrow> u8 list \<Rightarrow> u8 list" where
  "toy_cipher c = map (\<lambda>x. x XOR ucast c)"

definition demo_nas :: "u8 list nas_env" where
  "demo_nas = \<lparr>snow_3g_f8 = (\<lambda>k c b d. toy_cipher c), snow_3g_f9 = (\<lambda>k c b d x. bytes32 (c + ucast (sum_list x))),
     aes_ctr128_encrypt = (\<lambda>k v. map (\<lambda>x. x XOR (v ! 3))), aes_cmac_calculate = (\<lambda>k x. replicate 16 (sum_list x)),
     zuc_eea3 = (\<lambda>k c b d. toy_cipher c), zuc_eia3 = (\<lambda>k c b d x. c + ucast (sum_list x)),
     pkbuf_push = (\<lambda>p n. if n \<le> length (pk_head p)
        then Some \<lparr>pk_head = take (length (pk_head p) - n) (pk_head p), pk_data = drop (length (pk_head p) - n) (pk_head p) @ pk_data p\<rparr>
        else None),
     pkbuf_pull = (\<lambda>p n. if n \<le> length (pk_data p)
        then Some \<lparr>pk_head = pk_head p @ take n (pk_data p), pk_data = drop n (pk_data p)\<rparr> else None),
     pkbuf_trim = (\<lambda>p n. p\<lparr>pk_data := take n (pk_data p)\<rparr>), pkbuf_put_data = (\<lambda>p bs. p\<lparr>pk_data := pk_data p @ bs\<rparr>),
     plain_encode = (\<lambda>m. Inr (Some \<lparr>pk_head = replicate 16 0, pk_data = nm_body m\<rparr>)),
     raw_mac = [1, 2, 3, 4], raw_headroom = replicate 16 9, nas_event_new_ok = True, nas_queue_push_ok = True\<rparr>"

lemma demo_nas_ok: "nas_env_ok demo_nas" "nas_event_new_ok demo_nas" "nas_queue_push_ok demo_nas"
  by (simp_all add: nas_env_ok_def demo_nas_def toy_cipher_def comp_def xor.assoc)

definition demo_user :: nas_ue where
  "demo_user = \<lparr>security_context_available = True, mac_failed = False, knas_int = [1], knas_enc = [2], dl_count = 0xffffff,
     ul_count = 0x1fe, selected_enc_algorithm = 2, selected_int_algorithm = 2\<rparr>"

lemma demo_user_sel [simp]:
  "algs_ok demo_user" "security_context_available demo_user" "ul_count demo_user = 0x1fe" "dl_count demo_user = 0xffffff"
  "selected_int_algorithm demo_user = 2" "selected_enc_algorithm demo_user = 2" "mac_failed demo_user = False"
  by (simp_all add: algs_ok_def known_alg_def demo_user_def)


theorem uplink_accepted_witness:
  "\<exists>st p. s1ap_send_to_nas demo_nas (Some demo_user) (nas_protect demo_nas demo_user True 2 7 NAS_SECURITY_UPLINK_DIRECTION 0x203 [7, 70, 1])
      = Inr (True, [MME_EVT_EMM_MESSAGE st p], Some (demo_user\<lparr>ul_count := 0x203\<rparr>)) \<and> pk_data p = [7, 70, 1]"
  by (rule uplink_accepted [OF demo_nas_ok(1) _ _ _ _ _ demo_nas_ok(2,3), where k = 5 and fresh = False])
    (simp_all add: encode_flags_def)


theorem service_request_accepted_witness:
  "\<exists>p. s1ap_send_to_nas demo_nas (Some demo_user)
      ([0xC7, 0x63] @ drop 2 (nas_mac demo_nas 2 (knas_int demo_user) 0x203 NAS_SECURITY_UPLINK_DIRECTION [0xC7, 0x63]))
      = Inr (True, [MME_EVT_EMM_MESSAGE (no_security\<lparr>service_request := True\<rparr>) p], Some (demo_user\<lparr>ul_count := 0x203\<rparr>))"
  using service_request_accepted [OF demo_nas_ok(1) demo_user_sel(1) demo_nas_ok(2,3), of 5 "0x203" "0x60" "[0xC7, 0x63]"] by auto

lemma service_request_aborts_instance:
  "s1ap_send_to_nas demo_nas (Some (demo_user\<lparr>selected_int_algorithm := 0\<rparr>)) [0xC7, 0x63, 1, 2] = Inl Assert_Failed"
  using service_request_aborts [of "[0xC7, 0x63, 1, 2]" "demo_user\<lparr>selected_int_algorithm := 0\<rparr>" demo_nas] by simp

definition demo_dl :: "u8 list nas_message" where
  "demo_dl = \<lparr>nm_security_header_type = 2, nm_protocol_discriminator = 7, nm_body = [7, 68]\<rparr>"

theorem downlink_counts_witness:
  "\<exists>ps ue'. nas_encode_all demo_nas demo_user [demo_dl, demo_dl] = Inr (ps, ue')
    \<and> pk_data (ps ! 0) = nas_protect demo_nas demo_user True 2 7 NAS_SECURITY_DOWNLINK_DIRECTION 0xffffff [7, 68]
    \<and> pk_data (ps ! 1) = nas_protect demo_nas demo_user True 2 7 NAS_SECURITY_DOWNLINK_DIRECTION 0 [7, 68]"
proof -
  have each: "encode_flags (nm_security_header_type ([demo_dl, demo_dl] ! i)) = Some (True, False, True)
      \<and> encodes_to demo_nas ([demo_dl, demo_dl] ! i) ([[7, 68], [7, 68]] ! i)" if "i < length [demo_dl, demo_dl]" for i
    using that by (cases i) (simp_all add: demo_dl_def encode_flags_def encodes_to_def demo_nas_def)
  have small: "unat (dl_count demo_user) < 2 ^ 24" by simp
  from downlink_counts [OF demo_nas_ok(1) demo_user_sel(1) small, of "[[7, 68], [7, 68]]" "[demo_dl, demo_dl]" "\<lambda>_. True", OF _ each refl]
  show ?thesis by (auto simp: less_Suc_eq_0_disj demo_dl_def)
qed

end
