(* ===== verification/Pgw_Message.thy ===== *)
theory Pgw_Message
  imports Gtp_Node
begin

text \<open>
  The messages of the packet gateway: the GTPv2-C messages of the S5/S8 interface with the information
  elements this gateway reads or sets (\<^verbatim>\<open>src/lib/gtp/message.h\<close>) and the Gx message with its PCC rules
  (\<^verbatim>\<open>src/lib/diameter/gx/message.h\<close>). An element that may be absent is an option. Encoding into
  type-length-value form is left to the environment.
\<close>

subsection \<open>Quality of service and addresses\<close>

record ogs_qos =
  oq_qci :: u8
  oq_priority_level :: u8
  oq_pre_emption_capability :: u8
  oq_pre_emption_vulnerability :: u8
  oq_mbr_downlink :: u64
  oq_mbr_uplink :: u64
  oq_gbr_downlink :: u64
  oq_gbr_uplink :: u64

text \<open>The PDN address allocation: its type octet and the member of its union that was written.\<close>

datatype paa_union =
    Paa_Ipv4 u32
  | Paa_Ipv6 u8 "u32 list"
  | Paa_Both u8 "u32 list" u32

record ogs_paa =
  paa_type :: u8
  paa_addr :: paa_union

datatype paa_len = OGS_PAA_IPV4_LEN | OGS_PAA_IPV6_LEN | OGS_PAA_IPV4V6_LEN

abbreviation (input) "OGS_GTP_PDN_TYPE_IPV4 \<equiv> (1::u8)"
abbreviation (input) "OGS_GTP_PDN_TYPE_IPV6 \<equiv> (2::u8)"
abbreviation (input) "OGS_GTP_PDN_TYPE_IPV4V6 \<equiv> (3::u8)"
abbreviation (input) "OGS_GTP_APN_NO_RESTRICTION \<equiv> (0::u8)"
abbreviation (input) "GTP_CAUSE_ACCEPTED \<equiv> (16::u8)"
abbreviation (input) "F_TEID_S5_S8_PGW_GTP_U \<equiv> (5::u8)"
abbreviation (input) "F_TEID_S5_S8_PGW_GTP_C \<equiv> (7::u8)"

subsection \<open>GTP messages\<close>

record s5_bearer_context =
  sbc_eps_bearer_id :: "u8 option"
  sbc_cause :: "u8 option"
  sbc_s5_s8_u_sgw_f_teid :: "f_teid option"
  sbc_s5_s8_u_pgw_f_teid :: "f_teid option"
  sbc_bearer_level_qos :: "u8 list option"
  sbc_tft :: "u8 list option"

definition no_bearer_context :: s5_bearer_context where
  "no_bearer_context = \<lparr>sbc_eps_bearer_id = None, sbc_cause = None, sbc_s5_s8_u_sgw_f_teid = None,
     sbc_s5_s8_u_pgw_f_teid = None, sbc_bearer_level_qos = None, sbc_tft = None\<rparr>"

text \<open>The aggregate maximum bit rate: uplink and downlink, in network order as they were received.\<close>

record s5_create_session_request =
  scq_imsi :: "u8 list option"
  scq_access_point_name :: "u8 list option"
  scq_sender_f_teid :: "f_teid option"
  scq_pdn_type :: "u8 option"
  scq_ambr :: "(u32 \<times> u32) option"
  scq_user_location_information :: "u8 list option"
  scq_pco :: "u8 list option"
  scq_bearer_contexts :: "s5_bearer_context option"

record s5_create_session_response =
  scp_cause :: u8
  scp_pgw_s5c_f_teid :: f_teid
  scp_paa :: "ogs_paa \<times> paa_len"
  scp_apn_restriction :: u8
  scp_pco :: "u8 list option"
  scp_bearer_contexts :: s5_bearer_context

record s5_delete_session_request =
  sdq_linked_eps_bearer_id :: "u8 option"
  sdq_pco :: "u8 list option"

datatype s5_body =
    S5_Create_Session_Request s5_create_session_request
  | S5_Create_Session_Response s5_create_session_response
  | S5_Delete_Session_Request s5_delete_session_request
  | S5_Delete_Session_Response u8 "u8 list option"
  | S5_Create_Bearer_Request u8 s5_bearer_context
  | S5_Create_Bearer_Response "s5_bearer_context option"
  | S5_Update_Bearer_Request s5_bearer_context
  | S5_Update_Bearer_Response "s5_bearer_context option"
  | S5_Delete_Bearer_Request "u8 option" "u8 option"
  | S5_Delete_Bearer_Response "s5_bearer_context option"
  | S5_Other_Message u8 "u8 list"

fun s5_type :: "s5_body \<Rightarrow> u8" where
  "s5_type (S5_Create_Session_Request _) = OGS_GTP_CREATE_SESSION_REQUEST_TYPE"
| "s5_type (S5_Create_Session_Response _) = OGS_GTP_CREATE_SESSION_RESPONSE_TYPE"
| "s5_type (S5_Delete_Session_Request _) = OGS_GTP_DELETE_SESSION_REQUEST_TYPE"
| "s5_type (S5_Delete_Session_Response _ _) = OGS_GTP_DELETE_SESSION_RESPONSE_TYPE"
| "s5_type (S5_Create_Bearer_Request _ _) = OGS_GTP_CREATE_BEARER_REQUEST_TYPE"
| "s5_type (S5_Create_Bearer_Response _) = OGS_GTP_CREATE_BEARER_RESPONSE_TYPE"
| "s5_type (S5_Update_Bearer_Request _) = OGS_GTP_UPDATE_BEARER_REQUEST_TYPE"
| "s5_type (S5_Update_Bearer_Response _) = OGS_GTP_UPDATE_BEARER_RESPONSE_TYPE"
| "s5_type (S5_Delete_Bearer_Request _ _) = OGS_GTP_DELETE_BEARER_REQUEST_TYPE"
| "s5_type (S5_Delete_Bearer_Response _) = OGS_GTP_DELETE_BEARER_RESPONSE_TYPE"
| "s5_type (S5_Other_Message t _) = t"

text \<open>A parsed message: the header fields the gateway reads, with the TEID in host order, and the body.\<close>

record s5_message =
  sm_teid :: u32
  sm_sqn :: u32
  sm_body :: s5_body

subsection \<open>Gx messages\<close>

datatype pcc_rule_type = OGS_PCC_RULE_TYPE_INSTALL | OGS_PCC_RULE_TYPE_REMOVE | Pcc_Rule_Type_Other

record ogs_flow =
  fl_direction :: u8
  fl_description :: "string option"

record ogs_pcc_rule =
  pr_type :: pcc_rule_type
  pr_name :: "string option"
  pr_flow :: "ogs_flow list"
  pr_flow_status :: u32
  pr_precedence :: u32
  pr_qos :: ogs_qos

record gx_message =
  gx_cmd_code :: u32
  gx_result_code :: u32
  gx_cc_request_type :: u32
  gx_ambr_uplink :: u64
  gx_ambr_downlink :: u64
  gx_qos :: ogs_qos
  gx_pcc_rule :: "ogs_pcc_rule list"

definition zero_qos :: ogs_qos where
  "zero_qos = \<lparr>oq_qci = 0, oq_priority_level = 0, oq_pre_emption_capability = 0, oq_pre_emption_vulnerability = 0,
     oq_mbr_downlink = 0, oq_mbr_uplink = 0, oq_gbr_downlink = 0, oq_gbr_uplink = 0\<rparr>"

definition zero_pcc_rule :: ogs_pcc_rule where
  "zero_pcc_rule = \<lparr>pr_type = Pcc_Rule_Type_Other, pr_name = None, pr_flow = [], pr_flow_status = 0,
     pr_precedence = 0, pr_qos = zero_qos\<rparr>"

definition OGS_MAX_NUM_OF_PCC_RULE :: nat where "OGS_MAX_NUM_OF_PCC_RULE = 8"

definition OGS_DIAM_GX_CMD_CODE_CREDIT_CONTROL :: u32 where "OGS_DIAM_GX_CMD_CODE_CREDIT_CONTROL = 272"
definition OGS_DIAM_GX_CMD_RE_AUTH :: u32 where "OGS_DIAM_GX_CMD_RE_AUTH = 258"
definition OGS_DIAM_GX_CC_REQUEST_TYPE_INITIAL_REQUEST :: u32 where "OGS_DIAM_GX_CC_REQUEST_TYPE_INITIAL_REQUEST = 1"
definition OGS_DIAM_GX_CC_REQUEST_TYPE_TERMINATION_REQUEST :: u32 where
  "OGS_DIAM_GX_CC_REQUEST_TYPE_TERMINATION_REQUEST = 3"
definition ER_DIAMETER_SUCCESS :: u32 where "ER_DIAMETER_SUCCESS = 2001"

subsection \<open>Protocol configuration options\<close>

record pco_id =
  pco_id_id :: u16
  pco_id_data :: "u8 list"

record ogs_pco =
  pco_ext :: bool
  pco_configuration_protocol :: u8
  pco_ids :: "pco_id list"

end
