(* ===== verification/Pgw_Ip.thy ===== *)
theory Pgw_Ip
  imports Gtp_Types
begin

text \<open>
  The address pools of the packet gateway, the end of \<^verbatim>\<open>src/src/pgw/pgw-context.c\<close>: the subnets of
  the configuration, the table of the addresses a subnet can give to UEs, and the choice of the
  subnet for an access point. Addresses are kept as the code keeps them, as words of four octets in
  network byte order on a little-endian host.
\<close>

subsection \<open>Subnets\<close>

text \<open>\<^verbatim>\<open>ogs_ipsubnet_t\<close> of the base library: an address of four words and its mask.\<close>

record ipsubnet =
  ips_family :: family
  ips_sub :: "u32 list"
  ips_mask :: "u32 list"

text \<open>A UE address is an entry of the table of its subnet; a pointer to it is the subnet and the entry.\<close>

type_synonym ue_ip_ptr = "index \<times> nat"

record pgw_ue_ip =
  uip_addr :: "u32 list"
  uip_subnet :: "index option"

text \<open>
  The pool of a subnet is the table \<open>sub_array\<close>, the number \<open>sub_size\<close> of entries that can be given
  out and the set of those that are.
\<close>

record pgw_subnet =
  sub_sub :: ipsubnet
  sub_gw :: ipsubnet
  sub_apn :: string
  sub_family :: family
  sub_prefixlen :: u8
  sub_array :: "pgw_ue_ip list"
  sub_size :: nat
  sub_live :: "nat set"
  sub_dev :: index

subsection \<open>Generation of the pools\<close>

text \<open>The number of addresses of the subnet, none where the code reaches an assertion.\<close>

definition mask_count :: "family \<Rightarrow> u8 \<Rightarrow> u32 option" where
  "mask_count fam plen =
     (case fam of
        AF_INET \<Rightarrow>
          if plen = 32 then Some 1
          else if plen < 32 then Some (drop_bit (unat plen) 0xffffffff + 1)
          else None
      | AF_INET6 \<Rightarrow>
          if plen = 128 then Some 1
          else if plen > 96 \<and> plen < 128 then Some (drop_bit (unat (plen - 96)) 0xffffffff + 1)
          else if plen \<le> 96 then Some 0xffffffff
          else None)"

definition broadcast :: "pgw_subnet \<Rightarrow> u32 list" where
  "broadcast sn = map (\<lambda>j. ips_sub (sub_sub sn) ! j + NOT (ips_mask (sub_sub sn) ! j)) [0..<4]"

text \<open>\<^verbatim>\<open>maxbytes\<close>, in words, and \<^verbatim>\<open>lastindex\<close>.\<close>

definition addr_words :: "family \<Rightarrow> nat" where
  "addr_words fam = (case fam of AF_INET \<Rightarrow> 1 | AF_INET6 \<Rightarrow> 4)"

definition lastindex :: "family \<Rightarrow> nat" where
  "lastindex fam = (case fam of AF_INET \<Rightarrow> 0 | AF_INET6 \<Rightarrow> 3)"

text \<open>The entry for host number \<open>j\<close>: cleared, the network copied, the number added to the last word.\<close>

definition ue_ip_at :: "index \<Rightarrow> pgw_subnet \<Rightarrow> u32 \<Rightarrow> pgw_ue_ip" where
  "ue_ip_at i sn j =
     (let n = addr_words (sub_family sn); l = lastindex (sub_family sn);
          a = take n (ips_sub (sub_sub sn)) @ replicate (4 - n) 0
      in \<lparr>uip_addr = a[l := a ! l + htonl j], uip_subnet = Some i\<rparr>)"

definition ue_ip_excluded :: "pgw_subnet \<Rightarrow> u32 list \<Rightarrow> bool" where
  "ue_ip_excluded sn a =
     (let n = addr_words (sub_family sn) in
      take n a = take n (ips_sub (sub_sub sn))
    \<or> take n a = take n (broadcast sn)
    \<or> take n a = take n (ips_sub (sub_gw sn)))"

text \<open>
  The loop over the host numbers: an entry that is excluded is overwritten by the next one. \<open>cap\<close> is
  the configured number of sessions, the size of the table.
\<close>

function ue_pool_loop ::
  "nat \<Rightarrow> nat \<Rightarrow> index \<Rightarrow> pgw_subnet \<Rightarrow> nat \<Rightarrow> pgw_ue_ip list \<Rightarrow> nat \<Rightarrow> (pgw_ue_ip list \<times> nat) res" where
  "ue_pool_loop cap count i sn j arr ix =
     (if j < count \<and> ix < cap then
        ebind (array_write arr ix (ue_ip_at i sn (of_nat j))) (\<lambda>arr.
        ue_pool_loop cap count i sn (j + 1) arr
          (if ue_ip_excluded sn (uip_addr (ue_ip_at i sn (of_nat j))) then ix else ix + 1))
      else Inr (arr, ix))"
  by pat_completeness auto
termination by (relation "measure (\<lambda>(cap, count, i, sn, j, arr, ix). count - j)") auto

declare ue_pool_loop.simps [simp del]

definition subnet_generate :: "nat \<Rightarrow> index \<Rightarrow> pgw_subnet \<Rightarrow> pgw_subnet res" where
  "subnet_generate cap i sn =
     ebind (non_null (mask_count (sub_family sn) (sub_prefixlen sn))) (\<lambda>count.
     ebind (ue_pool_loop cap (unat count) i sn 0 (sub_array sn) 0) (\<lambda>(arr, ix).
     Inr (sn\<lparr>sub_array := arr, sub_size := ix\<rparr>)))"

fun pgw_ue_pool_generate ::
  "nat \<Rightarrow> index list \<Rightarrow> (index \<rightharpoonup> pgw_subnet) \<Rightarrow> (index \<rightharpoonup> pgw_subnet) res" where
  "pgw_ue_pool_generate cap [] m = Inr m"
| "pgw_ue_pool_generate cap (i # is) m =
     ebind (deref m i) (\<lambda>sn.
     ebind (subnet_generate cap i sn) (\<lambda>sn.
     pgw_ue_pool_generate cap is (m(i \<mapsto> sn))))"

subsection \<open>Allocation\<close>

text \<open>\<^verbatim>\<open>ogs_pool_avail\<close>.\<close>

definition sub_avail :: "pgw_subnet \<Rightarrow> bool" where
  "sub_avail sn \<longleftrightarrow> card (sub_live sn) < sub_size sn"

text \<open>The subnet of the access point, else one that names none, of the family and with a free address.\<close>

definition find_subnet :: "family \<Rightarrow> string \<Rightarrow> index list \<Rightarrow> (index \<rightharpoonup> pgw_subnet) \<Rightarrow> index option res" where
  "find_subnet fam apn l m =
     ebind (list_find m (\<lambda>sn. sub_apn sn \<noteq> [] \<and> sub_family sn = fam \<and> sub_apn sn = apn \<and> sub_avail sn) l) (\<lambda>r.
     case r of
       Some i \<Rightarrow> Inr (Some i)
     | None \<Rightarrow> list_find m (\<lambda>sn. sub_apn sn = [] \<and> sub_family sn = fam \<and> sub_avail sn) l)"

text \<open>
  The pool allocator of the base library chooses the entry: given the size and the entries in use, an
  entry below the size that is not in use, as long as there is one.
\<close>

definition ue_ip_pick_ok :: "(nat \<Rightarrow> nat set \<Rightarrow> nat option) \<Rightarrow> bool" where
  "ue_ip_pick_ok pick \<longleftrightarrow> (\<forall>n L i. pick n L = Some i \<longrightarrow> i < n \<and> i \<notin> L)"

definition pgw_ue_ip_alloc ::
  "(nat \<Rightarrow> nat set \<Rightarrow> nat option) \<Rightarrow> family \<Rightarrow> string \<Rightarrow> index list \<Rightarrow> (index \<rightharpoonup> pgw_subnet) \<Rightarrow>
   (ue_ip_ptr \<times> (index \<rightharpoonup> pgw_subnet)) res" where
  "pgw_ue_ip_alloc pick fam apn l m =
     ebind (find_subnet fam apn l m) (\<lambda>r.
     ebind (non_null r) (\<lambda>i.
     ebind (deref m i) (\<lambda>sn.
     ebind (non_null (pick (sub_size sn) (sub_live sn))) (\<lambda>k.
     Inr ((i, k), m(i \<mapsto> sn\<lparr>sub_live := insert k (sub_live sn)\<rparr>))))))"

text \<open>Reading a UE address through its pointer.\<close>

definition get_ue_ip :: "(index \<rightharpoonup> pgw_subnet) \<Rightarrow> ue_ip_ptr \<Rightarrow> pgw_ue_ip res" where
  "get_ue_ip m p = ebind (deref m (fst p)) (\<lambda>sn. array_read (sub_array sn) (snd p))"

text \<open>
  Giving an entry back to its pool; giving back one that is not in use is a misuse of the pool and a
  fault here.
\<close>

definition pgw_ue_ip_free :: "ue_ip_ptr \<Rightarrow> (index \<rightharpoonup> pgw_subnet) \<Rightarrow> (index \<rightharpoonup> pgw_subnet) res" where
  "pgw_ue_ip_free p m =
     ebind (get_ue_ip m p) (\<lambda>ip.
     ebind (non_null (uip_subnet ip)) (\<lambda>i.
     ebind (deref m i) (\<lambda>sn.
     if snd p \<in> sub_live sn then Inr (m(i \<mapsto> sn\<lparr>sub_live := sub_live sn - {snd p}\<rparr>))
     else Inl Dangling_Pointer)))"

subsection \<open>What the pools hold\<close>

lemma htonl_0 [simp]: "htonl 0 = 0"
  by (simp add: htonl_def)

lemma bit_htonl:
  assumes "m < 8"
  shows "bit (htonl a) m = bit a (24 + m)" and "bit (htonl a) (8 + m) = bit a (16 + m)"
    and "bit (htonl a) (16 + m) = bit a (8 + m)" and "bit (htonl a) (24 + m) = bit a m"
  using assms bit_imp_le_length [of a "32 + m"] bit_imp_le_length [of a "40 + m"] bit_imp_le_length [of a "48 + m"]
  by (auto simp: htonl_def bit_simps)

lemma htonl_eqI:
  assumes "\<And>m. m < 8 \<Longrightarrow> bit (a::u32) m = bit b m \<and> bit a (8 + m) = bit b (8 + m)
      \<and> bit a (16 + m) = bit b (16 + m) \<and> bit a (24 + m) = bit b (24 + m)"
  shows "a = b"
proof (rule bit_word_eqI)
  fix n assume "n < LENGTH(32)"
  then have "n < 32" by simp
  then show "bit a n \<longleftrightarrow> bit b n" by (cases rule: octet_cases) (use assms in auto)
qed

lemma htonl_or: "htonl (a OR b) = htonl a OR htonl b"
  by (rule htonl_eqI) (simp add: bit_or_iff bit_htonl)

lemma htonl_and: "htonl (a AND b) = htonl a AND htonl b"
  by (rule htonl_eqI) (simp add: bit_and_iff bit_htonl)

lemma htonl_not: "NOT (htonl a) = htonl (NOT a)"
  by (rule htonl_eqI) (simp add: bit_not_iff bit_htonl)

text \<open>Words without a common bit can be added in either byte order.\<close>

lemma htonl_add:
  assumes "a AND b = 0"
  shows "htonl a + htonl b = htonl (a + b)"
proof -
  have "htonl a AND htonl b = 0" using assms by (metis htonl_and htonl_0)
  then show ?thesis by (simp add: assms disjunctive_add_eq_or htonl_or)
qed

lemma ue_pool_loop_ok:
  assumes "length arr = cap" and "ix \<le> cap"
  shows "\<exists>arr'. ue_pool_loop cap count i sn j arr ix =
      Inr (arr', min cap (ix + length (filter (\<lambda>j. \<not> ue_ip_excluded sn (uip_addr (ue_ip_at i sn (of_nat j)))) [j..<count])))
    \<and> length arr' = cap
    \<and> take (min cap (ix + length (filter (\<lambda>j. \<not> ue_ip_excluded sn (uip_addr (ue_ip_at i sn (of_nat j)))) [j..<count]))) arr' =
        take ix arr @ take (cap - ix) (map (\<lambda>j. ue_ip_at i sn (of_nat j))
          (filter (\<lambda>j. \<not> ue_ip_excluded sn (uip_addr (ue_ip_at i sn (of_nat j)))) [j..<count]))"
  using assms
proof (induction cap count i sn j arr ix rule: ue_pool_loop.induct)
  case (1 cap count i sn j arr ix)
  show ?case
  proof (cases "j < count \<and> ix < cap")
    case False
    then show ?thesis
      using "1.prems" by (subst ue_pool_loop.simps) (auto simp: min_def)
  next
    case True
    let ?a = "ue_ip_at i sn (of_nat j)"
    have up: "[j..<count] = j # [j + 1..<count]" using True upt_conv_Cons by simp
    have arr: "array_write arr ix ?a = Inr (arr[ix := ?a])" using True "1.prems" by simp
    have tk: "take (Suc ix) (arr[ix := ?a]) = take ix arr @ [?a]"
      using True "1.prems" by (simp add: take_Suc_conv_app_nth)
    show ?thesis
      using "1.IH" [OF True, of "arr[ix := ?a]"] "1.prems" True
      by (subst ue_pool_loop.simps) (auto simp: up arr tk take_Cons' Suc_le_eq split: if_splits)
  qed
qed

text \<open>The entries given out are those of the host numbers that are not excluded, up to the size of the table.\<close>

definition pool_entries :: "nat \<Rightarrow> index \<Rightarrow> pgw_subnet \<Rightarrow> nat \<Rightarrow> pgw_ue_ip list" where
  "pool_entries cap i sn count = take cap (map (\<lambda>j. ue_ip_at i sn (of_nat j))
     (filter (\<lambda>j. \<not> ue_ip_excluded sn (uip_addr (ue_ip_at i sn (of_nat j)))) [0..<count]))"

lemma subnet_generate_ok:
  assumes "mask_count (sub_family sn) (sub_prefixlen sn) = Some count" and "length (sub_array sn) = cap"
  shows "\<exists>arr. subnet_generate cap i sn =
      Inr (sn\<lparr>sub_array := arr, sub_size := length (pool_entries cap i sn (unat count))\<rparr>)
    \<and> length arr = cap
    \<and> take (length (pool_entries cap i sn (unat count))) arr = pool_entries cap i sn (unat count)"
  using ue_pool_loop_ok [OF assms(2), of 0 "unat count" i sn 0] assms(1)
  by (auto simp: subnet_generate_def pool_entries_def min.commute)

lemma ue_ip_at_inj: "uip_addr (ue_ip_at i sn j) = uip_addr (ue_ip_at i sn k) \<Longrightarrow> length (ips_sub (sub_sub sn)) = 4 \<Longrightarrow> j = k"
proof -
  assume eq: "uip_addr (ue_ip_at i sn j) = uip_addr (ue_ip_at i sn k)" and len: "length (ips_sub (sub_sub sn)) = 4"
  let ?l = "lastindex (sub_family sn)" and ?n = "addr_words (sub_family sn)"
  let ?a = "take ?n (ips_sub (sub_sub sn)) @ replicate (4 - ?n) 0"
  have l: "?l < length ?a" using len by (simp add: lastindex_def addr_words_def split: family.split)
  have "?a[?l := ?a ! ?l + htonl j] ! ?l = ?a[?l := ?a ! ?l + htonl k] ! ?l"
    using eq by (simp add: ue_ip_at_def Let_def)
  then show ?thesis using l by simp
qed

lemma pool_entries_distinct:
  assumes "length (ips_sub (sub_sub sn)) = 4" and "count \<le> 2 ^ 32"
  shows "distinct (map uip_addr (pool_entries cap i sn count))"
proof -
  have "inj_on (\<lambda>j. uip_addr (ue_ip_at i sn (of_nat j))) {0..<count}"
  proof (rule inj_onI)
    fix j k assume "j \<in> {0..<count}" "k \<in> {0..<count}"
      and "uip_addr (ue_ip_at i sn (of_nat j)) = uip_addr (ue_ip_at i sn (of_nat k))"
    then have "(of_nat j :: u32) = of_nat k" "j < 2 ^ LENGTH(32)" "k < 2 ^ LENGTH(32)"
      using ue_ip_at_inj [OF _ assms(1)] assms(2) by auto
    then show "j = k" by (metis of_nat_inverse)
  qed
  then show ?thesis
    by (auto simp: pool_entries_def distinct_map take_map [symmetric] comp_def intro!: distinct_take
        elim!: inj_on_subset)
qed

lemma pool_entries_spec:
  assumes "e \<in> set (pool_entries cap i sn count)"
  shows "uip_subnet e = Some i \<and> \<not> ue_ip_excluded sn (uip_addr e)"
  using assms by (auto simp: pool_entries_def ue_ip_at_def Let_def dest!: in_set_takeD)

text \<open>
  An IPv4 subnet as the configuration gives it: the network \<open>base\<close> with a prefix of \<open>n\<close> bits and the
  address \<open>gw\<close> of the gateway, in host order.
\<close>

definition subnet4_ok :: "pgw_subnet \<Rightarrow> u32 \<Rightarrow> nat \<Rightarrow> u32 \<Rightarrow> bool" where
  "subnet4_ok sn base n gw \<longleftrightarrow>
     sub_family sn = AF_INET \<and> 0 < n \<and> n \<le> 32 \<and> sub_prefixlen sn = of_nat n
   \<and> length (ips_sub (sub_sub sn)) = 4 \<and> length (ips_sub (sub_gw sn)) = 4
   \<and> ips_sub (sub_sub sn) ! 0 = htonl base \<and> take_bit (32 - n) base = 0
   \<and> ips_mask (sub_sub sn) ! 0 = htonl (NOT (mask (32 - n)))
   \<and> ips_sub (sub_gw sn) ! 0 = htonl gw"

text \<open>The host addresses of the subnet: all but the network, the broadcast and the gateway address.\<close>

definition v4_hosts :: "u32 \<Rightarrow> nat \<Rightarrow> u32 \<Rightarrow> u32 list" where
  "v4_hosts base n gw =
     filter (\<lambda>a. a \<noteq> base \<and> a \<noteq> base OR mask (32 - n) \<and> a \<noteq> gw) (map (\<lambda>j. base + of_nat j) [0..<2 ^ (32 - n)])"

lemma mask_count4:
  assumes "0 < n" and "n \<le> 32"
  shows "\<exists>c. mask_count AF_INET (of_nat n) = Some c \<and> unat c = 2 ^ (32 - n)"
proof (cases "n = 32")
  case True
  then show ?thesis by (simp add: mask_count_def)
next
  case False
  then have n: "n < 32" using assms by simp
  have u: "unat (of_nat n :: u8) = n" using n by (simp add: unat_of_nat)
  have "drop_bit n (mask 32 :: u32) = mask (32 - n)"
    by (rule bit_word_eqI) (auto simp: bit_simps)
  then have "drop_bit n (mask 32 :: u32) + 1 = 2 ^ (32 - n)"
    by (simp only: mask_eq_exp_minus_1) simp
  moreover have "(0xffffffff :: u32) = mask 32" by (simp add: mask_eq_exp_minus_1)
  moreover have "(of_nat n :: u8) < 32" "(of_nat n :: u8) \<noteq> 32"
    using n u by (auto simp: word_less_nat_alt)
  moreover have "unat (of_nat (2 ^ (32 - n)) :: u32) = 2 ^ (32 - n)"
    using power_strict_increasing [of "32 - n" 32 "2::nat"] assms by (simp only: unat_of_nat) simp
  ultimately show ?thesis by (simp add: mask_count_def u)
qed

lemma ue_ip_at4:
  assumes "subnet4_ok sn base n gw" and "j < 2 ^ (32 - n)"
  shows "uip_addr (ue_ip_at i sn (of_nat j)) = [htonl (base + of_nat j), 0, 0, 0]"
proof -
  have "take_bit (32 - n) (of_nat j :: u32) = of_nat j"
    using assms(2) by (simp add: of_nat_take_bit [symmetric] take_bit_nat_eq_self)
  then have "base AND of_nat j = take_bit (32 - n) base AND of_nat j"
    by (metis and.assoc and.commute take_bit_eq_mask)
  then have "base AND of_nat j = 0" using assms(1) by (simp add: subnet4_ok_def)
  then have "htonl base + htonl (of_nat j) = htonl (base + of_nat j)" by (rule htonl_add)
  moreover have "take 1 (ips_sub (sub_sub sn)) = [htonl base]"
    using assms(1) by (cases "ips_sub (sub_sub sn)") (auto simp: subnet4_ok_def)
  ultimately show ?thesis
    using assms(1) by (simp add: ue_ip_at_def subnet4_ok_def addr_words_def lastindex_def numeral_eq_Suc)
qed

lemma ue_ip_excluded4:
  assumes "subnet4_ok sn base n gw"
  shows "ue_ip_excluded sn (htonl a # as) \<longleftrightarrow> a = base \<or> a = base OR mask (32 - n) \<or> a = gw"
proof -
  have "base AND mask (32 - n) = 0" using assms by (simp add: subnet4_ok_def take_bit_eq_mask)
  then have "htonl base + NOT (htonl (NOT (mask (32 - n)))) = htonl (base OR mask (32 - n))"
    by (simp add: htonl_not htonl_add disjunctive_add_eq_or)
  then have "take 1 (broadcast sn) = [htonl (base OR mask (32 - n))]"
    using assms by (simp add: broadcast_def subnet4_ok_def upt_conv_Cons)
  moreover have "take 1 (ips_sub (sub_sub sn)) = [htonl base]" "take 1 (ips_sub (sub_gw sn)) = [htonl gw]"
    using assms by (cases "ips_sub (sub_sub sn)"; cases "ips_sub (sub_gw sn)"; auto simp: subnet4_ok_def)+
  ultimately show ?thesis
    using assms by (simp add: ue_ip_excluded_def addr_words_def subnet4_ok_def)
qed

lemma pool_entries4:
  assumes "subnet4_ok sn base n gw"
  shows "map uip_addr (pool_entries cap i sn (2 ^ (32 - n))) = map (\<lambda>a. [htonl a, 0, 0, 0]) (take cap (v4_hosts base n gw))"
proof -
  have "filter (\<lambda>j. \<not> ue_ip_excluded sn (uip_addr (ue_ip_at i sn (of_nat j)))) [0..<2 ^ (32 - n)] =
      filter (\<lambda>j. base + of_nat j \<noteq> base \<and> base + of_nat j \<noteq> base OR mask (32 - n) \<and> base + of_nat j \<noteq> gw)
        [0..<2 ^ (32 - n)]"
    by (rule filter_cong) (auto simp: ue_ip_at4 [OF assms] ue_ip_excluded4 [OF assms])
  then show ?thesis
    by (auto simp: pool_entries_def v4_hosts_def filter_map comp_def take_map [symmetric] ue_ip_at4 [OF assms]
        intro!: arg_cong [where f = "take cap"])
qed

subsection \<open>Properties\<close>

text \<open>
  (C18) The generated pool of an IPv4 subnet holds exactly the host addresses of the subnet, without
  the network, the broadcast and the gateway address, in ascending order, each once, up to the size
  of the table; the addition in network byte order is the addition of host numbers.
\<close>

theorem ue_pool_reference:
  assumes "subnet4_ok sn base n gw" and "length (sub_array sn) = cap"
  shows "\<exists>sn'. subnet_generate cap i sn = Inr sn'
    \<and> map uip_addr (take (sub_size sn') (sub_array sn')) = map (\<lambda>a. [htonl a, 0, 0, 0]) (take cap (v4_hosts base n gw))
    \<and> distinct (map uip_addr (take (sub_size sn') (sub_array sn')))
    \<and> (\<forall>e \<in> set (take (sub_size sn') (sub_array sn')). uip_subnet e = Some i)"
proof -
  obtain c where c: "mask_count (sub_family sn) (sub_prefixlen sn) = Some c" "unat c = 2 ^ (32 - n)"
    using mask_count4 [of n] assms(1) by (auto simp: subnet4_ok_def)
  have len: "length (ips_sub (sub_sub sn)) = 4" using assms(1) by (simp add: subnet4_ok_def)
  have le: "(2::nat) ^ (32 - n) \<le> 2 ^ 32" by (rule power_increasing) auto
  show ?thesis
    using subnet_generate_ok [OF c(1) assms(2), of i] pool_entries4 [OF assms(1), of cap i] c(2)
      pool_entries_distinct [OF len le, of cap i] pool_entries_spec [of _ cap i sn "2 ^ (32 - n)"]
    by auto
qed

definition sample_subnet :: pgw_subnet where
  "sample_subnet = \<lparr>sub_sub = \<lparr>ips_family = AF_INET, ips_sub = [htonl 0x0a2d0008, 0, 0, 0],
       ips_mask = [htonl 0xfffffff8, 0, 0, 0]\<rparr>,
     sub_gw = \<lparr>ips_family = AF_INET, ips_sub = [htonl 0x0a2d0009, 0, 0, 0], ips_mask = replicate 4 0xffffffff\<rparr>,
     sub_apn = [], sub_family = AF_INET, sub_prefixlen = 29,
     sub_array = replicate 4 \<lparr>uip_addr = [0, 0, 0, 0], uip_subnet = None\<rparr>, sub_size = 4, sub_live = {}, sub_dev = 1\<rparr>"

theorem ue_pool_reference_witness:
  "\<exists>sn'. subnet_generate 4 1 sample_subnet = Inr sn'
    \<and> map uip_addr (take (sub_size sn') (sub_array sn')) =
        map (\<lambda>a. [htonl a, 0, 0, 0]) [0x0a2d000a, 0x0a2d000b, 0x0a2d000c, 0x0a2d000d]"
proof -
  have "subnet4_ok sample_subnet 0x0a2d0008 29 0x0a2d0009"
    by (simp add: subnet4_ok_def sample_subnet_def mask_eq_exp_minus_1 take_bit_eq_mod)
  moreover have "take 4 (v4_hosts 0x0a2d0008 29 0x0a2d0009) = [0x0a2d000a, 0x0a2d000b, 0x0a2d000c, 0x0a2d000d]"
    by (simp add: v4_hosts_def mask_eq_exp_minus_1 upt_conv_Cons)
  ultimately show ?thesis
    using ue_pool_reference [of sample_subnet "0x0a2d0008" 29 "0x0a2d0009" 4 1] by (auto simp: sample_subnet_def)
qed

end
