(* ===== verification/Pgw_Context.thy ===== *)
theory Pgw_Context
  imports Pgw_Message Pgw_Ip Ownership
begin

text \<open>
  The contexts of the packet gateway, \<^verbatim>\<open>src/src/pgw/pgw-context.c\<close>: sessions own bearers, bearers own
  packet filters, each in a pool of its own, and a session holds addresses of the subnet pools. The
  pools do not clear memory, so an added object keeps whatever its slot held except for the fields
  the code sets.

  The base library and the configuration are the environment \<open>pgw_env\<close>: the allocators, the string
  helpers, \<^verbatim>\<open>ogs_ipsubnet\<close>, the codec of the protocol configuration options, the event pool and queue.
  The rule compiler of the packet filter library is one of its functions too: what it yields is a
  list of instructions. The YAML configuration reader is not modelled; the calls it makes are.
\<close>

subsection \<open>State\<close>

record pgw_pdn =
  pdn_apn :: string
  pdn_paa :: ogs_paa
  pdn_qos :: ogs_qos
  pdn_ambr_downlink :: u64
  pdn_ambr_uplink :: u64

text \<open>The Gx session identifier is a pointer into the session data of the Diameter interface.\<close>

record pgw_sess =
  ps_pgw_s5c_teid :: u32
  ps_sgw_s5c_teid :: u32
  ps_gx_sid :: "index option"
  ps_imsi :: "u8 list"
  ps_imsi_len :: nat
  ps_imsi_bcd :: string
  ps_pdn :: pgw_pdn
  ps_ipv4 :: "ue_ip_ptr option"
  ps_ipv6 :: "ue_ip_ptr option"
  ps_tai :: tai
  ps_e_cgi :: e_cgi
  ps_bearer_list :: "index list"
  ps_gnode :: "index option"

record pgw_bearer =
  pb_ebi :: u8
  pb_pgw_s5u_teid :: u32
  pb_sgw_s5u_teid :: u32
  pb_name :: "string option"
  pb_qos :: ogs_qos
  pb_pf_identifier :: u8
  pb_pf_list :: "index list"
  pb_sess :: index
  pb_gnode :: "index option"

record pgw_rule =
  ru_proto :: u8
  ru_ipv4_local :: bool
  ru_ipv4_remote :: bool
  ru_ipv6_local :: bool
  ru_ipv6_remote :: bool
  ru_local_addr :: "u32 list"
  ru_local_mask :: "u32 list"
  ru_remote_addr :: "u32 list"
  ru_remote_mask :: "u32 list"
  ru_local_low :: u16
  ru_local_high :: u16
  ru_remote_low :: u16
  ru_remote_high :: u16

record pgw_pf =
  f_direction :: u8
  f_identifier :: u8
  f_rule :: pgw_rule
  f_bearer :: index

record pgw_dev =
  dev_ifname :: string
  dev_link_local_addr :: "u32 list option"

text \<open>The data the Diameter interface keeps for a Gx session, \<^verbatim>\<open>struct sess_state\<close> of \<^verbatim>\<open>pgw-fd-path.c\<close>.\<close>

record gx_sess_state =
  gs_sess :: index
  gs_xact :: "index option list"
  gs_gtpbuf :: "s5_body option list"
  gs_cc_request_type :: u32
  gs_cc_request_number :: u32

datatype pgw_event =
    PGW_EVT_S5C_MESSAGE "s5_message option"
  | PGW_EVT_GX_MESSAGE index index "s5_body option" gx_message

record pgw_state = "s5_body gtp_state" +
  pg_sesss :: "pgw_sess pool"
  pg_bearers :: "pgw_bearer pool"
  pg_pfs :: "pgw_pf pool"
  pg_devs :: "index \<rightharpoonup> pgw_dev"
  pg_subnets :: "index \<rightharpoonup> pgw_subnet"
  pg_sess_list :: "index list"
  pg_dev_list :: "index list"
  pg_subnet_list :: "index list"
  sgw_s5c_list :: "index list"
  sgw_s5u_list :: "index list"
  pg_gtpc_port :: u32
  pg_gtpu_port :: u32
  pg_gtpc_sock :: "index option"
  pg_gtpc_sock6 :: "index option"
  pg_gtpc_addr :: "ogs_sockaddr option"
  pg_gtpc_addr6 :: "ogs_sockaddr option"
  pg_gtpu_sock :: "index option"
  pg_gtpu_sock6 :: "index option"
  pg_gtpu_addr :: "ogs_sockaddr option"
  pg_gtpu_addr6 :: "ogs_sockaddr option"
  pg_dns :: "string option list"
  pg_dns6 :: "string option list"
  pg_p_cscf :: "string list"
  pg_p_cscf_index :: nat
  pg_p_cscf6 :: "string list"
  pg_p_cscf6_index :: nat
  pg_queue :: "pgw_event list"
  pg_gx_sessions :: "index \<rightharpoonup> gx_sess_state"
  pg_ccr_sent :: "(index \<times> u32 \<times> u32) list"
  pg_tun_out :: "(index \<times> u8 list) list"

text \<open>
  An instruction of the packet filter library as the gateway reads it: the operand words of an
  address instruction, the ports of a port instruction.
\<close>

datatype ipfw_insn =
    O_PROTO u16
  | O_IP_SRC "u32 list"
  | O_IP_SRC_MASK "u32 list"
  | O_IP_DST "u32 list"
  | O_IP_DST_MASK "u32 list"
  | O_IP6_SRC "u32 list"
  | O_IP6_SRC_MASK "u32 list"
  | O_IP6_DST "u32 list"
  | O_IP6_DST_MASK "u32 list"
  | O_IP_SRCPORT "u16 list"
  | O_IP_DSTPORT "u16 list"
  | O_Other

record pgw_env = "s5_body gnode_env" +
  pe_sess_pick :: "index set \<Rightarrow> index option"
  pe_bearer_pick :: "index set \<Rightarrow> index option"
  pe_pf_pick :: "index set \<Rightarrow> index option"
  pe_dev_pick :: "(index \<rightharpoonup> pgw_dev) \<Rightarrow> index option"
  pe_subnet_pick :: "(index \<rightharpoonup> pgw_subnet) \<Rightarrow> index option"
  pe_ue_ip_pick :: "nat \<Rightarrow> nat set \<Rightarrow> nat option"
  pe_gx_pick :: "(index \<rightharpoonup> gx_sess_state) \<Rightarrow> index option"
  pe_max_sess :: u32
  pe_max_bearer :: u32
  pe_max_imsi_len :: nat
  pe_max_apn_len :: nat
  pe_max_pco_ids :: nat
  pe_max_flow :: nat
  pe_buffer_to_bcd :: "u8 list \<Rightarrow> string"
  pe_fqdn_parse :: "u8 list \<Rightarrow> string"
  pe_ipsubnet :: "string \<Rightarrow> string option \<Rightarrow> ipsubnet option"
  pe_buffer_to_uint64 :: "u8 list \<Rightarrow> u64"
  pe_uint64_to_buffer :: "u64 \<Rightarrow> nat \<Rightarrow> u8 list"
  pe_compile_rule :: "string list \<Rightarrow> ipfw_insn list"
  pe_pco_parse :: "u8 list \<Rightarrow> ogs_pco option"
  pe_pco_build :: "ogs_pco \<Rightarrow> u8 list"
  pe_ipcp_image :: "u8 \<Rightarrow> u16 \<Rightarrow> (u8 \<times> u8 \<times> u32) list \<Rightarrow> u8 list"
  pe_no_ipv4 :: bool
  pe_no_ipv6 :: bool
  pe_prefer_ipv4 :: bool
  pe_multicast :: bool
  pe_no_slaac :: bool
  pe_build_ok :: "s5_body \<Rightarrow> bool"
  pe_event_new_ok :: "pgw_event list \<Rightarrow> bool"
  pe_queue_push_ok :: "pgw_event list \<Rightarrow> bool"
  pe_union_create :: "s5_body \<Rightarrow> s5_create_session_request"
  pe_union_delete :: "s5_body \<Rightarrow> s5_delete_session_request"

text \<open>What the code relies on: fresh indices from the allocators and the laws of the GTP library's environment.\<close>

definition pgw_env_ok :: "pgw_env \<Rightarrow> bool" where
  "pgw_env_ok E \<longleftrightarrow> gtp_env_ok E \<and> pick_ok (pe_sess_pick E) \<and> pick_ok (pe_bearer_pick E) \<and> pick_ok (pe_pf_pick E)
     \<and> ue_ip_pick_ok (pe_ue_ip_pick E)
     \<and> (\<forall>m i. pe_gx_pick E m = Some i \<longrightarrow> m i = None \<and> i \<noteq> 0)"

definition pg_set_sess :: "index \<Rightarrow> pgw_sess \<Rightarrow> pgw_state \<Rightarrow> pgw_state" where
  "pg_set_sess x v s = s\<lparr>pg_sesss := pool_set x v (pg_sesss s)\<rparr>"

definition pg_set_bearer :: "index \<Rightarrow> pgw_bearer \<Rightarrow> pgw_state \<Rightarrow> pgw_state" where
  "pg_set_bearer b v s = s\<lparr>pg_bearers := pool_set b v (pg_bearers s)\<rparr>"

definition pg_set_pf :: "index \<Rightarrow> pgw_pf \<Rightarrow> pgw_state \<Rightarrow> pgw_state" where
  "pg_set_pf f v s = s\<lparr>pg_pfs := pool_set f v (pg_pfs s)\<rparr>"

abbreviation "pg_sess s \<equiv> deref (objs (pg_sesss s))"
abbreviation "pg_bearer s \<equiv> deref (objs (pg_bearers s))"
abbreviation "pg_pf s \<equiv> deref (objs (pg_pfs s))"

text \<open>A pointer field that may be null, as an argument.\<close>

definition nptr :: "index option \<Rightarrow> index" where
  "nptr p = (case p of None \<Rightarrow> 0 | Some i \<Rightarrow> i)"

subsection \<open>Devices and subnets\<close>

definition OGS_IFNAMSIZ :: nat where "OGS_IFNAMSIZ = 16"

text \<open>\<^verbatim>\<open>strcpy\<close> into an array: the string and its terminator have to fit.\<close>

definition strcpy :: "nat \<Rightarrow> string \<Rightarrow> string res" where
  "strcpy n t = (if length t < n then Inr t else Inl Out_Of_Bounds)"

definition pgw_dev_add :: "pgw_env \<Rightarrow> string \<Rightarrow> pgw_state \<Rightarrow> (index \<times> pgw_state) res" where
  "pgw_dev_add E ifname s =
     ebind (non_null (pe_dev_pick E (pg_devs s))) (\<lambda>d.
     ebind (strcpy OGS_IFNAMSIZ ifname) (\<lambda>name.
     Inr (d, s\<lparr>pg_devs := (pg_devs s)(d \<mapsto> \<lparr>dev_ifname = name, dev_link_local_addr = None\<rparr>),
               pg_dev_list := list_add E (pg_dev_list s) d\<rparr>)))"

definition pgw_dev_remove :: "pgw_env \<Rightarrow> index \<Rightarrow> pgw_state \<Rightarrow> pgw_state res" where
  "pgw_dev_remove E d s =
     ebind (ogs_assert (d \<noteq> 0)) (\<lambda>_.
     ebind (deref (pg_devs s) d) (\<lambda>_.
     Inr (s\<lparr>pg_dev_list := list_remove E (pg_dev_list s) d, pg_devs := (pg_devs s)(d := None)\<rparr>)))"

fun dev_remove_each :: "pgw_env \<Rightarrow> index list \<Rightarrow> pgw_state \<Rightarrow> pgw_state res" where
  "dev_remove_each E [] s = Inr s"
| "dev_remove_each E (d # ds) s = ebind (pgw_dev_remove E d s) (dev_remove_each E ds)"

definition pgw_dev_remove_all :: "pgw_env \<Rightarrow> pgw_state \<Rightarrow> pgw_state res" where
  "pgw_dev_remove_all E s = dev_remove_each E (pg_dev_list s) s"

text \<open>Past the end of the list the code returns \<^verbatim>\<open>OGS_OK\<close>, which is the null pointer.\<close>

definition pgw_dev_find_by_ifname :: "string \<Rightarrow> pgw_state \<Rightarrow> index option res" where
  "pgw_dev_find_by_ifname ifname s = list_find (pg_devs s) (\<lambda>d. dev_ifname d = ifname) (pg_dev_list s)"

text \<open>\<^verbatim>\<open>atoi\<close>: white space, a sign, then the digits up to the first other character.\<close>

fun digits :: "int \<Rightarrow> string \<Rightarrow> int" where
  "digits n [] = n"
| "digits n (c # cs) =
     (if of_char c \<in> {48..57::nat} then digits (10 * n + (of_char c - 48)) cs else n)"

fun atoi :: "string \<Rightarrow> int" where
  "atoi [] = 0"
| "atoi (c # cs) =
     (if c = CHR '' '' \<or> of_char c \<in> {9..13::nat} then atoi cs
      else if c = CHR ''-'' then - digits 0 cs
      else if c = CHR ''+'' then digits 0 cs
      else digits 0 (c # cs))"

definition pgw_subnet_add ::
  "pgw_env \<Rightarrow> string \<Rightarrow> string \<Rightarrow> string option \<Rightarrow> string \<Rightarrow> pgw_state \<Rightarrow> (index \<times> pgw_state) res" where
  "pgw_subnet_add E ipstr mask_or_numbits apn ifname s =
     ebind (pgw_dev_find_by_ifname ifname s) (\<lambda>r.
     ebind (case r of Some d \<Rightarrow> Inr (d, s) | None \<Rightarrow> pgw_dev_add E ifname s) (\<lambda>(d, s).
     ebind (non_null (pe_subnet_pick E (pg_subnets s))) (\<lambda>i.
     ebind (non_null (pe_ipsubnet E ipstr None)) (\<lambda>gw.
     ebind (non_null (pe_ipsubnet E ipstr (Some mask_or_numbits))) (\<lambda>sub.
     ebind (case apn of None \<Rightarrow> Inr [] | Some a \<Rightarrow> strcpy (pe_max_apn_len E) a) (\<lambda>a.
     let n = unat (pe_max_sess E);
         sn = \<lparr>sub_sub = sub, sub_gw = gw, sub_apn = a, sub_family = ips_family gw,
               sub_prefixlen = of_int (atoi mask_or_numbits),
               sub_array = replicate n \<lparr>uip_addr = [0, 0, 0, 0], uip_subnet = None\<rparr>,
               sub_size = n, sub_live = {}, sub_dev = d\<rparr>
     in Inr (i, s\<lparr>pg_subnets := (pg_subnets s)(i \<mapsto> sn), pg_subnet_list := list_add E (pg_subnet_list s) i\<rparr>)))))))"

definition pgw_subnet_remove :: "pgw_env \<Rightarrow> index \<Rightarrow> pgw_state \<Rightarrow> pgw_state res" where
  "pgw_subnet_remove E i s =
     ebind (ogs_assert (i \<noteq> 0)) (\<lambda>_.
     Inr (s\<lparr>pg_subnet_list := list_remove E (pg_subnet_list s) i, pg_subnets := (pg_subnets s)(i := None)\<rparr>))"

fun subnet_remove_each :: "pgw_env \<Rightarrow> index list \<Rightarrow> pgw_state \<Rightarrow> pgw_state res" where
  "subnet_remove_each E [] s = Inr s"
| "subnet_remove_each E (i # is) s = ebind (pgw_subnet_remove E i s) (subnet_remove_each E is)"

definition pgw_subnet_remove_all :: "pgw_env \<Rightarrow> pgw_state \<Rightarrow> pgw_state res" where
  "pgw_subnet_remove_all E s = subnet_remove_each E (pg_subnet_list s) s"

definition ue_ip_alloc :: "pgw_env \<Rightarrow> family \<Rightarrow> string \<Rightarrow> pgw_state \<Rightarrow> (ue_ip_ptr \<times> pgw_state) res" where
  "ue_ip_alloc E fam a s =
     ebind (pgw_ue_ip_alloc (pe_ue_ip_pick E) fam a (pg_subnet_list s) (pg_subnets s)) (\<lambda>(p, m).
     Inr (p, s\<lparr>pg_subnets := m\<rparr>))"

definition ue_ip_free :: "ue_ip_ptr option \<Rightarrow> pgw_state \<Rightarrow> pgw_state res" where
  "ue_ip_free p s =
     (case p of
        None \<Rightarrow> Inr s
      | Some p \<Rightarrow> ebind (pgw_ue_ip_free p (pg_subnets s)) (\<lambda>m. Inr (s\<lparr>pg_subnets := m\<rparr>)))"

subsection \<open>Packet filters\<close>

text \<open>The precedence the caller gives is not kept.\<close>

definition pgw_pf_add :: "pgw_env \<Rightarrow> index \<Rightarrow> u32 \<Rightarrow> pgw_state \<Rightarrow> (index \<times> pgw_state) res" where
  "pgw_pf_add E b precedence s =
     ebind (ogs_assert (b \<noteq> 0)) (\<lambda>_.
     ebind (non_null (pool_alloc (pe_pf_pick E) (pg_pfs s))) (\<lambda>(f, p).
     let s = s\<lparr>pg_pfs := p\<rparr> in
     ebind (pg_pf s f) (\<lambda>pf.
     ebind (pg_bearer s b) (\<lambda>be.
     let i = ucast (next_id E (ucast (pb_pf_identifier be)) 1 15);
         s = pg_set_pf f (pf\<lparr>f_identifier := take_bit 4 i, f_bearer := b\<rparr>) s in
     Inr (f, pg_set_bearer b (be\<lparr>pb_pf_identifier := i, pb_pf_list := list_add E (pb_pf_list be) f\<rparr>) s)))))"

definition pgw_pf_remove :: "pgw_env \<Rightarrow> index \<Rightarrow> pgw_state \<Rightarrow> pgw_state res" where
  "pgw_pf_remove E f s =
     ebind (ogs_assert (f \<noteq> 0)) (\<lambda>_.
     ebind (pg_pf s f) (\<lambda>pf.
     ebind (ogs_assert (f_bearer pf \<noteq> 0)) (\<lambda>_.
     ebind (pg_bearer s (f_bearer pf)) (\<lambda>be.
     let s = pg_set_bearer (f_bearer pf) (be\<lparr>pb_pf_list := list_remove E (pb_pf_list be) f\<rparr>) s in
     Inr (s\<lparr>pg_pfs := pool_free f (pg_pfs s)\<rparr>)))))"

fun pf_remove_each :: "pgw_env \<Rightarrow> index list \<Rightarrow> pgw_state \<Rightarrow> pgw_state res" where
  "pf_remove_each E [] s = Inr s"
| "pf_remove_each E (f # fs) s = ebind (pgw_pf_remove E f s) (pf_remove_each E fs)"

definition pgw_pf_remove_all :: "pgw_env \<Rightarrow> index \<Rightarrow> pgw_state \<Rightarrow> pgw_state res" where
  "pgw_pf_remove_all E b s =
     ebind (ogs_assert (b \<noteq> 0)) (\<lambda>_.
     ebind (pg_bearer s b) (\<lambda>be. pf_remove_each E (pb_pf_list be) s))"

definition pgw_pf_find_by_id :: "index \<Rightarrow> u8 \<Rightarrow> pgw_state \<Rightarrow> index option res" where
  "pgw_pf_find_by_id b i s =
     ebind (pg_bearer s b) (\<lambda>be. list_find (objs (pg_pfs s)) (\<lambda>pf. f_identifier pf = i) (pb_pf_list be))"

subsection \<open>Bearers\<close>

definition pgw_bearer_add :: "pgw_env \<Rightarrow> index \<Rightarrow> pgw_state \<Rightarrow> (index \<times> pgw_state) res" where
  "pgw_bearer_add E x s =
     ebind (ogs_assert (x \<noteq> 0)) (\<lambda>_.
     ebind (non_null (pool_alloc (pe_bearer_pick E) (pg_bearers s))) (\<lambda>(b, p).
     let s = s\<lparr>pg_bearers := p\<rparr> in
     ebind (ogs_assert (b > 0 \<and> b \<le> pe_max_bearer E)) (\<lambda>_.
     ebind (pg_bearer s b) (\<lambda>be.
     let s = pg_set_bearer b (be\<lparr>pb_name := None, pb_pf_list := [], pb_pgw_s5u_teid := b, pb_sess := x,
           pb_gnode := None\<rparr>) s in
     ebind (pg_sess s x) (\<lambda>se.
     Inr (b, pg_set_sess x (se\<lparr>ps_bearer_list := list_add E (ps_bearer_list se) b\<rparr>) s))))))"

definition pgw_bearer_remove :: "pgw_env \<Rightarrow> index \<Rightarrow> pgw_state \<Rightarrow> pgw_state res" where
  "pgw_bearer_remove E b s =
     ebind (ogs_assert (b \<noteq> 0)) (\<lambda>_.
     ebind (pg_bearer s b) (\<lambda>be.
     ebind (ogs_assert (pb_sess be \<noteq> 0)) (\<lambda>_.
     ebind (pg_sess s (pb_sess be)) (\<lambda>se.
     let s = pg_set_sess (pb_sess be) (se\<lparr>ps_bearer_list := list_remove E (ps_bearer_list se) b\<rparr>) s in
     ebind (pgw_pf_remove_all E b s) (\<lambda>s.
     Inr (s\<lparr>pg_bearers := pool_free b (pg_bearers s)\<rparr>))))))"

fun pg_bearer_remove_each :: "pgw_env \<Rightarrow> index list \<Rightarrow> pgw_state \<Rightarrow> pgw_state res" where
  "pg_bearer_remove_each E [] s = Inr s"
| "pg_bearer_remove_each E (b # bs) s = ebind (pgw_bearer_remove E b s) (pg_bearer_remove_each E bs)"

definition pgw_bearer_remove_all :: "pgw_env \<Rightarrow> index \<Rightarrow> pgw_state \<Rightarrow> pgw_state res" where
  "pgw_bearer_remove_all E x s =
     ebind (ogs_assert (x \<noteq> 0)) (\<lambda>_.
     ebind (pg_sess s x) (\<lambda>se. pg_bearer_remove_each E (ps_bearer_list se) s))"

definition pgw_bearer_find :: "u32 \<Rightarrow> pgw_state \<Rightarrow> index option res" where
  "pgw_bearer_find i s =
     ebind (ogs_assert (i \<noteq> 0)) (\<lambda>_. Inr (if objs (pg_bearers s) i = None then None else Some i))"

definition pgw_bearer_find_by_pgw_s5u_teid :: "u32 \<Rightarrow> pgw_state \<Rightarrow> index option res" where
  "pgw_bearer_find_by_pgw_s5u_teid teid s = pgw_bearer_find teid s"

definition pgw_bearer_find_by_ebi :: "index \<Rightarrow> u8 \<Rightarrow> pgw_state \<Rightarrow> index option res" where
  "pgw_bearer_find_by_ebi x e s =
     ebind (ogs_assert (x \<noteq> 0)) (\<lambda>_.
     ebind (pg_sess s x) (\<lambda>se. list_find (objs (pg_bearers s)) (\<lambda>be. pb_ebi be = e) (ps_bearer_list se)))"

definition pgw_bearer_find_by_name :: "index \<Rightarrow> string \<Rightarrow> pgw_state \<Rightarrow> index option res" where
  "pgw_bearer_find_by_name x name s =
     ebind (ogs_assert (x \<noteq> 0)) (\<lambda>_.
     ebind (pg_sess s x) (\<lambda>se. list_find (objs (pg_bearers s)) (\<lambda>be. pb_name be = Some name) (ps_bearer_list se)))"

definition pgw_default_bearer_in_sess :: "index \<Rightarrow> pgw_state \<Rightarrow> index option res" where
  "pgw_default_bearer_in_sess x s =
     ebind (ogs_assert (x \<noteq> 0)) (\<lambda>_.
     ebind (pg_sess s x) (\<lambda>se. Inr (case ps_bearer_list se of [] \<Rightarrow> None | b # _ \<Rightarrow> Some b)))"

text \<open>Equality of the class and the allocation and retention priority of two qualities of service.\<close>

definition qci_arp_eq :: "ogs_qos \<Rightarrow> ogs_qos \<Rightarrow> bool" where
  "qci_arp_eq p q \<longleftrightarrow> oq_qci p = oq_qci q \<and> oq_priority_level p = oq_priority_level q
     \<and> oq_pre_emption_capability p = oq_pre_emption_capability q
     \<and> oq_pre_emption_vulnerability p = oq_pre_emption_vulnerability q"

definition pgw_bearer_find_by_qci_arp :: "index \<Rightarrow> ogs_qos \<Rightarrow> pgw_state \<Rightarrow> index option res" where
  "pgw_bearer_find_by_qci_arp x q s =
     ebind (ogs_assert (x \<noteq> 0)) (\<lambda>_.
     ebind (pg_sess s x) (\<lambda>se.
     case ps_bearer_list se of
       [] \<Rightarrow> Inr None
     | b # bs \<Rightarrow>
         if qci_arp_eq (pdn_qos (ps_pdn se)) q then Inr (Some b)
         else list_find (objs (pg_bearers s)) (\<lambda>be. qci_arp_eq (pb_qos be) q) bs))"

subsection \<open>Sessions\<close>

text \<open>
  The addresses of a new session by its PDN type. The pointers that the type does not name keep
  what the slot held.
\<close>

definition sess_addresses :: "pgw_env \<Rightarrow> index \<Rightarrow> string \<Rightarrow> u8 \<Rightarrow> pgw_state \<Rightarrow> pgw_state res" where
  "sess_addresses E x a pdn_type s =
     (if pdn_type = OGS_GTP_PDN_TYPE_IPV4 then
        ebind (ue_ip_alloc E AF_INET a s) (\<lambda>(p4, s).
        ebind (get_ue_ip (pg_subnets s) p4) (\<lambda>ip4.
        ebind (pg_sess s x) (\<lambda>se.
        Inr (pg_set_sess x (se\<lparr>ps_ipv4 := Some p4,
          ps_pdn := (ps_pdn se)\<lparr>pdn_paa := \<lparr>paa_type = pdn_type, paa_addr = Paa_Ipv4 (uip_addr ip4 ! 0)\<rparr>\<rparr>\<rparr>) s))))
      else if pdn_type = OGS_GTP_PDN_TYPE_IPV6 then
        ebind (ue_ip_alloc E AF_INET6 a s) (\<lambda>(p6, s).
        ebind (get_ue_ip (pg_subnets s) p6) (\<lambda>ip6.
        ebind (non_null (uip_subnet ip6)) (\<lambda>i.
        ebind (deref (pg_subnets s) i) (\<lambda>subnet6.
        ebind (pg_sess s x) (\<lambda>se.
        Inr (pg_set_sess x (se\<lparr>ps_ipv6 := Some p6,
          ps_pdn := (ps_pdn se)\<lparr>pdn_paa := \<lparr>paa_type = pdn_type,
            paa_addr = Paa_Ipv6 (sub_prefixlen subnet6) (uip_addr ip6)\<rparr>\<rparr>\<rparr>) s))))))
      else if pdn_type = OGS_GTP_PDN_TYPE_IPV4V6 then
        ebind (ue_ip_alloc E AF_INET a s) (\<lambda>(p4, s).
        ebind (ue_ip_alloc E AF_INET6 a s) (\<lambda>(p6, s).
        ebind (get_ue_ip (pg_subnets s) p6) (\<lambda>ip6.
        ebind (non_null (uip_subnet ip6)) (\<lambda>i.
        ebind (deref (pg_subnets s) i) (\<lambda>subnet6.
        ebind (get_ue_ip (pg_subnets s) p4) (\<lambda>ip4.
        ebind (pg_sess s x) (\<lambda>se.
        Inr (pg_set_sess x (se\<lparr>ps_ipv4 := Some p4, ps_ipv6 := Some p6,
          ps_pdn := (ps_pdn se)\<lparr>pdn_paa := \<lparr>paa_type = pdn_type,
            paa_addr = Paa_Both (sub_prefixlen subnet6) (uip_addr ip6) (uip_addr ip4 ! 0)\<rparr>\<rparr>\<rparr>) s))))))))
      else Inl Assert_Failed)"

text \<open>The address of a session as the log messages read it, through the pointer if there is one.\<close>

definition read_ue_ip :: "ue_ip_ptr option \<Rightarrow> pgw_state \<Rightarrow> u32 list option res" where
  "read_ue_ip p s =
     (case p of
        None \<Rightarrow> Inr None
      | Some p \<Rightarrow> ebind (get_ue_ip (pg_subnets s) p) (\<lambda>ip. Inr (Some (uip_addr ip))))"

definition imsi_copy :: "pgw_env \<Rightarrow> u8 list \<Rightarrow> pgw_sess \<Rightarrow> pgw_sess res" where
  "imsi_copy E bytes se =
     (if length bytes \<le> pe_max_imsi_len E then
        Inr (se\<lparr>ps_imsi_len := length bytes, ps_imsi := poke (ps_imsi se) 0 bytes, ps_imsi_bcd := pe_buffer_to_bcd E bytes\<rparr>)
      else Inl Out_Of_Bounds)"

definition pgw_sess_add ::
  "pgw_env \<Rightarrow> u8 list \<Rightarrow> string \<Rightarrow> u8 \<Rightarrow> u8 \<Rightarrow> pgw_state \<Rightarrow> (index \<times> pgw_state) res" where
  "pgw_sess_add E imsi a pdn_type e s =
     ebind (non_null (pool_alloc (pe_sess_pick E) (pg_sesss s))) (\<lambda>(x, p).
     let s = s\<lparr>pg_sesss := p\<rparr> in
     ebind (ogs_assert (x > 0 \<and> x \<le> pe_max_sess E)) (\<lambda>_.
     ebind (pg_sess s x) (\<lambda>se.
     ebind (imsi_copy E imsi (se\<lparr>ps_gnode := None, ps_pgw_s5c_teid := x\<rparr>)) (\<lambda>se.
     let s = pg_set_sess x (se\<lparr>ps_pdn := (ps_pdn se)\<lparr>pdn_apn := take (pe_max_apn_len E) a\<rparr>, ps_bearer_list := []\<rparr>) s in
     ebind (pgw_bearer_add E x s) (\<lambda>(b, s).
     ebind (pg_bearer s b) (\<lambda>be.
     let s = pg_set_bearer b (be\<lparr>pb_ebi := e\<rparr>) s in
     ebind (sess_addresses E x a pdn_type s) (\<lambda>s.
     ebind (pg_sess s x) (\<lambda>se.
     ebind (read_ue_ip (ps_ipv4 se) s) (\<lambda>_.
     ebind (read_ue_ip (ps_ipv6 se) s) (\<lambda>_.
     Inr (x, s\<lparr>pg_sess_list := list_add E (pg_sess_list s) x\<rparr>)))))))))))"

definition pgw_sess_remove :: "pgw_env \<Rightarrow> index \<Rightarrow> pgw_state \<Rightarrow> pgw_state res" where
  "pgw_sess_remove E x s =
     ebind (ogs_assert (x \<noteq> 0)) (\<lambda>_.
     let s = s\<lparr>pg_sess_list := list_remove E (pg_sess_list s) x\<rparr> in
     ebind (pg_sess s x) (\<lambda>se.
     ebind (ue_ip_free (ps_ipv4 se) s) (\<lambda>s.
     ebind (ue_ip_free (ps_ipv6 se) s) (\<lambda>s.
     ebind (pgw_bearer_remove_all E x s) (\<lambda>s.
     Inr (s\<lparr>pg_sesss := pool_free x (pg_sesss s)\<rparr>))))))"

fun pg_sess_remove_each :: "pgw_env \<Rightarrow> index list \<Rightarrow> pgw_state \<Rightarrow> pgw_state res" where
  "pg_sess_remove_each E [] s = Inr s"
| "pg_sess_remove_each E (x # xs) s = ebind (pgw_sess_remove E x s) (pg_sess_remove_each E xs)"

definition pgw_sess_remove_all :: "pgw_env \<Rightarrow> pgw_state \<Rightarrow> pgw_state res" where
  "pgw_sess_remove_all E s = pg_sess_remove_each E (pg_sess_list s) s"

definition pgw_sess_find :: "u32 \<Rightarrow> pgw_state \<Rightarrow> index option res" where
  "pgw_sess_find i s =
     ebind (ogs_assert (i \<noteq> 0)) (\<lambda>_. Inr (if objs (pg_sesss s) i = None then None else Some i))"

definition pgw_sess_find_by_teid :: "u32 \<Rightarrow> pgw_state \<Rightarrow> index option res" where
  "pgw_sess_find_by_teid teid s = pgw_sess_find teid s"

subsection \<open>Peers and messages\<close>

definition sgw_setup ::
  "pgw_env \<Rightarrow> index list \<Rightarrow> f_teid \<Rightarrow> u32 \<Rightarrow> index option \<Rightarrow> index option \<Rightarrow> pgw_state \<Rightarrow>
   (index \<times> index list \<times> pgw_state) res" where
  "sgw_setup E list f port sock sock6 s =
     ebind (ogs_gtp_node_find E list f s) (\<lambda>r.
     case r of
       Some g \<Rightarrow> Inr (g, list, s)
     | None \<Rightarrow>
         ebind (ogs_gtp_node_add E list f (ucast port) (pe_no_ipv4 E) (pe_no_ipv6 E) (pe_prefer_ipv4 E) s) (\<lambda>(g, list, s).
         ebind (ogs_gtp_connect sock sock6 g s) (\<lambda>(rv, s).
         ebind (ogs_assert (rv = OGS_OK)) (\<lambda>_. Inr (g, list, s)))))"

definition sgw_s5u_setup :: "pgw_env \<Rightarrow> f_teid \<Rightarrow> pgw_state \<Rightarrow> (index \<times> pgw_state) res" where
  "sgw_s5u_setup E f s =
     ebind (sgw_setup E (sgw_s5u_list s) f (pg_gtpu_port s) (pg_gtpu_sock s) (pg_gtpu_sock6 s) s) (\<lambda>(g, list, s).
     Inr (g, s\<lparr>sgw_s5u_list := list\<rparr>))"

text \<open>
  A message is read as a Create Session Request whatever its type is; for another type the union is
  read through the wrong member, which the environment stands for.
\<close>

definition as_create_request :: "pgw_env \<Rightarrow> s5_body \<Rightarrow> s5_create_session_request" where
  "as_create_request E body = (case body of S5_Create_Session_Request req \<Rightarrow> req | _ \<Rightarrow> pe_union_create E body)"

definition pgw_sgw_add_by_message :: "pgw_env \<Rightarrow> s5_body \<Rightarrow> pgw_state \<Rightarrow> (index option \<times> pgw_state) res" where
  "pgw_sgw_add_by_message E body s =
     (case scq_sender_f_teid (as_create_request E body) of
        None \<Rightarrow> Inr (None, s)
      | Some f \<Rightarrow>
          ebind (sgw_setup E (sgw_s5c_list s) f (pg_gtpc_port s) (pg_gtpc_sock s) (pg_gtpc_sock6 s) s) (\<lambda>(g, list, s).
          Inr (Some g, s\<lparr>sgw_s5c_list := list\<rparr>)))"

definition pgw_sess_add_by_message :: "pgw_env \<Rightarrow> s5_body \<Rightarrow> pgw_state \<Rightarrow> (index option \<times> pgw_state) res" where
  "pgw_sess_add_by_message E body s =
     (let req = as_create_request E body in
      case scq_imsi req of
        None \<Rightarrow> Inr (None, s)
      | Some imsi \<Rightarrow>
      case scq_access_point_name req of
        None \<Rightarrow> Inr (None, s)
      | Some a \<Rightarrow>
      case scq_bearer_contexts req of
        None \<Rightarrow> Inr (None, s)
      | Some bc \<Rightarrow>
      case sbc_eps_bearer_id bc of
        None \<Rightarrow> Inr (None, s)
      | Some e \<Rightarrow>
      case scq_pdn_type req of
        None \<Rightarrow> Inr (None, s)
      | Some t \<Rightarrow>
          ebind (strcpy (pe_max_apn_len E) (pe_fqdn_parse E a)) (\<lambda>a.
          ebind (pgw_sess_add E imsi a t e s) (\<lambda>(x, s). Inr (Some x, s))))"

definition pgw_context_final :: "pgw_env \<Rightarrow> pgw_state \<Rightarrow> pgw_state res" where
  "pgw_context_final E s =
     ebind (pgw_sess_remove_all E s) (\<lambda>s.
     ebind (pgw_dev_remove_all E s) (\<lambda>s.
     ebind (pgw_subnet_remove_all E s) (\<lambda>s.
     ebind (ogs_gtp_node_remove_all E (sgw_s5c_list s) s) (\<lambda>(l, s). let s = s\<lparr>sgw_s5c_list := l\<rparr> in
     ebind (ogs_gtp_node_remove_all E (sgw_s5u_list s) s) (\<lambda>(l, s).
     Inr (s\<lparr>sgw_s5u_list := l\<rparr>))))))"

end
