(* ===== verification/Pgw_Ipfw.thy ===== *)
theory Pgw_Ipfw
  imports Pgw_Context
begin

text \<open>
  Packet filters, \<^verbatim>\<open>src/src/pgw/pgw-ipfw.c\<close>: a flow description is compiled into a rule, and a
  downlink packet is given to the first bearer of its session with a matching filter. With them the
  two mask helpers of \<^verbatim>\<open>src/src/pgw/ipfw/ipfw2.c\<close> that the gateway calls.
\<close>

subsection \<open>Masks\<close>

definition minimask :: "u8 list" where
  "minimask = [0x00, 0x80, 0xc0, 0xe0, 0xf0, 0xf8, 0xfc, 0xfe, 0xff]"

fun n2mask_bytes :: "nat \<Rightarrow> u8 list" where
  "n2mask_bytes n = (if n = 0 then [] else if n \<ge> 8 then 0xff # n2mask_bytes (n - 8) else [minimask ! n])"

declare n2mask_bytes.simps [simp del]

definition n2mask :: "nat \<Rightarrow> u8 list" where
  "n2mask n = poke (replicate 16 0) 0 (n2mask_bytes n)"

definition mask_bit :: "u8 list \<Rightarrow> nat \<Rightarrow> bool" where
  "mask_bit p i = bit (p ! (i div 8)) (7 - i mod 8)"

text \<open>The number of leading ones, -1 if a one follows the first zero.\<close>

definition contigmask :: "u8 list \<Rightarrow> nat \<Rightarrow> int" where
  "contigmask p len =
     (let i = length (takeWhile (mask_bit p) [0..<len]) in
      if list_ex (mask_bit p) [i + 1..<len] then -1 else int i)"

text \<open>Four words and their octets in memory.\<close>

definition words_of :: "u8 list \<Rightarrow> u32 list" where
  "words_of bs = map (\<lambda>k. word32 (drop (4 * k) bs)) [0..<4]"

definition bytes_of :: "u32 list \<Rightarrow> u8 list" where
  "bytes_of ws = concat (map bytes32 ws)"

subsection \<open>Compilation of a flow description\<close>

text \<open>\<^verbatim>\<open>strtok_r\<close> with a space as the only separator.\<close>

fun strtok :: "string \<Rightarrow> string \<Rightarrow> string list" where
  "strtok acc [] = (if acc = [] then [] else [rev acc])"
| "strtok acc (c # cs) =
     (if c = CHR '' '' then (if acc = [] then strtok [] cs else rev acc # strtok [] cs) else strtok (c # acc) cs)"

definition MAX_NUM_OF_TOKEN :: nat where "MAX_NUM_OF_TOKEN = 32"

definition zero_rule :: pgw_rule where
  "zero_rule = \<lparr>ru_proto = 0, ru_ipv4_local = False, ru_ipv4_remote = False, ru_ipv6_local = False,
     ru_ipv6_remote = False, ru_local_addr = [0, 0, 0, 0], ru_local_mask = [0, 0, 0, 0],
     ru_remote_addr = [0, 0, 0, 0], ru_remote_mask = [0, 0, 0, 0],
     ru_local_low = 0, ru_local_high = 0, ru_remote_low = 0, ru_remote_high = 0\<rparr>"

definition first4 :: "u32 list \<Rightarrow> u32 list res" where
  "first4 d = (if 4 \<le> length d then Inr (take 4 d) else Inl Out_Of_Bounds)"

text \<open>One instruction of the compiled rule.\<close>

fun rule_insn :: "ipfw_insn \<Rightarrow> pgw_rule \<Rightarrow> pgw_rule res" where
  "rule_insn (O_PROTO p) ru = Inr (ru\<lparr>ru_proto := ucast p\<rparr>)"
| "rule_insn (O_IP_SRC a) ru =
     ebind (array_read a 0) (\<lambda>a0.
     Inr (ru\<lparr>ru_ipv4_local := True, ru_local_addr := (ru_local_addr ru)[0 := a0],
             ru_local_mask := (ru_local_mask ru)[0 := 0xffffffff]\<rparr>))"
| "rule_insn (O_IP_SRC_MASK a) ru =
     ebind (array_read a 0) (\<lambda>a0. ebind (array_read a 1) (\<lambda>a1.
     Inr (ru\<lparr>ru_ipv4_local := True, ru_local_addr := (ru_local_addr ru)[0 := a0],
             ru_local_mask := (ru_local_mask ru)[0 := a1]\<rparr>)))"
| "rule_insn (O_IP_DST a) ru =
     ebind (array_read a 0) (\<lambda>a0.
     Inr (ru\<lparr>ru_ipv4_remote := True, ru_remote_addr := (ru_remote_addr ru)[0 := a0],
             ru_remote_mask := (ru_remote_mask ru)[0 := 0xffffffff]\<rparr>))"
| "rule_insn (O_IP_DST_MASK a) ru =
     ebind (array_read a 0) (\<lambda>a0. ebind (array_read a 1) (\<lambda>a1.
     Inr (ru\<lparr>ru_ipv4_remote := True, ru_remote_addr := (ru_remote_addr ru)[0 := a0],
             ru_remote_mask := (ru_remote_mask ru)[0 := a1]\<rparr>)))"
| "rule_insn (O_IP6_SRC a) ru =
     ebind (first4 a) (\<lambda>a0.
     Inr (ru\<lparr>ru_ipv6_local := True, ru_local_addr := a0, ru_local_mask := words_of (n2mask 128)\<rparr>))"
| "rule_insn (O_IP6_SRC_MASK a) ru =
     ebind (first4 a) (\<lambda>a0. ebind (first4 (drop 4 a)) (\<lambda>a1.
     Inr (ru\<lparr>ru_ipv6_local := True, ru_local_addr := a0, ru_local_mask := a1\<rparr>)))"
| "rule_insn (O_IP6_DST a) ru =
     ebind (first4 a) (\<lambda>a0.
     Inr (ru\<lparr>ru_ipv6_remote := True, ru_remote_addr := a0, ru_remote_mask := words_of (n2mask 128)\<rparr>))"
| "rule_insn (O_IP6_DST_MASK a) ru =
     ebind (first4 a) (\<lambda>a0. ebind (first4 (drop 4 a)) (\<lambda>a1.
     Inr (ru\<lparr>ru_ipv6_remote := True, ru_remote_addr := a0, ru_remote_mask := a1\<rparr>)))"
| "rule_insn (O_IP_SRCPORT p) ru =
     ebind (array_read p 0) (\<lambda>lo. ebind (array_read p 1) (\<lambda>hi. Inr (ru\<lparr>ru_local_low := lo, ru_local_high := hi\<rparr>)))"
| "rule_insn (O_IP_DSTPORT p) ru =
     ebind (array_read p 0) (\<lambda>lo. ebind (array_read p 1) (\<lambda>hi. Inr (ru\<lparr>ru_remote_low := lo, ru_remote_high := hi\<rparr>)))"
| "rule_insn O_Other ru = Inr ru"

fun rule_insns :: "ipfw_insn list \<Rightarrow> pgw_rule \<Rightarrow> pgw_rule res" where
  "rule_insns [] ru = Inr ru"
| "rule_insns (c # cs) ru = ebind (rule_insn c ru) (rule_insns cs)"

text \<open>
  The tokens are the arguments of the rule compiler: the action, what follows the direction, and the
  direction last. A missing first or second token is compared through a null pointer. None is the
  return of \<^verbatim>\<open>OGS_ERROR\<close>.
\<close>

definition pgw_compile_packet_filter :: "pgw_env \<Rightarrow> string option \<Rightarrow> pgw_rule option res" where
  "pgw_compile_packet_filter E description =
     ebind (non_null description) (\<lambda>d.
     case strtok [] d of
       [] \<Rightarrow> Inl Dangling_Pointer
     | action # ts \<Rightarrow>
     if action \<noteq> ''permit'' then Inr None else
     case ts of
       [] \<Rightarrow> Inl Dangling_Pointer
     | dir # ts \<Rightarrow>
     if dir \<noteq> ''out'' then Inr None else
     if length ts + 3 < MAX_NUM_OF_TOKEN then
       ebind (rule_insns (pe_compile_rule E (action # ts @ [dir])) zero_rule) (\<lambda>ru.
       Inr (if ru = zero_rule then None else Some ru))
     else Inl Out_Of_Bounds)"

subsection \<open>The IPv6 header\<close>

definition read16 :: "u8 list \<Rightarrow> nat \<Rightarrow> u16 res" where
  "read16 bs off = (if off + 2 \<le> length bs then Inr (word16 (drop off bs)) else Inl Out_Of_Bounds)"

definition read32 :: "u8 list \<Rightarrow> nat \<Rightarrow> u32 res" where
  "read32 bs off = (if off + 4 \<le> length bs then Inr (word32 (drop off bs)) else Inl Out_Of_Bounds)"

abbreviation (input) "IP6OPT_JUMBO \<equiv> (0xc2::u8)"
abbreviation (input) "PROTO_TCP \<equiv> (6::u8)"
abbreviation (input) "PROTO_UDP \<equiv> (17::u8)"
abbreviation (input) "PROTO_ICMPV6 \<equiv> (58::u8)"

text \<open>
  The loop that looks for a jumbo payload option. It may not end: none is the result of a run that
  does not return. Pointers are offsets into the packet buffer.
\<close>

partial_function (option) jumbo_loop :: "u8 list \<Rightarrow> u8 \<Rightarrow> nat \<Rightarrow> nat \<Rightarrow> nat \<Rightarrow> nat res option" where
  "jumbo_loop buf nxt p jp endp =
     (if p \<noteq> endp then Some (Inr endp)
      else if nxt \<noteq> 0 then Some (Inl Assert_Failed)
      else case read32 buf (jp + 2) of
        Inl e \<Rightarrow> Some (Inl e)
      | Inr l \<Rightarrow>
          let jp_len = unat (ntohl l); ty = buf ! jp in
          if ty = IP6OPT_JUMBO then jumbo_loop buf nxt p jp (p + jp_len)
          else if ty = 0 then jumbo_loop buf nxt p (jp + 1) endp
          else jumbo_loop buf nxt p (jp + 2 + jp_len) endp)"

text \<open>The loop over the extension headers: the upper layer protocol and where it starts.\<close>

function ext_loop :: "u8 list \<Rightarrow> u8 \<Rightarrow> nat \<Rightarrow> nat \<Rightarrow> (u8 \<times> nat) res" where
  "ext_loop buf nxt p endp =
     (if p < endp then
        if nxt \<in> {0, 43, 60, 135, 139, 140, 253, 254} then
          ebind (array_read buf (p + 1)) (\<lambda>l. ebind (array_read buf p) (\<lambda>n.
          ext_loop buf n (p + (8 * unat l + 8)) endp))
        else if nxt = 44 then ebind (array_read buf p) (\<lambda>n. ext_loop buf n (p + 8) endp)
        else if nxt = 51 then
          ebind (array_read buf (p + 1)) (\<lambda>l. ebind (array_read buf p) (\<lambda>n.
          ext_loop buf n (p + 4 * (unat l + 2)) endp))
        else Inr (nxt, p)
      else Inr (nxt, p))"
  by pat_completeness auto
termination by (relation "measure (\<lambda>(buf, nxt, p, endp). endp - p)") auto

declare ext_loop.simps [simp del]

definition IP6_HDR_LEN :: nat where "IP6_HDR_LEN = 40"

definition decode_ipv6_header :: "u8 list \<Rightarrow> (u8 \<times> u16) res option" where
  "decode_ipv6_header buf =
     (case ebind (array_read buf 6) (\<lambda>nxt. ebind (read16 buf 4) (\<lambda>plen. Inr (nxt, plen))) of
        Inl e \<Rightarrow> Some (Inl e)
      | Inr (nxt, plen) \<Rightarrow>
          let p = IP6_HDR_LEN in
          (case jumbo_loop buf nxt p (p + 2) (p + unat (ntohs plen)) of
             None \<Rightarrow> None
           | Some r \<Rightarrow> Some (ebind r (\<lambda>endp. ebind (ext_loop buf nxt p endp) (\<lambda>(proto, p). Inr (proto, of_nat p))))))"

subsection \<open>Classification\<close>

text \<open>A packet buffer: the octets from the start of the packet to the end of the buffer, and the packet's length.\<close>

record pkbuf =
  pk_buf :: "u8 list"
  pk_len :: nat

text \<open>What is read of the headers: address words, their number, the protocol and the header length.\<close>

record ip_view =
  iv_src :: "u32 list"
  iv_dst :: "u32 list"
  iv_words :: nat
  iv_proto :: u8
  iv_hlen :: u16

definition read_addr :: "u8 list \<Rightarrow> nat \<Rightarrow> u32 list res" where
  "read_addr bs off = (if off + 16 \<le> length bs then Inr (words_of (drop off bs)) else Inl Out_Of_Bounds)"

definition ip_version :: "u8 list \<Rightarrow> u8 res" where
  "ip_version bs = ebind (array_read bs 0) (\<lambda>b. Inr (drop_bit 4 b))"

text \<open>All four words of both addresses are read whatever the version; the addresses of a packet of
  another version are read through null pointers.\<close>

definition view_packet :: "u8 list \<Rightarrow> ip_view res option" where
  "view_packet buf =
     (case ip_version buf of
        Inl e \<Rightarrow> Some (Inl e)
      | Inr v \<Rightarrow>
          if v = 4 then
            Some (ebind (array_read buf 9) (\<lambda>proto.
              ebind (read_addr buf 12) (\<lambda>src. ebind (read_addr buf 16) (\<lambda>dst.
              Inr \<lparr>iv_src = src, iv_dst = dst, iv_words = 1, iv_proto = proto,
                   iv_hlen = ucast (take_bit 4 (buf ! 0)) * 4\<rparr>))))
          else if v = 6 then
            (case decode_ipv6_header buf of
               None \<Rightarrow> None
             | Some r \<Rightarrow> Some (ebind r (\<lambda>(proto, hlen).
                 ebind (read_addr buf 8) (\<lambda>src. ebind (read_addr buf 24) (\<lambda>dst.
                 Inr \<lparr>iv_src = src, iv_dst = dst, iv_words = 4, iv_proto = proto, iv_hlen = hlen\<rparr>)))))
          else Some (Inl Dangling_Pointer))"

text \<open>A port against a range; a bound of zero is no bound and a port without bounds is not read.\<close>

definition port_ok :: "u8 list \<Rightarrow> nat \<Rightarrow> u16 \<Rightarrow> u16 \<Rightarrow> bool res" where
  "port_ok buf off low high =
     (if low = 0 \<and> high = 0 then Inr True
      else ebind (read16 buf off) (\<lambda>w.
        let port = ntohs w in Inr (\<not> (low \<noteq> 0 \<and> port < low) \<and> \<not> (high \<noteq> 0 \<and> port > high))))"

definition addr_match :: "nat \<Rightarrow> u32 list \<Rightarrow> u32 list \<Rightarrow> u32 list \<Rightarrow> bool" where
  "addr_match n a m addr \<longleftrightarrow> take n (map2 (AND) a m) = take n addr"

definition pf_match :: "u8 list \<Rightarrow> ip_view \<Rightarrow> pgw_pf \<Rightarrow> bool res" where
  "pf_match buf v pf =
     (let ru = f_rule pf; n = iv_words v in
      if f_direction pf \<noteq> 1 then Inr False
      else if addr_match n (iv_src v) (ru_local_mask ru) (ru_local_addr ru)
            \<and> addr_match n (iv_dst v) (ru_remote_mask ru) (ru_remote_addr ru) then
        if ru_proto ru = 0 then Inr True
        else if ru_proto ru = iv_proto v then
          if ru_proto ru = PROTO_TCP \<or> ru_proto ru = PROTO_UDP then
            ebind (port_ok buf (unat (iv_hlen v)) (ru_local_low ru) (ru_local_high ru)) (\<lambda>ok.
            if ok then port_ok buf (unat (iv_hlen v) + 2) (ru_remote_low ru) (ru_remote_high ru) else Inr False)
          else Inr True
        else Inr False
      else Inr False)"

fun pf_search :: "u8 list \<Rightarrow> ip_view \<Rightarrow> index list \<Rightarrow> pgw_state \<Rightarrow> pgw_pf option res" where
  "pf_search buf v [] s = Inr None"
| "pf_search buf v (f # fs) s =
     ebind (pg_pf s f) (\<lambda>pf.
     ebind (pf_match buf v pf) (\<lambda>m. if m then Inr (Some pf) else pf_search buf v fs s))"

text \<open>A bearer without an identity is one whose Create Bearer Response has not arrived.\<close>

fun bearer_search :: "u8 list \<Rightarrow> ip_view \<Rightarrow> index list \<Rightarrow> pgw_state \<Rightarrow> index option res" where
  "bearer_search buf v [] s = Inr None"
| "bearer_search buf v (b # bs) s =
     ebind (pg_bearer s b) (\<lambda>be.
     if pb_ebi be = 0 then bearer_search buf v bs s
     else ebind (pf_search buf v (pb_pf_list be) s) (\<lambda>r.
       case r of Some pf \<Rightarrow> Inr (Some (f_bearer pf)) | None \<Rightarrow> bearer_search buf v bs s))"

text \<open>\<^verbatim>\<open>memcmp\<close> of the destination with an address of the session, over the length of the packet's addresses.\<close>

definition addr_is :: "nat \<Rightarrow> u32 list \<Rightarrow> u32 list option \<Rightarrow> bool" where
  "addr_is n dst a = (case a of None \<Rightarrow> False | Some a \<Rightarrow> take n dst = take n a)"

fun sess_search :: "u8 list \<Rightarrow> ip_view \<Rightarrow> index list \<Rightarrow> pgw_state \<Rightarrow> index option res" where
  "sess_search buf v [] s = Inr None"
| "sess_search buf v (x # xs) s =
     ebind (pg_sess s x) (\<lambda>se.
     ebind (read_ue_ip (ps_ipv4 se) s) (\<lambda>a4.
     ebind (read_ue_ip (ps_ipv6 se) s) (\<lambda>a6.
     if addr_is (iv_words v) (iv_dst v) a4 \<or> addr_is (iv_words v) (iv_dst v) a6 then
       (case ps_bearer_list se of
          [] \<Rightarrow> Inl Assert_Failed
        | default_bearer # bs \<Rightarrow>
            ebind (bearer_search buf v bs s) (\<lambda>r.
            Inr (Some (case r of Some b \<Rightarrow> b | None \<Rightarrow> default_bearer))))
     else sess_search buf v xs s)))"

definition pgw_bearer_find_by_packet :: "pkbuf \<Rightarrow> pgw_state \<Rightarrow> index option res option" where
  "pgw_bearer_find_by_packet pkt s =
     (if pk_len pkt = 0 then Some (Inl Assert_Failed)
      else case view_packet (pk_buf pkt) of
        None \<Rightarrow> None
      | Some r \<Rightarrow> Some (ebind r (\<lambda>v. sess_search (pk_buf pkt) v (pg_sess_list s) s)))"

end
