(* ===== verification/Pgw_Build.thy ===== *)
theory Pgw_Build
  imports Pgw_Ipfw
begin

text \<open>
  The messages of the packet gateway, \<^verbatim>\<open>src/src/pgw/pgw-s5c-build.c\<close>: the traffic flow template of a
  bearer's packet filters, the answer to the protocol configuration options of the UE, and the
  messages that carry them.
\<close>

subsection \<open>Traffic flow template\<close>

definition tft_comp :: "u8 \<Rightarrow> u8 list \<Rightarrow> tft_component" where
  "tft_comp t bs = \<lparr>comp_type = t, comp_union = poke (replicate 32 0) 0 bs\<rparr>"

text \<open>The components of a rule in the order they are appended, each with what it adds to the length.\<close>

definition rule_components :: "pgw_rule \<Rightarrow> (tft_component \<times> nat) list" where
  "rule_components ru =
     (if ru_proto ru \<noteq> 0 then [(tft_comp 48 [ru_proto ru], 2)] else [])
   @ (if ru_ipv4_local ru then
        [(tft_comp 17 (bytes32 (ru_local_addr ru ! 0) @ bytes32 (ru_local_mask ru ! 0)), 9)] else [])
   @ (if ru_ipv4_remote ru then
        [(tft_comp 16 (bytes32 (ru_remote_addr ru ! 0) @ bytes32 (ru_remote_mask ru ! 0)), 9)] else [])
   @ (if ru_ipv6_local ru then
        [(tft_comp 35 (bytes_of (ru_local_addr ru) @ [of_int (contigmask (bytes_of (ru_local_mask ru)) 128)]), 18)] else [])
   @ (if ru_ipv6_remote ru then
        [(tft_comp 33 (bytes_of (ru_remote_addr ru) @ [of_int (contigmask (bytes_of (ru_remote_mask ru)) 128)]), 18)] else [])
   @ (if ru_local_low ru \<noteq> 0 then
        if ru_local_low ru = ru_local_high ru then [(tft_comp 64 (bytes16 (ru_local_low ru)), 3)]
        else [(tft_comp 65 (bytes16 (ru_local_low ru) @ bytes16 (ru_local_high ru)), 5)] else [])
   @ (if ru_remote_low ru \<noteq> 0 then
        if ru_remote_low ru = ru_remote_high ru then [(tft_comp 80 (bytes16 (ru_remote_low ru)), 3)]
        else [(tft_comp 81 (bytes16 (ru_remote_low ru) @ bytes16 (ru_remote_high ru)), 5)] else [])"

definition tft_pf_of :: "nat \<Rightarrow> pgw_pf \<Rightarrow> tft_filter" where
  "tft_pf_of i pf =
     (let cs = rule_components (f_rule pf) in
      \<lparr>pf_flags = push_bit 4 (take_bit 2 (f_direction pf)) OR take_bit 4 (f_identifier pf - 1),
       pf_precedence = of_nat (i + 1), pf_length = of_nat (sum_list (map snd cs)),
       pf_component = map fst cs @ replicate (16 - length cs) (tft_comp 0 []),
       num_of_component = of_nat (length cs)\<rparr>)"

fun tft_each :: "nat \<Rightarrow> index list \<Rightarrow> pgw_state \<Rightarrow> tft_filter list \<Rightarrow> tft_filter list res" where
  "tft_each i [] s tfs = Inr tfs"
| "tft_each i (f # fs) s tfs =
     ebind (pg_pf s f) (\<lambda>pf.
     ebind (array_write tfs i (tft_pf_of i pf)) (\<lambda>tfs. tft_each (i + 1) fs s tfs))"

definition encode_traffic_flow_template :: "index \<Rightarrow> pgw_state \<Rightarrow> tft res" where
  "encode_traffic_flow_template b s =
     ebind (ogs_assert (b \<noteq> 0)) (\<lambda>_.
     ebind (pg_bearer s b) (\<lambda>be.
     ebind (tft_each 0 (pb_pf_list be) s (replicate 16 \<lparr>pf_flags = 0, pf_precedence = 0, pf_length = 0,
       pf_component = replicate 16 (tft_comp 0 []), num_of_component = 0\<rparr>)) (\<lambda>tfs.
     Inr \<lparr>tft_flags = push_bit 5 1 OR take_bit 4 (of_nat (length (pb_pf_list be))), tft_pf = tfs\<rparr>)))"

subsection \<open>Protocol configuration options\<close>

abbreviation (input) "OGS_PCO_ID_CHALLENGE_HANDSHAKE_AUTHENTICATION_PROTOCOL \<equiv> (0xc223::u16)"
abbreviation (input) "OGS_PCO_ID_INTERNET_PROTOCOL_CONTROL_PROTOCOL \<equiv> (0x8021::u16)"
abbreviation (input) "OGS_PCO_ID_P_CSCF_IPV6_ADDRESS_REQUEST \<equiv> (0x0001::u16)"
abbreviation (input) "OGS_PCO_ID_DNS_SERVER_IPV6_ADDRESS_REQUEST \<equiv> (0x0003::u16)"
abbreviation (input) "OGS_PCO_ID_P_CSCF_IPV4_ADDRESS_REQUEST \<equiv> (0x000c::u16)"
abbreviation (input) "OGS_PCO_ID_DNS_SERVER_IPV4_ADDRESS_REQUEST \<equiv> (0x000d::u16)"

text \<open>
  An answer points to its octets. Those of a P-CSCF lie in a variable that a later answer of the same
  kind overwrites; all others never change once they are written.
\<close>

datatype pco_ptr = Pco_Octets "u8 list" | Pco_P_CSCF | Pco_P_CSCF6

record pco_work =
  pw_ids :: "(u16 \<times> pco_ptr) list"
  pw_p_cscf :: "u8 list"
  pw_p_cscf6 :: "u8 list"
  pw_state :: pgw_state

definition pco_answer :: "pgw_env \<Rightarrow> u16 \<Rightarrow> pco_ptr \<Rightarrow> pco_work \<Rightarrow> pco_work res" where
  "pco_answer E i p w =
     (if length (pw_ids w) < pe_max_pco_ids E then Inr (w\<lparr>pw_ids := pw_ids w @ [(i, p)]\<rparr>) else Inl Out_Of_Bounds)"

definition server_at :: "string option list \<Rightarrow> nat \<Rightarrow> string option" where
  "server_at l i = (if i < length l then l ! i else None)"

text \<open>The address of a server, none if it is not configured.\<close>

definition server_addr :: "pgw_env \<Rightarrow> string option \<Rightarrow> u32 list option res" where
  "server_addr E d =
     (case d of
        None \<Rightarrow> Inr None
      | Some v \<Rightarrow> ebind (non_null (pe_ipsubnet E v None)) (\<lambda>ip. Inr (Some (ips_sub ip))))"

definition pco_ipcp :: "pgw_env \<Rightarrow> pgw_state \<Rightarrow> u8 list res" where
  "pco_ipcp E s =
     ebind (server_addr E (server_at (pg_dns s) 0)) (\<lambda>d0.
     ebind (server_addr E (server_at (pg_dns s) 1)) (\<lambda>d1.
     Inr (pe_ipcp_image E 2 (htons 16)
       [case d0 of None \<Rightarrow> (0, 0, 0) | Some a \<Rightarrow> (129, 6, a ! 0),
        case d1 of None \<Rightarrow> (0, 0, 0) | Some a \<Rightarrow> (131, 6, a ! 0)])))"

definition pco_server :: "pgw_env \<Rightarrow> u16 \<Rightarrow> nat \<Rightarrow> string option \<Rightarrow> pco_work \<Rightarrow> pco_work res" where
  "pco_server E i len d w =
     ebind (server_addr E d) (\<lambda>r.
     case r of None \<Rightarrow> Inr w | Some a \<Rightarrow> pco_answer E i (Pco_Octets (take len (bytes_of a))) w)"

text \<open>One option of the UE. The first octet of an option of no octets is outside of it.\<close>

definition pco_request :: "pgw_env \<Rightarrow> pco_id \<Rightarrow> pco_work \<Rightarrow> pco_work res" where
  "pco_request E r w =
     (let i = pco_id_id r; s = pw_state w in
      if i = OGS_PCO_ID_CHALLENGE_HANDSHAKE_AUTHENTICATION_PROTOCOL then
        ebind (array_read (pco_id_data r) 0) (\<lambda>code.
        if code = 2 then pco_answer E i (Pco_Octets [3, 0, 0, 4]) w else Inr w)
      else if i = OGS_PCO_ID_INTERNET_PROTOCOL_CONTROL_PROTOCOL then
        ebind (array_read (pco_id_data r) 0) (\<lambda>code.
        if code = 1 then
          ebind (pco_ipcp E s) (\<lambda>bs. pco_answer E i (Pco_Octets (take 16 bs)) w)
        else Inr w)
      else if i = OGS_PCO_ID_DNS_SERVER_IPV4_ADDRESS_REQUEST then
        ebind (pco_server E i 4 (server_at (pg_dns s) 0) w) (pco_server E i 4 (server_at (pg_dns s) 1))
      else if i = OGS_PCO_ID_DNS_SERVER_IPV6_ADDRESS_REQUEST then
        ebind (pco_server E i 16 (server_at (pg_dns6 s) 0) w) (pco_server E i 16 (server_at (pg_dns6 s) 1))
      else if i = OGS_PCO_ID_P_CSCF_IPV4_ADDRESS_REQUEST then
        if pg_p_cscf s = [] then Inr w
        else
          ebind (array_read (pg_p_cscf s) (pg_p_cscf_index s)) (\<lambda>v.
          ebind (non_null (pe_ipsubnet E v None)) (\<lambda>ip.
          ebind (pco_answer E i Pco_P_CSCF w) (\<lambda>w.
          Inr (w\<lparr>pw_p_cscf := take 4 (bytes_of (ips_sub ip)),
            pw_state := s\<lparr>pg_p_cscf_index := (pg_p_cscf_index s + 1) mod length (pg_p_cscf s)\<rparr>\<rparr>))))
      else if i = OGS_PCO_ID_P_CSCF_IPV6_ADDRESS_REQUEST then
        if pg_p_cscf6 s = [] then Inr w
        else
          ebind (array_read (pg_p_cscf6 s) (pg_p_cscf6_index s)) (\<lambda>v.
          ebind (non_null (pe_ipsubnet E v None)) (\<lambda>ip.
          ebind (pco_answer E i Pco_P_CSCF6 w) (\<lambda>w.
          Inr (w\<lparr>pw_p_cscf6 := take 16 (bytes_of (ips_sub ip)),
            pw_state := s\<lparr>pg_p_cscf6_index := (pg_p_cscf6_index s + 1) mod length (pg_p_cscf6 s)\<rparr>\<rparr>))))
      else Inr w)"

fun pco_requests :: "pgw_env \<Rightarrow> pco_id list \<Rightarrow> pco_work \<Rightarrow> pco_work res" where
  "pco_requests E [] w = Inr w"
| "pco_requests E (r # rs) w = ebind (pco_request E r w) (pco_requests E rs)"

fun pco_octets :: "pco_work \<Rightarrow> pco_ptr \<Rightarrow> u8 list" where
  "pco_octets w (Pco_Octets bs) = bs"
| "pco_octets w Pco_P_CSCF = pw_p_cscf w"
| "pco_octets w Pco_P_CSCF6 = pw_p_cscf6 w"

definition pgw_pco_build :: "pgw_env \<Rightarrow> u8 list \<Rightarrow> pgw_state \<Rightarrow> (u8 list \<times> pgw_state) res" where
  "pgw_pco_build E tlv s =
     ebind (non_null (pe_pco_parse E tlv)) (\<lambda>ue.
     ebind (pco_requests E (pco_ids ue) \<lparr>pw_ids = [], pw_p_cscf = [], pw_p_cscf6 = [], pw_state = s\<rparr>) (\<lambda>w.
     Inr (pe_pco_build E \<lparr>pco_ext = pco_ext ue, pco_configuration_protocol = pco_configuration_protocol ue,
            pco_ids = map (\<lambda>(i, p). \<lparr>pco_id_id = i, pco_id_data = pco_octets w p\<rparr>) (pw_ids w)\<rparr>,
          pw_state w)))"

text \<open>The element of a response: built if the request has one.\<close>

definition pco_element :: "pgw_env \<Rightarrow> u8 list option \<Rightarrow> pgw_state \<Rightarrow> (u8 list option \<times> pgw_state) res" where
  "pco_element E pco s =
     (case pco of
        None \<Rightarrow> Inr (None, s)
      | Some tlv \<Rightarrow>
          ebind (pgw_pco_build E tlv s) (\<lambda>(bs, s).
          ebind (ogs_assert (bs \<noteq> [])) (\<lambda>_. Inr (Some bs, s))))"

subsection \<open>Messages\<close>

definition s5_f_teid :: "u8 \<Rightarrow> u32 \<Rightarrow> ogs_sockaddr option \<Rightarrow> ogs_sockaddr option \<Rightarrow> f_teid res" where
  "s5_f_teid iface teid addr addr6 =
     ebind (ogs_gtp_sockaddr_to_f_teid addr addr6 (zero_f_teid\<lparr>ft_interface_type := iface, ft_teid := htonl teid\<rparr>))
       (\<lambda>(f, len). Inr f)"

definition build_msg :: "pgw_env \<Rightarrow> s5_body \<Rightarrow> s5_body res" where
  "build_msg E body = ebind (ogs_assert (pe_build_ok E body)) (\<lambda>_. Inr body)"

text \<open>The length of the address allocation follows the address pointers of the session, not its PDN type.\<close>

definition sess_paa_len :: "pgw_sess \<Rightarrow> paa_len res" where
  "sess_paa_len se =
     (if ps_ipv4 se \<noteq> None \<and> ps_ipv6 se \<noteq> None then Inr OGS_PAA_IPV4V6_LEN
      else if ps_ipv4 se \<noteq> None then Inr OGS_PAA_IPV4_LEN
      else if ps_ipv6 se \<noteq> None then Inr OGS_PAA_IPV6_LEN
      else Inl Assert_Failed)"

definition pgw_s5c_build_create_session_response ::
  "pgw_env \<Rightarrow> index \<Rightarrow> s5_create_session_request \<Rightarrow> pgw_state \<Rightarrow> (s5_body \<times> pgw_state) res" where
  "pgw_s5c_build_create_session_response E x req s =
     ebind (ebind (pgw_default_bearer_in_sess x s) non_null) (\<lambda>b.
     ebind (pg_sess s x) (\<lambda>se.
     ebind (pg_bearer s b) (\<lambda>be.
     ebind (s5_f_teid F_TEID_S5_S8_PGW_GTP_C (ps_pgw_s5c_teid se) (pg_gtpc_addr s) (pg_gtpc_addr6 s)) (\<lambda>s5c_f.
     ebind (sess_paa_len se) (\<lambda>len.
     ebind (pco_element E (scq_pco req) s) (\<lambda>(pco, s).
     ebind (s5_f_teid F_TEID_S5_S8_PGW_GTP_U (pb_pgw_s5u_teid be) (pg_gtpu_addr s) (pg_gtpu_addr6 s)) (\<lambda>s5u_f.
     ebind (build_msg E (S5_Create_Session_Response
       \<lparr>scp_cause = GTP_CAUSE_ACCEPTED, scp_pgw_s5c_f_teid = s5c_f, scp_paa = (pdn_paa (ps_pdn se), len),
        scp_apn_restriction = OGS_GTP_APN_NO_RESTRICTION, scp_pco = pco,
        scp_bearer_contexts = no_bearer_context\<lparr>sbc_eps_bearer_id := Some (pb_ebi be),
          sbc_cause := Some GTP_CAUSE_ACCEPTED, sbc_s5_s8_u_sgw_f_teid := Some s5u_f\<rparr>\<rparr>)) (\<lambda>body.
     Inr (body, s)))))))))"

definition pgw_s5c_build_delete_session_response ::
  "pgw_env \<Rightarrow> s5_delete_session_request \<Rightarrow> pgw_state \<Rightarrow> (s5_body \<times> pgw_state) res" where
  "pgw_s5c_build_delete_session_response E req s =
     ebind (pco_element E (sdq_pco req) s) (\<lambda>(pco, s).
     ebind (build_msg E (S5_Delete_Session_Response GTP_CAUSE_ACCEPTED pco)) (\<lambda>body. Inr (body, s)))"

text \<open>The quality of service of a bearer as the message structure has it, in bit fields.\<close>

definition s5_bearer_qos :: "ogs_qos \<Rightarrow> bearer_qos" where
  "s5_bearer_qos q =
     \<lparr>qos_spare1 = False, pre_emption_capability = bit (oq_pre_emption_capability q) 0,
      priority_level = ucast (oq_priority_level q), qos_spare2 = False,
      pre_emption_vulnerability = bit (oq_pre_emption_vulnerability q) 0, qci = oq_qci q,
      ul_mbr = oq_mbr_uplink q, dl_mbr = oq_mbr_downlink q, ul_gbr = oq_gbr_uplink q, dl_gbr = oq_gbr_downlink q\<rparr>"

definition bearer_tft :: "index \<Rightarrow> pgw_state \<Rightarrow> u8 list res" where
  "bearer_tft b s =
     ebind (encode_traffic_flow_template b s) (\<lambda>t.
     ebind (ogs_gtp_build_tft t OGS_GTP_MAX_TRAFFIC_FLOW_TEMPLATE) (\<lambda>r.
     Inr (case r of None \<Rightarrow> [] | Some bs \<Rightarrow> bs)))"

definition pgw_s5c_build_create_bearer_request :: "pgw_env \<Rightarrow> index \<Rightarrow> pgw_state \<Rightarrow> s5_body res" where
  "pgw_s5c_build_create_bearer_request E b s =
     ebind (ogs_assert (b \<noteq> 0)) (\<lambda>_.
     ebind (pg_bearer s b) (\<lambda>be.
     ebind (ogs_assert (pb_sess be \<noteq> 0)) (\<lambda>_.
     ebind (ebind (pgw_default_bearer_in_sess (pb_sess be) s) non_null) (\<lambda>l.
     ebind (pg_bearer s l) (\<lambda>linked.
     ebind (s5_f_teid F_TEID_S5_S8_PGW_GTP_U (pb_pgw_s5u_teid be) (pg_gtpu_addr s) (pg_gtpu_addr6 s)) (\<lambda>f.
     ebind (ogs_gtp_build_bearer_qos (pe_uint64_to_buffer E) (s5_bearer_qos (pb_qos be)) GTP_BEARER_QOS_LEN) (\<lambda>qos.
     ebind (bearer_tft b s) (\<lambda>tft.
     build_msg E (S5_Create_Bearer_Request (pb_ebi linked) (no_bearer_context\<lparr>sbc_eps_bearer_id := Some (pb_ebi be),
       sbc_s5_s8_u_sgw_f_teid := Some f, sbc_bearer_level_qos := Some qos, sbc_tft := Some tft\<rparr>))))))))))"

definition pgw_s5c_build_update_bearer_request ::
  "pgw_env \<Rightarrow> index \<Rightarrow> bool \<Rightarrow> bool \<Rightarrow> pgw_state \<Rightarrow> s5_body res" where
  "pgw_s5c_build_update_bearer_request E b qos_presence tft_presence s =
     ebind (ogs_assert (b \<noteq> 0)) (\<lambda>_.
     ebind (pg_bearer s b) (\<lambda>be.
     ebind (ogs_assert (pb_sess be \<noteq> 0)) (\<lambda>_.
     ebind (ebind (pgw_default_bearer_in_sess (pb_sess be) s) non_null) (\<lambda>_.
     ebind (if qos_presence then
         ebind (ogs_gtp_build_bearer_qos (pe_uint64_to_buffer E) (s5_bearer_qos (pb_qos be)) GTP_BEARER_QOS_LEN) (\<lambda>q. Inr (Some q))
       else Inr None) (\<lambda>qos.
     ebind (if tft_presence then ebind (bearer_tft b s) (\<lambda>t. Inr (Some t)) else Inr None) (\<lambda>tft.
     build_msg E (S5_Update_Bearer_Request (no_bearer_context\<lparr>sbc_eps_bearer_id := Some (pb_ebi be),
       sbc_bearer_level_qos := qos, sbc_tft := tft\<rparr>))))))))"

definition pgw_s5c_build_delete_bearer_request :: "pgw_env \<Rightarrow> index \<Rightarrow> pgw_state \<Rightarrow> s5_body res" where
  "pgw_s5c_build_delete_bearer_request E b s =
     ebind (ogs_assert (b \<noteq> 0)) (\<lambda>_.
     ebind (pg_bearer s b) (\<lambda>be.
     ebind (ogs_assert (pb_sess be \<noteq> 0)) (\<lambda>_.
     ebind (ebind (pgw_default_bearer_in_sess (pb_sess be) s) non_null) (\<lambda>l.
     ebind (pg_bearer s l) (\<lambda>linked.
     build_msg E (if pb_ebi be = pb_ebi linked then S5_Delete_Bearer_Request (Some (pb_ebi be)) None
       else S5_Delete_Bearer_Request None (Some (pb_ebi be))))))))"

end
