(* ===== verification/Pgw_Gx.thy ===== *)
theory Pgw_Gx
  imports Pgw_Build
begin

text \<open>
  The handlers of the packet gateway: the answers of the policy function and the bearer binding,
  \<^verbatim>\<open>src/src/pgw/pgw-gx-handler.c\<close>, and the messages of the serving gateway,
  \<^verbatim>\<open>src/src/pgw/pgw-s5c-handler.c\<close>.
\<close>

subsection \<open>Bearer binding\<close>

text \<open>A request of the gateway: a transaction to the serving gateway of the session.\<close>

definition pgw_send_request :: "pgw_env \<Rightarrow> index \<Rightarrow> s5_body \<Rightarrow> pgw_state \<Rightarrow> pgw_state res" where
  "pgw_send_request E x body s =
     ebind (pg_sess s x) (\<lambda>se.
     ebind (ogs_gtp_xact_local_create E (nptr (ps_gnode se)) (s5_type body) (ps_sgw_s5c_teid se) body s) (\<lambda>(xa, s).
     ogs_gtp_xact_commit E xa s))"

fun flows_add :: "pgw_env \<Rightarrow> index \<Rightarrow> u32 \<Rightarrow> ogs_flow list \<Rightarrow> pgw_state \<Rightarrow> pgw_state res" where
  "flows_add E b precedence [] s = Inr s"
| "flows_add E b precedence (fl # fls) s =
     ebind (ogs_assert (fl_description fl \<noteq> None)) (\<lambda>_.
     ebind (ebind (pgw_compile_packet_filter E (fl_description fl)) non_null) (\<lambda>ru.
     ebind (pgw_pf_add E b precedence s) (\<lambda>(f, s).
     ebind (pg_pf s f) (\<lambda>pf.
     flows_add E b precedence fls
       (pg_set_pf f (pf\<lparr>f_rule := ru, f_direction := take_bit 2 (fl_direction fl)\<rparr>) s)))))"

text \<open>A rate of the rule that is given and differs from the one of the bearer.\<close>

definition qos_changed :: "ogs_qos \<Rightarrow> ogs_qos \<Rightarrow> bool" where
  "qos_changed new old \<longleftrightarrow>
     (oq_mbr_downlink new \<noteq> 0 \<and> oq_mbr_downlink old \<noteq> oq_mbr_downlink new)
   \<or> (oq_mbr_uplink new \<noteq> 0 \<and> oq_mbr_uplink old \<noteq> oq_mbr_uplink new)
   \<or> (oq_gbr_downlink new \<noteq> 0 \<and> oq_gbr_downlink old \<noteq> oq_gbr_downlink new)
   \<or> (oq_gbr_uplink new \<noteq> 0 \<and> oq_gbr_uplink old \<noteq> oq_gbr_uplink new)"

definition install_new :: "pgw_env \<Rightarrow> index \<Rightarrow> ogs_pcc_rule \<Rightarrow> string \<Rightarrow> pgw_state \<Rightarrow> pgw_state res" where
  "install_new E x r name s =
     ebind (pgw_bearer_add E x s) (\<lambda>(b, s).
     ebind (pg_bearer s b) (\<lambda>be.
     let s = pg_set_bearer b (be\<lparr>pb_name := Some name, pb_qos := pr_qos r\<rparr>) s in
     ebind (ogs_assert (pr_flow r \<noteq> [])) (\<lambda>_.
     ebind (flows_add E b (pr_precedence r) (pr_flow r) s) (\<lambda>s.
     ebind (pgw_s5c_build_create_bearer_request E b s) (\<lambda>body.
     pgw_send_request E x body s)))))"

text \<open>The name of the bearer is compared through its pointer, null for a default bearer.\<close>

definition install_update :: "pgw_env \<Rightarrow> index \<Rightarrow> index \<Rightarrow> ogs_pcc_rule \<Rightarrow> string \<Rightarrow> pgw_state \<Rightarrow> pgw_state res" where
  "install_update E x b r name s =
     ebind (pg_bearer s b) (\<lambda>be.
     case pb_name be of
       None \<Rightarrow> Inl Dangling_Pointer
     | Some n \<Rightarrow>
     ebind (ogs_assert (n = name)) (\<lambda>_.
     let tft = pr_flow r \<noteq> []; qos = qos_changed (pr_qos r) (pb_qos be) in
     ebind (if tft then pgw_pf_remove_all E b s else Inr s) (\<lambda>s.
     ebind (pg_bearer s b) (\<lambda>be.
     let s = (if qos then pg_set_bearer b (be\<lparr>pb_qos := pr_qos r\<rparr>) s else s) in
     if \<not> tft \<and> \<not> qos then Inr s
     else
       ebind (flows_add E b (pr_precedence r) (pr_flow r) s) (\<lambda>s.
       ebind (pgw_s5c_build_update_bearer_request E b qos tft s) (\<lambda>body.
       pgw_send_request E x body s))))))"

definition pcc_install :: "pgw_env \<Rightarrow> index \<Rightarrow> ogs_pcc_rule \<Rightarrow> string \<Rightarrow> pgw_state \<Rightarrow> pgw_state res" where
  "pcc_install E x r name s =
     ebind (pgw_bearer_find_by_qci_arp x (pr_qos r) s) (\<lambda>found.
     case found of None \<Rightarrow> install_new E x r name s | Some b \<Rightarrow> install_update E x b r name s)"

definition pcc_remove :: "pgw_env \<Rightarrow> index \<Rightarrow> string \<Rightarrow> pgw_state \<Rightarrow> pgw_state res" where
  "pcc_remove E x name s =
     ebind (ebind (pgw_bearer_find_by_name x name s) non_null) (\<lambda>b.
     ebind (pgw_s5c_build_delete_bearer_request E b s) (\<lambda>body.
     pgw_send_request E x body s))"

text \<open>The loop over the rules; it ends at the first rule that is removed.\<close>

fun binding_each :: "pgw_env \<Rightarrow> index \<Rightarrow> ogs_pcc_rule list \<Rightarrow> pgw_state \<Rightarrow> pgw_state res" where
  "binding_each E x [] s = Inr s"
| "binding_each E x (r # rs) s =
     (case pr_name r of
        None \<Rightarrow> binding_each E x rs s
      | Some name \<Rightarrow>
          (case pr_type r of
             OGS_PCC_RULE_TYPE_INSTALL \<Rightarrow> ebind (pcc_install E x r name s) (binding_each E x rs)
           | OGS_PCC_RULE_TYPE_REMOVE \<Rightarrow> pcc_remove E x name s
           | Pcc_Rule_Type_Other \<Rightarrow> Inl Assert_Failed))"

definition bearer_binding :: "pgw_env \<Rightarrow> index \<Rightarrow> gx_message \<Rightarrow> pgw_state \<Rightarrow> pgw_state res" where
  "bearer_binding E x gx s =
     ebind (ogs_assert (x \<noteq> 0)) (\<lambda>_. binding_each E x (gx_pcc_rule gx) s)"

subsection \<open>Answers of the policy function\<close>

definition pgw_send_answer :: "pgw_env \<Rightarrow> index \<Rightarrow> u32 \<Rightarrow> s5_body \<Rightarrow> pgw_state \<Rightarrow> pgw_state res" where
  "pgw_send_answer E xact teid body s =
     ebind (ogs_gtp_xact_update_tx E xact (s5_type body) teid body s) (\<lambda>s. ogs_gtp_xact_commit E xact s)"

definition pgw_gx_handle_cca_initial_request ::
  "pgw_env \<Rightarrow> index \<Rightarrow> gx_message \<Rightarrow> index \<Rightarrow> s5_create_session_request \<Rightarrow> pgw_state \<Rightarrow> pgw_state res" where
  "pgw_gx_handle_cca_initial_request E x gx xact req s =
     ebind (ogs_assert (x \<noteq> 0)) (\<lambda>_.
     ebind (ogs_assert (xact \<noteq> 0)) (\<lambda>_.
     ebind (pg_sess s x) (\<lambda>se.
     ebind (pgw_s5c_build_create_session_response E x req s) (\<lambda>(body, s).
     ebind (pgw_send_answer E xact (ps_sgw_s5c_teid se) body s) (\<lambda>s.
     bearer_binding E x gx s)))))"

definition pgw_gx_handle_cca_termination_request ::
  "pgw_env \<Rightarrow> index \<Rightarrow> index \<Rightarrow> s5_delete_session_request \<Rightarrow> pgw_state \<Rightarrow> pgw_state res" where
  "pgw_gx_handle_cca_termination_request E x xact req s =
     ebind (ogs_assert (xact \<noteq> 0)) (\<lambda>_.
     ebind (ogs_assert (x \<noteq> 0)) (\<lambda>_.
     ebind (pg_sess s x) (\<lambda>se.
     ebind (pgw_sess_remove E x s) (\<lambda>s.
     ebind (pgw_s5c_build_delete_session_response E req s) (\<lambda>(body, s).
     pgw_send_answer E xact (ps_sgw_s5c_teid se) body s)))))"

definition pgw_gx_handle_re_auth_request :: "pgw_env \<Rightarrow> index \<Rightarrow> gx_message \<Rightarrow> pgw_state \<Rightarrow> pgw_state res" where
  "pgw_gx_handle_re_auth_request E x gx s = bearer_binding E x gx s"

subsection \<open>Messages of the serving gateway\<close>

text \<open>The path to the serving gateway of a bearer: its node and TEID.\<close>

definition bearer_connect :: "pgw_env \<Rightarrow> index \<Rightarrow> f_teid \<Rightarrow> pgw_state \<Rightarrow> pgw_state res" where
  "bearer_connect E b f s =
     ebind (pg_bearer s b) (\<lambda>be.
     let s = pg_set_bearer b (be\<lparr>pb_sgw_s5u_teid := ntohl (ft_teid f)\<rparr>) s in
     ebind (sgw_s5u_setup E f s) (\<lambda>(g, s).
     ebind (pg_bearer s b) (\<lambda>be.
     Inr (pg_set_bearer b (be\<lparr>pb_gnode := Some g\<rparr>) s))))"

definition sess_set_qos :: "bearer_qos \<Rightarrow> pgw_sess \<Rightarrow> pgw_sess" where
  "sess_set_qos q se =
     se\<lparr>ps_pdn := (ps_pdn se)\<lparr>pdn_qos := (pdn_qos (ps_pdn se))\<lparr>oq_qci := qci q,
       oq_priority_level := ucast (priority_level q),
       oq_pre_emption_capability := (if pre_emption_capability q then 1 else 0),
       oq_pre_emption_vulnerability := (if pre_emption_vulnerability q then 1 else 0)\<rparr>\<rparr>\<rparr>"

definition create_session_store ::
  "pgw_env \<Rightarrow> index \<Rightarrow> index \<Rightarrow> s5_create_session_request \<Rightarrow> u8 list \<Rightarrow> f_teid \<Rightarrow> u8 list \<Rightarrow> f_teid \<Rightarrow> u8 list \<Rightarrow>
   pgw_state \<Rightarrow> pgw_state res" where
  "create_session_store E x b req imsi s5c_f qos_octets s5u_f uli_octets s =
     ebind (pg_sess s x) (\<lambda>se.
     ebind (imsi_copy E imsi se) (\<lambda>se.
     let s = pg_set_sess x (se\<lparr>ps_sgw_s5c_teid := ntohl (ft_teid s5c_f)\<rparr>) s in
     ebind (bearer_connect E b s5u_f s) (\<lambda>s.
     ebind (ogs_gtp_parse_bearer_qos (pe_buffer_to_uint64 E) qos_octets) (\<lambda>(q, decoded).
     ebind (ogs_assert (length qos_octets = decoded)) (\<lambda>_.
     ebind (pg_sess s x) (\<lambda>se.
     let se = sess_set_qos q se;
         se = (case scq_ambr req of
                 None \<Rightarrow> se
               | Some (up, down) \<Rightarrow>
                   se\<lparr>ps_pdn := (ps_pdn se)\<lparr>pdn_ambr_downlink := ucast (ntohl down), pdn_ambr_uplink := ucast (ntohl up)\<rparr>\<rparr>);
         s = pg_set_sess x se s in
     ebind (ogs_gtp_parse_uli uli_octets) (\<lambda>(u, decoded).
     ebind (ogs_assert (length uli_octets = decoded)) (\<lambda>_.
     ebind (pg_sess s x) (\<lambda>se.
     Inr (pg_set_sess x (se\<lparr>ps_tai := uli_tai u, ps_e_cgi := uli_e_cgi u\<rparr>) s))))))))))"

definition pgw_s5c_handle_create_session_request ::
  "pgw_env \<Rightarrow> index \<Rightarrow> index \<Rightarrow> s5_create_session_request \<Rightarrow> pgw_state \<Rightarrow> pgw_state res" where
  "pgw_s5c_handle_create_session_request E x xact req s =
     ebind (ogs_assert (xact \<noteq> 0)) (\<lambda>_.
     ebind (ebind (pgw_default_bearer_in_sess x s) non_null) (\<lambda>b.
     case scq_imsi req of None \<Rightarrow> Inr s | Some imsi \<Rightarrow>
     case scq_sender_f_teid req of None \<Rightarrow> Inr s | Some s5c_f \<Rightarrow>
     case scq_bearer_contexts req of None \<Rightarrow> Inr s | Some bc \<Rightarrow>
     case sbc_bearer_level_qos bc of None \<Rightarrow> Inr s | Some qos \<Rightarrow>
     case sbc_s5_s8_u_sgw_f_teid bc of None \<Rightarrow> Inr s | Some s5u_f \<Rightarrow>
     case scq_user_location_information req of None \<Rightarrow> Inr s | Some uli \<Rightarrow>
       create_session_store E x b req imsi s5c_f qos s5u_f uli s))"

definition pgw_s5c_handle_delete_session_request :: "index \<Rightarrow> pgw_state \<Rightarrow> pgw_state res" where
  "pgw_s5c_handle_delete_session_request x s = ebind (ogs_assert (x \<noteq> 0)) (\<lambda>_. ebind (pg_sess s x) (\<lambda>_. Inr s))"

definition pgw_s5c_handle_create_bearer_response ::
  "pgw_env \<Rightarrow> index \<Rightarrow> index \<Rightarrow> s5_bearer_context option \<Rightarrow> pgw_state \<Rightarrow> pgw_state res" where
  "pgw_s5c_handle_create_bearer_response E x xact ctx s =
     ebind (ogs_assert (xact \<noteq> 0)) (\<lambda>_.
     ebind (ogs_assert (x \<noteq> 0)) (\<lambda>_.
     case ctx of None \<Rightarrow> Inr s | Some bc \<Rightarrow>
     case sbc_eps_bearer_id bc of None \<Rightarrow> Inr s | Some e \<Rightarrow>
     case sbc_s5_s8_u_pgw_f_teid bc of None \<Rightarrow> Inr s | Some pgw_f \<Rightarrow>
     case sbc_s5_s8_u_sgw_f_teid bc of None \<Rightarrow> Inr s | Some sgw_f \<Rightarrow>
     ebind (ebind (pgw_bearer_find_by_pgw_s5u_teid (ntohl (ft_teid pgw_f)) s) non_null) (\<lambda>b.
     ebind (pg_bearer s b) (\<lambda>be.
     let s = pg_set_bearer b (be\<lparr>pb_ebi := e\<rparr>) s in
     ebind (bearer_connect E b sgw_f s) (\<lambda>s.
     ogs_gtp_xact_commit E xact s)))))"

definition pgw_s5c_handle_update_bearer_response ::
  "pgw_env \<Rightarrow> index \<Rightarrow> index \<Rightarrow> s5_bearer_context option \<Rightarrow> pgw_state \<Rightarrow> pgw_state res" where
  "pgw_s5c_handle_update_bearer_response E x xact ctx s =
     ebind (ogs_assert (xact \<noteq> 0)) (\<lambda>_.
     ebind (ogs_assert (x \<noteq> 0)) (\<lambda>_.
     case ctx of None \<Rightarrow> Inr s | Some bc \<Rightarrow>
     case sbc_eps_bearer_id bc of None \<Rightarrow> Inr s | Some _ \<Rightarrow> ogs_gtp_xact_commit E xact s))"

definition pgw_s5c_handle_delete_bearer_response ::
  "pgw_env \<Rightarrow> index \<Rightarrow> index \<Rightarrow> s5_bearer_context option \<Rightarrow> pgw_state \<Rightarrow> pgw_state res" where
  "pgw_s5c_handle_delete_bearer_response E x xact ctx s =
     ebind (ogs_assert (xact \<noteq> 0)) (\<lambda>_.
     ebind (ogs_assert (x \<noteq> 0)) (\<lambda>_.
     case ctx of None \<Rightarrow> Inr s | Some bc \<Rightarrow>
     case sbc_eps_bearer_id bc of None \<Rightarrow> Inr s | Some e \<Rightarrow>
     ebind (ebind (pgw_bearer_find_by_ebi x e s) non_null) (\<lambda>b.
     ebind (ogs_gtp_xact_commit E xact s) (\<lambda>s.
     pgw_bearer_remove E b s))))"

end
