(* ===== verification/Gx_Avp.thy ===== *)
theory Gx_Avp
  imports Pgw_Message
begin

text \<open>
  The definition of a PCC rule on the Gx interface: how the policy function writes it into attribute
  value pairs (\<^verbatim>\<open>encode_pcc_rule_definition\<close> of \<^verbatim>\<open>src/src/pcrf/pcrf-gx-path.c\<close>) and how the packet gateway
  reads it (\<^verbatim>\<open>decode_pcc_rule_definition\<close> of \<^verbatim>\<open>src/src/pgw/pgw-fd-path.c\<close>). The Diameter library carries
  the tree of pairs from one to the other.
\<close>

subsection \<open>Attribute value pairs\<close>

text \<open>A pair: its code, its value read as a 32-bit number and as octets, and the pairs it groups.\<close>

datatype avp = Avp (avp_code: u32) (avp_u32: u32) (avp_os: "u8 list") (avp_children: "avp list")

definition avp_number :: "u32 \<Rightarrow> u32 \<Rightarrow> avp" where "avp_number c n = Avp c n [] []"
definition avp_octets :: "u32 \<Rightarrow> u8 list \<Rightarrow> avp" where "avp_octets c bs = Avp c 0 bs []"
definition avp_group :: "u32 \<Rightarrow> avp list \<Rightarrow> avp" where "avp_group c as = Avp c 0 [] as"

definition avp_search :: "u32 \<Rightarrow> avp list \<Rightarrow> avp option" where
  "avp_search c as = find (\<lambda>a. avp_code a = c) as"

abbreviation (input) "AVP_CHARGING_RULE_INSTALL \<equiv> (1001::u32)"
abbreviation (input) "AVP_CHARGING_RULE_REMOVE \<equiv> (1002::u32)"
abbreviation (input) "AVP_CHARGING_RULE_DEFINITION \<equiv> (1003::u32)"
abbreviation (input) "AVP_CHARGING_RULE_NAME \<equiv> (1005::u32)"
abbreviation (input) "AVP_PRECEDENCE \<equiv> (1010::u32)"
abbreviation (input) "AVP_QOS_INFORMATION \<equiv> (1016::u32)"
abbreviation (input) "AVP_GUARANTEED_BITRATE_DL \<equiv> (1025::u32)"
abbreviation (input) "AVP_GUARANTEED_BITRATE_UL \<equiv> (1026::u32)"
abbreviation (input) "AVP_QOS_CLASS_IDENTIFIER \<equiv> (1028::u32)"
abbreviation (input) "AVP_ALLOCATION_RETENTION_PRIORITY \<equiv> (1034::u32)"
abbreviation (input) "AVP_APN_AGGREGATE_MAX_BITRATE_DL \<equiv> (1040::u32)"
abbreviation (input) "AVP_APN_AGGREGATE_MAX_BITRATE_UL \<equiv> (1041::u32)"
abbreviation (input) "AVP_PRIORITY_LEVEL \<equiv> (1046::u32)"
abbreviation (input) "AVP_PRE_EMPTION_CAPABILITY \<equiv> (1047::u32)"
abbreviation (input) "AVP_PRE_EMPTION_VULNERABILITY \<equiv> (1048::u32)"
abbreviation (input) "AVP_DEFAULT_EPS_BEARER_QOS \<equiv> (1049::u32)"
abbreviation (input) "AVP_FLOW_INFORMATION \<equiv> (1058::u32)"
abbreviation (input) "AVP_FLOW_DIRECTION \<equiv> (1080::u32)"
abbreviation (input) "AVP_FLOW_DESCRIPTION \<equiv> (507::u32)"
abbreviation (input) "AVP_FLOW_STATUS \<equiv> (511::u32)"
abbreviation (input) "AVP_MAX_REQUESTED_BANDWIDTH_DL \<equiv> (515::u32)"
abbreviation (input) "AVP_MAX_REQUESTED_BANDWIDTH_UL \<equiv> (516::u32)"

text \<open>Octets as a C string, up to the first zero, and the octets of a string without its terminator.\<close>

definition c_string :: "u8 list \<Rightarrow> string" where
  "c_string bs = map (\<lambda>b. char_of (unat b)) (takeWhile (\<lambda>b. b \<noteq> 0) bs)"

definition c_octets :: "string \<Rightarrow> u8 list" where
  "c_octets t = map (\<lambda>c. of_nat (of_char c)) t"

subsection \<open>The policy function writes a rule\<close>

definition encode_flow :: "ogs_flow \<Rightarrow> avp res" where
  "encode_flow fl =
     (case fl_description fl of
        None \<Rightarrow> Inl Dangling_Pointer
      | Some d \<Rightarrow> Inr (avp_group AVP_FLOW_INFORMATION
          [avp_number AVP_FLOW_DIRECTION (ucast (fl_direction fl)), avp_octets AVP_FLOW_DESCRIPTION (c_octets d)]))"

fun encode_flows :: "ogs_flow list \<Rightarrow> avp list res" where
  "encode_flows [] = Inr []"
| "encode_flows (fl # fls) = ebind (encode_flow fl) (\<lambda>a. ebind (encode_flows fls) (\<lambda>as. Inr (a # as)))"

text \<open>A rate is written only if it is not zero, in 32 bits.\<close>

definition encode_rate :: "u32 \<Rightarrow> u64 \<Rightarrow> avp list" where
  "encode_rate c r = (if r \<noteq> 0 then [avp_number c (ucast r)] else [])"

definition encode_qos :: "ogs_qos \<Rightarrow> avp" where
  "encode_qos q = avp_group AVP_QOS_INFORMATION
     ([avp_number AVP_QOS_CLASS_IDENTIFIER (ucast (oq_qci q)),
       avp_group AVP_ALLOCATION_RETENTION_PRIORITY
         [avp_number AVP_PRIORITY_LEVEL (ucast (oq_priority_level q)),
          avp_number AVP_PRE_EMPTION_CAPABILITY (ucast (oq_pre_emption_capability q)),
          avp_number AVP_PRE_EMPTION_VULNERABILITY (ucast (oq_pre_emption_vulnerability q))]]
      @ encode_rate AVP_MAX_REQUESTED_BANDWIDTH_UL (oq_mbr_uplink q)
      @ encode_rate AVP_MAX_REQUESTED_BANDWIDTH_DL (oq_mbr_downlink q)
      @ encode_rate AVP_GUARANTEED_BITRATE_UL (oq_gbr_uplink q)
      @ encode_rate AVP_GUARANTEED_BITRATE_DL (oq_gbr_downlink q))"

definition encode_pcc_rule_definition :: "ogs_pcc_rule \<Rightarrow> bool \<Rightarrow> avp res" where
  "encode_pcc_rule_definition r flow_presence =
     (case pr_name r of
        None \<Rightarrow> Inl Dangling_Pointer
      | Some name \<Rightarrow>
          ebind (if flow_presence then encode_flows (pr_flow r) else Inr []) (\<lambda>fls.
          Inr (avp_group AVP_CHARGING_RULE_DEFINITION
            ([avp_octets AVP_CHARGING_RULE_NAME (c_octets name)] @ fls
             @ [avp_number AVP_FLOW_STATUS (pr_flow_status r), encode_qos (pr_qos r),
                avp_number AVP_PRECEDENCE (pr_precedence r)]))))"

subsection \<open>The packet gateway reads it\<close>

definition decode_flow :: "avp list \<Rightarrow> ogs_flow" where
  "decode_flow as =
     \<lparr>fl_direction = (case avp_search AVP_FLOW_DIRECTION as of None \<Rightarrow> 0 | Some a \<Rightarrow> ucast (avp_u32 a)),
      fl_description = map_option (c_string \<circ> avp_os) (avp_search AVP_FLOW_DESCRIPTION as)\<rparr>"

text \<open>A field that is set from a pair if there is one; a pair that has to be there counts as an error.\<close>

definition get_u8 :: "u32 \<Rightarrow> avp list \<Rightarrow> u8 \<Rightarrow> u8" where
  "get_u8 c as old = (case avp_search c as of None \<Rightarrow> old | Some a \<Rightarrow> ucast (avp_u32 a))"

definition get_rate :: "u32 \<Rightarrow> avp list \<Rightarrow> u64 \<Rightarrow> u64" where
  "get_rate c as old = (case avp_search c as of None \<Rightarrow> old | Some a \<Rightarrow> ucast (avp_u32 a))"

definition missing :: "u32 \<Rightarrow> avp list \<Rightarrow> nat" where
  "missing c as = (if avp_search c as = None then 1 else 0)"

definition decode_arp :: "avp list \<Rightarrow> ogs_qos \<Rightarrow> ogs_qos \<times> nat" where
  "decode_arp as q =
     (q\<lparr>oq_priority_level := get_u8 AVP_PRIORITY_LEVEL as (oq_priority_level q),
        oq_pre_emption_capability := get_u8 AVP_PRE_EMPTION_CAPABILITY as (oq_pre_emption_capability q),
        oq_pre_emption_vulnerability := get_u8 AVP_PRE_EMPTION_VULNERABILITY as (oq_pre_emption_vulnerability q)\<rparr>,
      missing AVP_PRIORITY_LEVEL as + missing AVP_PRE_EMPTION_CAPABILITY as + missing AVP_PRE_EMPTION_VULNERABILITY as)"

definition decode_qos :: "avp list \<Rightarrow> ogs_qos \<Rightarrow> ogs_qos \<times> nat" where
  "decode_qos as q =
     (let q = q\<lparr>oq_qci := get_u8 AVP_QOS_CLASS_IDENTIFIER as (oq_qci q)\<rparr>;
          (q, e) = (case avp_search AVP_ALLOCATION_RETENTION_PRIORITY as of
                      None \<Rightarrow> (q, 1) | Some a \<Rightarrow> decode_arp (avp_children a) q)
      in (q\<lparr>oq_mbr_uplink := get_rate AVP_MAX_REQUESTED_BANDWIDTH_UL as (oq_mbr_uplink q),
            oq_mbr_downlink := get_rate AVP_MAX_REQUESTED_BANDWIDTH_DL as (oq_mbr_downlink q),
            oq_gbr_uplink := get_rate AVP_GUARANTEED_BITRATE_UL as (oq_gbr_uplink q),
            oq_gbr_downlink := get_rate AVP_GUARANTEED_BITRATE_DL as (oq_gbr_downlink q)\<rparr>,
          missing AVP_QOS_CLASS_IDENTIFIER as + e))"

text \<open>The loop over the pairs of the definition; \<open>max_flow\<close> is the size of the flow array of the rule.\<close>

fun decode_each :: "nat \<Rightarrow> avp list \<Rightarrow> ogs_pcc_rule \<Rightarrow> nat \<Rightarrow> (ogs_pcc_rule \<times> nat) res" where
  "decode_each max_flow [] r e = Inr (r, e)"
| "decode_each max_flow (a # as) r e =
     (if avp_code a = AVP_CHARGING_RULE_NAME then
        decode_each max_flow as (r\<lparr>pr_name := Some (c_string (avp_os a))\<rparr>) e
      else if avp_code a = AVP_FLOW_INFORMATION then
        if length (pr_flow r) < max_flow then
          decode_each max_flow as (r\<lparr>pr_flow := pr_flow r @ [decode_flow (avp_children a)]\<rparr>) e
        else Inl Out_Of_Bounds
      else if avp_code a = AVP_FLOW_STATUS then
        decode_each max_flow as (r\<lparr>pr_flow_status := avp_u32 a\<rparr>) e
      else if avp_code a = AVP_QOS_INFORMATION then
        (case decode_qos (avp_children a) (pr_qos r) of
           (q, n) \<Rightarrow> decode_each max_flow as (r\<lparr>pr_qos := q\<rparr>) (e + n))
      else if avp_code a = AVP_PRECEDENCE then
        decode_each max_flow as (r\<lparr>pr_precedence := avp_u32 a\<rparr>) e
      else decode_each max_flow as r e)"

text \<open>The rule in the cleared array and the number of errors.\<close>

definition decode_pcc_rule_definition :: "nat \<Rightarrow> avp \<Rightarrow> (ogs_pcc_rule \<times> nat) res" where
  "decode_pcc_rule_definition max_flow a = decode_each max_flow (avp_children a) zero_pcc_rule 0"

subsection \<open>What one writes the other reads\<close>

text \<open>A string without the terminator in it; a rate that fits 32 bits.\<close>

definition pcc_rule_ok :: "nat \<Rightarrow> ogs_pcc_rule \<Rightarrow> bool" where
  "pcc_rule_ok max_flow r \<longleftrightarrow>
     (\<exists>name. pr_name r = Some name \<and> CHR 0x00 \<notin> set name)
   \<and> length (pr_flow r) \<le> max_flow
   \<and> (\<forall>fl \<in> set (pr_flow r). \<exists>d. fl_description fl = Some d \<and> CHR 0x00 \<notin> set d)
   \<and> oq_mbr_uplink (pr_qos r) < 2 ^ 32 \<and> oq_mbr_downlink (pr_qos r) < 2 ^ 32
   \<and> oq_gbr_uplink (pr_qos r) < 2 ^ 32 \<and> oq_gbr_downlink (pr_qos r) < 2 ^ 32"

lemma c_string_octets: "CHR 0x00 \<notin> set t \<Longrightarrow> c_string (c_octets t) = t"
proof (induction t)
  case (Cons c cs)
  have "(of_char c :: nat) < 256" by (metis of_char_of mod_less_divisor zero_less_numeral char_of_def of_char_mod_256)
  moreover have nz: "(of_char c :: nat) \<noteq> 0"
  proof
    assume "(of_char c :: nat) = 0"
    then have "c = char_of (0::nat)" by (metis char_of_char)
    then show False using Cons.prems by (simp add: char_of_def)
  qed
  ultimately have u: "unat (of_nat (of_char c) :: u8) = of_char c" by (simp add: unat_of_nat)
  then have "(of_nat (of_char c) :: u8) \<noteq> 0" using nz by (metis unat_0)
  then show ?case using Cons u by (simp add: c_string_def c_octets_def)
qed (simp add: c_string_def c_octets_def)

lemma encode_flows_ok:
  assumes "\<forall>fl \<in> set fls. \<exists>d. fl_description fl = Some d"
  shows "\<exists>as. encode_flows fls = Inr as \<and> length as = length fls \<and> (\<forall>i < length fls. encode_flow (fls ! i) = Inr (as ! i))"
  using assms
proof (induction fls)
  case (Cons fl fls)
  then obtain as d where as: "encode_flows fls = Inr as" "length as = length fls"
      "\<forall>i < length fls. encode_flow (fls ! i) = Inr (as ! i)" and d: "fl_description fl = Some d"
    by auto
  then obtain a where a: "encode_flow fl = Inr a" by (simp add: encode_flow_def)
  have "encode_flow ((fl # fls) ! i) = Inr ((a # as) ! i)" if "i < length (fl # fls)" for i
    using that as a by (cases i) auto
  then show ?case using as a by auto
qed simp

lemma decode_flow_encode:
  assumes "encode_flow fl = Inr a" and "fl_description fl = Some d" and "CHR 0x00 \<notin> set d"
  shows "avp_code a = AVP_FLOW_INFORMATION \<and> decode_flow (avp_children a) = fl"
proof -
  have "(ucast (ucast (fl_direction fl) :: u32) :: u8) = fl_direction fl" by (rule bit_word_eqI) (simp add: bit_simps)
  then show ?thesis
    using assms by (auto simp: encode_flow_def decode_flow_def avp_group_def avp_number_def avp_octets_def avp_search_def
        c_string_octets)
qed

lemma decode_each_flows:
  assumes "encode_flows fls = Inr as" and "length (pr_flow r) + length fls \<le> max_flow"
    and "\<forall>fl \<in> set fls. \<exists>d. fl_description fl = Some d \<and> CHR 0x00 \<notin> set d"
  shows "decode_each max_flow (as @ bs) r e = decode_each max_flow bs (r\<lparr>pr_flow := pr_flow r @ fls\<rparr>) e"
  using assms
proof (induction fls arbitrary: as r)
  case (Cons fl fls)
  then obtain a as' where a: "encode_flow fl = Inr a" "encode_flows fls = Inr as'" "as = a # as'"
    by (auto simp: ebind_eq_Inr)
  then show ?case using Cons.prems Cons.IH [OF a(2), of "r\<lparr>pr_flow := pr_flow r @ [fl]\<rparr>"] decode_flow_encode [OF a(1)]
    by auto
qed simp

lemma rate_round_trip:
  assumes "r < 2 ^ 32"
  shows "(ucast (ucast (r::u64) :: u32) :: u64) = r"
proof -
  have "unat (take_bit 32 r) = unat r"
    using assms by (simp add: unsigned_take_bit_eq take_bit_nat_eq_self word_less_nat_alt)
  then have "take_bit 32 r = r" by (simp only: word_unat_eq_iff)
  moreover have "(ucast (ucast r :: u32) :: u64) = take_bit 32 r" by (rule bit_word_eqI) (auto simp: bit_simps)
  ultimately show ?thesis by simp
qed

lemma u8_round_trip: "(ucast (ucast (b::u8) :: u32) :: u8) = b"
  by (rule bit_word_eqI) (simp add: bit_simps)

lemma decode_qos_encode:
  assumes "oq_mbr_uplink q < 2 ^ 32" "oq_mbr_downlink q < 2 ^ 32" "oq_gbr_uplink q < 2 ^ 32" "oq_gbr_downlink q < 2 ^ 32"
  shows "decode_qos (avp_children (encode_qos q)) zero_qos = (q, 0)"
  using assms
  by (simp add: decode_qos_def encode_qos_def encode_rate_def decode_arp_def avp_group_def avp_number_def avp_search_def
      get_u8_def get_rate_def missing_def zero_qos_def u8_round_trip rate_round_trip)

text \<open>A definition is read as the rule it was written from; the flows only if they were written.\<close>

lemma decode_encode_rule:
  assumes "pcc_rule_ok max_flow r"
  shows "\<exists>a. encode_pcc_rule_definition r p = Inr a \<and> avp_code a = AVP_CHARGING_RULE_DEFINITION
    \<and> decode_pcc_rule_definition max_flow a = Inr (r\<lparr>pr_type := Pcc_Rule_Type_Other, pr_flow := if p then pr_flow r else []\<rparr>, 0)"
proof -
  let ?fls = "if p then pr_flow r else []"
  obtain name where name: "pr_name r = Some name" "CHR 0x00 \<notin> set name" using assms by (auto simp: pcc_rule_ok_def)
  have described: "\<forall>fl \<in> set ?fls. \<exists>d. fl_description fl = Some d \<and> CHR 0x00 \<notin> set d" using assms by (auto simp: pcc_rule_ok_def)
  obtain as where as: "encode_flows ?fls = Inr as"
    using described encode_flows_ok [of ?fls] by blast
  let ?tail = "[avp_number AVP_FLOW_STATUS (pr_flow_status r), encode_qos (pr_qos r), avp_number AVP_PRECEDENCE (pr_precedence r)]"
  have "decode_qos (avp_children (encode_qos (pr_qos r))) zero_qos = (pr_qos r, 0)"
    using assms by (intro decode_qos_encode) (auto simp: pcc_rule_ok_def)
  moreover have "avp_code (encode_qos (pr_qos r)) = AVP_QOS_INFORMATION" by (simp add: encode_qos_def avp_group_def)
  moreover have "decode_each max_flow (as @ ?tail) (zero_pcc_rule\<lparr>pr_name := Some name\<rparr>) 0 =
      decode_each max_flow ?tail (zero_pcc_rule\<lparr>pr_name := Some name, pr_flow := ?fls\<rparr>) 0"
    using decode_each_flows [OF as _ described, of "zero_pcc_rule\<lparr>pr_name := Some name\<rparr>" max_flow ?tail 0] assms
    by (simp add: pcc_rule_ok_def zero_pcc_rule_def)
  moreover have "encode_pcc_rule_definition r p
      = Inr (avp_group AVP_CHARGING_RULE_DEFINITION ([avp_octets AVP_CHARGING_RULE_NAME (c_octets name)] @ as @ ?tail))"
    using name as by (auto simp: encode_pcc_rule_definition_def split: if_splits)
  ultimately show ?thesis
    using name by (simp add: decode_pcc_rule_definition_def avp_group_def avp_octets_def
        avp_number_def c_string_octets zero_pcc_rule_def)
qed

subsection \<open>Properties\<close>

text \<open>
  (C19) What the policy function encodes the packet gateway decodes: a rule with a name and at most as
  many flows as the array holds, each with a description, and with bit rates that fit 32 bits, is
  read back as it was, without an error, and without flows if they were left out; only the
  installation type is set by the reader.
\<close>

theorem pcc_rule_round_trip:
  assumes "pcc_rule_ok max_flow r"
  shows "\<exists>a. encode_pcc_rule_definition r p = Inr a
    \<and> decode_pcc_rule_definition max_flow a = Inr (r\<lparr>pr_type := Pcc_Rule_Type_Other, pr_flow := if p then pr_flow r else []\<rparr>, 0)"
  using decode_encode_rule [OF assms, of p] by blast

definition sample_pcc_rule :: ogs_pcc_rule where
  "sample_pcc_rule = zero_pcc_rule\<lparr>pr_type := OGS_PCC_RULE_TYPE_INSTALL, pr_name := Some ''voice'',
     pr_flow := [\<lparr>fl_direction = 1, fl_description = Some ''permit out ip''\<rparr>], pr_precedence := 7,
     pr_qos := zero_qos\<lparr>oq_qci := 1, oq_priority_level := 2, oq_mbr_uplink := 64000\<rparr>\<rparr>"

theorem pcc_rule_round_trip_witness:
  "\<exists>a. encode_pcc_rule_definition sample_pcc_rule True = Inr a
    \<and> decode_pcc_rule_definition 8 a = Inr (sample_pcc_rule\<lparr>pr_type := Pcc_Rule_Type_Other\<rparr>, 0)"
proof -
  have "pcc_rule_ok 8 sample_pcc_rule" by (simp add: pcc_rule_ok_def sample_pcc_rule_def zero_pcc_rule_def zero_qos_def)
  from pcc_rule_round_trip [OF this, of True] show ?thesis by simp
qed

end
