(* ===== verification/Pgw_Fd.thy ===== *)
theory Pgw_Fd
  imports Pgw_Gx Gx_Avp
begin

text \<open>
  The Gx interface of the packet gateway, \<^verbatim>\<open>src/src/pgw/pgw-fd-path.c\<close>: the session data kept for a
  Gx session, the requests sent to the policy function, and what its answers and requests become in
  the queue of the gateway. The attribute value pairs of the requests, the statistics and the
  Diameter library itself are not modelled.
\<close>

subsection \<open>Credit control requests\<close>

definition MAX_CC_REQUEST_NUMBER :: nat where "MAX_CC_REQUEST_NUMBER = 32"

definition gx_new_state :: gx_sess_state where
  "gx_new_state = \<lparr>gs_sess = 0, gs_xact = replicate MAX_CC_REQUEST_NUMBER None,
     gs_gtpbuf = replicate MAX_CC_REQUEST_NUMBER None, gs_cc_request_type = 0, gs_cc_request_number = 0\<rparr>"

text \<open>
  The session data of a session: found by the identifier the session points to, which is read
  through that pointer, or new.
\<close>

definition gx_session :: "pgw_env \<Rightarrow> index \<Rightarrow> pgw_state \<Rightarrow> (index \<times> gx_sess_state \<times> pgw_state) res" where
  "gx_session E x s =
     ebind (pg_sess s x) (\<lambda>se.
     case ps_gx_sid se of
       Some g \<Rightarrow> ebind (deref (pg_gx_sessions s) g) (\<lambda>d. Inr (g, d, s))
     | None \<Rightarrow>
         ebind (non_null (pe_gx_pick E (pg_gx_sessions s))) (\<lambda>g.
         Inr (g, gx_new_state, pg_set_sess x (se\<lparr>ps_gx_sid := Some g\<rparr>) s)))"

text \<open>The bound the code checks admits one more than the arrays hold.\<close>

definition pgw_gx_send_ccr :: "pgw_env \<Rightarrow> index \<Rightarrow> index \<Rightarrow> s5_body \<Rightarrow> u32 \<Rightarrow> pgw_state \<Rightarrow> pgw_state res" where
  "pgw_gx_send_ccr E x xact body cc_request_type s =
     ebind (ogs_assert (x \<noteq> 0)) (\<lambda>_.
     ebind (pg_sess s x) (\<lambda>se.
     ebind (ogs_assert (ps_ipv4 se \<noteq> None \<or> ps_ipv6 se \<noteq> None)) (\<lambda>_.
     ebind (gx_session E x s) (\<lambda>(g, d, s).
     let n = (if cc_request_type = OGS_DIAM_GX_CC_REQUEST_TYPE_INITIAL_REQUEST then 0 else gs_cc_request_number d + 1) in
     ebind (ogs_assert (unat n \<le> MAX_CC_REQUEST_NUMBER)) (\<lambda>_.
     ebind (array_write (gs_xact d) (unat n) (Some xact)) (\<lambda>xs.
     ebind (array_write (gs_gtpbuf d) (unat n) (Some body)) (\<lambda>bs.
     Inr (s\<lparr>pg_gx_sessions := (pg_gx_sessions s)(g \<mapsto> d\<lparr>gs_sess := x, gs_xact := xs, gs_gtpbuf := bs,
              gs_cc_request_type := cc_request_type, gs_cc_request_number := n\<rparr>),
            pg_ccr_sent := pg_ccr_sent s @ [(g, n, cc_request_type)]\<rparr>))))))))"

subsection \<open>Rules in a message\<close>

text \<open>
  The definitions in a Charging-Rule-Install: each is decoded into the next entry of the array. The
  number of errors of a definition replaces what was counted before.
\<close>

fun install_avps :: "pgw_env \<Rightarrow> avp list \<Rightarrow> gx_message \<times> nat \<Rightarrow> (gx_message \<times> nat) res" where
  "install_avps E [] ge = Inr ge"
| "install_avps E (a # as) ge =
     (if avp_code a = AVP_CHARGING_RULE_DEFINITION then
        if length (gx_pcc_rule (fst ge)) < OGS_MAX_NUM_OF_PCC_RULE then
          ebind (decode_pcc_rule_definition (pe_max_flow E) a) (\<lambda>(r, e).
          install_avps E as ((fst ge)\<lparr>gx_pcc_rule := gx_pcc_rule (fst ge) @ [r\<lparr>pr_type := OGS_PCC_RULE_TYPE_INSTALL\<rparr>]\<rparr>, e))
        else Inl Out_Of_Bounds
      else install_avps E as ge)"

fun remove_avps :: "avp list \<Rightarrow> gx_message \<Rightarrow> gx_message res" where
  "remove_avps [] gx = Inr gx"
| "remove_avps (a # as) gx =
     (if avp_code a = AVP_CHARGING_RULE_NAME then
        if length (gx_pcc_rule gx) < OGS_MAX_NUM_OF_PCC_RULE then
          remove_avps as (gx\<lparr>gx_pcc_rule := gx_pcc_rule gx
            @ [zero_pcc_rule\<lparr>pr_name := Some (c_string (avp_os a)), pr_type := OGS_PCC_RULE_TYPE_REMOVE\<rparr>]\<rparr>)
        else Inl Out_Of_Bounds
      else remove_avps as gx)"

subsection \<open>Credit control answers\<close>

abbreviation (input) "AVP_RESULT_CODE \<equiv> (268::u32)"
abbreviation (input) "AVP_EXPERIMENTAL_RESULT \<equiv> (297::u32)"
abbreviation (input) "AVP_EXPERIMENTAL_RESULT_CODE \<equiv> (298::u32)"
abbreviation (input) "AVP_ORIGIN_HOST \<equiv> (264::u32)"
abbreviation (input) "AVP_ORIGIN_REALM \<equiv> (296::u32)"
abbreviation (input) "AVP_CC_REQUEST_NUMBER \<equiv> (415::u32)"
abbreviation (input) "AVP_CC_REQUEST_TYPE \<equiv> (416::u32)"

definition zero_gx_message :: gx_message where
  "zero_gx_message = \<lparr>gx_cmd_code = 0, gx_result_code = 0, gx_cc_request_type = 0, gx_ambr_uplink = 0,
     gx_ambr_downlink = 0, gx_qos = zero_qos, gx_pcc_rule = []\<rparr>"

definition cca_result :: "avp list \<Rightarrow> u32 \<times> nat" where
  "cca_result as =
     (case avp_search AVP_RESULT_CODE as of
        Some a \<Rightarrow> (avp_u32 a, 0)
      | None \<Rightarrow>
          (case avp_search AVP_EXPERIMENTAL_RESULT as of
             Some a \<Rightarrow>
               (case avp_search AVP_EXPERIMENTAL_RESULT_CODE (avp_children a) of
                  Some b \<Rightarrow> (avp_u32 b, 0)
                | None \<Rightarrow> (0, 0))
           | None \<Rightarrow> (0, 1)))"

text \<open>The quality of service of the default bearer and the aggregate rates; no handler reads them.\<close>

definition cca_qos :: "avp list \<Rightarrow> gx_message \<Rightarrow> gx_message" where
  "cca_qos as gx =
     (let gx = (case avp_search AVP_QOS_INFORMATION as of
                  None \<Rightarrow> gx
                | Some a \<Rightarrow> gx\<lparr>gx_ambr_uplink := get_rate AVP_APN_AGGREGATE_MAX_BITRATE_UL (avp_children a) (gx_ambr_uplink gx),
                                gx_ambr_downlink := get_rate AVP_APN_AGGREGATE_MAX_BITRATE_DL (avp_children a) (gx_ambr_downlink gx)\<rparr>)
      in case avp_search AVP_DEFAULT_EPS_BEARER_QOS as of
           None \<Rightarrow> gx
         | Some a \<Rightarrow>
             let q = (gx_qos gx)\<lparr>oq_qci := get_u8 AVP_QOS_CLASS_IDENTIFIER (avp_children a) (oq_qci (gx_qos gx))\<rparr> in
             gx\<lparr>gx_qos := (case avp_search AVP_ALLOCATION_RETENTION_PRIORITY (avp_children a) of
                             None \<Rightarrow> q | Some b \<Rightarrow> fst (decode_arp (avp_children b) q))\<rparr>)"

fun cca_rules :: "pgw_env \<Rightarrow> avp list \<Rightarrow> gx_message \<times> nat \<Rightarrow> (gx_message \<times> nat) res" where
  "cca_rules E [] ge = Inr ge"
| "cca_rules E (a # as) ge =
     (if avp_code a = AVP_CHARGING_RULE_INSTALL then
        ebind (install_avps E (avp_children a) ge) (cca_rules E as)
      else cca_rules E as ge)"

text \<open>The message of an answer and the number of errors found in it.\<close>

definition cca_message :: "pgw_env \<Rightarrow> avp list \<Rightarrow> (gx_message \<times> nat) res" where
  "cca_message E as =
     (let (code, e) = cca_result as;
          e = e + missing AVP_ORIGIN_HOST as + missing AVP_ORIGIN_REALM as;
          gx = zero_gx_message\<lparr>gx_cmd_code := OGS_DIAM_GX_CMD_CODE_CREDIT_CONTROL, gx_result_code := code\<rparr>
      in if code \<noteq> ER_DIAMETER_SUCCESS then Inr (gx, e)
         else
           let gx = (case avp_search AVP_CC_REQUEST_TYPE as of None \<Rightarrow> gx | Some a \<Rightarrow> gx\<lparr>gx_cc_request_type := avp_u32 a\<rparr>);
               e = e + missing AVP_CC_REQUEST_TYPE as
           in cca_rules E as (cca_qos as gx, e))"

definition pgw_event_push :: "pgw_env \<Rightarrow> pgw_event \<Rightarrow> pgw_state \<Rightarrow> pgw_state res" where
  "pgw_event_push E e s =
     ebind (ogs_assert (pe_event_new_ok E (pg_queue s))) (\<lambda>_.
     Inr (if pe_queue_push_ok E (pg_queue s) then s\<lparr>pg_queue := pg_queue s @ [e]\<rparr> else s))"

text \<open>
  An answer for the Gx session \<open>g\<close>. The request number it carries indexes the arrays unchecked. The
  event names the session and the transaction by their indices, which are read through the pointers
  the session data kept. The session data is freed after the answer to the last request.
\<close>

definition pgw_gx_cca_cb :: "pgw_env \<Rightarrow> index \<Rightarrow> avp list \<Rightarrow> pgw_state \<Rightarrow> pgw_state res" where
  "pgw_gx_cca_cb E g as s =
     ebind (non_null (pg_gx_sessions s g)) (\<lambda>d.
     ebind (non_null (avp_search AVP_CC_REQUEST_NUMBER as)) (\<lambda>na.
     let n = avp_u32 na in
     ebind (ebind (array_read (gs_xact d) (unat n)) non_null) (\<lambda>xact.
     ebind (ogs_assert (gs_sess d \<noteq> 0)) (\<lambda>_.
     ebind (ebind (array_read (gs_gtpbuf d) (unat n)) non_null) (\<lambda>body.
     ebind (cca_message E as) (\<lambda>(gx, e).
     ebind (if e = 0 then
              ebind (pg_sess s (gs_sess d)) (\<lambda>_.
              ebind (deref (xacts s) xact) (\<lambda>_.
              pgw_event_push E (PGW_EVT_GX_MESSAGE (gs_sess d) xact (Some body) gx) s))
            else Inr s) (\<lambda>s.
     Inr (if gs_cc_request_type d = OGS_DIAM_GX_CC_REQUEST_TYPE_TERMINATION_REQUEST \<and> gs_cc_request_number d \<le> n
          then s\<lparr>pg_gx_sessions := (pg_gx_sessions s)(g := None)\<rparr> else s))))))))"

subsection \<open>Re-authorization requests\<close>

fun rar_rules :: "pgw_env \<Rightarrow> avp list \<Rightarrow> gx_message \<Rightarrow> gx_message res" where
  "rar_rules E [] gx = Inr gx"
| "rar_rules E (a # as) gx =
     (if avp_code a = AVP_CHARGING_RULE_INSTALL then
        ebind (install_avps E (avp_children a) (gx, 0)) (\<lambda>(gx, _). rar_rules E as gx)
      else if avp_code a = AVP_CHARGING_RULE_REMOVE then
        ebind (remove_avps (avp_children a) gx) (rar_rules E as)
      else rar_rules E as gx)"

text \<open>A request for a Gx session the gateway does not know is only answered.\<close>

definition pgw_gx_rar_cb :: "pgw_env \<Rightarrow> index \<Rightarrow> avp list \<Rightarrow> pgw_state \<Rightarrow> pgw_state res" where
  "pgw_gx_rar_cb E g as s =
     (case pg_gx_sessions s g of
        None \<Rightarrow> Inr s
      | Some d \<Rightarrow>
          ebind (ogs_assert (gs_sess d \<noteq> 0)) (\<lambda>_.
          ebind (rar_rules E as (zero_gx_message\<lparr>gx_cmd_code := OGS_DIAM_GX_CMD_RE_AUTH\<rparr>)) (\<lambda>gx.
          ebind (pg_sess s (gs_sess d)) (\<lambda>_.
          pgw_event_push E (PGW_EVT_GX_MESSAGE (gs_sess d) 0 None gx) s))))"

end
