(* ===== verification/Pgw_Path.thy ===== *)
theory Pgw_Path
  imports Pgw_Fd
begin

text \<open>
  The user plane of the packet gateway, \<^verbatim>\<open>src/src/pgw/pgw-gtp-path.c\<close>, and its state machine,
  \<^verbatim>\<open>src/src/pgw/pgw-sm.c\<close>: packets of the tunnel device go to the serving gateway under the TEID of
  their bearer, packets of the serving gateway go to the device, and a router solicitation of a UE is
  answered with an advertisement of its prefix.
\<close>

subsection \<open>Checksum\<close>

fun cksum_sum :: "u8 list \<Rightarrow> u32 \<Rightarrow> u32" where
  "cksum_sum (a # b # bs) acc = cksum_sum bs (acc + ucast (word16 [a, b]))"
| "cksum_sum [a] acc = acc + ucast a"
| "cksum_sum [] acc = acc"

definition in_cksum :: "u8 list \<Rightarrow> u16" where
  "in_cksum bs =
     (let acc = cksum_sum bs 0;
          acc = drop_bit 16 acc + (acc AND 0xffff);
          acc = acc + drop_bit 16 acc
      in NOT (ucast acc))"

subsection \<open>Sending to a bearer\<close>

definition OGS_GTPV1U_HEADER_LEN :: nat where "OGS_GTPV1U_HEADER_LEN = 8"

definition pgw_gtp_send_to_bearer :: "pgw_env \<Rightarrow> index \<Rightarrow> u8 list \<Rightarrow> pgw_state \<Rightarrow> (bool \<times> pgw_state) res" where
  "pgw_gtp_send_to_bearer E b bytes s =
     ebind (ogs_assert (b \<noteq> 0)) (\<lambda>_.
     ebind (pg_bearer s b) (\<lambda>be.
     ebind (non_null (pb_gnode be)) (\<lambda>g.
     ebind (deref (gnodes s) g) (\<lambda>n.
     ebind (ogs_assert (gn_sock n \<noteq> None)) (\<lambda>_.
     ogs_gtp_sendto E g
       (GTPv1U 0x30 OGS_GTPU_MSGTYPE_GPDU (htons (of_nat (length bytes))) (htonl (pb_sgw_s5u_teid be)) bytes) s)))))"

subsection \<open>Router advertisement\<close>

text \<open>
  The advertisement and its prefix option, with a checksum of zero: type, code, checksum, hop limit,
  flags, router lifetime, reachable and retransmission times; then type, length, prefix length, flags,
  valid and preferred lifetimes, reserved octets and the prefix.
\<close>

definition nd_advert :: "u8 \<Rightarrow> u8 list \<Rightarrow> u8 list" where
  "nd_advert prefixlen prefix =
     [134, 0, 0, 0, 64, 0] @ bytes16 (htons 64800) @ replicate 8 0
   @ [3, 4, prefixlen, 0xc0] @ bytes32 (htonl 0xffffffff) @ bytes32 (htonl 0xffffffff) @ replicate 4 0 @ prefix"

text \<open>The pseudo header the checksum covers, in the place of the IPv6 header.\<close>

definition nd_pseudo :: "u8 list \<Rightarrow> u8 list \<Rightarrow> u8 list" where
  "nd_pseudo src dst = src @ dst @ [0, 0] @ bytes16 (htons 48) @ [0, 0, 0, PROTO_ICMPV6]"

definition ip6_header :: "u8 list \<Rightarrow> u8 list \<Rightarrow> u8 list" where
  "ip6_header src dst = bytes32 (htonl 0x60000001) @ bytes16 (htons 48) @ [PROTO_ICMPV6, 0xff] @ src @ dst"

definition router_advertisement :: "u8 list \<Rightarrow> u8 list \<Rightarrow> u8 \<Rightarrow> u8 list \<Rightarrow> u8 list" where
  "router_advertisement src dst prefixlen prefix =
     (let advert = nd_advert prefixlen prefix; cksum = in_cksum (nd_pseudo src dst @ advert)
      in ip6_header src dst @ poke advert 2 (bytes16 cksum))"

definition pgw_gtp_send_router_advertisement :: "pgw_env \<Rightarrow> index \<Rightarrow> u8 list \<Rightarrow> pgw_state \<Rightarrow> pgw_state res" where
  "pgw_gtp_send_router_advertisement E x ip6_dst s =
     ebind (ebind (pgw_default_bearer_in_sess x s) non_null) (\<lambda>b.
     ebind (pg_sess s x) (\<lambda>se.
     ebind (non_null (ps_ipv6 se)) (\<lambda>p6.
     ebind (get_ue_ip (pg_subnets s) p6) (\<lambda>ip.
     ebind (non_null (uip_subnet ip)) (\<lambda>i.
     ebind (deref (pg_subnets s) i) (\<lambda>subnet.
     ebind (ogs_assert (sub_dev subnet \<noteq> 0)) (\<lambda>_.
     ebind (deref (pg_devs s) (sub_dev subnet)) (\<lambda>dev.
     ebind (non_null (pe_ipsubnet E ''fe80::1'' None)) (\<lambda>ll.
     let src = (case dev_link_local_addr dev of None \<Rightarrow> ips_sub ll | Some a \<Rightarrow> a) in
     ebind (pgw_gtp_send_to_bearer E b
         (router_advertisement (bytes_of src) ip6_dst (sub_prefixlen subnet) (bytes_of (ips_sub (sub_sub subnet)))) s)
       (\<lambda>(rv, s). ebind (ogs_assert rv) (\<lambda>_. Inr s)))))))))))"

text \<open>The result says whether the packet was handled.\<close>

definition pgw_gtp_handle_slaac :: "pgw_env \<Rightarrow> index \<Rightarrow> pkbuf \<Rightarrow> pgw_state \<Rightarrow> (bool \<times> pgw_state) res" where
  "pgw_gtp_handle_slaac E x pkt s =
     ebind (ogs_assert (x \<noteq> 0)) (\<lambda>_.
     ebind (ogs_assert (pk_len pkt \<noteq> 0)) (\<lambda>_.
     ebind (ip_version (pk_buf pkt)) (\<lambda>v.
     if v \<noteq> 6 then Inr (False, s)
     else
       ebind (array_read (pk_buf pkt) 6) (\<lambda>nxt.
       if nxt \<noteq> PROTO_ICMPV6 then Inr (False, s)
       else
         ebind (array_read (pk_buf pkt) IP6_HDR_LEN) (\<lambda>type.
         if type \<noteq> 133 then Inr (False, s)
         else
           ebind (pg_sess s x) (\<lambda>se.
           if ps_ipv6 se = None then Inr (True, s)
           else
             ebind (pgw_gtp_send_router_advertisement E x (take 16 (drop 8 (pk_buf pkt))) s) (\<lambda>s.
             Inr (True, s))))))))"

subsection \<open>Packets of the device\<close>

fun multicast_each :: "pgw_env \<Rightarrow> u8 list \<Rightarrow> index list \<Rightarrow> pgw_state \<Rightarrow> pgw_state res" where
  "multicast_each E bytes [] s = Inr s"
| "multicast_each E bytes (x # xs) s =
     ebind (pg_sess s x) (\<lambda>se.
     if ps_ipv6 se \<noteq> None then
       ebind (ebind (pgw_default_bearer_in_sess x s) non_null) (\<lambda>b.
       ebind (pgw_gtp_send_to_bearer E b bytes s) (\<lambda>(rv, s).
       ebind (ogs_assert rv) (\<lambda>_. Inr s)))
     else multicast_each E bytes xs s)"

text \<open>An IPv6 packet to a multicast address goes to the first session that has an IPv6 address.\<close>

definition pgw_gtp_handle_multicast :: "pgw_env \<Rightarrow> pkbuf \<Rightarrow> pgw_state \<Rightarrow> pgw_state res" where
  "pgw_gtp_handle_multicast E pkt s =
     ebind (ip_version (pk_buf pkt)) (\<lambda>v.
     if v \<noteq> 6 then Inr s
     else
       ebind (array_read (pk_buf pkt) 24) (\<lambda>d.
       if d = 0xff then multicast_each E (take (pk_len pkt) (pk_buf pkt)) (pg_sess_list s) s else Inr s))"

text \<open>
  A read from the tunnel device: the buffer with the packet at its start, and the number of octets
  read, zero or none for a failed read.
\<close>

definition gtpv1_tun_recv_cb :: "pgw_env \<Rightarrow> pkbuf \<Rightarrow> pgw_state \<Rightarrow> pgw_state res option" where
  "gtpv1_tun_recv_cb E pkt s =
     (if pk_len pkt = 0 then Some (Inr s)
      else case pgw_bearer_find_by_packet pkt s of
        None \<Rightarrow> None
      | Some r \<Rightarrow> Some (ebind r (\<lambda>found.
          case found of
            Some b \<Rightarrow>
              ebind (pgw_gtp_send_to_bearer E b (take (pk_len pkt) (pk_buf pkt)) s) (\<lambda>(rv, s).
              ebind (ogs_assert rv) (\<lambda>_. Inr s))
          | None \<Rightarrow> if pe_multicast E then pgw_gtp_handle_multicast E pkt s else Inr s)))"

subsection \<open>Packets of the serving gateway\<close>

text \<open>The subnet of the session's address for the version of the packet.\<close>

definition uplink_subnet :: "u8 \<Rightarrow> pgw_sess \<Rightarrow> pgw_state \<Rightarrow> index option res" where
  "uplink_subnet v se s =
     (case (if v = 4 then ps_ipv4 se else if v = 6 then ps_ipv6 se else None) of
        None \<Rightarrow> Inr None
      | Some p \<Rightarrow> ebind (get_ue_ip (pg_subnets s) p) (\<lambda>ip. Inr (uip_subnet ip)))"

definition pgw_uplink :: "pgw_env \<Rightarrow> index \<Rightarrow> pkbuf \<Rightarrow> pgw_state \<Rightarrow> pgw_state res" where
  "pgw_uplink E b pkt s =
     ebind (pg_bearer s b) (\<lambda>be.
     ebind (ogs_assert (pb_sess be \<noteq> 0)) (\<lambda>_.
     ebind (pg_sess s (pb_sess be)) (\<lambda>se.
     ebind (ip_version (pk_buf pkt)) (\<lambda>v.
     ebind (uplink_subnet v se s) (\<lambda>r.
     case r of
       None \<Rightarrow> Inr s
     | Some i \<Rightarrow>
         ebind (if \<not> pe_no_slaac E \<and> v = 6 then pgw_gtp_handle_slaac E (pb_sess be) pkt s else Inr (False, s)) (\<lambda>(handled, s).
         if handled then Inr s
         else
           ebind (deref (pg_subnets s) i) (\<lambda>subnet.
           ebind (ogs_assert (sub_dev subnet \<noteq> 0)) (\<lambda>_.
           Inr (s\<lparr>pg_tun_out := pg_tun_out s @ [(sub_dev subnet, take (pk_len pkt) (pk_buf pkt))]\<rparr>)))))))))"

text \<open>A datagram on the user plane socket, in its buffer.\<close>

definition pg_gtpv1_u_recv_cb :: "pgw_env \<Rightarrow> pkbuf \<Rightarrow> pgw_state \<Rightarrow> pgw_state res" where
  "pg_gtpv1_u_recv_cb E pkt s =
     (if pk_len pkt = 0 then Inr s
      else
        ebind (array_read (pk_buf pkt) 0) (\<lambda>flags.
        let len = OGS_GTPV1U_HEADER_LEN + (if flags AND OGS_GTPU_FLAGS_S \<noteq> 0 then 4 else 0) in
        ebind (read32 (pk_buf pkt) 4) (\<lambda>teid.
        ebind (ogs_assert (len \<le> pk_len pkt)) (\<lambda>_.
        ebind (pgw_bearer_find_by_pgw_s5u_teid (ntohl teid) s) (\<lambda>r.
        case r of
          None \<Rightarrow> Inr s
        | Some b \<Rightarrow> pgw_uplink E b \<lparr>pk_buf = drop len (pk_buf pkt), pk_len = pk_len pkt - len\<rparr> s)))))"

subsection \<open>Control messages and the state machine\<close>

definition pg_gtpv2_c_recv_cb :: "pgw_env \<Rightarrow> s5_message option \<Rightarrow> pgw_state \<Rightarrow> pgw_state res" where
  "pg_gtpv2_c_recv_cb E m s = pgw_event_push E (PGW_EVT_S5C_MESSAGE m) s"

text \<open>The session of a message: a TEID of zero opens the node and a session for it.\<close>

definition s5c_sess :: "pgw_env \<Rightarrow> s5_message \<Rightarrow> pgw_state \<Rightarrow> (index option \<times> pgw_state) res" where
  "s5c_sess E m s =
     (if sm_teid m = 0 then
        ebind (pgw_sgw_add_by_message E (sm_body m) s) (\<lambda>(sgw, s).
        ebind (non_null sgw) (\<lambda>sgw.
        ebind (pgw_sess_add_by_message E (sm_body m) s) (\<lambda>(x, s).
        ebind (non_null x) (\<lambda>x.
        ebind (pg_sess s x) (\<lambda>se.
        Inr (Some x, pg_set_sess x (se\<lparr>ps_gnode := Some sgw\<rparr>) s))))))
      else ebind (pgw_sess_find_by_teid (sm_teid m) s) (\<lambda>r. Inr (r, s)))"

fun pg_s5c_dispatch :: "pgw_env \<Rightarrow> index \<Rightarrow> index \<Rightarrow> s5_body \<Rightarrow> pgw_state \<Rightarrow> pgw_state res" where
  "pg_s5c_dispatch E x xact (S5_Create_Session_Request req) s =
     ebind (pgw_s5c_handle_create_session_request E x xact req s) (\<lambda>s.
     pgw_gx_send_ccr E x xact (S5_Create_Session_Request req) OGS_DIAM_GX_CC_REQUEST_TYPE_INITIAL_REQUEST s)"
| "pg_s5c_dispatch E x xact (S5_Delete_Session_Request req) s =
     ebind (pgw_s5c_handle_delete_session_request x s) (\<lambda>s.
     pgw_gx_send_ccr E x xact (S5_Delete_Session_Request req) OGS_DIAM_GX_CC_REQUEST_TYPE_TERMINATION_REQUEST s)"
| "pg_s5c_dispatch E x xact (S5_Create_Bearer_Response ctx) s = pgw_s5c_handle_create_bearer_response E x xact ctx s"
| "pg_s5c_dispatch E x xact (S5_Update_Bearer_Response ctx) s = pgw_s5c_handle_update_bearer_response E x xact ctx s"
| "pg_s5c_dispatch E x xact (S5_Delete_Bearer_Response ctx) s = pgw_s5c_handle_delete_bearer_response E x xact ctx s"
| "pg_s5c_dispatch E x xact _ s = Inr s"

text \<open>A credit control answer: the request it belongs to is read through the member its type names.\<close>

definition gx_cca_dispatch ::
  "pgw_env \<Rightarrow> index option \<Rightarrow> index \<Rightarrow> s5_body option \<Rightarrow> gx_message \<Rightarrow> pgw_state \<Rightarrow> pgw_state res" where
  "gx_cca_dispatch E x xact_index gtpbuf gx s =
     ebind (ebind (ogs_gtp_xact_find xact_index s) non_null) (\<lambda>xact.
     ebind (non_null gtpbuf) (\<lambda>body.
     if gx_result_code gx \<noteq> ER_DIAMETER_SUCCESS then Inr s
     else if gx_cc_request_type gx = OGS_DIAM_GX_CC_REQUEST_TYPE_INITIAL_REQUEST then
       pgw_gx_handle_cca_initial_request E (nptr x) gx xact (as_create_request E body) s
     else if gx_cc_request_type gx = OGS_DIAM_GX_CC_REQUEST_TYPE_TERMINATION_REQUEST then
       pgw_gx_handle_cca_termination_request E (nptr x) xact
         (case body of S5_Delete_Session_Request req \<Rightarrow> req | _ \<Rightarrow> pe_union_delete E body) s
     else Inr s))"

fun pgw_state_operational :: "pgw_env \<Rightarrow> pgw_event \<Rightarrow> pgw_state \<Rightarrow> pgw_state res" where
  "pgw_state_operational E (PGW_EVT_S5C_MESSAGE mo) s =
     ebind (non_null mo) (\<lambda>m.
     ebind (s5c_sess E m s) (\<lambda>(xo, s).
     ebind (non_null xo) (\<lambda>x.
     ebind (pg_sess s x) (\<lambda>se.
     ebind (ogs_gtp_xact_receive E (nptr (ps_gnode se)) (s5_type (sm_body m)) (sm_sqn m) s) (\<lambda>(rv, xact, s).
     if rv \<noteq> OGS_OK then Inr s else pg_s5c_dispatch E x xact (sm_body m) s)))))"
| "pgw_state_operational E (PGW_EVT_GX_MESSAGE sess_index xact_index gtpbuf gx) s =
     ebind (pgw_sess_find sess_index s) (\<lambda>x.
     if gx_cmd_code gx = OGS_DIAM_GX_CMD_CODE_CREDIT_CONTROL then gx_cca_dispatch E x xact_index gtpbuf gx s
     else if gx_cmd_code gx = OGS_DIAM_GX_CMD_RE_AUTH then pgw_gx_handle_re_auth_request E (nptr x) gx s
     else Inr s)"

text \<open>One pass of the inner loop of \<^verbatim>\<open>pgw_main\<close>: the oldest event is taken and dispatched.\<close>

definition pgw_main_pop :: "pgw_env \<Rightarrow> pgw_state \<Rightarrow> pgw_state res" where
  "pgw_main_pop E s =
     (case pg_queue s of [] \<Rightarrow> Inr s | e # es \<Rightarrow> pgw_state_operational E e (s\<lparr>pg_queue := es\<rparr>))"

end
