(* ===== verification/Pgw_Inv.thy ===== *)
theory Pgw_Inv
  imports Pgw_Path
begin

text \<open>
  The structure of the packet gateway's contexts and what every operation of \<open>Pgw_Context\<close> does to
  it. Sessions own bearers and bearers own packet filters; both are instances of the ownership
  contract. A session holds addresses of the subnet pools, which no other session holds.
\<close>

subsection \<open>The two levels\<close>

interpretation pg_sess_bearer: ownership ps_bearer_list "\<lambda>l se. se\<lparr>ps_bearer_list := l\<rparr>" pb_sess
  by unfold_locales simp

interpretation pg_bearer_pf: ownership pb_pf_list "\<lambda>l be. be\<lparr>pb_pf_list := l\<rparr>" f_bearer
  by unfold_locales simp

abbreviation "pg_bearers_owned s \<equiv> owns ps_bearer_list pb_sess (objs (pg_sesss s)) (objs (pg_bearers s))"
abbreviation "pg_pfs_owned s \<equiv> owns pb_pf_list f_bearer (objs (pg_bearers s)) (objs (pg_pfs s))"

subsection \<open>The invariant\<close>

abbreviation pnode_ok :: "pgw_state \<Rightarrow> index option \<Rightarrow> bool" where
  "pnode_ok s p \<equiv> (\<forall>g. p = Some g \<longrightarrow> gnodes s g \<noteq> None)"

text \<open>The subnets: as many entries as can be given out point back to their subnet.\<close>

definition subnets_ok :: "pgw_state \<Rightarrow> bool" where
  "subnets_ok s \<longleftrightarrow> set (pg_subnet_list s) \<subseteq> dom (pg_subnets s)
     \<and> (\<forall>i sn. pg_subnets s i = Some sn \<longrightarrow>
          sub_size sn \<le> length (sub_array sn) \<and> sub_live sn \<subseteq> {..<sub_size sn} \<and> pg_devs s (sub_dev sn) \<noteq> None
        \<and> (\<forall>k < sub_size sn. uip_subnet (sub_array sn ! k) = Some i))"

definition addr_ok :: "(index \<rightharpoonup> pgw_subnet) \<Rightarrow> family \<Rightarrow> ue_ip_ptr option \<Rightarrow> bool" where
  "addr_ok m fam p \<longleftrightarrow> (\<forall>i k. p = Some (i, k) \<longrightarrow> (\<exists>sn. m i = Some sn \<and> sub_family sn = fam \<and> k \<in> sub_live sn))"

text \<open>No two sessions hold the same entry of a pool.\<close>

definition addrs_unique :: "(pgw_sess \<Rightarrow> ue_ip_ptr option) \<Rightarrow> pgw_state \<Rightarrow> bool" where
  "addrs_unique sel s \<longleftrightarrow> (\<forall>x y se te. objs (pg_sesss s) x = Some se \<longrightarrow> objs (pg_sesss s) y = Some te \<longrightarrow>
     sel se \<noteq> None \<longrightarrow> sel se = sel te \<longrightarrow> x = y)"

definition pg_sesss_ok :: "pgw_state \<Rightarrow> bool" where
  "pg_sesss_ok s \<longleftrightarrow> (\<forall>x se. objs (pg_sesss s) x = Some se \<longrightarrow> x \<noteq> 0 \<and> ps_pgw_s5c_teid se = x \<and> pnode_ok s (ps_gnode se)
     \<and> addr_ok (pg_subnets s) AF_INET (ps_ipv4 se) \<and> addr_ok (pg_subnets s) AF_INET6 (ps_ipv6 se)
     \<and> (\<forall>b \<in> set (tl (ps_bearer_list se)). \<forall>be. objs (pg_bearers s) b = Some be \<longrightarrow> pb_name be \<noteq> None))"

definition pg_list_ok :: "pgw_state \<Rightarrow> bool" where
  "pg_list_ok s \<longleftrightarrow> distinct (pg_sess_list s) \<and> set (pg_sess_list s) = dom (objs (pg_sesss s))"

definition pg_bearers_ok :: "pgw_state \<Rightarrow> bool" where
  "pg_bearers_ok s \<longleftrightarrow> (\<forall>b be. objs (pg_bearers s) b = Some be \<longrightarrow> b \<noteq> 0 \<and> pb_pgw_s5u_teid be = b \<and> pnode_ok s (pb_gnode be))"

text \<open>The address arrays of a rule have four words.\<close>

definition rule_typed :: "pgw_rule \<Rightarrow> bool" where
  "rule_typed ru \<longleftrightarrow> length (ru_local_addr ru) = 4 \<and> length (ru_local_mask ru) = 4
     \<and> length (ru_remote_addr ru) = 4 \<and> length (ru_remote_mask ru) = 4"

definition pg_pfs_ok :: "pgw_state \<Rightarrow> bool" where
  "pg_pfs_ok s \<longleftrightarrow> (\<forall>f pf. objs (pg_pfs s) f = Some pf \<longrightarrow> f \<noteq> 0 \<and> rule_typed (f_rule pf))"

text \<open>The rest: peers, the servers that are given to UEs in turn, the arrays of the Gx sessions.\<close>

definition pg_rest_ok :: "pgw_state \<Rightarrow> bool" where
  "pg_rest_ok s \<longleftrightarrow> set (sgw_s5c_list s) \<union> set (sgw_s5u_list s) \<subseteq> dom (gnodes s)
     \<and> (pg_p_cscf s \<noteq> [] \<longrightarrow> pg_p_cscf_index s < length (pg_p_cscf s))
     \<and> (pg_p_cscf6 s \<noteq> [] \<longrightarrow> pg_p_cscf6_index s < length (pg_p_cscf6 s))
     \<and> (\<forall>g d. pg_gx_sessions s g = Some d \<longrightarrow>
          length (gs_xact d) = MAX_CC_REQUEST_NUMBER \<and> length (gs_gtpbuf d) = MAX_CC_REQUEST_NUMBER)"

definition pgw_ctx_ok :: "pgw_state \<Rightarrow> bool" where
  "pgw_ctx_ok s \<longleftrightarrow> pg_bearers_owned s \<and> pg_pfs_owned s \<and> pg_sesss_ok s \<and> pg_bearers_ok s \<and> pg_pfs_ok s
     \<and> subnets_ok s \<and> addrs_unique ps_ipv4 s \<and> addrs_unique ps_ipv6 s"

definition pgw_inv :: "pgw_state \<Rightarrow> bool" where
  "pgw_inv s \<longleftrightarrow> gtp_inv s \<and> pgw_ctx_ok s \<and> pg_list_ok s \<and> pg_rest_ok s"

lemmas pg_defs = pg_sesss_ok_def pg_bearers_ok_def pg_pfs_ok_def subnets_ok_def addrs_unique_def

lemma pgw_invD:
  assumes "pgw_inv s"
  shows "gtp_inv s" "pg_bearers_owned s" "pg_pfs_owned s" "pg_sesss_ok s" "pg_bearers_ok s" "pg_pfs_ok s" "subnets_ok s"
    "addrs_unique ps_ipv4 s" "addrs_unique ps_ipv6 s" "pg_list_ok s" "pg_rest_ok s"
  using assms by (simp_all add: pgw_inv_def pgw_ctx_ok_def)

subsection \<open>Selectors\<close>

lemma pg_set_sess_sel [simp]:
  "pg_sesss (pg_set_sess x v s) = pool_set x v (pg_sesss s)" "pg_bearers (pg_set_sess x v s) = pg_bearers s"
  "pg_pfs (pg_set_sess x v s) = pg_pfs s" "gnodes (pg_set_sess x v s) = gnodes s" "xacts (pg_set_sess x v s) = xacts s"
  "pg_subnets (pg_set_sess x v s) = pg_subnets s" "pg_sess_list (pg_set_sess x v s) = pg_sess_list s"
  "pg_devs (pg_set_sess x v s) = pg_devs s" "pg_subnet_list (pg_set_sess x v s) = pg_subnet_list s"
  "pg_rest_ok (pg_set_sess x v s) = pg_rest_ok s" "gtp_inv (pg_set_sess x v s) = gtp_inv s"
  "pg_gx_sessions (pg_set_sess x v s) = pg_gx_sessions s" "subnets_ok (pg_set_sess x v s) = subnets_ok s"
  "pg_pfs_ok (pg_set_sess x v s) = pg_pfs_ok s" "pg_bearers_ok (pg_set_sess x v s) = pg_bearers_ok s"
  by (simp_all add: pg_set_sess_def pg_rest_ok_def gtp_inv_def subnets_ok_def pg_pfs_ok_def pg_bearers_ok_def)

lemma pg_set_bearer_sel [simp]:
  "pg_sesss (pg_set_bearer x v s) = pg_sesss s" "pg_bearers (pg_set_bearer x v s) = pool_set x v (pg_bearers s)"
  "pg_pfs (pg_set_bearer x v s) = pg_pfs s" "gnodes (pg_set_bearer x v s) = gnodes s" "xacts (pg_set_bearer x v s) = xacts s"
  "pg_subnets (pg_set_bearer x v s) = pg_subnets s" "pg_sess_list (pg_set_bearer x v s) = pg_sess_list s"
  "pg_devs (pg_set_bearer x v s) = pg_devs s" "pg_subnet_list (pg_set_bearer x v s) = pg_subnet_list s"
  "pg_rest_ok (pg_set_bearer x v s) = pg_rest_ok s" "gtp_inv (pg_set_bearer x v s) = gtp_inv s"
  "pg_gx_sessions (pg_set_bearer x v s) = pg_gx_sessions s" "subnets_ok (pg_set_bearer x v s) = subnets_ok s"
  "pg_pfs_ok (pg_set_bearer x v s) = pg_pfs_ok s" "addrs_unique sel (pg_set_bearer x v s) = addrs_unique sel s"
  "pg_list_ok (pg_set_bearer x v s) = pg_list_ok s"
  by (simp_all add: pg_set_bearer_def pg_rest_ok_def gtp_inv_def subnets_ok_def pg_pfs_ok_def addrs_unique_def pg_list_ok_def)

lemma pg_set_pf_sel [simp]:
  "pg_sesss (pg_set_pf x v s) = pg_sesss s" "pg_bearers (pg_set_pf x v s) = pg_bearers s"
  "pg_pfs (pg_set_pf x v s) = pool_set x v (pg_pfs s)" "gnodes (pg_set_pf x v s) = gnodes s" "xacts (pg_set_pf x v s) = xacts s"
  "pg_subnets (pg_set_pf x v s) = pg_subnets s" "pg_sess_list (pg_set_pf x v s) = pg_sess_list s"
  "pg_devs (pg_set_pf x v s) = pg_devs s" "pg_subnet_list (pg_set_pf x v s) = pg_subnet_list s"
  "pg_rest_ok (pg_set_pf x v s) = pg_rest_ok s" "gtp_inv (pg_set_pf x v s) = gtp_inv s"
  "subnets_ok (pg_set_pf x v s) = subnets_ok s" "addrs_unique sel (pg_set_pf x v s) = addrs_unique sel s"
  "pg_list_ok (pg_set_pf x v s) = pg_list_ok s" "pg_sesss_ok (pg_set_pf x v s) = pg_sesss_ok s"
  "pg_bearers_ok (pg_set_pf x v s) = pg_bearers_ok s"
  by (simp_all add: pg_set_pf_def pg_rest_ok_def gtp_inv_def subnets_ok_def addrs_unique_def pg_list_ok_def pg_sesss_ok_def
      pg_bearers_ok_def)

lemma pg_update_sel [simp]:
  "subnets_ok (s\<lparr>pg_sesss := k\<rparr>) = subnets_ok s" "pg_rest_ok (s\<lparr>pg_sesss := k\<rparr>) = pg_rest_ok s"
  "gtp_inv (s\<lparr>pg_sesss := k\<rparr>) = gtp_inv s" "pg_pfs_ok (s\<lparr>pg_sesss := k\<rparr>) = pg_pfs_ok s"
  "pg_bearers_ok (s\<lparr>pg_sesss := k\<rparr>) = pg_bearers_ok s"
  "subnets_ok (s\<lparr>pg_bearers := q\<rparr>) = subnets_ok s" "pg_rest_ok (s\<lparr>pg_bearers := q\<rparr>) = pg_rest_ok s"
  "gtp_inv (s\<lparr>pg_bearers := q\<rparr>) = gtp_inv s" "pg_pfs_ok (s\<lparr>pg_bearers := q\<rparr>) = pg_pfs_ok s"
  "pg_list_ok (s\<lparr>pg_bearers := q\<rparr>) = pg_list_ok s" "addrs_unique sel (s\<lparr>pg_bearers := q\<rparr>) = addrs_unique sel s"
  "subnets_ok (s\<lparr>pg_pfs := p\<rparr>) = subnets_ok s" "pg_rest_ok (s\<lparr>pg_pfs := p\<rparr>) = pg_rest_ok s"
  "gtp_inv (s\<lparr>pg_pfs := p\<rparr>) = gtp_inv s" "pg_sesss_ok (s\<lparr>pg_pfs := p\<rparr>) = pg_sesss_ok s"
  "pg_bearers_ok (s\<lparr>pg_pfs := p\<rparr>) = pg_bearers_ok s" "pg_list_ok (s\<lparr>pg_pfs := p\<rparr>) = pg_list_ok s"
  "addrs_unique sel (s\<lparr>pg_pfs := p\<rparr>) = addrs_unique sel s"
  "subnets_ok (s\<lparr>pg_sess_list := l\<rparr>) = subnets_ok s" "pg_rest_ok (s\<lparr>pg_sess_list := l\<rparr>) = pg_rest_ok s"
  "gtp_inv (s\<lparr>pg_sess_list := l\<rparr>) = gtp_inv s" "pg_sesss_ok (s\<lparr>pg_sess_list := l\<rparr>) = pg_sesss_ok s"
  "pg_bearers_ok (s\<lparr>pg_sess_list := l\<rparr>) = pg_bearers_ok s" "pg_pfs_ok (s\<lparr>pg_sess_list := l\<rparr>) = pg_pfs_ok s"
  "addrs_unique sel (s\<lparr>pg_sess_list := l\<rparr>) = addrs_unique sel s"
  "pg_rest_ok (s\<lparr>pg_subnets := m\<rparr>) = pg_rest_ok s" "gtp_inv (s\<lparr>pg_subnets := m\<rparr>) = gtp_inv s"
  "pg_list_ok (s\<lparr>pg_subnets := m\<rparr>) = pg_list_ok s" "pg_bearers_ok (s\<lparr>pg_subnets := m\<rparr>) = pg_bearers_ok s"
  "pg_pfs_ok (s\<lparr>pg_subnets := m\<rparr>) = pg_pfs_ok s" "addrs_unique sel (s\<lparr>pg_subnets := m\<rparr>) = addrs_unique sel s"
  "subnets_ok (s\<lparr>pg_queue := es\<rparr>) = subnets_ok s" "pg_rest_ok (s\<lparr>pg_queue := es\<rparr>) = pg_rest_ok s"
  "gtp_inv (s\<lparr>pg_queue := es\<rparr>) = gtp_inv s" "pg_sesss_ok (s\<lparr>pg_queue := es\<rparr>) = pg_sesss_ok s"
  "pg_bearers_ok (s\<lparr>pg_queue := es\<rparr>) = pg_bearers_ok s" "pg_list_ok (s\<lparr>pg_queue := es\<rparr>) = pg_list_ok s"
  "pg_pfs_ok (s\<lparr>pg_queue := es\<rparr>) = pg_pfs_ok s" "addrs_unique sel (s\<lparr>pg_queue := es\<rparr>) = addrs_unique sel s"
  "subnets_ok (s\<lparr>pg_tun_out := out\<rparr>) = subnets_ok s" "pg_rest_ok (s\<lparr>pg_tun_out := out\<rparr>) = pg_rest_ok s"
  "gtp_inv (s\<lparr>pg_tun_out := out\<rparr>) = gtp_inv s" "pg_sesss_ok (s\<lparr>pg_tun_out := out\<rparr>) = pg_sesss_ok s"
  "pg_bearers_ok (s\<lparr>pg_tun_out := out\<rparr>) = pg_bearers_ok s" "pg_list_ok (s\<lparr>pg_tun_out := out\<rparr>) = pg_list_ok s"
  "pg_pfs_ok (s\<lparr>pg_tun_out := out\<rparr>) = pg_pfs_ok s" "addrs_unique sel (s\<lparr>pg_tun_out := out\<rparr>) = addrs_unique sel s"
  "subnets_ok (s\<lparr>pg_ccr_sent := ccr\<rparr>) = subnets_ok s" "pg_rest_ok (s\<lparr>pg_ccr_sent := ccr\<rparr>) = pg_rest_ok s"
  "gtp_inv (s\<lparr>pg_ccr_sent := ccr\<rparr>) = gtp_inv s" "pg_sesss_ok (s\<lparr>pg_ccr_sent := ccr\<rparr>) = pg_sesss_ok s"
  "pg_bearers_ok (s\<lparr>pg_ccr_sent := ccr\<rparr>) = pg_bearers_ok s" "pg_list_ok (s\<lparr>pg_ccr_sent := ccr\<rparr>) = pg_list_ok s"
  "pg_pfs_ok (s\<lparr>pg_ccr_sent := ccr\<rparr>) = pg_pfs_ok s" "addrs_unique sel (s\<lparr>pg_ccr_sent := ccr\<rparr>) = addrs_unique sel s"
  "subnets_ok (s\<lparr>pg_p_cscf_index := i\<rparr>) = subnets_ok s" "gtp_inv (s\<lparr>pg_p_cscf_index := i\<rparr>) = gtp_inv s"
  "pg_sesss_ok (s\<lparr>pg_p_cscf_index := i\<rparr>) = pg_sesss_ok s" "pg_bearers_ok (s\<lparr>pg_p_cscf_index := i\<rparr>) = pg_bearers_ok s"
  "pg_list_ok (s\<lparr>pg_p_cscf_index := i\<rparr>) = pg_list_ok s" "pg_pfs_ok (s\<lparr>pg_p_cscf_index := i\<rparr>) = pg_pfs_ok s"
  "addrs_unique sel (s\<lparr>pg_p_cscf_index := i\<rparr>) = addrs_unique sel s"
  "subnets_ok (s\<lparr>pg_p_cscf6_index := i\<rparr>) = subnets_ok s" "gtp_inv (s\<lparr>pg_p_cscf6_index := i\<rparr>) = gtp_inv s"
  "pg_sesss_ok (s\<lparr>pg_p_cscf6_index := i\<rparr>) = pg_sesss_ok s" "pg_bearers_ok (s\<lparr>pg_p_cscf6_index := i\<rparr>) = pg_bearers_ok s"
  "pg_list_ok (s\<lparr>pg_p_cscf6_index := i\<rparr>) = pg_list_ok s" "pg_pfs_ok (s\<lparr>pg_p_cscf6_index := i\<rparr>) = pg_pfs_ok s"
  "addrs_unique sel (s\<lparr>pg_p_cscf6_index := i\<rparr>) = addrs_unique sel s"
  "subnets_ok (s\<lparr>pg_gx_sessions := gx\<rparr>) = subnets_ok s" "gtp_inv (s\<lparr>pg_gx_sessions := gx\<rparr>) = gtp_inv s"
  "pg_sesss_ok (s\<lparr>pg_gx_sessions := gx\<rparr>) = pg_sesss_ok s" "pg_bearers_ok (s\<lparr>pg_gx_sessions := gx\<rparr>) = pg_bearers_ok s"
  "pg_list_ok (s\<lparr>pg_gx_sessions := gx\<rparr>) = pg_list_ok s" "pg_pfs_ok (s\<lparr>pg_gx_sessions := gx\<rparr>) = pg_pfs_ok s"
  "addrs_unique sel (s\<lparr>pg_gx_sessions := gx\<rparr>) = addrs_unique sel s"
  "subnets_ok (s\<lparr>sgw_s5c_list := l\<rparr>) = subnets_ok s" "gtp_inv (s\<lparr>sgw_s5c_list := l\<rparr>) = gtp_inv s"
  "pg_sesss_ok (s\<lparr>sgw_s5c_list := l\<rparr>) = pg_sesss_ok s" "pg_bearers_ok (s\<lparr>sgw_s5c_list := l\<rparr>) = pg_bearers_ok s"
  "pg_list_ok (s\<lparr>sgw_s5c_list := l\<rparr>) = pg_list_ok s" "pg_pfs_ok (s\<lparr>sgw_s5c_list := l\<rparr>) = pg_pfs_ok s"
  "addrs_unique sel (s\<lparr>sgw_s5c_list := l\<rparr>) = addrs_unique sel s"
  "subnets_ok (s\<lparr>sgw_s5u_list := l\<rparr>) = subnets_ok s" "gtp_inv (s\<lparr>sgw_s5u_list := l\<rparr>) = gtp_inv s"
  "pg_sesss_ok (s\<lparr>sgw_s5u_list := l\<rparr>) = pg_sesss_ok s" "pg_bearers_ok (s\<lparr>sgw_s5u_list := l\<rparr>) = pg_bearers_ok s"
  "pg_list_ok (s\<lparr>sgw_s5u_list := l\<rparr>) = pg_list_ok s" "pg_pfs_ok (s\<lparr>sgw_s5u_list := l\<rparr>) = pg_pfs_ok s"
  "addrs_unique sel (s\<lparr>sgw_s5u_list := l\<rparr>) = addrs_unique sel s"
  by (simp_all add: subnets_ok_def pg_rest_ok_def gtp_inv_def pg_sesss_ok_def pg_bearers_ok_def pg_list_ok_def pg_pfs_ok_def
      addrs_unique_def)

lemma pgw_env_okD:
  assumes "pgw_env_ok E"
  shows "gtp_env_ok E" "pick_ok (pe_sess_pick E)" "pick_ok (pe_bearer_pick E)" "pick_ok (pe_pf_pick E)"
    "ue_ip_pick_ok (pe_ue_ip_pick E)" "pe_gx_pick E m = Some i \<Longrightarrow> m i = None \<and> i \<noteq> 0"
    "list_add E xs y = xs @ [y]" "list_remove E xs y = remove1 y xs"
  using assms by (simp_all add: pgw_env_ok_def gtp_env_ok_def)

subsection \<open>Pointers\<close>

lemma pgw_inv_sess: "pgw_inv s \<Longrightarrow> objs (pg_sesss s) x = Some se \<Longrightarrow>
    x \<noteq> 0 \<and> pnode_ok s (ps_gnode se) \<and> distinct (ps_bearer_list se)
    \<and> addr_ok (pg_subnets s) AF_INET (ps_ipv4 se) \<and> addr_ok (pg_subnets s) AF_INET6 (ps_ipv6 se)
    \<and> (\<forall>b \<in> set (ps_bearer_list se). \<exists>be. objs (pg_bearers s) b = Some be \<and> pb_sess be = x)"
  using pg_sess_bearer.owns_distinct pg_sess_bearer.owns_kid by (auto simp: pgw_inv_def pgw_ctx_ok_def pg_sesss_ok_def)

lemma pgw_inv_bearer: "pgw_inv s \<Longrightarrow> objs (pg_bearers s) b = Some be \<Longrightarrow>
    b \<noteq> 0 \<and> pnode_ok s (pb_gnode be) \<and> pb_sess be \<noteq> 0 \<and> distinct (pb_pf_list be)
    \<and> (\<exists>se. objs (pg_sesss s) (pb_sess be) = Some se \<and> b \<in> set (ps_bearer_list se))
    \<and> (\<forall>f \<in> set (pb_pf_list be). \<exists>pf. objs (pg_pfs s) f = Some pf \<and> f_bearer pf = b)"
  using pg_sess_bearer.owns_parent [OF pgw_invD(2), of s b be] pg_bearer_pf.owns_distinct pg_bearer_pf.owns_kid
    pgw_inv_sess [of s "pb_sess be"]
  by (fastforce simp: pgw_inv_def pgw_ctx_ok_def pg_bearers_ok_def)

lemma pgw_inv_pf: "pgw_inv s \<Longrightarrow> objs (pg_pfs s) f = Some pf \<Longrightarrow>
    f \<noteq> 0 \<and> rule_typed (f_rule pf) \<and> f_bearer pf \<noteq> 0 \<and> (\<exists>be. objs (pg_bearers s) (f_bearer pf) = Some be \<and> f \<in> set (pb_pf_list be))"
  using pg_bearer_pf.owns_parent [OF pgw_invD(3), of s f pf] pgw_inv_bearer [of s "f_bearer pf"]
  by (fastforce simp: pgw_inv_def pgw_ctx_ok_def pg_pfs_ok_def)

lemma addr_ok_read:
  assumes "subnets_ok s" and "addr_ok (pg_subnets s) fam (Some p)"
  obtains sn where "pg_subnets s (fst p) = Some sn" "sub_family sn = fam" "snd p \<in> sub_live sn"
    "get_ue_ip (pg_subnets s) p = Inr (sub_array sn ! snd p)" "uip_subnet (sub_array sn ! snd p) = Some (fst p)"
proof -
  obtain sn where sn: "pg_subnets s (fst p) = Some sn" "sub_family sn = fam" "snd p \<in> sub_live sn"
    using assms(2) by (cases p) (auto simp: addr_ok_def)
  then have "snd p < sub_size sn" "sub_size sn \<le> length (sub_array sn)" "uip_subnet (sub_array sn ! snd p) = Some (fst p)"
    using assms(1) by (auto simp: subnets_ok_def lessThan_def subset_iff)
  then show thesis using that [OF sn] sn by (simp add: get_ue_ip_def)
qed

lemma safe_read_ue_ip:
  assumes "subnets_ok s" and "addr_ok (pg_subnets s) fam p"
  shows "safe (read_ue_ip p s) (\<lambda>_. True)"
  using assms by (cases p) (auto simp: read_ue_ip_def elim: addr_ok_read)

subsection \<open>Updates of one object\<close>

lemma pgw_inv_set_sess:
  assumes inv: "pgw_inv s" and x: "objs (pg_sesss s) x = Some se"
    and eq: "ps_bearer_list se' = ps_bearer_list se" "ps_pgw_s5c_teid se' = ps_pgw_s5c_teid se" "ps_ipv4 se' = ps_ipv4 se"
      "ps_ipv6 se' = ps_ipv6 se" "pnode_ok s (ps_gnode se')"
  shows "pgw_inv (pg_set_sess x se' s)"
proof -
  have "pg_bearers_owned (pg_set_sess x se' s)"
    using pg_sess_bearer.owns_set_parent [OF pgw_invD(2) [OF inv] x eq(1)] x by simp
  moreover have "pg_sesss_ok (pg_set_sess x se' s)" "pg_list_ok (pg_set_sess x se' s)"
    using pgw_invD(4,10) [OF inv] x eq by (auto simp: pg_sesss_ok_def pg_list_ok_def)
  moreover have "addrs_unique ps_ipv4 (pg_set_sess x se' s)" "addrs_unique ps_ipv6 (pg_set_sess x se' s)"
    using pgw_invD(8,9) [OF inv] x eq by (auto simp: addrs_unique_def split: if_splits)
  ultimately show ?thesis
    using inv by (simp add: pgw_inv_def pgw_ctx_ok_def)
qed

lemma pgw_inv_set_bearer:
  assumes inv: "pgw_inv s" and b: "objs (pg_bearers s) b = Some be"
    and eq: "pb_pf_list be' = pb_pf_list be" "pb_pgw_s5u_teid be' = pb_pgw_s5u_teid be" "pb_sess be' = pb_sess be"
      "pb_name be' = pb_name be" "pnode_ok s (pb_gnode be')"
  shows "pgw_inv (pg_set_bearer b be' s)"
proof -
  have "pg_bearers_owned (pg_set_bearer b be' s)" "pg_pfs_owned (pg_set_bearer b be' s)"
    using pg_sess_bearer.owns_set_child [OF pgw_invD(2) [OF inv] b eq(3)] b
      pg_bearer_pf.owns_set_parent [OF pgw_invD(3) [OF inv] b eq(1)] by simp_all
  moreover have "pg_sesss_ok (pg_set_bearer b be' s)" "pg_bearers_ok (pg_set_bearer b be' s)"
    using pgw_invD(4,5) [OF inv] b eq by (fastforce simp: pg_sesss_ok_def pg_bearers_ok_def)+
  ultimately show ?thesis
    using inv by (simp add: pgw_inv_def pgw_ctx_ok_def)
qed

lemma pgw_inv_set_pf:
  assumes inv: "pgw_inv s" and f: "objs (pg_pfs s) f = Some pf" and eq: "f_bearer pf' = f_bearer pf" "rule_typed (f_rule pf')"
  shows "pgw_inv (pg_set_pf f pf' s)"
proof -
  have "pg_pfs_owned (pg_set_pf f pf' s)"
    using pg_bearer_pf.owns_set_child [OF pgw_invD(3) [OF inv] f eq(1)] f by simp
  moreover have "pg_pfs_ok (pg_set_pf f pf' s)"
    using pgw_invD(6) [OF inv] f eq(2) by (simp add: pg_pfs_ok_def)
  ultimately show ?thesis
    using inv by (simp add: pgw_inv_def pgw_ctx_ok_def)
qed

subsection \<open>Packet filters are added\<close>

text \<open>The compiler of rules yields instructions with all their operands.\<close>

fun insn_ok :: "ipfw_insn \<Rightarrow> bool" where
  "insn_ok (O_IP_SRC a) \<longleftrightarrow> 1 \<le> length a"
| "insn_ok (O_IP_DST a) \<longleftrightarrow> 1 \<le> length a"
| "insn_ok (O_IP_SRC_MASK a) \<longleftrightarrow> 2 \<le> length a"
| "insn_ok (O_IP_DST_MASK a) \<longleftrightarrow> 2 \<le> length a"
| "insn_ok (O_IP6_SRC a) \<longleftrightarrow> 4 \<le> length a"
| "insn_ok (O_IP6_DST a) \<longleftrightarrow> 4 \<le> length a"
| "insn_ok (O_IP6_SRC_MASK a) \<longleftrightarrow> 8 \<le> length a"
| "insn_ok (O_IP6_DST_MASK a) \<longleftrightarrow> 8 \<le> length a"
| "insn_ok (O_IP_SRCPORT p) \<longleftrightarrow> 2 \<le> length p"
| "insn_ok (O_IP_DSTPORT p) \<longleftrightarrow> 2 \<le> length p"
| "insn_ok _ \<longleftrightarrow> True"

definition compile_ok :: "pgw_env \<Rightarrow> bool" where
  "compile_ok E \<longleftrightarrow> (\<forall>ts. list_all insn_ok (pe_compile_rule E ts))"

text \<open>A flow description: an action and a direction at least, and no more tokens than the array holds.\<close>

definition flow_ok :: "ogs_flow \<Rightarrow> bool" where
  "flow_ok fl \<longleftrightarrow> (\<forall>d. fl_description fl = Some d \<longrightarrow>
     2 \<le> length (strtok [] d) \<and> length (strtok [] d) + 1 < MAX_NUM_OF_TOKEN)"

lemma safe_rule_insn:
  assumes "insn_ok c" and "rule_typed ru"
  shows "safe (rule_insn c ru) rule_typed"
  using assms by (cases c) (auto simp: rule_typed_def first4_def words_of_def)

lemma safe_rule_insns: "list_all insn_ok cs \<Longrightarrow> rule_typed ru \<Longrightarrow> safe (rule_insns cs ru) rule_typed"
  by (induction cs arbitrary: ru) (auto intro: safe_mono [OF safe_rule_insn])

lemma safe_compile:
  assumes "compile_ok E" and "\<And>d. description = Some d \<Longrightarrow> 2 \<le> length (strtok [] d) \<and> length (strtok [] d) + 1 < MAX_NUM_OF_TOKEN"
  shows "safe (pgw_compile_packet_filter E description) (\<lambda>r. \<forall>ru. r = Some ru \<longrightarrow> rule_typed ru)"
proof (cases description)
  case (Some d)
  have "safe (rule_insns (pe_compile_rule E ts) zero_rule) rule_typed" for ts
    by (rule safe_rule_insns) (use assms(1) in \<open>simp_all add: compile_ok_def rule_typed_def zero_rule_def\<close>)
  then show ?thesis
    using assms(2) [OF Some] by (auto simp: pgw_compile_packet_filter_def Some split: list.split intro: safe_mono)
qed (simp add: pgw_compile_packet_filter_def)

lemma pf_add_spec:
  assumes E: "pgw_env_ok E" and b: "b \<noteq> 0" "objs (pg_bearers s) b = Some be"
  shows "safe (pgw_pf_add E b precedence s) (\<lambda>(f, s'). f \<noteq> 0 \<and> objs (pg_pfs s) f = None
     \<and> (\<exists>p q i pf. s' = s\<lparr>pg_pfs := p, pg_bearers := q\<rparr> \<and> f_bearer pf = b \<and> objs p = (objs (pg_pfs s))(f \<mapsto> pf)
        \<and> objs q = (objs (pg_bearers s))(b \<mapsto> be\<lparr>pb_pf_identifier := i, pb_pf_list := pb_pf_list be @ [f]\<rparr>)))"
proof -
  have "\<exists>p' q i' pf'. pg_set_bearer b (be\<lparr>pb_pf_identifier := i, pb_pf_list := pb_pf_list be @ [f]\<rparr>)
      (pg_set_pf f (pool_mem p f\<lparr>f_identifier := j, f_bearer := b\<rparr>) (s\<lparr>pg_pfs := p\<rparr>)) = s\<lparr>pg_pfs := p', pg_bearers := q\<rparr>
      \<and> f_bearer pf' = b \<and> objs p' = (objs (pg_pfs s))(f \<mapsto> pf')
      \<and> objs q = (objs (pg_bearers s))(b \<mapsto> be\<lparr>pb_pf_identifier := i', pb_pf_list := pb_pf_list be @ [f]\<rparr>)"
    if "objs p = (objs (pg_pfs s))(f \<mapsto> pool_mem (pg_pfs s) f)" "pool_mem p = pool_mem (pg_pfs s)" for p f i j
    using that b
    by (intro exI [of _ "pool_set f (pool_mem p f\<lparr>f_identifier := j, f_bearer := b\<rparr>) p"]
        exI [of _ "pool_set b (be\<lparr>pb_pf_identifier := i, pb_pf_list := pb_pf_list be @ [f]\<rparr>) (pg_bearers s)"] exI [of _ i]
        exI [of _ "pool_mem p f\<lparr>f_identifier := j, f_bearer := b\<rparr>"]) (simp add: pg_set_pf_def pg_set_bearer_def)
  then show ?thesis
    using b by (auto simp: pgw_pf_add_def Let_def pgw_env_okD [OF E] dest!: pool_alloc_facts)
qed

lemma pgw_inv_pf_added:
  assumes inv: "pgw_inv s" and b: "objs (pg_bearers s) b = Some be" and f: "f \<noteq> 0" "objs (pg_pfs s) f = None" "f_bearer pf = b" "rule_typed (f_rule pf)"
    and p: "objs p = (objs (pg_pfs s))(f \<mapsto> pf)"
    and q: "objs q = (objs (pg_bearers s))(b \<mapsto> be\<lparr>pb_pf_identifier := i, pb_pf_list := pb_pf_list be @ [f]\<rparr>)"
  shows "pgw_inv (s\<lparr>pg_pfs := p, pg_bearers := q\<rparr>)"
proof -
  have "owns pb_pf_list f_bearer ((objs (pg_bearers s))(b \<mapsto> be\<lparr>pb_pf_list := pb_pf_list be @ [f]\<rparr>)) (objs p)"
    unfolding p using pg_bearer_pf.owns_add_child [OF pgw_invD(3) [OF inv] b f(2,3)] by simp
  from pg_bearer_pf.owns_set_parent [OF this, of b "be\<lparr>pb_pf_list := pb_pf_list be @ [f]\<rparr>"
      "be\<lparr>pb_pf_identifier := i, pb_pf_list := pb_pf_list be @ [f]\<rparr>"]
  have "owns pb_pf_list f_bearer (objs q) (objs p)" by (simp add: q)
  moreover have "owns ps_bearer_list pb_sess (objs (pg_sesss s)) (objs q)"
    unfolding q using pg_sess_bearer.owns_set_child [OF pgw_invD(2) [OF inv] b] by simp
  moreover have "pg_sesss_ok (s\<lparr>pg_pfs := p, pg_bearers := q\<rparr>)"
    using pgw_invD(4) [OF inv] b by (fastforce simp: pg_sesss_ok_def q)
  moreover have "pg_bearers_ok (s\<lparr>pg_pfs := p, pg_bearers := q\<rparr>)" "pg_pfs_ok (s\<lparr>pg_pfs := p, pg_bearers := q\<rparr>)"
    using pgw_invD(5,6) [OF inv] b f by (auto simp: pg_bearers_ok_def pg_pfs_ok_def p q)
  ultimately show ?thesis
    using inv by (simp add: pgw_inv_def pgw_ctx_ok_def)
qed

text \<open>What a list of flows adds: a filter for each, at the end of the bearer's list.\<close>

definition filter_of :: "pgw_env \<Rightarrow> index \<Rightarrow> ogs_flow \<Rightarrow> pgw_pf \<Rightarrow> bool" where
  "filter_of E b fl pf \<longleftrightarrow> f_bearer pf = b \<and> f_direction pf = take_bit 2 (fl_direction fl)
     \<and> pgw_compile_packet_filter E (fl_description fl) = Inr (Some (f_rule pf))"

definition flows_added :: "pgw_env \<Rightarrow> index \<Rightarrow> pgw_bearer \<Rightarrow> ogs_flow list \<Rightarrow> pgw_state \<Rightarrow> pgw_state \<Rightarrow> bool" where
  "flows_added E b be fls s s' \<longleftrightarrow> (\<exists>fs p q i. s' = s\<lparr>pg_pfs := p, pg_bearers := q\<rparr>
     \<and> objs q = (objs (pg_bearers s))(b \<mapsto> be\<lparr>pb_pf_identifier := i, pb_pf_list := pb_pf_list be @ fs\<rparr>)
     \<and> (\<forall>f \<in> set fs. objs (pg_pfs s) f = None) \<and> (\<forall>f. f \<notin> set fs \<longrightarrow> objs p f = objs (pg_pfs s) f)
     \<and> list_all2 (\<lambda>f fl. \<exists>pf. objs p f = Some pf \<and> filter_of E b fl pf) fs fls)"

lemma flows_added_Cons:
  assumes f: "objs (pg_pfs s) f = None" "filter_of E b fl pf"
    and p: "objs p = (objs (pg_pfs s))(f \<mapsto> pf)"
    and q: "objs q = (objs (pg_bearers s))(b \<mapsto> be1)" "be1 = be\<lparr>pb_pf_identifier := i, pb_pf_list := pb_pf_list be @ [f]\<rparr>"
    and rest: "flows_added E b be1 fls (s\<lparr>pg_pfs := p, pg_bearers := q\<rparr>) s'"
  shows "flows_added E b be (fl # fls) s s'"
proof -
  obtain fs p' q' i' where s': "s' = s\<lparr>pg_pfs := p', pg_bearers := q'\<rparr>"
    and q': "objs q' = (objs q)(b \<mapsto> be1\<lparr>pb_pf_identifier := i', pb_pf_list := pb_pf_list be1 @ fs\<rparr>)"
    and new: "\<forall>g \<in> set fs. objs p g = None" and old: "\<forall>g. g \<notin> set fs \<longrightarrow> objs p' g = objs p g"
    and all: "list_all2 (\<lambda>f fl. \<exists>pf. objs p' f = Some pf \<and> filter_of E b fl pf) fs fls"
    using rest by (auto simp: flows_added_def)
  have "f \<notin> set fs" using new p by auto
  then have "objs p' f = Some pf" using old p by simp
  moreover have "\<forall>g \<in> set (f # fs). objs (pg_pfs s) g = None" using new p f by (auto split: if_splits)
  moreover have "\<forall>g. g \<notin> set (f # fs) \<longrightarrow> objs p' g = objs (pg_pfs s) g" using old p by simp
  moreover have "objs q' = (objs (pg_bearers s))(b \<mapsto> be\<lparr>pb_pf_identifier := i', pb_pf_list := pb_pf_list be @ (f # fs)\<rparr>)"
    using q' by (simp add: q)
  ultimately show ?thesis
    unfolding flows_added_def using s' all f(2) by (intro exI [of _ "f # fs"]) (auto intro!: exI)
qed

lemma flows_add_spec:
  assumes E: "pgw_env_ok E" "compile_ok E"
  shows "pgw_inv s \<Longrightarrow> objs (pg_bearers s) b = Some be \<Longrightarrow> list_all flow_ok fls \<Longrightarrow>
     safe (flows_add E b precedence fls s) (\<lambda>s'. pgw_inv s' \<and> flows_added E b be fls s s')"
proof (induction fls arbitrary: s be)
  case Nil
  have "objs (pg_bearers s) = (objs (pg_bearers s))(b \<mapsto> be\<lparr>pb_pf_identifier := pb_pf_identifier be, pb_pf_list := pb_pf_list be @ []\<rparr>)"
    using Nil(2) by auto
  then show ?case
    using Nil by (auto simp: flows_added_def intro!: exI [of _ "[]"] exI [of _ "pg_pfs s"] exI [of _ "pg_bearers s"]
        exI [of _ "pb_pf_identifier be"])
next
  case (Cons fl fls)
  have b0: "b \<noteq> 0" using pgw_inv_bearer [OF Cons.prems(1,2)] by blast
  have comp: "safe (pgw_compile_packet_filter E (fl_description fl)) (\<lambda>r. \<forall>ru. r = Some ru \<longrightarrow> rule_typed ru)"
    using safe_compile [OF E(2), of "fl_description fl"] Cons.prems(3) by (auto simp: flow_ok_def)
  have step: "safe (flows_add E b precedence fls (pg_set_pf f (pf\<lparr>f_rule := ru, f_direction := take_bit 2 (fl_direction fl)\<rparr>) s1))
      (\<lambda>s'. pgw_inv s' \<and> flows_added E b be (fl # fls) s s')"
    if f: "f \<noteq> 0" "objs (pg_pfs s) f = None" and s1: "s1 = s\<lparr>pg_pfs := p, pg_bearers := q\<rparr>" "f_bearer pf = b"
      and p: "objs p = (objs (pg_pfs s))(f \<mapsto> pf)"
      and q: "objs q = (objs (pg_bearers s))(b \<mapsto> be\<lparr>pb_pf_identifier := i, pb_pf_list := pb_pf_list be @ [f]\<rparr>)"
      and ru: "pgw_compile_packet_filter E (fl_description fl) = Inr (Some ru)" for f s1 p q i pf ru
  proof -
    define pf' where "pf' = pf\<lparr>f_rule := ru, f_direction := take_bit 2 (fl_direction fl)\<rparr>"
    have p': "objs (pool_set f pf' p) = (objs (pg_pfs s))(f \<mapsto> pf')" using p by simp
    have s2: "pg_set_pf f pf' s1 = s\<lparr>pg_pfs := pool_set f pf' p, pg_bearers := q\<rparr>" by (simp add: s1 pg_set_pf_def)
    have fo: "filter_of E b fl pf'" using ru s1(2) by (simp add: filter_of_def pf'_def)
    have "pgw_inv (pg_set_pf f pf' s1)"
      unfolding s2 by (rule pgw_inv_pf_added [OF Cons.prems(1,2) f _ _ p' q]) (use comp ru in \<open>simp_all add: pf'_def s1\<close>)
    moreover have "objs (pg_bearers (pg_set_pf f pf' s1)) b = Some (be\<lparr>pb_pf_identifier := i, pb_pf_list := pb_pf_list be @ [f]\<rparr>)"
      by (simp add: s1 q)
    ultimately have "safe (flows_add E b precedence fls (pg_set_pf f pf' s1)) (\<lambda>s'. pgw_inv s'
        \<and> flows_added E b (be\<lparr>pb_pf_identifier := i, pb_pf_list := pb_pf_list be @ [f]\<rparr>) fls (pg_set_pf f pf' s1) s')"
      using Cons.IH Cons.prems(3) by simp
    then show ?thesis
      unfolding pf'_def [symmetric]
      by (rule safe_mono) (use flows_added_Cons [OF f(2) fo p' q refl] in \<open>auto simp: s2\<close>)
  qed
  have "safe (pgw_pf_add E b precedence s) (\<lambda>(f, s1). \<exists>pf. objs (pg_pfs s1) f = Some pf
      \<and> safe (flows_add E b precedence fls (pg_set_pf f (pf\<lparr>f_rule := ru, f_direction := take_bit 2 (fl_direction fl)\<rparr>) s1))
      (\<lambda>s'. pgw_inv s' \<and> flows_added E b be (fl # fls) s s'))"
    if "pgw_compile_packet_filter E (fl_description fl) = Inr (Some ru)" for ru
    by (rule safe_mono [OF pf_add_spec [OF E(1) b0 Cons.prems(2)]]) (use step that in fastforce)
  then show ?case
    using comp by (cases "pgw_compile_packet_filter E (fl_description fl)") auto
qed

subsection \<open>Bearers are added\<close>

lemma bearer_add_pg_spec:
  assumes E: "pgw_env_ok E" and x: "x \<noteq> 0" "objs (pg_sesss s) x = Some se"
  shows "safe (pgw_bearer_add E x s) (\<lambda>(b, s'). b \<noteq> 0 \<and> objs (pg_bearers s) b = None
     \<and> (\<exists>q be. s' = s\<lparr>pg_bearers := q, pg_sesss := pool_set x (se\<lparr>ps_bearer_list := ps_bearer_list se @ [b]\<rparr>) (pg_sesss s)\<rparr>
        \<and> objs q = (objs (pg_bearers s))(b \<mapsto> be)
        \<and> pb_sess be = x \<and> pb_pf_list be = [] \<and> pb_name be = None \<and> pb_gnode be = None \<and> pb_pgw_s5u_teid be = b))"
proof -
  define new where "new b = (pool_mem (pg_bearers s) b)\<lparr>pb_name := None, pb_pf_list := [], pb_pgw_s5u_teid := b, pb_sess := x,
           pb_gnode := None\<rparr>" for b
  have "\<exists>q' be. pg_set_sess x (se\<lparr>ps_bearer_list := ps_bearer_list se @ [b]\<rparr>) (pg_set_bearer b (new b) (s\<lparr>pg_bearers := q\<rparr>))
      = s\<lparr>pg_bearers := q', pg_sesss := pool_set x (se\<lparr>ps_bearer_list := ps_bearer_list se @ [b]\<rparr>) (pg_sesss s)\<rparr>
      \<and> objs q' = (objs (pg_bearers s))(b \<mapsto> be)
      \<and> pb_sess be = x \<and> pb_pf_list be = [] \<and> pb_name be = None \<and> pb_gnode be = None \<and> pb_pgw_s5u_teid be = b"
    if "objs q = (objs (pg_bearers s))(b \<mapsto> pool_mem (pg_bearers s) b)" for q b
    using that by (intro exI [of _ "pool_set b (new b) q"] exI [of _ "new b"]) (simp add: pg_set_sess_def pg_set_bearer_def new_def)
  then show ?thesis
    using x by (auto simp: pgw_bearer_add_def Let_def pgw_env_okD [OF E] new_def dest!: pool_alloc_facts)
qed

lemma pgw_inv_bearer_added:
  assumes inv: "pgw_inv s" and x: "objs (pg_sesss s) x = Some se" and b: "b \<noteq> 0" "objs (pg_bearers s) b = None"
    and be: "pb_sess be = x" "pb_pf_list be = []" "pb_name be \<noteq> None" "pb_gnode be = None" "pb_pgw_s5u_teid be = b"
    and q: "objs q = (objs (pg_bearers s))(b \<mapsto> be)"
    and k: "objs k = (objs (pg_sesss s))(x \<mapsto> se\<lparr>ps_bearer_list := ps_bearer_list se @ [b]\<rparr>)"
  shows "pgw_inv (s\<lparr>pg_bearers := q, pg_sesss := k\<rparr>)"
proof -
  let ?t = "s\<lparr>pg_bearers := q, pg_sesss := k\<rparr>"
  have "pg_bearers_owned ?t" "pg_pfs_owned ?t"
    using pg_sess_bearer.owns_add_child [OF pgw_invD(2) [OF inv] x b(2) be(1)]
      pg_bearer_pf.owns_new_parent [OF pgw_invD(3) [OF inv] b(2) be(2)] by (simp_all add: k q)
  moreover have "pg_sesss_ok ?t"
  proof -
    have "c \<in> set (tl (ps_bearer_list se @ [b])) \<Longrightarrow> c = b \<or> c \<in> set (tl (ps_bearer_list se))" for c
      by (cases "ps_bearer_list se") auto
    moreover have "c \<noteq> b" if "objs (pg_sesss s) y = Some te" "c \<in> set (tl (ps_bearer_list te))" for y te c
      using pgw_inv_sess [OF inv that(1)] that(2) b(2) by (cases "ps_bearer_list te") auto
    ultimately show ?thesis
      using pgw_invD(4) [OF inv] x be by (fastforce simp: pg_sesss_ok_def k q)
  qed
  moreover have "pg_bearers_ok ?t" "pg_list_ok ?t" "addrs_unique ps_ipv4 ?t" "addrs_unique ps_ipv6 ?t"
    using pgw_invD(5,8,9,10) [OF inv] x b be by (auto simp: pg_bearers_ok_def pg_list_ok_def addrs_unique_def k q split: if_splits)
  ultimately show ?thesis
    using inv by (simp add: pgw_inv_def pgw_ctx_ok_def)
qed

subsection \<open>Addresses\<close>

text \<open>Only entries that were not in use are taken from the pools.\<close>

definition subnets_grow :: "(index \<rightharpoonup> pgw_subnet) \<Rightarrow> (index \<rightharpoonup> pgw_subnet) \<Rightarrow> bool" where
  "subnets_grow m m' \<longleftrightarrow> dom m' = dom m \<and> (\<forall>i sn. m i = Some sn \<longrightarrow>
     (\<exists>L. m' i = Some (sn\<lparr>sub_live := L\<rparr>) \<and> sub_live sn \<subseteq> L \<and> (sub_live sn \<subseteq> {..<sub_size sn} \<longrightarrow> L \<subseteq> {..<sub_size sn})))"

definition new_addr :: "(index \<rightharpoonup> pgw_subnet) \<Rightarrow> (index \<rightharpoonup> pgw_subnet) \<Rightarrow> family \<Rightarrow> ue_ip_ptr \<Rightarrow> bool" where
  "new_addr m m' fam p \<longleftrightarrow> addr_ok m' fam (Some p) \<and> \<not> addr_ok m fam (Some p)"

lemma subnets_grow_refl: "subnets_grow m m"
proof -
  have "m i = Some (sn\<lparr>sub_live := sub_live sn\<rparr>)" if "m i = Some sn" for i sn using that by simp
  then show ?thesis unfolding subnets_grow_def by blast
qed

lemma subnets_grow_trans:
  assumes "subnets_grow m m'" and "subnets_grow m' m''"
  shows "subnets_grow m m''"
  unfolding subnets_grow_def
proof (intro conjI allI impI)
  fix i sn assume "m i = Some sn"
  then obtain L where L: "m' i = Some (sn\<lparr>sub_live := L\<rparr>)" "sub_live sn \<subseteq> L" "sub_live sn \<subseteq> {..<sub_size sn} \<longrightarrow> L \<subseteq> {..<sub_size sn}"
    using assms(1) unfolding subnets_grow_def by blast
  obtain K where K: "m'' i = Some (sn\<lparr>sub_live := L, sub_live := K\<rparr>)" "L \<subseteq> K" "L \<subseteq> {..<sub_size sn} \<longrightarrow> K \<subseteq> {..<sub_size sn}"
    using assms(2) L(1) unfolding subnets_grow_def by fastforce
  then show "\<exists>L. m'' i = Some (sn\<lparr>sub_live := L\<rparr>) \<and> sub_live sn \<subseteq> L \<and> (sub_live sn \<subseteq> {..<sub_size sn} \<longrightarrow> L \<subseteq> {..<sub_size sn})"
    using L by (intro exI [of _ K] conjI) (use K in \<open>simp, blast, blast\<close>)
qed (use assms in \<open>simp add: subnets_grow_def\<close>)

lemma addr_ok_grow: "subnets_grow m m' \<Longrightarrow> addr_ok m fam p \<Longrightarrow> addr_ok m' fam p"
  by (fastforce simp: subnets_grow_def addr_ok_def)

lemma subnets_ok_grow:
  assumes ok: "subnets_ok s" and grow: "subnets_grow (pg_subnets s) m"
  shows "subnets_ok (s\<lparr>pg_subnets := m\<rparr>)"
proof -
  have "sub_size sn \<le> length (sub_array sn) \<and> sub_live sn \<subseteq> {..<sub_size sn} \<and> pg_devs s (sub_dev sn) \<noteq> None
        \<and> (\<forall>k < sub_size sn. uip_subnet (sub_array sn ! k) = Some i)" if "m i = Some sn" for i sn
  proof -
    have "i \<in> dom (pg_subnets s)" using that grow by (auto simp: subnets_grow_def)
    then obtain tn where tn: "pg_subnets s i = Some tn" by auto
    then obtain L where "m i = Some (tn\<lparr>sub_live := L\<rparr>)" "sub_live tn \<subseteq> {..<sub_size tn} \<longrightarrow> L \<subseteq> {..<sub_size tn}"
      using grow unfolding subnets_grow_def by blast
    moreover have "sub_size tn \<le> length (sub_array tn) \<and> sub_live tn \<subseteq> {..<sub_size tn} \<and> pg_devs s (sub_dev tn) \<noteq> None
        \<and> (\<forall>k < sub_size tn. uip_subnet (sub_array tn ! k) = Some i)" using ok tn unfolding subnets_ok_def by blast
    ultimately show ?thesis using that by simp
  qed
  then show ?thesis using ok grow by (simp add: subnets_ok_def subnets_grow_def)
qed

lemma ue_ip_alloc_spec:
  assumes E: "pgw_env_ok E" and ok: "subnets_ok s"
  shows "safe (ue_ip_alloc E fam a s) (\<lambda>(p, s'). \<exists>m. s' = s\<lparr>pg_subnets := m\<rparr> \<and> subnets_grow (pg_subnets s) m
     \<and> new_addr (pg_subnets s) m fam p)"
proof -
  have live: "\<forall>k \<in> set (pg_subnet_list s). pg_subnets s k \<noteq> None" using ok by (auto simp: subnets_ok_def)
  have find: "safe (find_subnet fam a (pg_subnet_list s) (pg_subnets s))
      (\<lambda>r. \<forall>i. r = Some i \<longrightarrow> (\<exists>sn. pg_subnets s i = Some sn \<and> sub_family sn = fam))"
    unfolding find_subnet_def by (auto intro!: safe_list_find [OF live] split: option.split)
  have "subnets_grow (pg_subnets s) ((pg_subnets s)(i \<mapsto> sn\<lparr>sub_live := insert k (sub_live sn)\<rparr>))
      \<and> new_addr (pg_subnets s) ((pg_subnets s)(i \<mapsto> sn\<lparr>sub_live := insert k (sub_live sn)\<rparr>)) fam (i, k)"
    if sn: "pg_subnets s i = Some sn" "sub_family sn = fam" and k: "pe_ue_ip_pick E (sub_size sn) (sub_live sn) = Some k" for i sn k
  proof -
    have k': "k < sub_size sn" "k \<notin> sub_live sn" using pgw_env_okD(5) [OF E] k by (auto simp: ue_ip_pick_ok_def)
    have "\<exists>L. ((pg_subnets s)(i \<mapsto> sn\<lparr>sub_live := insert k (sub_live sn)\<rparr>)) j = Some (tn\<lparr>sub_live := L\<rparr>) \<and> sub_live tn \<subseteq> L
        \<and> (sub_live tn \<subseteq> {..<sub_size tn} \<longrightarrow> L \<subseteq> {..<sub_size tn})" if "pg_subnets s j = Some tn" for j tn
      using that sn k' by (cases "j = i") (auto intro: exI [of _ "sub_live tn"])
    then show ?thesis using sn k' by (auto simp: subnets_grow_def new_addr_def addr_ok_def)
  qed
  note alloc = this
  show ?thesis
    unfolding ue_ip_alloc_def pgw_ue_ip_alloc_def safe_ebind
  proof (rule safe_mono [OF find])
    fix r assume "\<forall>i. r = Some i \<longrightarrow> (\<exists>sn. pg_subnets s i = Some sn \<and> sub_family sn = fam)"
    then show "safe (non_null r) (\<lambda>i. safe (deref (pg_subnets s) i) (\<lambda>sn. safe (non_null (pe_ue_ip_pick E (sub_size sn) (sub_live sn)))
        (\<lambda>k. safe (Inr ((i, k), (pg_subnets s)(i \<mapsto> sn\<lparr>sub_live := insert k (sub_live sn)\<rparr>))) (\<lambda>a. safe (case a of (p, m) \<Rightarrow> Inr (p, s\<lparr>pg_subnets := m\<rparr>))
        (\<lambda>(p, s'). \<exists>m. s' = s\<lparr>pg_subnets := m\<rparr> \<and> subnets_grow (pg_subnets s) m \<and> new_addr (pg_subnets s) m fam p)))))"
      using alloc by fastforce
  qed
qed

definition needs_ipv4 :: "u8 \<Rightarrow> bool" where
  "needs_ipv4 t \<longleftrightarrow> t = OGS_GTP_PDN_TYPE_IPV4 \<or> t = OGS_GTP_PDN_TYPE_IPV4V6"

definition needs_ipv6 :: "u8 \<Rightarrow> bool" where
  "needs_ipv6 t \<longleftrightarrow> t = OGS_GTP_PDN_TYPE_IPV6 \<or> t = OGS_GTP_PDN_TYPE_IPV4V6"

text \<open>The pointer of a family the PDN type names is new; the other one is what the slot held.\<close>

definition fresh_or_kept ::
  "bool \<Rightarrow> (index \<rightharpoonup> pgw_subnet) \<Rightarrow> (index \<rightharpoonup> pgw_subnet) \<Rightarrow> family \<Rightarrow> ue_ip_ptr option \<Rightarrow> ue_ip_ptr option \<Rightarrow> bool" where
  "fresh_or_kept needed m m' fam old new \<longleftrightarrow>
     (if needed then \<exists>p. new = Some p \<and> new_addr m m' fam p else new = old)"

lemma read_new_addr:
  assumes "subnets_ok s" and "subnets_grow (pg_subnets s) m" and "addr_ok m fam (Some p)"
  shows "\<exists>ip. get_ue_ip m p = Inr ip \<and> uip_subnet ip = Some (fst p) \<and> (\<exists>sn. m (fst p) = Some sn)"
  using addr_ok_read [of "s\<lparr>pg_subnets := m\<rparr>" fam p] subnets_ok_grow [OF assms(1,2)] assms(3) by fastforce

lemma new_addr_grow: "new_addr m m' fam p \<Longrightarrow> subnets_grow m' m'' \<Longrightarrow> new_addr m m'' fam p"
  by (auto simp: new_addr_def intro: addr_ok_grow)

lemma new_addr_before: "new_addr m' m'' fam p \<Longrightarrow> subnets_grow m m' \<Longrightarrow> new_addr m m'' fam p"
  by (auto simp: new_addr_def intro: addr_ok_grow)

text \<open>Of the session only its addresses change.\<close>

definition addressed :: "u8 \<Rightarrow> index \<Rightarrow> pgw_sess \<Rightarrow> pgw_state \<Rightarrow> pgw_state \<Rightarrow> bool" where
  "addressed t x se s s' \<longleftrightarrow> (\<exists>m p4 p6 pdn. let se' = se\<lparr>ps_ipv4 := p4, ps_ipv6 := p6, ps_pdn := pdn\<rparr> in
     s' = s\<lparr>pg_subnets := m, pg_sesss := pool_set x se' (pg_sesss s)\<rparr>
     \<and> subnets_grow (pg_subnets s) m \<and> pdn_apn pdn = pdn_apn (ps_pdn se) \<and> (needs_ipv4 t \<or> needs_ipv6 t)
     \<and> fresh_or_kept (needs_ipv4 t) (pg_subnets s) m AF_INET (ps_ipv4 se) p4
     \<and> fresh_or_kept (needs_ipv6 t) (pg_subnets s) m AF_INET6 (ps_ipv6 se) p6)"

lemma addressedI:
  assumes "s' = pg_set_sess x (se\<lparr>ps_ipv4 := pv, ps_ipv6 := pw, ps_pdn := pdn\<rparr>) (s\<lparr>pg_subnets := m\<rparr>)"
    and "subnets_grow (pg_subnets s) m" "pdn_apn pdn = pdn_apn (ps_pdn se)" "needs_ipv4 t \<or> needs_ipv6 t"
    and "fresh_or_kept (needs_ipv4 t) (pg_subnets s) m AF_INET (ps_ipv4 se) pv"
    and "fresh_or_kept (needs_ipv6 t) (pg_subnets s) m AF_INET6 (ps_ipv6 se) pw"
  shows "addressed t x se s s'"
  unfolding addressed_def Let_def
  by (rule exI [of _ m], rule exI [of _ pv], rule exI [of _ pw], rule exI [of _ pdn]) (use assms in \<open>simp add: pg_set_sess_def\<close>)

lemma sess_addresses_spec:
  assumes E: "pgw_env_ok E" and ok: "subnets_ok s" and x: "objs (pg_sesss s) x = Some se"
  shows "safe (sess_addresses E x a t s) (addressed t x se s)"
proof -
  consider "t = OGS_GTP_PDN_TYPE_IPV4" | "t = OGS_GTP_PDN_TYPE_IPV6" | "t = OGS_GTP_PDN_TYPE_IPV4V6"
    | "t \<notin> {OGS_GTP_PDN_TYPE_IPV4, OGS_GTP_PDN_TYPE_IPV6, OGS_GTP_PDN_TYPE_IPV4V6}" by auto
  then show ?thesis
  proof cases
    case 1
    have "safe (ue_ip_alloc E AF_INET a s) (\<lambda>(p4, s1). \<exists>ip4. get_ue_ip (pg_subnets s1) p4 = Inr ip4 \<and> (\<forall>pdn. pdn_apn pdn = pdn_apn (ps_pdn se)
        \<longrightarrow> objs (pg_sesss s1) x = Some se \<and> addressed t x se s (pg_set_sess x (se\<lparr>ps_ipv4 := Some p4, ps_pdn := pdn\<rparr>) s1)))"
    proof (rule safe_mono [OF ue_ip_alloc_spec [OF E ok]], clarify)
      fix i k m assume m: "subnets_grow (pg_subnets s) m" "new_addr (pg_subnets s) m AF_INET (i, k)"
      have "addressed t x se s (pg_set_sess x (se\<lparr>ps_ipv4 := Some (i, k), ps_pdn := pdn\<rparr>) (s\<lparr>pg_subnets := m\<rparr>))"
        if "pdn_apn pdn = pdn_apn (ps_pdn se)" for pdn
        by (rule addressedI [where pv = "Some (i, k)" and pw = "ps_ipv6 se" and pdn = pdn and m = m])
          (use m that 1 in \<open>simp_all add: fresh_or_kept_def needs_ipv4_def needs_ipv6_def\<close>)
      moreover obtain ip where "get_ue_ip m (i, k) = Inr ip" using read_new_addr [OF ok m(1), of AF_INET] m(2) by (fastforce simp: new_addr_def)
      ultimately show "\<exists>ip4. get_ue_ip (pg_subnets (s\<lparr>pg_subnets := m\<rparr>)) (i, k) = Inr ip4 \<and> (\<forall>pdn. pdn_apn pdn = pdn_apn (ps_pdn se)
        \<longrightarrow> objs (pg_sesss (s\<lparr>pg_subnets := m\<rparr>)) x = Some se
          \<and> addressed t x se s (pg_set_sess x (se\<lparr>ps_ipv4 := Some (i, k), ps_pdn := pdn\<rparr>) (s\<lparr>pg_subnets := m\<rparr>)))"
        using x by simp
    qed
    then show ?thesis using 1 by (auto simp: sess_addresses_def elim!: safe_mono)
  next
    case 2
    have "safe (ue_ip_alloc E AF_INET6 a s) (\<lambda>(p6, s1). \<exists>ip6 i sn. get_ue_ip (pg_subnets s1) p6 = Inr ip6 \<and> uip_subnet ip6 = Some i
        \<and> pg_subnets s1 i = Some sn \<and> (\<forall>pdn. pdn_apn pdn = pdn_apn (ps_pdn se)
        \<longrightarrow> objs (pg_sesss s1) x = Some se \<and> addressed t x se s (pg_set_sess x (se\<lparr>ps_ipv6 := Some p6, ps_pdn := pdn\<rparr>) s1)))"
    proof (rule safe_mono [OF ue_ip_alloc_spec [OF E ok]], clarify)
      fix i k m assume m: "subnets_grow (pg_subnets s) m" "new_addr (pg_subnets s) m AF_INET6 (i, k)"
      have "addressed t x se s (pg_set_sess x (se\<lparr>ps_ipv6 := Some (i, k), ps_pdn := pdn\<rparr>) (s\<lparr>pg_subnets := m\<rparr>))"
        if "pdn_apn pdn = pdn_apn (ps_pdn se)" for pdn
        by (rule addressedI [where pw = "Some (i, k)" and pv = "ps_ipv4 se" and pdn = pdn and m = m])
          (use m that 2 in \<open>simp_all add: fresh_or_kept_def needs_ipv4_def needs_ipv6_def\<close>)
      moreover obtain ip sn where "get_ue_ip m (i, k) = Inr ip" "uip_subnet ip = Some i" "m i = Some sn"
        using read_new_addr [OF ok m(1), of AF_INET6] m(2) by (fastforce simp: new_addr_def)
      ultimately show "\<exists>ip6 i' sn. get_ue_ip (pg_subnets (s\<lparr>pg_subnets := m\<rparr>)) (i, k) = Inr ip6 \<and> uip_subnet ip6 = Some i'
        \<and> pg_subnets (s\<lparr>pg_subnets := m\<rparr>) i' = Some sn \<and> (\<forall>pdn. pdn_apn pdn = pdn_apn (ps_pdn se)
        \<longrightarrow> objs (pg_sesss (s\<lparr>pg_subnets := m\<rparr>)) x = Some se
          \<and> addressed t x se s (pg_set_sess x (se\<lparr>ps_ipv6 := Some (i, k), ps_pdn := pdn\<rparr>) (s\<lparr>pg_subnets := m\<rparr>)))"
        using x by simp
    qed
    then show ?thesis using 2 by (auto simp: sess_addresses_def elim!: safe_mono)
  next
    case 3
    have both: "safe (ue_ip_alloc E AF_INET6 a s1) (\<lambda>(p6, s2). \<exists>ip6 i sn ip4. get_ue_ip (pg_subnets s2) p6 = Inr ip6 \<and> uip_subnet ip6 = Some i
        \<and> pg_subnets s2 i = Some sn \<and> get_ue_ip (pg_subnets s2) p4 = Inr ip4 \<and> (\<forall>pdn. pdn_apn pdn = pdn_apn (ps_pdn se)
        \<longrightarrow> objs (pg_sesss s2) x = Some se \<and> addressed t x se s (pg_set_sess x (se\<lparr>ps_ipv4 := Some p4, ps_ipv6 := Some p6, ps_pdn := pdn\<rparr>) s2)))"
      if m: "subnets_grow (pg_subnets s) m" "new_addr (pg_subnets s) m AF_INET p4" "s1 = s\<lparr>pg_subnets := m\<rparr>" for m p4 s1
    proof (rule safe_mono [OF ue_ip_alloc_spec [OF E]], use subnets_ok_grow [OF ok m(1)] m(3) in simp, clarify)
      fix i k m' assume m': "subnets_grow (pg_subnets s1) m'" "new_addr (pg_subnets s1) m' AF_INET6 (i, k)"
      have g: "subnets_grow (pg_subnets s) m'" using subnets_grow_trans [OF m(1)] m' m(3) by simp
      have a: "new_addr (pg_subnets s) m' AF_INET p4" "new_addr (pg_subnets s) m' AF_INET6 (i, k)"
        using new_addr_grow [OF m(2)] new_addr_before [OF _ m(1)] m' m(3) by auto
      have "addressed t x se s (pg_set_sess x (se\<lparr>ps_ipv4 := Some p4, ps_ipv6 := Some (i, k), ps_pdn := pdn\<rparr>) (s1\<lparr>pg_subnets := m'\<rparr>))"
        if "pdn_apn pdn = pdn_apn (ps_pdn se)" for pdn
        by (rule addressedI [where pw = "Some (i, k)" and pv = "Some p4" and pdn = pdn and m = m'])
          (use g a that 3 m(3) in \<open>simp_all add: fresh_or_kept_def needs_ipv4_def needs_ipv6_def\<close>)
      moreover obtain ip sn where "get_ue_ip m' (i, k) = Inr ip" "uip_subnet ip = Some i" "m' i = Some sn"
        using read_new_addr [OF ok g, of AF_INET6] a(2) by (fastforce simp: new_addr_def)
      moreover obtain ip4 where "get_ue_ip m' p4 = Inr ip4"
        using read_new_addr [OF ok g, of AF_INET] a(1) by (fastforce simp: new_addr_def)
      ultimately show "\<exists>ip6 i' sn ip4. get_ue_ip (pg_subnets (s1\<lparr>pg_subnets := m'\<rparr>)) (i, k) = Inr ip6 \<and> uip_subnet ip6 = Some i'
        \<and> pg_subnets (s1\<lparr>pg_subnets := m'\<rparr>) i' = Some sn \<and> get_ue_ip (pg_subnets (s1\<lparr>pg_subnets := m'\<rparr>)) p4 = Inr ip4
        \<and> (\<forall>pdn. pdn_apn pdn = pdn_apn (ps_pdn se) \<longrightarrow> objs (pg_sesss (s1\<lparr>pg_subnets := m'\<rparr>)) x = Some se
          \<and> addressed t x se s (pg_set_sess x (se\<lparr>ps_ipv4 := Some p4, ps_ipv6 := Some (i, k), ps_pdn := pdn\<rparr>) (s1\<lparr>pg_subnets := m'\<rparr>)))"
        using x m(3) by simp
    qed
    have "safe (ue_ip_alloc E AF_INET a s) (\<lambda>(p4, s1). safe (ue_ip_alloc E AF_INET6 a s1) (\<lambda>(p6, s2). \<exists>ip6 i sn ip4.
        get_ue_ip (pg_subnets s2) p6 = Inr ip6 \<and> uip_subnet ip6 = Some i
        \<and> pg_subnets s2 i = Some sn \<and> get_ue_ip (pg_subnets s2) p4 = Inr ip4 \<and> (\<forall>pdn. pdn_apn pdn = pdn_apn (ps_pdn se)
        \<longrightarrow> objs (pg_sesss s2) x = Some se \<and> addressed t x se s (pg_set_sess x (se\<lparr>ps_ipv4 := Some p4, ps_ipv6 := Some p6, ps_pdn := pdn\<rparr>) s2))))"
      by (rule safe_mono [OF ue_ip_alloc_spec [OF E ok]]) (use both in auto)
    then show ?thesis using 3 by (auto simp: sess_addresses_def elim!: safe_mono)
  next
    case 4
    then show ?thesis by (simp add: sess_addresses_def)
  qed
qed

subsection \<open>Sessions are added\<close>

text \<open>
  A session is added with its default bearer and its addresses. The slot it takes is not cleared: the
  address pointer its PDN type does not name and the pointer to its Gx session are left over.
\<close>

definition pg_sess_added :: "u8 \<Rightarrow> u8 \<Rightarrow> index \<Rightarrow> pgw_state \<Rightarrow> pgw_state \<Rightarrow> bool" where
  "pg_sess_added t e x s s' \<longleftrightarrow> x \<noteq> 0 \<and> objs (pg_sesss s) x = None
     \<and> (\<exists>b k q m se be. s' = s\<lparr>pg_sesss := k, pg_bearers := q, pg_subnets := m, pg_sess_list := pg_sess_list s @ [x]\<rparr>
        \<and> b \<noteq> 0 \<and> objs (pg_bearers s) b = None
        \<and> objs k = (objs (pg_sesss s))(x \<mapsto> se) \<and> objs q = (objs (pg_bearers s))(b \<mapsto> be) \<and> subnets_grow (pg_subnets s) m
        \<and> ps_bearer_list se = [b] \<and> ps_gnode se = None \<and> ps_pgw_s5c_teid se = x \<and> ps_gx_sid se = ps_gx_sid (pool_mem (pg_sesss s) x)
        \<and> (needs_ipv4 t \<or> needs_ipv6 t)
        \<and> fresh_or_kept (needs_ipv4 t) (pg_subnets s) m AF_INET (ps_ipv4 (pool_mem (pg_sesss s) x)) (ps_ipv4 se)
        \<and> fresh_or_kept (needs_ipv6 t) (pg_subnets s) m AF_INET6 (ps_ipv6 (pool_mem (pg_sesss s) x)) (ps_ipv6 se)
        \<and> pb_sess be = x \<and> pb_pf_list be = [] \<and> pb_name be = None \<and> pb_gnode be = None \<and> pb_pgw_s5u_teid be = b \<and> pb_ebi be = e)"

definition clean_sess :: "u8 \<Rightarrow> pgw_state \<Rightarrow> bool" where
  "clean_sess t s \<longleftrightarrow> (\<forall>x. objs (pg_sesss s) x = None \<longrightarrow> ps_gx_sid (pool_mem (pg_sesss s) x) = None
     \<and> (needs_ipv4 t \<or> ps_ipv4 (pool_mem (pg_sesss s) x) = None) \<and> (needs_ipv6 t \<or> ps_ipv6 (pool_mem (pg_sesss s) x) = None))"

lemma pgw_inv_sess_added:
  assumes inv: "pgw_inv s" and clean: "clean_sess t s" and added: "pg_sess_added t e x s s'"
  shows "pgw_inv s'"
proof -
  obtain b k q m se be where s': "s' = s\<lparr>pg_sesss := k, pg_bearers := q, pg_subnets := m, pg_sess_list := pg_sess_list s @ [x]\<rparr>"
    and new: "x \<noteq> 0" "objs (pg_sesss s) x = None" "b \<noteq> 0" "objs (pg_bearers s) b = None"
    and k: "objs k = (objs (pg_sesss s))(x \<mapsto> se)" and q: "objs q = (objs (pg_bearers s))(b \<mapsto> be)"
    and m: "subnets_grow (pg_subnets s) m"
    and se: "ps_bearer_list se = [b]" "ps_gnode se = None" "ps_pgw_s5c_teid se = x"
    and addr: "fresh_or_kept (needs_ipv4 t) (pg_subnets s) m AF_INET (ps_ipv4 (pool_mem (pg_sesss s) x)) (ps_ipv4 se)"
      "fresh_or_kept (needs_ipv6 t) (pg_subnets s) m AF_INET6 (ps_ipv6 (pool_mem (pg_sesss s) x)) (ps_ipv6 se)"
    and be: "pb_sess be = x" "pb_pf_list be = []" "pb_gnode be = None" "pb_pgw_s5u_teid be = b"
    using added unfolding pg_sess_added_def by blast
  have a4: "ps_ipv4 se = None \<or> (\<exists>p. ps_ipv4 se = Some p \<and> new_addr (pg_subnets s) m AF_INET p)"
    and a6: "ps_ipv6 se = None \<or> (\<exists>p. ps_ipv6 se = Some p \<and> new_addr (pg_subnets s) m AF_INET6 p)"
    using addr clean new(2) by (auto simp: fresh_or_kept_def clean_sess_def split: if_splits)
  have "owns ps_bearer_list pb_sess ((objs (pg_sesss s))(x \<mapsto> se\<lparr>ps_bearer_list := []\<rparr>)) (objs (pg_bearers s))"
    by (rule pg_sess_bearer.owns_new_parent [OF pgw_invD(2) [OF inv] new(2)]) simp
  from pg_sess_bearer.owns_add_child [OF this, of x "se\<lparr>ps_bearer_list := []\<rparr>" b be] new be
  have "owns ps_bearer_list pb_sess (objs k) (objs q)" using se by (cases se) (simp add: k q)
  then have "pg_bearers_owned s'" "pg_pfs_owned s'"
    using pg_bearer_pf.owns_new_parent [OF pgw_invD(3) [OF inv] new(4) be(2)] by (simp_all add: s' q)
  moreover have "pg_sesss_ok s'"
  proof -
    have old: "c \<noteq> b" if "objs (pg_sesss s) y = Some te" "c \<in> set (tl (ps_bearer_list te))" for y te c
      using pgw_inv_sess [OF inv that(1)] that(2) new(4) by (cases "ps_bearer_list te") auto
    have "addr_ok m AF_INET (ps_ipv4 se)" "addr_ok m AF_INET6 (ps_ipv6 se)"
      using a4 a6 by (auto simp: new_addr_def addr_ok_def)
    then show ?thesis
      using pgw_invD(4) [OF inv] new se old addr_ok_grow [OF m] by (auto simp: pg_sesss_ok_def s' k q)
  qed
  moreover have "addrs_unique ps_ipv4 s'" "addrs_unique ps_ipv6 s'"
  proof -
    have other: "addr_ok (pg_subnets s) AF_INET (ps_ipv4 te)" "addr_ok (pg_subnets s) AF_INET6 (ps_ipv6 te)"
      if "objs (pg_sesss s) y = Some te" for y te using pgw_inv_sess [OF inv that] by auto
    then have "ps_ipv4 te = ps_ipv4 se \<Longrightarrow> ps_ipv4 se = None" "ps_ipv6 te = ps_ipv6 se \<Longrightarrow> ps_ipv6 se = None"
      if "objs (pg_sesss s) y = Some te" for y te
      using that a4 a6 by (metis new_addr_def)+
    then show "addrs_unique ps_ipv4 s'" "addrs_unique ps_ipv6 s'"
      using pgw_invD(8,9) [OF inv] unfolding addrs_unique_def s' k by (auto simp: k)
  qed
  moreover have "subnets_ok s'" using subnets_ok_grow [OF pgw_invD(7) [OF inv] m] by (simp add: s' subnets_ok_def)
  moreover have "pg_bearers_ok s'" "pg_list_ok s'"
    using pgw_invD(5,10) [OF inv] new be by (auto simp: pg_bearers_ok_def pg_list_ok_def s' k q)
  ultimately show ?thesis
    using inv by (simp add: pgw_inv_def pgw_ctx_ok_def s')
qed

lemma sess_added_readable:
  assumes ok: "subnets_ok s" and clean: "clean_sess t s" and added: "pg_sess_added t e x s s'" and x: "objs (pg_sesss s') x = Some se"
  shows "safe (read_ue_ip (ps_ipv4 se) s') (\<lambda>_. True)" "safe (read_ue_ip (ps_ipv6 se) s') (\<lambda>_. True)"
proof -
  obtain k q m l where s': "s' = s\<lparr>pg_sesss := k, pg_bearers := q, pg_subnets := m, pg_sess_list := l\<rparr>" "subnets_grow (pg_subnets s) m"
    using added unfolding pg_sess_added_def by blast
  have grow: "subnets_ok s'"
    using subnets_ok_grow [of "s\<lparr>pg_sesss := k, pg_bearers := q\<rparr>" m] ok s' by simp
  have "addr_ok (pg_subnets s') AF_INET (ps_ipv4 se)" "addr_ok (pg_subnets s') AF_INET6 (ps_ipv6 se)"
    using added clean x by (fastforce simp: pg_sess_added_def clean_sess_def fresh_or_kept_def new_addr_def addr_ok_def split: if_splits)+
  then show "safe (read_ue_ip (ps_ipv4 se) s') (\<lambda>_. True)" "safe (read_ue_ip (ps_ipv6 se) s') (\<lambda>_. True)"
    using safe_read_ue_ip [OF grow] by blast+
qed

lemma sess_add_pg_spec:
  assumes E: "pgw_env_ok E" and ok: "subnets_ok s" and clean: "clean_sess t s" and imsi: "length imsi \<le> pe_max_imsi_len E"
  shows "safe (pgw_sess_add E imsi a t e s) (\<lambda>(x, s'). pg_sess_added t e x s s')"
proof -
  define new where "new x = pool_mem (pg_sesss s) x\<lparr>ps_gnode := None, ps_pgw_s5c_teid := x, ps_imsi_len := length imsi,
      ps_imsi := poke (ps_imsi (pool_mem (pg_sesss s) x)) 0 imsi, ps_imsi_bcd := pe_buffer_to_bcd E imsi,
      ps_pdn := (ps_pdn (pool_mem (pg_sesss s) x))\<lparr>pdn_apn := take (pe_max_apn_len E) a\<rparr>, ps_bearer_list := []\<rparr>" for x
  have last: "pg_sess_added t e x s (s3\<lparr>pg_sess_list := pg_sess_list s3 @ [x]\<rparr>)"
    if x: "x \<noteq> 0" "objs (pg_sesss s) x = None" "objs k = (objs (pg_sesss s))(x \<mapsto> new x)"
      and b: "b \<noteq> 0" "objs (pg_bearers s) b = None" "objs q = (objs (pg_bearers s))(b \<mapsto> be)"
      and be: "pb_sess be = x" "pb_pf_list be = []" "pb_name be = None" "pb_gnode be = None" "pb_pgw_s5u_teid be = b"
      and s2: "s2 = pg_set_bearer b (be\<lparr>pb_ebi := e\<rparr>) (s\<lparr>pg_bearers := q,
          pg_sesss := pool_set x ((new x)\<lparr>ps_bearer_list := ps_bearer_list (new x) @ [b]\<rparr>) k\<rparr>)"
      and s3: "addressed t x ((new x)\<lparr>ps_bearer_list := [b]\<rparr>) s2 s3" for x b k q be s2 s3
  proof -
    have nil: "ps_bearer_list (new x) = []" by (simp add: new_def)
    obtain m pv pw pdn where s3': "s3 = s2\<lparr>pg_subnets := m,
        pg_sesss := pool_set x ((new x)\<lparr>ps_bearer_list := [b], ps_ipv4 := pv, ps_ipv6 := pw, ps_pdn := pdn\<rparr>) (pg_sesss s2)\<rparr>"
      and m: "subnets_grow (pg_subnets s) m" "needs_ipv4 t \<or> needs_ipv6 t"
        "fresh_or_kept (needs_ipv4 t) (pg_subnets s) m AF_INET (ps_ipv4 (new x)) pv"
        "fresh_or_kept (needs_ipv6 t) (pg_subnets s) m AF_INET6 (ps_ipv6 (new x)) pw"
      using s3 by (auto simp: addressed_def Let_def s2)
    show ?thesis
      unfolding pg_sess_added_def
      by (intro conjI exI [of _ b] exI [of _ m] exI [of _ "be\<lparr>pb_ebi := e\<rparr>"] exI [of _ "pool_set b (be\<lparr>pb_ebi := e\<rparr>) q"]
          exI [of _ "pool_set x ((new x)\<lparr>ps_bearer_list := [b], ps_ipv4 := pv, ps_ipv6 := pw, ps_pdn := pdn\<rparr>) k"]
          exI [of _ "(new x)\<lparr>ps_bearer_list := [b], ps_ipv4 := pv, ps_ipv6 := pw, ps_pdn := pdn\<rparr>"])
        (use x b be m in \<open>simp_all add: s3' s2 pg_set_bearer_def\<close>, simp_all add: new_def)
  qed
  have step: "safe (pgw_bearer_add E x s1) (\<lambda>(b, s2). \<exists>be. objs (pg_bearers s2) b = Some be \<and>
        safe (sess_addresses E x a t (pg_set_bearer b (be\<lparr>pb_ebi := e\<rparr>) s2)) (\<lambda>s3. \<exists>se. objs (pg_sesss s3) x = Some se
          \<and> safe (read_ue_ip (ps_ipv4 se) s3) (\<lambda>_. safe (read_ue_ip (ps_ipv6 se) s3) (\<lambda>_.
          pg_sess_added t e x s (s3\<lparr>pg_sess_list := pg_sess_list s3 @ [x]\<rparr>)))))"
    if x: "x \<noteq> 0" "objs (pg_sesss s) x = None" "objs k = (objs (pg_sesss s))(x \<mapsto> new x)" and s1: "s1 = s\<lparr>pg_sesss := k\<rparr>" for x k s1
  proof (rule safe_mono2 [OF bearer_add_pg_spec [OF E x(1), of s1 "new x"]], use x s1 in simp, elim conjE exE)
    fix b t2 q be
    assume b: "b \<noteq> 0" "objs (pg_bearers s1) b = None" "objs q = (objs (pg_bearers s1))(b \<mapsto> be)"
      and be: "pb_sess be = x" "pb_pf_list be = []" "pb_name be = None" "pb_gnode be = None" "pb_pgw_s5u_teid be = b"
      and t2: "t2 = s1\<lparr>pg_bearers := q, pg_sesss := pool_set x ((new x)\<lparr>ps_bearer_list := ps_bearer_list (new x) @ [b]\<rparr>) (pg_sesss s1)\<rparr>"
    define s2 where "s2 = pg_set_bearer b (be\<lparr>pb_ebi := e\<rparr>) (s\<lparr>pg_bearers := q,
          pg_sesss := pool_set x ((new x)\<lparr>ps_bearer_list := ps_bearer_list (new x) @ [b]\<rparr>) k\<rparr>)"
    have ok2: "subnets_ok s2" "objs (pg_sesss s2) x = Some ((new x)\<lparr>ps_bearer_list := [b]\<rparr>)"
      using ok x(3) by (simp_all add: s2_def) (simp add: new_def)
    have "safe (sess_addresses E x a t s2) (\<lambda>s3. \<exists>se. objs (pg_sesss s3) x = Some se
          \<and> safe (read_ue_ip (ps_ipv4 se) s3) (\<lambda>_. safe (read_ue_ip (ps_ipv6 se) s3) (\<lambda>_.
          pg_sess_added t e x s (s3\<lparr>pg_sess_list := pg_sess_list s3 @ [x]\<rparr>))))"
    proof (rule safe_mono [OF sess_addresses_spec [OF E ok2]])
      fix s3 assume a3: "addressed t x ((new x)\<lparr>ps_bearer_list := [b]\<rparr>) s2 s3"
      have added: "pg_sess_added t e x s (s3\<lparr>pg_sess_list := pg_sess_list s3 @ [x]\<rparr>)"
        by (rule last [OF x b(1) _ _ _ be(2-4) _ s2_def a3]) (use b be s1 in auto)
      obtain se where se: "objs (pg_sesss s3) x = Some se" using a3 ok2(2) by (auto simp: addressed_def Let_def)
      have "read_ue_ip p (s3\<lparr>pg_sess_list := l\<rparr>) = read_ue_ip p s3" for p l by (simp add: read_ue_ip_def split: option.split)
      then have "safe (read_ue_ip (ps_ipv4 se) s3) (\<lambda>_. True)" "safe (read_ue_ip (ps_ipv6 se) s3) (\<lambda>_. True)"
        using sess_added_readable [OF ok clean added, of se] se by simp_all
      then show "\<exists>se. objs (pg_sesss s3) x = Some se \<and> safe (read_ue_ip (ps_ipv4 se) s3) (\<lambda>_. safe (read_ue_ip (ps_ipv6 se) s3) (\<lambda>_.
          pg_sess_added t e x s (s3\<lparr>pg_sess_list := pg_sess_list s3 @ [x]\<rparr>)))"
        using se added by (intro exI [of _ se]) (auto elim!: safe_mono)
    qed
    then show "\<exists>be. objs (pg_bearers t2) b = Some be \<and>
        safe (sess_addresses E x a t (pg_set_bearer b (be\<lparr>pb_ebi := e\<rparr>) t2)) (\<lambda>s3. \<exists>se. objs (pg_sesss s3) x = Some se
          \<and> safe (read_ue_ip (ps_ipv4 se) s3) (\<lambda>_. safe (read_ue_ip (ps_ipv6 se) s3) (\<lambda>_.
          pg_sess_added t e x s (s3\<lparr>pg_sess_list := pg_sess_list s3 @ [x]\<rparr>))))"
      using b(3) by (simp add: s2_def s1 t2)
  qed
  have "objs (pool_set x (new x) p) = (objs (pg_sesss s))(x \<mapsto> new x)" if "objs p = (objs (pg_sesss s))(x \<mapsto> pool_mem (pg_sesss s) x)" for p x
    using that by simp
  then show ?thesis
    using imsi unfolding pgw_sess_add_def imsi_copy_def
    by (auto simp: Let_def pgw_env_okD [OF E] case_prod_unfold pg_set_sess_def new_def [symmetric] dest!: pool_alloc_facts
        intro!: step [unfolded case_prod_unfold, OF _ _ _ refl])
qed

subsection \<open>Removals\<close>

text \<open>
  The sessions outside \<open>X\<close> keep their bearers and the bearers outside \<open>B\<close> their filters; nothing
  else of the live objects is left.
\<close>

abbreviation pg_kept_bearers :: "index set \<Rightarrow> pgw_state \<Rightarrow> index set" where
  "pg_kept_bearers X s \<equiv> {b. \<forall>be. objs (pg_bearers s) b = Some be \<longrightarrow> pb_sess be \<in> - X}"

abbreviation pg_kept_pfs :: "index set \<Rightarrow> pgw_state \<Rightarrow> index set" where
  "pg_kept_pfs B s \<equiv> {f. \<forall>pf. objs (pg_pfs s) f = Some pf \<longrightarrow> f_bearer pf \<in> B}"

definition pf_level :: "pgw_state \<Rightarrow> bool" where
  "pf_level s \<longleftrightarrow> pg_pfs_owned s \<and> pg_pfs_ok s \<and> (\<forall>b be. objs (pg_bearers s) b = Some be \<longrightarrow> b \<noteq> 0)"

lemma pf_level_cut:
  assumes "pf_level s" and "objs (pg_bearers t) = objs (pg_bearers s) |` B" "objs (pg_pfs t) = objs (pg_pfs s) |` pg_kept_pfs B s"
  shows "pf_level t"
  using assms pg_bearer_pf.owns_restrict [of "objs (pg_bearers s)" "objs (pg_pfs s)" B]
  by (auto simp: pf_level_def pg_pfs_ok_def restrict_map_def split: if_splits)

lemma pf_remove_each_eq:
  assumes E: "pgw_env_ok E" and "b \<noteq> 0" "objs (pg_bearers s) b = Some be" "pb_pf_list be = fs" "distinct fs"
    and "\<forall>f \<in> set fs. f \<noteq> 0 \<and> (\<exists>pf. objs (pg_pfs s) f = Some pf \<and> f_bearer pf = b)"
  shows "pf_remove_each E fs s = Inr (s\<lparr>pg_bearers := pool_set b (be\<lparr>pb_pf_list := []\<rparr>) (pg_bearers s),
     pg_pfs := (pg_pfs s)\<lparr>pool_live := pool_live (pg_pfs s) - set fs\<rparr>\<rparr>)"
  using assms(2-)
proof (induction fs arbitrary: s be)
  case Nil
  then have "be\<lparr>pb_pf_list := []\<rparr> = be" by (cases be) simp
  then show ?case using Nil by (simp add: pool_set_same)
next
  case (Cons f fs)
  obtain pf where pf: "objs (pg_pfs s) f = Some pf" "f_bearer pf = b" "f \<noteq> 0" using Cons.prems(5) by auto
  define s1 where "s1 = s\<lparr>pg_bearers := pool_set b (be\<lparr>pb_pf_list := fs\<rparr>) (pg_bearers s), pg_pfs := pool_free f (pg_pfs s)\<rparr>"
  have "pgw_pf_remove E f s = Inr s1"
    using pf Cons.prems by (simp add: pgw_pf_remove_def Let_def pgw_env_okD [OF E] pg_set_bearer_def s1_def)
  moreover have "pf_remove_each E fs s1 = Inr (s1\<lparr>pg_bearers := pool_set b (be\<lparr>pb_pf_list := fs, pb_pf_list := []\<rparr>) (pg_bearers s1),
     pg_pfs := (pg_pfs s1)\<lparr>pool_live := pool_live (pg_pfs s1) - set fs\<rparr>\<rparr>)"
    by (rule Cons.IH) (use Cons.prems in \<open>auto simp: s1_def\<close>)
  moreover have "pool_live (pg_pfs s) - {f} - set fs = pool_live (pg_pfs s) - set (f # fs)" by auto
  ultimately show ?case by (simp add: s1_def pool_free_def)
qed

lemma pf_remove_all_ok:
  assumes E: "pgw_env_ok E" and low: "pf_level s" and b: "objs (pg_bearers s) b = Some be"
  shows "\<exists>p. pgw_pf_remove_all E b s = Inr (s\<lparr>pg_bearers := pool_set b (be\<lparr>pb_pf_list := []\<rparr>) (pg_bearers s), pg_pfs := p\<rparr>)
     \<and> objs p = objs (pg_pfs s) |` pg_kept_pfs (- {b}) s"
proof -
  have own: "pg_pfs_owned s" and ok: "b \<noteq> 0" "\<And>f pf. objs (pg_pfs s) f = Some pf \<Longrightarrow> f \<noteq> 0"
    using low b by (auto simp: pf_level_def pg_pfs_ok_def)
  have kids: "{f. \<exists>pf. objs (pg_pfs s) f = Some pf \<and> f_bearer pf = b} = set (pb_pf_list be)"
    by (rule pg_bearer_pf.owns_free_child_of_none [OF own b])
  have fs: "\<forall>f \<in> set (pb_pf_list be). f \<noteq> 0 \<and> (\<exists>pf. objs (pg_pfs s) f = Some pf \<and> f_bearer pf = b)"
    using kids ok(2) by auto
  have "objs ((pg_pfs s)\<lparr>pool_live := pool_live (pg_pfs s) - set (pb_pf_list be)\<rparr>) = objs (pg_pfs s) |` pg_kept_pfs (- {b}) s"
    unfolding objs_minus using kids [symmetric] by (intro restrict_map_eqI) auto
  then show ?thesis
    using pf_remove_each_eq [OF E ok(1) b refl pg_bearer_pf.owns_distinct [OF own b] fs] b ok(1)
    by (auto simp: pgw_pf_remove_all_def)
qed

lemma bearer_remove_pg_ok:
  assumes E: "pgw_env_ok E" and low: "pf_level s" and b: "objs (pg_bearers s) b = Some be"
    and x: "pb_sess be = x" "x \<noteq> 0" "objs (pg_sesss s) x = Some se"
  shows "\<exists>p q. pgw_bearer_remove E b s = Inr (s\<lparr>pg_sesss := pool_set x (se\<lparr>ps_bearer_list := remove1 b (ps_bearer_list se)\<rparr>) (pg_sesss s),
       pg_pfs := p, pg_bearers := q\<rparr>)
     \<and> objs q = objs (pg_bearers s) |` (- {b}) \<and> objs p = objs (pg_pfs s) |` pg_kept_pfs (- {b}) s"
proof -
  define s1 where "s1 = pg_set_sess x (se\<lparr>ps_bearer_list := remove1 b (ps_bearer_list se)\<rparr>) s"
  have low1: "pf_level s1" "objs (pg_bearers s1) b = Some be" and b0: "b \<noteq> 0"
    using low b by (auto simp: pf_level_def s1_def)
  obtain p where p: "pgw_pf_remove_all E b s1 = Inr (s1\<lparr>pg_bearers := pool_set b (be\<lparr>pb_pf_list := []\<rparr>) (pg_bearers s1), pg_pfs := p\<rparr>)"
     "objs p = objs (pg_pfs s1) |` pg_kept_pfs (- {b}) s1"
    using pf_remove_all_ok [OF E low1] by auto
  have "pgw_bearer_remove E b s = Inr (s\<lparr>pg_sesss := pool_set x (se\<lparr>ps_bearer_list := remove1 b (ps_bearer_list se)\<rparr>) (pg_sesss s),
       pg_pfs := p, pg_bearers := pool_free b (pool_set b (be\<lparr>pb_pf_list := []\<rparr>) (pg_bearers s))\<rparr>)"
    using b x b0 p(1) by (simp add: pgw_bearer_remove_def Let_def pgw_env_okD [OF E] s1_def [symmetric])
      (simp add: s1_def pg_set_sess_def)
  moreover have "objs (pool_free b (pool_set b (be\<lparr>pb_pf_list := []\<rparr>) (pg_bearers s))) = objs (pg_bearers s) |` (- {b})"
    using b by (auto simp: restrict_map_def fun_eq_iff)
  moreover have "objs p = objs (pg_pfs s) |` pg_kept_pfs (- {b}) s" using p(2) by (simp add: s1_def)
  ultimately show ?thesis by blast
qed

lemma bearer_remove_each_pg_ok:
  assumes E: "pgw_env_ok E" and x: "x \<noteq> 0"
  shows "pf_level s \<Longrightarrow> objs (pg_sesss s) x = Some se \<Longrightarrow> ps_bearer_list se = bs \<Longrightarrow> distinct bs \<Longrightarrow>
     \<forall>b \<in> set bs. \<exists>be. objs (pg_bearers s) b = Some be \<and> pb_sess be = x \<Longrightarrow>
     \<exists>p q. pg_bearer_remove_each E bs s = Inr (s\<lparr>pg_sesss := pool_set x (se\<lparr>ps_bearer_list := []\<rparr>) (pg_sesss s), pg_pfs := p, pg_bearers := q\<rparr>)
       \<and> objs q = objs (pg_bearers s) |` (- set bs) \<and> objs p = objs (pg_pfs s) |` pg_kept_pfs (- set bs) s"
proof (induction bs arbitrary: s se)
  case Nil
  then have "se\<lparr>ps_bearer_list := []\<rparr> = se" by (cases se) simp
  then have "pg_bearer_remove_each E [] s = Inr (s\<lparr>pg_sesss := pool_set x (se\<lparr>ps_bearer_list := []\<rparr>) (pg_sesss s),
      pg_pfs := pg_pfs s, pg_bearers := pg_bearers s\<rparr>)"
    using Nil by (simp add: pool_set_same)
  moreover have "objs (pg_pfs s) |` pg_kept_pfs (- set []) s = objs (pg_pfs s)"
    by (auto simp: restrict_map_def fun_eq_iff)
  moreover have "objs (pg_bearers s) |` (- set []) = objs (pg_bearers s)"
    by (auto simp: restrict_map_def)
  ultimately show ?case by metis
next
  case (Cons b bs)
  obtain be where be: "objs (pg_bearers s) b = Some be" "pb_sess be = x" using Cons.prems(5) by auto
  obtain p q where eq: "pgw_bearer_remove E b s = Inr (s\<lparr>pg_sesss := pool_set x (se\<lparr>ps_bearer_list := bs\<rparr>) (pg_sesss s), pg_pfs := p, pg_bearers := q\<rparr>)"
    and q: "objs q = objs (pg_bearers s) |` (- {b})" and p: "objs p = objs (pg_pfs s) |` pg_kept_pfs (- {b}) s"
    using bearer_remove_pg_ok [OF E Cons.prems(1) be x Cons.prems(2)] Cons.prems(3) by auto
  define s1 where "s1 = s\<lparr>pg_sesss := pool_set x (se\<lparr>ps_bearer_list := bs\<rparr>) (pg_sesss s), pg_pfs := p, pg_bearers := q\<rparr>"
  have "pf_level s1"
    by (rule pf_level_cut [OF Cons.prems(1), of _ "- {b}"]) (simp_all add: s1_def p q)
  moreover have "\<forall>c \<in> set bs. \<exists>ce. objs (pg_bearers s1) c = Some ce \<and> pb_sess ce = x"
    using Cons.prems(4,5) by (auto simp: s1_def q restrict_map_def)
  ultimately obtain p' q' where eq': "pg_bearer_remove_each E bs s1
      = Inr (s1\<lparr>pg_sesss := pool_set x (se\<lparr>ps_bearer_list := bs, ps_bearer_list := []\<rparr>) (pg_sesss s1), pg_pfs := p', pg_bearers := q'\<rparr>)"
    and q': "objs q' = objs (pg_bearers s1) |` (- set bs)" and p': "objs p' = objs (pg_pfs s1) |` pg_kept_pfs (- set bs) s1"
    using Cons.IH [of s1 "se\<lparr>ps_bearer_list := bs\<rparr>"] Cons.prems by (auto simp: s1_def)
  have "pg_bearer_remove_each E (b # bs) s = Inr (s\<lparr>pg_sesss := pool_set x (se\<lparr>ps_bearer_list := []\<rparr>) (pg_sesss s), pg_pfs := p', pg_bearers := q'\<rparr>)"
    using eq eq' by (simp add: s1_def)
  moreover have "objs q' = objs (pg_bearers s) |` (- set (b # bs))"
    by (auto simp: q' s1_def q restrict_map_def fun_eq_iff)
  moreover have "objs p' = objs (pg_pfs s) |` pg_kept_pfs (- set (b # bs)) s"
    by (auto simp: p' s1_def p restrict_map_def fun_eq_iff)
  ultimately show ?case by blast
qed

lemma pgw_inv_pf_level: "pgw_inv s \<Longrightarrow> pf_level s"
  by (auto simp: pgw_inv_def pgw_ctx_ok_def pf_level_def pg_bearers_ok_def)

text \<open>Giving back an address.\<close>

definition free_addr :: "ue_ip_ptr option \<Rightarrow> (index \<rightharpoonup> pgw_subnet) \<Rightarrow> (index \<rightharpoonup> pgw_subnet)" where
  "free_addr p m = (case p of None \<Rightarrow> m | Some (i, k) \<Rightarrow> m(i \<mapsto> (the (m i))\<lparr>sub_live := sub_live (the (m i)) - {k}\<rparr>))"

lemma free_addr_None [simp]: "free_addr None m = m"
  by (simp add: free_addr_def)

lemma free_addr_subnets:
  assumes ok: "subnets_ok s" and p: "addr_ok (pg_subnets s) fam p"
  shows "ue_ip_free p s = Inr (s\<lparr>pg_subnets := free_addr p (pg_subnets s)\<rparr>)"
    and "subnets_ok (s\<lparr>pg_subnets := free_addr p (pg_subnets s)\<rparr>)"
proof -
  have "ue_ip_free (Some q) s = Inr (s\<lparr>pg_subnets := free_addr (Some q) (pg_subnets s)\<rparr>)
      \<and> subnets_ok (s\<lparr>pg_subnets := free_addr (Some q) (pg_subnets s)\<rparr>)" if "p = Some q" for q
  proof -
    have "addr_ok (pg_subnets s) fam (Some q)" using p that by simp
    then obtain sn where sn: "pg_subnets s (fst q) = Some sn" "snd q \<in> sub_live sn"
      "get_ue_ip (pg_subnets s) q = Inr (sub_array sn ! snd q)" "uip_subnet (sub_array sn ! snd q) = Some (fst q)"
      using addr_ok_read [OF ok] by metis
    then show ?thesis
      using ok by (cases q) (fastforce simp: ue_ip_free_def pgw_ue_ip_free_def free_addr_def subnets_ok_def)
  qed
  then show "ue_ip_free p s = Inr (s\<lparr>pg_subnets := free_addr p (pg_subnets s)\<rparr>)"
    "subnets_ok (s\<lparr>pg_subnets := free_addr p (pg_subnets s)\<rparr>)"
    using ok by (cases p; simp add: ue_ip_free_def)+
qed

lemma addr_ok_free:
  assumes "addr_ok m fam p" and "p \<noteq> q \<or> p = None" and "addr_ok m fam' q"
  shows "addr_ok (free_addr q m) fam p"
  using assms by (auto simp: addr_ok_def free_addr_def split: option.split)

lemma addr_ok_family: "addr_ok m AF_INET p \<Longrightarrow> addr_ok m AF_INET6 q \<Longrightarrow> p \<noteq> q \<or> p = None"
  by (cases p) (auto simp: addr_ok_def)

text \<open>A session is removed: exactly its addresses are given back, and exactly what it owns is freed.\<close>

definition pg_sess_removed :: "index \<Rightarrow> pgw_sess \<Rightarrow> pgw_state \<Rightarrow> pgw_state \<Rightarrow> bool" where
  "pg_sess_removed x se s t \<longleftrightarrow> (\<exists>p q k. t = s\<lparr>pg_sess_list := remove1 x (pg_sess_list s),
        pg_subnets := free_addr (ps_ipv6 se) (free_addr (ps_ipv4 se) (pg_subnets s)), pg_sesss := k, pg_pfs := p, pg_bearers := q\<rparr>
     \<and> objs k = objs (pg_sesss s) |` (- {x}) \<and> objs q = objs (pg_bearers s) |` pg_kept_bearers {x} s
     \<and> objs p = objs (pg_pfs s) |` pg_kept_pfs (pg_kept_bearers {x} s) s)"

lemma sess_remove_pg_ok:
  assumes E: "pgw_env_ok E" and inv: "pgw_inv s" and x: "objs (pg_sesss s) x = Some se"
  shows "\<exists>t. pgw_sess_remove E x s = Inr t \<and> pg_sess_removed x se s t"
proof -
  have own: "pg_bearers_owned s" "pg_pfs_owned s" and low: "pf_level s" and x0: "x \<noteq> 0"
    and addr: "addr_ok (pg_subnets s) AF_INET (ps_ipv4 se)" "addr_ok (pg_subnets s) AF_INET6 (ps_ipv6 se)"
    using pgw_invD [OF inv] pgw_inv_pf_level [OF inv] pgw_inv_sess [OF inv x] by auto
  have kids: "{b. \<exists>be. objs (pg_bearers s) b = Some be \<and> pb_sess be = x} = set (ps_bearer_list se)"
    by (rule pg_sess_bearer.owns_free_child_of_none [OF own(1) x])
  define m1 m2 where "m1 = free_addr (ps_ipv4 se) (pg_subnets s)" and "m2 = free_addr (ps_ipv6 se) m1"
  define s0 s1 s2 where "s0 = s\<lparr>pg_sess_list := remove1 x (pg_sess_list s)\<rparr>" and "s1 = s0\<lparr>pg_subnets := m1\<rparr>"
    and "s2 = s0\<lparr>pg_subnets := m2\<rparr>"
  have ok0: "subnets_ok s0" using pgw_invD(7) [OF inv] by (simp add: s0_def)
  have addr0: "addr_ok (pg_subnets s0) AF_INET (ps_ipv4 se)" "addr_ok (pg_subnets s0) AF_INET6 (ps_ipv6 se)"
    using addr by (simp_all add: s0_def)
  have f4: "ue_ip_free (ps_ipv4 se) s0 = Inr s1" "subnets_ok s1"
    using free_addr_subnets [OF ok0 addr0(1)] by (simp_all add: s1_def m1_def s0_def)
  have "ps_ipv6 se \<noteq> ps_ipv4 se \<or> ps_ipv6 se = None" using addr_ok_family [OF addr] by auto
  then have "addr_ok (pg_subnets s1) AF_INET6 (ps_ipv6 se)"
    using addr_ok_free [OF addr(2) _ addr(1)] by (simp add: s1_def m1_def)
  then have f6: "ue_ip_free (ps_ipv6 se) s1 = Inr s2"
    using free_addr_subnets(1) [OF f4(2)] by (simp add: s1_def s2_def m2_def)
  have low2: "pf_level s2" and x2: "objs (pg_sesss s2) x = Some se"
    using low x by (simp_all add: pf_level_def s2_def s0_def)
  have bs: "\<forall>b \<in> set (ps_bearer_list se). \<exists>be. objs (pg_bearers s2) b = Some be \<and> pb_sess be = x"
    using kids by (auto simp: s2_def s0_def)
  obtain p q where eq: "pg_bearer_remove_each E (ps_bearer_list se) s2
      = Inr (s2\<lparr>pg_sesss := pool_set x (se\<lparr>ps_bearer_list := []\<rparr>) (pg_sesss s2), pg_pfs := p, pg_bearers := q\<rparr>)"
    and q: "objs q = objs (pg_bearers s2) |` (- set (ps_bearer_list se))"
    and p: "objs p = objs (pg_pfs s2) |` pg_kept_pfs (- set (ps_bearer_list se)) s2"
    using bearer_remove_each_pg_ok [OF E x0 low2 x2 refl pg_sess_bearer.owns_distinct [OF own(1) x] bs] by auto
  define k where "k = pool_free x (pool_set x (se\<lparr>ps_bearer_list := []\<rparr>) (pg_sesss s))"
  have "pgw_sess_remove E x s = Inr (s\<lparr>pg_sess_list := remove1 x (pg_sess_list s), pg_subnets := m2, pg_sesss := k, pg_pfs := p, pg_bearers := q\<rparr>)"
    using x x0 x2 f4(1) f6 eq
    by (simp add: pgw_sess_remove_def pgw_bearer_remove_all_def Let_def pgw_env_okD [OF E] s0_def [symmetric])
      (simp add: s0_def s2_def k_def)
  moreover have "objs k = objs (pg_sesss s) |` (- {x})"
    using x by (auto simp: k_def restrict_map_def fun_eq_iff)
  moreover have "objs q = objs (pg_bearers s) |` pg_kept_bearers {x} s"
    unfolding q using kids [symmetric] by (simp add: s2_def s0_def) (intro restrict_map_eqI, auto)
  moreover have "objs p = objs (pg_pfs s) |` pg_kept_pfs (pg_kept_bearers {x} s) s"
  proof -
    have "f_bearer pf \<in> - set (ps_bearer_list se) \<longleftrightarrow> f_bearer pf \<in> pg_kept_bearers {x} s" if "objs (pg_pfs s) f = Some pf" for f pf
      using kids [symmetric] pg_bearer_pf.owns_parent [OF own(2) that] by auto
    then have "objs (pg_pfs s) |` pg_kept_pfs (- set (ps_bearer_list se)) s = objs (pg_pfs s) |` pg_kept_pfs (pg_kept_bearers {x} s) s"
      by (intro restrict_map_eqI) auto
    then show ?thesis unfolding p by (simp add: s2_def s0_def)
  qed
  ultimately show ?thesis unfolding pg_sess_removed_def m2_def m1_def by blast
qed

lemma subnets_ok_other: "subnets_ok t = subnets_ok s"
  if "pg_subnets t = pg_subnets s" "pg_subnet_list t = pg_subnet_list s" "pg_devs t = pg_devs s"
  using that by (simp add: subnets_ok_def)

lemma pgw_inv_sess_removed:
  assumes inv: "pgw_inv s" and x: "objs (pg_sesss s) x = Some se" and rem: "pg_sess_removed x se s t"
  shows "pgw_inv t"
proof -
  obtain p q k where t: "t = s\<lparr>pg_sess_list := remove1 x (pg_sess_list s),
        pg_subnets := free_addr (ps_ipv6 se) (free_addr (ps_ipv4 se) (pg_subnets s)), pg_sesss := k, pg_pfs := p, pg_bearers := q\<rparr>"
    and k: "objs k = objs (pg_sesss s) |` (- {x})" and q: "objs q = objs (pg_bearers s) |` pg_kept_bearers {x} s"
    and p: "objs p = objs (pg_pfs s) |` pg_kept_pfs (pg_kept_bearers {x} s) s"
    using rem unfolding pg_sess_removed_def by blast
  let ?m1 = "free_addr (ps_ipv4 se) (pg_subnets s)"
  have a: "addr_ok (pg_subnets s) AF_INET (ps_ipv4 se)" "addr_ok (pg_subnets s) AF_INET6 (ps_ipv6 se)"
    using pgw_inv_sess [OF inv x] by auto
  have a1: "addr_ok ?m1 AF_INET6 (ps_ipv6 se)" using addr_ok_family [OF a] by (intro addr_ok_free [OF a(2) _ a(1)]) auto
  have "pg_bearers_owned t"
    using pg_sess_bearer.owns_restrict [OF pgw_invD(2) [OF inv], of "- {x}"] by (simp add: t k q)
  moreover have "pg_pfs_owned t"
    using pg_bearer_pf.owns_restrict [OF pgw_invD(3) [OF inv], of "pg_kept_bearers {x} s"] by (simp add: t p q)
  moreover have "pg_sesss_ok t"
  proof -
    have other: "addr_ok (pg_subnets t) AF_INET (ps_ipv4 te)" "addr_ok (pg_subnets t) AF_INET6 (ps_ipv6 te)"
      if y: "objs (pg_sesss s) y = Some te" "y \<noteq> x" for y te
    proof -
      have b: "addr_ok (pg_subnets s) AF_INET (ps_ipv4 te)" "addr_ok (pg_subnets s) AF_INET6 (ps_ipv6 te)"
        using pgw_inv_sess [OF inv y(1)] by auto
      have u: "ps_ipv4 te \<noteq> ps_ipv4 se \<or> ps_ipv4 te = None" "ps_ipv6 te \<noteq> ps_ipv6 se \<or> ps_ipv6 te = None"
        using pgw_invD(8,9) [OF inv] x y unfolding addrs_unique_def by metis+
      have "addr_ok ?m1 AF_INET (ps_ipv4 te)" "addr_ok ?m1 AF_INET6 (ps_ipv6 te)"
        using addr_ok_free [OF b(1) u(1) a(1)] addr_ok_free [OF b(2) _ a(1)] addr_ok_family [OF a(1) b(2)] by auto
      then show "addr_ok (pg_subnets t) AF_INET (ps_ipv4 te)" "addr_ok (pg_subnets t) AF_INET6 (ps_ipv6 te)"
        using addr_ok_free [OF _ _ a1] addr_ok_family [OF b(1) a(2)] u(2) by (simp_all add: t)
    qed
    show ?thesis
      using pgw_invD(4) [OF inv] other by (auto simp: pg_sesss_ok_def t k q restrict_map_def split: if_splits)
  qed
  moreover have "subnets_ok t"
  proof -
    have "subnets_ok (s\<lparr>pg_subnets := free_addr (ps_ipv6 se) ?m1\<rparr>)"
      using free_addr_subnets(2) [of "s\<lparr>pg_subnets := ?m1\<rparr>" AF_INET6 "ps_ipv6 se"] free_addr_subnets(2) [OF pgw_invD(7) [OF inv] a(1)] a1
      by simp
    then show ?thesis by (subst subnets_ok_other [of t "s\<lparr>pg_subnets := free_addr (ps_ipv6 se) ?m1\<rparr>"]) (simp_all add: t)
  qed
  moreover have "addrs_unique ps_ipv4 t" "addrs_unique ps_ipv6 t"
    using pgw_invD(8,9) [OF inv] unfolding addrs_unique_def by (auto simp: t k restrict_map_def split: if_splits)
  moreover have "pg_bearers_ok t" "pg_list_ok t" "pg_pfs_ok t"
    using pgw_invD(5,6,10) [OF inv] x by (auto simp: pg_bearers_ok_def pg_list_ok_def pg_pfs_ok_def t k q p restrict_map_def dom_def split: if_splits)
  ultimately show ?thesis
    using inv by (simp add: pgw_inv_def pgw_ctx_ok_def t)
qed

lemma pgw_inv_bearer_removed:
  assumes inv: "pgw_inv s" and b: "objs (pg_bearers s) b = Some be" and x: "objs (pg_sesss s) (pb_sess be) = Some se"
    and k: "objs k = (objs (pg_sesss s))(pb_sess be \<mapsto> se\<lparr>ps_bearer_list := remove1 b (ps_bearer_list se)\<rparr>)"
    and q: "objs q = objs (pg_bearers s) |` (- {b})" and p: "objs p = objs (pg_pfs s) |` pg_kept_pfs (- {b}) s"
  shows "pgw_inv (s\<lparr>pg_sesss := k, pg_pfs := p, pg_bearers := q\<rparr>)"
proof -
  let ?t = "s\<lparr>pg_sesss := k, pg_pfs := p, pg_bearers := q\<rparr>"
  have "(objs (pg_bearers s))(b := None) = objs q" by (auto simp: q restrict_map_def fun_eq_iff)
  then have "pg_bearers_owned ?t"
    using pg_sess_bearer.owns_remove_child [OF pgw_invD(2) [OF inv] b x] by (simp add: k)
  moreover have "pg_pfs_owned ?t"
    using pg_bearer_pf.owns_restrict [OF pgw_invD(3) [OF inv], of "- {b}"] by (simp add: p q)
  moreover have "pg_sesss_ok ?t"
  proof -
    have "set (tl m) \<subseteq> set m" for m :: "index list" by (cases m) auto
    then have "set (tl (remove1 b l)) \<subseteq> set (tl l)" for l :: "index list"
      using set_remove1_subset [of b "tl l"] by (cases l) auto
    then show ?thesis
      using pgw_invD(4) [OF inv] x by (fastforce simp: pg_sesss_ok_def k q restrict_map_def split: if_splits)
  qed
  moreover have "addrs_unique ps_ipv4 ?t" "addrs_unique ps_ipv6 ?t" "pg_bearers_ok ?t" "pg_list_ok ?t" "pg_pfs_ok ?t"
    using pgw_invD(5,6,8,9,10) [OF inv] x
    by (auto simp: addrs_unique_def pg_bearers_ok_def pg_list_ok_def pg_pfs_ok_def k q p restrict_map_def split: if_splits)
  ultimately show ?thesis
    using inv by (simp add: pgw_inv_def pgw_ctx_ok_def)
qed

lemma pgw_inv_pfs_removed:
  assumes inv: "pgw_inv s" and b: "objs (pg_bearers s) b = Some be"
    and p: "objs p = objs (pg_pfs s) |` pg_kept_pfs (- {b}) s"
  shows "pgw_inv (s\<lparr>pg_bearers := pool_set b (be\<lparr>pb_pf_list := []\<rparr>) (pg_bearers s), pg_pfs := p\<rparr>)"
proof -
  let ?t = "s\<lparr>pg_bearers := pool_set b (be\<lparr>pb_pf_list := []\<rparr>) (pg_bearers s), pg_pfs := p\<rparr>"
  have "owns pb_pf_list f_bearer (objs (pg_bearers s) |` (- {b})) (objs p)"
    using pg_bearer_pf.owns_restrict [OF pgw_invD(3) [OF inv], of "- {b}"] by (simp add: p)
  then have "owns pb_pf_list f_bearer ((objs (pg_bearers s) |` (- {b}))(b \<mapsto> be\<lparr>pb_pf_list := []\<rparr>)) (objs p)"
    by (rule pg_bearer_pf.owns_new_parent) simp_all
  moreover have "(objs (pg_bearers s) |` (- {b}))(b \<mapsto> be\<lparr>pb_pf_list := []\<rparr>) = (objs (pg_bearers s))(b \<mapsto> be\<lparr>pb_pf_list := []\<rparr>)"
    by (auto simp: restrict_map_def fun_eq_iff)
  ultimately have "pg_pfs_owned ?t" using b by simp
  moreover have "pg_bearers_owned ?t"
    using pg_sess_bearer.owns_set_child [OF pgw_invD(2) [OF inv] b] b by simp
  moreover have "pg_sesss_ok ?t" "pg_bearers_ok ?t" "pg_pfs_ok ?t"
    using pgw_invD(4,5,6) [OF inv] b
    by (fastforce simp: pg_sesss_ok_def pg_bearers_ok_def pg_pfs_ok_def p restrict_map_def split: if_splits)+
  ultimately show ?thesis
    using inv by (simp add: pgw_inv_def pgw_ctx_ok_def)
qed

end
