(* ===== verification/Pgw_Tft.thy ===== *)
theory Pgw_Tft
  imports Pgw_Inv
begin

text \<open>
  The traffic flow template the packet gateway sends: the octets that \<open>encode_traffic_flow_template\<close>
  and \<open>ogs_gtp_build_tft\<close> produce together, and the prefix length it computes from a mask.
\<close>

subsection \<open>Masks\<close>

lemma n2mask_bytes_eq:
  "n2mask_bytes n = replicate (n div 8) 0xff @ (if n mod 8 = 0 then [] else [minimask ! (n mod 8)])"
proof (induction n rule: n2mask_bytes.induct)
  case (1 n)
  show ?case
  proof (cases "8 \<le> n")
    case True
    then have "n div 8 = Suc ((n - 8) div 8)" "n mod 8 = (n - 8) mod 8" by (simp_all add: le_div_geq le_mod_geq)
    then show ?thesis using 1 True by (subst n2mask_bytes.simps) simp
  next
    case False
    then show ?thesis by (subst n2mask_bytes.simps) simp
  qed
qed

lemma minimask_eq: "j \<le> 8 \<Longrightarrow> minimask ! j = push_bit (8 - j) (mask j)"
proof -
  assume "j \<le> 8"
  then consider "j = 0" | "j = 1" | "j = 2" | "j = 3" | "j = 4" | "j = 5" | "j = 6" | "j = 7" | "j = 8" by linarith
  then show ?thesis by cases (simp_all add: minimask_def mask_eq_exp_minus_1 push_bit_eq_mult)
qed

lemma minimask_bit: "j \<le> 8 \<Longrightarrow> k < 8 \<Longrightarrow> bit (minimask ! j) (7 - k) \<longleftrightarrow> k < j"
  by (auto simp: minimask_eq bit_simps)

lemma mask_bit_n2mask:
  assumes "n \<le> 128" and "i < 128"
  shows "mask_bit (n2mask n) i \<longleftrightarrow> i < n"
proof -
  have ff: "bit (0xff :: u8) (7 - k)" if "k < 8" for k
    using minimask_bit [of 8 k] that by (simp add: minimask_def)
  have i: "i = 8 * (i div 8) + i mod 8" "i mod 8 < 8" and n: "n = 8 * (n div 8) + n mod 8" by simp_all
  consider "i div 8 < n div 8" | "i div 8 = n div 8" | "n div 8 < i div 8" by linarith
  then show ?thesis
  proof cases
    case 1
    then have "i < n" using i n by linarith
    then show ?thesis
      using 1 ff [OF i(2)] by (simp add: mask_bit_def n2mask_def poke_def n2mask_bytes_eq nth_append)
  next
    case 2
    show ?thesis
    proof (cases "n mod 8 = 0")
      case True
      then show ?thesis using 2 i n assms by (auto simp: mask_bit_def n2mask_def poke_def n2mask_bytes_eq nth_append)
    next
      case False
      have "n2mask n ! (i div 8) = minimask ! (n mod 8)"
        using 2 False by (simp add: n2mask_def poke_def n2mask_bytes_eq nth_append)
      moreover have "i < n \<longleftrightarrow> i mod 8 < n mod 8" using 2 i n by linarith
      ultimately show ?thesis using minimask_bit [of "n mod 8" "i mod 8"] by (simp add: mask_bit_def)
    qed
  next
    case 3
    then have "\<not> i < n" using i n by linarith
    then show ?thesis
      using 3 assms by (auto simp: mask_bit_def n2mask_def poke_def n2mask_bytes_eq nth_append)
  qed
qed

lemma contigmask_n2mask:
  assumes "n \<le> 128"
  shows "contigmask (n2mask n) 128 = int n"
proof -
  have up: "[0..<128] = [0..<n] @ [n..<128]" using assms by (metis upt_add_eq_append le_add_diff_inverse zero_le)
  have "takeWhile (mask_bit (n2mask n)) [n..<128] = []"
    using mask_bit_n2mask [OF assms, of n] by (cases "n < 128") (simp_all add: upt_conv_Cons)
  then have "takeWhile (mask_bit (n2mask n)) ([0..<n] @ [n..<128]) = [0..<n]"
    using mask_bit_n2mask [OF assms] assms by (subst takeWhile_append2 [of "[0..<n]" _ "[n..<128]"]) auto
  moreover have "\<not> list_ex (mask_bit (n2mask n)) [n + 1..<128]"
    using mask_bit_n2mask [OF assms] by (auto simp: list_ex_iff)
  ultimately show ?thesis by (simp add: contigmask_def up)
qed

subsection \<open>The template\<close>

lemma rule_components_length: "length (rule_components ru) \<le> 7"
  by (auto simp: rule_components_def)

text \<open>Every component has its array filled, a known type, and counts for as many octets as it takes.\<close>

lemma tft_comp_sel [simp]: "comp_type (tft_comp t bs) = t" "length bs \<le> 32 \<Longrightarrow> length (comp_union (tft_comp t bs)) = 32"
  "take (length bs) (comp_union (tft_comp t bs)) = bs"
  by (simp_all add: tft_comp_def poke_def)

lemma length_bytes_of: "length (bytes_of ws) = 4 * length ws"
  by (induction ws) (simp_all add: bytes_of_def)

lemma length_take_tft_comp: "length bs \<le> 32 \<Longrightarrow> length (take n (comp_union (tft_comp t bs))) = min n 32"
  by (simp add: min.commute)

lemma rule_components_ok:
  assumes "rule_typed ru" and "(c, n) \<in> set (rule_components ru)"
  shows "length (comp_union c) = 32" "component_value c \<noteq> None" "length (component_image c) = n"
proof -
  have len: "length (ru_local_addr ru) = 4" "length (ru_remote_addr ru) = 4" using assms(1) by (simp_all add: rule_typed_def)
  have "length (comp_union c) = 32 \<and> component_value c \<noteq> None \<and> length (component_image c) = n"
    using assms(2) len
    by (auto simp: rule_components_def component_value_def component_image_def length_bytes_of Let_def split: if_splits)
  then show "length (comp_union c) = 32" "component_value c \<noteq> None" "length (component_image c) = n" by auto
qed

lemma sum_rule_components: "sum_list (map snd (rule_components ru)) < 256"
  by (auto simp: rule_components_def)

lemma unat_of_nat_u8: "n < 256 \<Longrightarrow> unat (of_nat n :: u8) = n"
  by (simp add: unat_of_nat take_bit_nat_eq_self)

lemma tft_each_eq:
  assumes "length tfs = 16" and "i + length fs \<le> 16" and "\<forall>f \<in> set fs. objs (pg_pfs s) f \<noteq> None"
  shows "tft_each i fs s tfs =
     Inr (take i tfs @ map (\<lambda>(j, f). tft_pf_of j (the (objs (pg_pfs s) f))) (enumerate i fs) @ drop (i + length fs) tfs)"
  using assms
proof (induction fs arbitrary: i tfs)
  case (Cons f fs)
  then obtain pf where pf: "objs (pg_pfs s) f = Some pf" by auto
  have "take (Suc i) (tfs[i := tft_pf_of i pf]) = take i tfs @ [tft_pf_of i pf]"
    using Cons.prems by (simp add: take_Suc_conv_app_nth)
  then show ?case
    using Cons.IH [of "tfs[i := tft_pf_of i pf]" "i + 1"] Cons.prems pf by (simp add: drop_update_cancel)
qed simp

definition bearer_template :: "pgw_bearer \<Rightarrow> pgw_state \<Rightarrow> tft" where
  "bearer_template be s = \<lparr>tft_flags = push_bit 5 1 OR take_bit 4 (of_nat (length (pb_pf_list be))),
     tft_pf = map (\<lambda>(j, f). tft_pf_of j (the (objs (pg_pfs s) f))) (enumerate 0 (pb_pf_list be))
       @ replicate (16 - length (pb_pf_list be)) \<lparr>pf_flags = 0, pf_precedence = 0, pf_length = 0,
           pf_component = replicate 16 (tft_comp 0 []), num_of_component = 0\<rparr>\<rparr>"

lemma encode_template:
  assumes inv: "pgw_inv s" and b: "objs (pg_bearers s) b = Some be" and n: "length (pb_pf_list be) \<le> 16"
  shows "encode_traffic_flow_template b s = Inr (bearer_template be s)"
proof -
  have "\<forall>f \<in> set (pb_pf_list be). objs (pg_pfs s) f \<noteq> None" "b \<noteq> 0" using pgw_inv_bearer [OF inv b] by auto
  then show ?thesis
    using b n by (simp add: encode_traffic_flow_template_def tft_each_eq bearer_template_def)
qed

lemma enumerate_mem: "(j, f) \<in> set (enumerate n xs) \<Longrightarrow> f \<in> set xs"
  by (metis map_snd_enumerate set_map image_eqI snd_conv)

lemma template_wf:
  assumes inv: "pgw_inv s" and b: "objs (pg_bearers s) b = Some be" and n: "length (pb_pf_list be) \<le> 16"
  shows "tft_wf (bearer_template be s)"
proof -
  have wf: "length (pf_component (tft_pf_of j pf)) = 16" "unat (num_of_component (tft_pf_of j pf)) \<le> 16"
      "\<forall>c \<in> set (pf_component (tft_pf_of j pf)). length (comp_union c) = 32" if "rule_typed (f_rule pf)" for j pf
  proof -
    show "length (pf_component (tft_pf_of j pf)) = 16" "unat (num_of_component (tft_pf_of j pf)) \<le> 16"
      using rule_components_length [of "f_rule pf"] by (simp_all add: tft_pf_of_def Let_def unat_of_nat_u8)
    show "\<forall>c \<in> set (pf_component (tft_pf_of j pf)). length (comp_union c) = 32"
      using rule_components_ok(1) [OF that] by (auto simp: tft_pf_of_def Let_def)
  qed
  have "rule_typed (f_rule (the (objs (pg_pfs s) f)))" if "f \<in> set (pb_pf_list be)" for f
    using pgw_inv_bearer [OF inv b] pgw_inv_pf [OF inv, of f] that by fastforce
  note typed = this
  have "length (pf_component pf) = 16 \<and> unat (num_of_component pf) \<le> 16 \<and> (\<forall>c \<in> set (pf_component pf). length (comp_union c) = 32)"
    if "pf \<in> set (tft_pf (bearer_template be s))" for pf
  proof -
    from that consider j f where "f \<in> set (pb_pf_list be)" "pf = tft_pf_of j (the (objs (pg_pfs s) f))"
      | "pf = \<lparr>pf_flags = 0, pf_precedence = 0, pf_length = 0, pf_component = replicate 16 (tft_comp 0 []), num_of_component = 0\<rparr>"
      by (auto simp: bearer_template_def dest!: enumerate_mem)
    then show ?thesis
    proof cases
      case 1
      then show ?thesis using wf [OF typed [OF 1(1)]] by blast
    qed simp
  qed
  then show ?thesis using n by (auto simp: tft_wf_def) (simp add: bearer_template_def)
qed

lemma safe_put_components: "\<forall>j \<in> set js. j < length cs \<Longrightarrow> safe (tft_put_components n cs js out) (\<lambda>_. True)"
  by (induction js arbitrary: out) (auto simp: octet_put_def split: option.split)

lemma safe_put_filters:
  "\<forall>i \<in> set is. i < length pfs \<Longrightarrow> \<forall>pf \<in> set pfs. length (pf_component pf) = 16 \<and> unat (num_of_component pf) \<le> 16 \<Longrightarrow>
     safe (tft_put_filters n pfs is out) (\<lambda>_. True)"
proof (induction "is" arbitrary: out)
  case (Cons i "is")
  have "safe (tft_put_components n (pf_component (pfs ! i)) [0..<unat (num_of_component (pfs ! i))] out') (\<lambda>_. True)" for out'
    by (rule safe_put_components) (use Cons.prems nth_mem [of i pfs] in \<open>auto intro: less_le_trans\<close>)
  then show ?case
    using Cons by (auto simp: octet_put_def split: option.split elim!: safe_mono)
qed simp

lemma safe_build_tft: "tft_wf t \<Longrightarrow> safe (ogs_gtp_build_tft t n) (\<lambda>_. True)"
  using num_of_packet_filter_less [of t]
  by (auto simp: ogs_gtp_build_tft_def octet_put_def tft_wf_def intro!: safe_put_filters)

lemma safe_bearer_tft:
  assumes "pgw_inv s" and "objs (pg_bearers s) b = Some be" and "length (pb_pf_list be) \<le> 16"
  shows "safe (bearer_tft b s) (\<lambda>_. True)"
  using safe_build_tft [OF template_wf [OF assms]] by (simp add: bearer_tft_def encode_template [OF assms])

subsection \<open>The octets of the template\<close>

text \<open>What a filter is on the wire: direction and identifier, precedence, length and the components.\<close>

definition filter_octets :: "nat \<Rightarrow> pgw_pf \<Rightarrow> u8 list" where
  "filter_octets j pf =
     (let cs = concat (map (component_image \<circ> fst) (rule_components (f_rule pf)))
      in [push_bit 4 (take_bit 2 (f_direction pf)) OR take_bit 4 (f_identifier pf - 1), of_nat (j + 1), of_nat (length cs)] @ cs)"

lemma filter_image_octets:
  assumes "rule_typed (f_rule pf)"
  shows "filter_image (tft_pf_of j pf) = filter_octets j pf"
proof -
  let ?cs = "rule_components (f_rule pf)"
  have "map (length \<circ> (component_image \<circ> fst)) ?cs = map snd ?cs"
    using rule_components_ok(3) [OF assms] by (simp only: map_eq_conv) auto
  then have "length (concat (map (component_image \<circ> fst) ?cs)) = sum_list (map snd ?cs)"
    by (simp only: length_concat map_map)
  moreover have "unat (of_nat (length ?cs) :: u8) = length ?cs"
    using rule_components_length [of "f_rule pf"] by (simp add: unat_of_nat_u8)
  ultimately show ?thesis
    by (simp add: filter_image_def tft_pf_of_def filter_octets_def Let_def)
qed

lemma template_count:
  assumes "length (pb_pf_list be) \<le> 15"
  shows "num_of_packet_filter (bearer_template be s) = length (pb_pf_list be)"
proof -
  have "take_bit 4 (push_bit 5 1 OR take_bit 4 (of_nat (length (pb_pf_list be))) :: u8) = take_bit 4 (of_nat (length (pb_pf_list be)))"
    by (rule bit_word_eqI) (auto simp: bit_simps)
  moreover have "unat (take_bit 4 (of_nat (length (pb_pf_list be)) :: u8)) = length (pb_pf_list be)"
    using assms by (simp add: unsigned_take_bit_eq unat_of_nat take_bit_nat_eq_self)
  ultimately show ?thesis by (simp add: num_of_packet_filter_def bearer_template_def)
qed

lemma template_octets:
  assumes inv: "pgw_inv s" and b: "objs (pg_bearers s) b = Some be" and n: "length (pb_pf_list be) \<le> 15"
  shows "tft_known (bearer_template be s)"
    and "tft_image (bearer_template be s) = (push_bit 5 1 OR take_bit 4 (of_nat (length (pb_pf_list be))))
      # concat (map (\<lambda>(j, f). filter_octets j (the (objs (pg_pfs s) f))) (enumerate 0 (pb_pf_list be)))"
proof -
  have typed: "rule_typed (f_rule (the (objs (pg_pfs s) f)))" if "f \<in> set (pb_pf_list be)" for f
    using pgw_inv_bearer [OF inv b] pgw_inv_pf [OF inv, of f] that by fastforce
  have pfs: "take (num_of_packet_filter (bearer_template be s)) (tft_pf (bearer_template be s)) =
      map (\<lambda>(j, f). tft_pf_of j (the (objs (pg_pfs s) f))) (enumerate 0 (pb_pf_list be))"
    unfolding template_count [OF n] by (simp add: bearer_template_def)
  have "component_value c \<noteq> None" if "rule_typed (f_rule pf)" "c \<in> set (take (unat (num_of_component (tft_pf_of j pf))) (pf_component (tft_pf_of j pf)))" for c j pf
    using that rule_components_ok(2) [OF that(1)] rule_components_length [of "f_rule pf"]
    by (auto simp: tft_pf_of_def Let_def unat_of_nat_u8)
  note known = this
  show "tft_known (bearer_template be s)"
    unfolding tft_known_def pfs
  proof (intro ballI)
    fix pf c assume "pf \<in> set (map (\<lambda>(j, f). tft_pf_of j (the (objs (pg_pfs s) f))) (enumerate 0 (pb_pf_list be)))"
      and c: "c \<in> set (take (unat (num_of_component pf)) (pf_component pf))"
    then obtain j f where "f \<in> set (pb_pf_list be)" "pf = tft_pf_of j (the (objs (pg_pfs s) f))" by (auto dest!: enumerate_mem)
    then show "component_value c \<noteq> None" using known [OF typed] c by blast
  qed
  have "map filter_image (map (\<lambda>(j, f). tft_pf_of j (the (objs (pg_pfs s) f))) (enumerate 0 (pb_pf_list be)))
      = map (\<lambda>(j, f). filter_octets j (the (objs (pg_pfs s) f))) (enumerate 0 (pb_pf_list be))"
    using typed filter_image_octets by (auto dest!: enumerate_mem)
  then show "tft_image (bearer_template be s) = (push_bit 5 1 OR take_bit 4 (of_nat (length (pb_pf_list be))))
      # concat (map (\<lambda>(j, f). filter_octets j (the (objs (pg_pfs s) f))) (enumerate 0 (pb_pf_list be)))"
    unfolding tft_image_def pfs by (simp only:) (simp add: bearer_template_def)
qed

end
