(* ===== verification/Pgw_Safe.thy ===== *)
theory Pgw_Safe
  imports Pgw_Tft
begin

text \<open>
  Safety of the operations the handlers of the packet gateway are made of: what a step leaves in
  place, and that each operation keeps the invariant and touches no freed object.
\<close>

subsection \<open>What a step leaves in place\<close>

definition pgrows :: "index set \<Rightarrow> pgw_state \<Rightarrow> pgw_state \<Rightarrow> bool" where
  "pgrows D s t \<longleftrightarrow> pgw_inv t \<and> dom (gnodes s) \<subseteq> dom (gnodes t) \<and> dom (xacts s) - D \<subseteq> dom (xacts t)
     \<and> dom (objs (pg_bearers s)) \<subseteq> dom (objs (pg_bearers t)) \<and> pg_gx_sessions t = pg_gx_sessions s
     \<and> (\<forall>x se. objs (pg_sesss s) x = Some se \<longrightarrow> (\<exists>te. objs (pg_sesss t) x = Some te \<and> ps_gx_sid te = ps_gx_sid se))"

lemma pgrows_refl: "pgw_inv s \<Longrightarrow> pgrows D s s"
  by (auto simp: pgrows_def)

lemma pgrows_trans:
  assumes "pgrows D s t" and "pgrows D' t r"
  shows "pgrows (D \<union> D') s r"
proof -
  have "\<exists>te. objs (pg_sesss r) x = Some te \<and> ps_gx_sid te = ps_gx_sid se" if "objs (pg_sesss s) x = Some se" for x se
    using assms that unfolding pgrows_def by metis
  moreover have "dom (gnodes s) \<subseteq> dom (gnodes r)" "dom (objs (pg_bearers s)) \<subseteq> dom (objs (pg_bearers r))"
    using assms unfolding pgrows_def by (meson subset_trans)+
  moreover have "dom (xacts s) - D \<subseteq> dom (xacts t)" "dom (xacts t) - D' \<subseteq> dom (xacts r)" using assms by (simp_all add: pgrows_def)
  then have "dom (xacts s) - (D \<union> D') \<subseteq> dom (xacts r)" by blast
  ultimately show ?thesis using assms by (simp add: pgrows_def)
qed

lemma pgrows_mono: "pgrows D s t \<Longrightarrow> D \<subseteq> D' \<Longrightarrow> pgrows D' s t"
  by (auto simp: pgrows_def)

lemma pgrows_live:
  assumes "pgrows D s t"
  shows "pgw_inv t" "gnodes s g \<noteq> None \<Longrightarrow> gnodes t g \<noteq> None" "xacts s x \<noteq> None \<Longrightarrow> x \<notin> D \<Longrightarrow> xacts t x \<noteq> None"
    "objs (pg_sesss s) i \<noteq> None \<Longrightarrow> objs (pg_sesss t) i \<noteq> None"
    "objs (pg_bearers s) i \<noteq> None \<Longrightarrow> objs (pg_bearers t) i \<noteq> None"
  using assms unfolding pgrows_def by (simp, blast, blast, metis option.distinct(1) not_None_eq, blast)

lemma pg_more_eq:
  fixes s t :: pgw_state
  assumes "gtp_state.more t = gtp_state.more s"
  shows "pg_sesss t = pg_sesss s" "pg_bearers t = pg_bearers s" "pg_pfs t = pg_pfs s" "pg_subnets t = pg_subnets s"
    "pg_devs t = pg_devs s" "pg_subnet_list t = pg_subnet_list s" "pg_sess_list t = pg_sess_list s"
    "sgw_s5c_list t = sgw_s5c_list s" "sgw_s5u_list t = sgw_s5u_list s" "pg_gx_sessions t = pg_gx_sessions s"
    "pg_p_cscf t = pg_p_cscf s" "pg_p_cscf6 t = pg_p_cscf6 s" "pg_p_cscf_index t = pg_p_cscf_index s"
    "pg_p_cscf6_index t = pg_p_cscf6_index s" "pg_queue t = pg_queue s"
  using assms by (cases s; cases t; simp)+

lemma pgw_inv_more:
  assumes "pgw_inv s" and "gtp_state.more t = gtp_state.more s" and "gtp_inv t" and "dom (gnodes s) \<subseteq> dom (gnodes t)"
  shows "pgw_inv t"
proof -
  have live: "gnodes s g = Some n \<Longrightarrow> \<exists>m. gnodes t g = Some m" for g n using assms(4) by (auto simp: dom_def)
  have "subnets_ok t" "pg_pfs_ok t" "pg_list_ok t" "addrs_unique ps_ipv4 t" "addrs_unique ps_ipv6 t"
    using pgw_invD [OF assms(1)] unfolding subnets_ok_def pg_pfs_ok_def pg_list_ok_def addrs_unique_def pg_more_eq [OF assms(2)] by blast+
  moreover have "pg_sesss_ok t" "pg_bearers_ok t"
    using pgw_invD(4,5) [OF assms(1)] live by (fastforce simp: pg_sesss_ok_def pg_bearers_ok_def pg_more_eq [OF assms(2)])+
  moreover have "pg_rest_ok t"
    using pgw_invD(11) [OF assms(1)] assms(4) unfolding pg_rest_ok_def pg_more_eq [OF assms(2)] by blast
  ultimately show ?thesis
    using assms(1,3) by (simp add: pgw_inv_def pgw_ctx_ok_def pg_more_eq [OF assms(2)])
qed

lemma pgrows_more:
  assumes inv: "pgw_inv s" and t: "gtp_inv t" "gtp_state.more t = gtp_state.more s" "dom (gnodes s) \<subseteq> dom (gnodes t)"
    "dom (xacts s) - D \<subseteq> dom (xacts t)"
  shows "pgrows D s t"
  using pgw_inv_more [OF inv t(2,1,3)] t by (simp add: pgrows_def pg_more_eq [OF t(2)])

lemma pgrows_gtp: "pgw_inv s \<Longrightarrow> gtp_keeps D s t \<Longrightarrow> pgrows D s t"
  by (rule pgrows_more) (auto simp: gtp_keeps_def)

lemma safe_pgrows_gtp: "safe m (gtp_keeps D s) \<Longrightarrow> pgw_inv s \<Longrightarrow> safe m (pgrows D s)"
  by (erule safe_mono) (rule pgrows_gtp)

lemma pgrows_set_sess:
  "pgw_inv s \<Longrightarrow> objs (pg_sesss s) x = Some se \<Longrightarrow> ps_bearer_list se' = ps_bearer_list se \<Longrightarrow>
     ps_pgw_s5c_teid se' = ps_pgw_s5c_teid se \<Longrightarrow> ps_ipv4 se' = ps_ipv4 se \<Longrightarrow> ps_ipv6 se' = ps_ipv6 se \<Longrightarrow>
     ps_gx_sid se' = ps_gx_sid se \<Longrightarrow> pnode_ok s (ps_gnode se') \<Longrightarrow> pgrows D s (pg_set_sess x se' s)"
  using pgw_inv_set_sess [of s x se se'] by (auto simp: pgrows_def)

lemma pgrows_set_bearer:
  "pgw_inv s \<Longrightarrow> objs (pg_bearers s) b = Some be \<Longrightarrow> pb_pf_list be' = pb_pf_list be \<Longrightarrow>
     pb_pgw_s5u_teid be' = pb_pgw_s5u_teid be \<Longrightarrow> pb_sess be' = pb_sess be \<Longrightarrow> pb_name be' = pb_name be \<Longrightarrow>
     pnode_ok s (pb_gnode be') \<Longrightarrow> pgrows D s (pg_set_bearer b be' s)"
  using pgw_inv_set_bearer [of s b be be'] by (auto simp: pgrows_def)

subsection \<open>Peers and transactions\<close>

lemma safe_sgw_setup:
  assumes E: "pgw_env_ok E" and inv: "gtp_inv s" and list: "set list \<subseteq> dom (gnodes s)"
  shows "safe (sgw_setup E list f port k k6 s) (\<lambda>(g, list', t). gtp_inv t \<and> gtp_state.more t = gtp_state.more s
     \<and> dom (gnodes s) \<subseteq> dom (gnodes t) \<and> dom (xacts s) \<subseteq> dom (xacts t) \<and> gnodes t g \<noteq> None \<and> set list' \<subseteq> dom (gnodes t))"
  unfolding sgw_setup_def by (rule safe_peer_setup [OF pgw_env_okD(1) [OF E] inv list])

lemma pgrows_peers:
  assumes "pgrows {} s t" and "set l \<subseteq> dom (gnodes t)"
  shows "pgrows {} s (t\<lparr>sgw_s5u_list := l\<rparr>)" "pgrows {} s (t\<lparr>sgw_s5c_list := l\<rparr>)"
  using assms by (auto simp: pgrows_def pgw_inv_def pgw_ctx_ok_def) (auto simp: pg_rest_ok_def)

lemma safe_s5u_setup:
  assumes E: "pgw_env_ok E" and inv: "pgw_inv s"
  shows "safe (sgw_s5u_setup E f s) (\<lambda>(g, t). pgrows {} s t \<and> gnodes t g \<noteq> None)"
proof -
  have "set (sgw_s5u_list s) \<subseteq> dom (gnodes s)" using pgw_invD(11) [OF inv] by (auto simp: pg_rest_ok_def)
  from safe_sgw_setup [OF E pgw_invD(1) [OF inv] this, of f "pg_gtpu_port s" "pg_gtpu_sock s" "pg_gtpu_sock6 s"]
  show ?thesis
    unfolding sgw_s5u_setup_def safe_ebind
    by (rule safe_mono) (auto intro!: pgrows_peers pgrows_more [OF inv])
qed

lemma safe_sgw_by_message:
  assumes E: "pgw_env_ok E" and inv: "pgw_inv s"
  shows "safe (pgw_sgw_add_by_message E body s) (\<lambda>(r, t). pgrows {} s t \<and> pg_sesss t = pg_sesss s \<and> pnode_ok t r)"
proof (cases "scq_sender_f_teid (as_create_request E body)")
  case None
  then show ?thesis by (simp add: pgw_sgw_add_by_message_def pgrows_refl [OF inv])
next
  case (Some f)
  have "set (sgw_s5c_list s) \<subseteq> dom (gnodes s)" using pgw_invD(11) [OF inv] by (auto simp: pg_rest_ok_def)
  from safe_sgw_setup [OF E pgw_invD(1) [OF inv] this, of f "pg_gtpc_port s" "pg_gtpc_sock s" "pg_gtpc_sock6 s"]
  show ?thesis
    unfolding pgw_sgw_add_by_message_def Some option.case safe_ebind
    by (rule safe_mono) (auto intro!: pgrows_peers pgrows_more [OF inv] dest: pg_more_eq)
qed

lemma nptr_node: "pnode_ok s p \<Longrightarrow> nptr p \<noteq> 0 \<longrightarrow> gnodes s (nptr p) \<noteq> None"
  by (simp add: nptr_def split: option.split)

lemma safe_pgw_request:
  assumes E: "pgw_env_ok E" and inv: "pgw_inv s" and x: "objs (pg_sesss s) x \<noteq> None"
  shows "safe (pgw_send_request E x body s) (pgrows {} s)"
proof -
  obtain se where se: "objs (pg_sesss s) x = Some se" using x by auto
  have "nptr (ps_gnode se) \<noteq> 0 \<longrightarrow> gnodes s (nptr (ps_gnode se)) \<noteq> None"
    by (rule nptr_node) (use pgw_inv_sess [OF inv se] in blast)
  from safe_pgrows_gtp [OF safe_request [OF pgw_env_okD(1) [OF E] pgw_invD(1) [OF inv] this] inv]
  show ?thesis using se by (simp add: pgw_send_request_def)
qed

lemma safe_pgw_answer:
  assumes E: "pgw_env_ok E" and inv: "pgw_inv s" and x: "xacts s x \<noteq> None"
  shows "safe (pgw_send_answer E x teid body s) (pgrows {x} s)"
  unfolding pgw_send_answer_def
  by (rule safe_pgrows_gtp [OF safe_answer [OF pgw_env_okD(1) [OF E] pgw_invD(1) [OF inv] x] inv])

lemma safe_pgw_commit:
  assumes E: "pgw_env_ok E" and inv: "pgw_inv s" and x: "xacts s x \<noteq> None"
  shows "safe (ogs_gtp_xact_commit E x s) (pgrows {x} s)"
  by (rule safe_pgrows_gtp [OF safe_commit [OF pgw_env_okD(1) [OF E] pgw_invD(1) [OF inv] x] inv])

subsection \<open>Protocol configuration options\<close>

text \<open>
  Options that can be answered: every authentication and every control protocol option has an octet,
  and the answers, two per option at most, fit their array.
\<close>

definition pco_fits :: "pgw_env \<Rightarrow> u8 list option \<Rightarrow> bool" where
  "pco_fits E pco \<longleftrightarrow> (\<forall>tlv ue. pco = Some tlv \<longrightarrow> pe_pco_parse E tlv = Some ue \<longrightarrow>
     2 * length (pco_ids ue) \<le> pe_max_pco_ids E
     \<and> (\<forall>r \<in> set (pco_ids ue). pco_id_id r = OGS_PCO_ID_CHALLENGE_HANDSHAKE_AUTHENTICATION_PROTOCOL
          \<or> pco_id_id r = OGS_PCO_ID_INTERNET_PROTOCOL_CONTROL_PROTOCOL \<longrightarrow> pco_id_data r \<noteq> []))"

text \<open>Only the turns of the servers change.\<close>

definition turns :: "pgw_state \<Rightarrow> pgw_state \<Rightarrow> bool" where
  "turns s t \<longleftrightarrow> (\<exists>i j. t = s\<lparr>pg_p_cscf_index := i, pg_p_cscf6_index := j\<rparr>
     \<and> (pg_p_cscf s \<noteq> [] \<longrightarrow> i < length (pg_p_cscf s)) \<and> (pg_p_cscf6 s \<noteq> [] \<longrightarrow> j < length (pg_p_cscf6 s)))"

lemma turns_refl: "pgw_inv s \<Longrightarrow> turns s s"
  unfolding turns_def
  by (rule exI [of _ "pg_p_cscf_index s"], rule exI [of _ "pg_p_cscf6_index s"]) (auto simp: pgw_inv_def pg_rest_ok_def)

lemma turns_grows:
  assumes "pgw_inv s" and "turns s t"
  shows "pgrows D s t" "pg_bearers t = pg_bearers s" "pg_sesss t = pg_sesss s" "xacts t = xacts s"
proof -
  obtain i j where t: "t = s\<lparr>pg_p_cscf_index := i, pg_p_cscf6_index := j\<rparr>"
    "pg_p_cscf s \<noteq> [] \<longrightarrow> i < length (pg_p_cscf s)" "pg_p_cscf6 s \<noteq> [] \<longrightarrow> j < length (pg_p_cscf6 s)"
    using assms(2) unfolding turns_def by blast
  have "pg_rest_ok t" using pgw_invD(11) [OF assms(1)] t(2,3) by (simp add: pg_rest_ok_def t(1))
  then have "pgw_inv t" using assms(1) by (simp add: pgw_inv_def pgw_ctx_ok_def t(1))
  then show "pgrows D s t" "pg_bearers t = pg_bearers s" "pg_sesss t = pg_sesss s" "xacts t = xacts s"
    by (auto simp: pgrows_def t(1))
qed

lemma safe_server_addr: "safe (server_addr E d) (\<lambda>_. True)"
  by (simp add: server_addr_def split: option.split)

lemma safe_pco_answer:
  assumes "length (pw_ids w) < pe_max_pco_ids E"
  shows "safe (pco_answer E i p w) (\<lambda>v. length (pw_ids v) = length (pw_ids w) + 1 \<and> pw_state v = pw_state w)"
  using assms by (simp add: pco_answer_def)

lemma safe_pco_server:
  assumes "length (pw_ids w) < pe_max_pco_ids E"
  shows "safe (pco_server E i n d w) (\<lambda>v. length (pw_ids v) \<le> length (pw_ids w) + 1 \<and> pw_state v = pw_state w)"
  unfolding pco_server_def
proof (rule vc_bind [OF safe_server_addr], rule vc_option)
  fix a show "safe (pco_answer E i (Pco_Octets (take n (bytes_of a))) w)
      (\<lambda>v. length (pw_ids v) \<le> length (pw_ids w) + 1 \<and> pw_state v = pw_state w)"
    by (rule safe_mono [OF safe_pco_answer [OF assms]]) simp
qed simp

lemma safe_pco_servers:
  assumes "length (pw_ids w) + 2 \<le> pe_max_pco_ids E"
  shows "safe (ebind (pco_server E i n d w) (pco_server E i n d')) (\<lambda>v. length (pw_ids v) \<le> length (pw_ids w) + 2 \<and> pw_state v = pw_state w)"
proof (rule vc_bind [OF safe_pco_server], use assms in simp, elim conjE)
  fix v :: pco_work assume v: "length (pw_ids v) \<le> length (pw_ids w) + 1" "pw_state v = pw_state w"
  show "safe (pco_server E i n d' v) (\<lambda>u. length (pw_ids u) \<le> length (pw_ids w) + 2 \<and> pw_state u = pw_state w)"
    by (rule safe_mono [OF safe_pco_server]) (use v assms in auto)
qed

lemma turns_step:
  assumes "turns s t"
  shows "i < length (pg_p_cscf s) \<Longrightarrow> turns s (t\<lparr>pg_p_cscf_index := i\<rparr>)"
    and "i < length (pg_p_cscf6 s) \<Longrightarrow> turns s (t\<lparr>pg_p_cscf6_index := i\<rparr>)"
    and "pg_p_cscf t = pg_p_cscf s" "pg_p_cscf6 t = pg_p_cscf6 s"
    and "pg_p_cscf s \<noteq> [] \<Longrightarrow> pg_p_cscf_index t < length (pg_p_cscf s)"
    and "pg_p_cscf6 s \<noteq> [] \<Longrightarrow> pg_p_cscf6_index t < length (pg_p_cscf6 s)"
proof -
  obtain j k where t: "t = s\<lparr>pg_p_cscf_index := j, pg_p_cscf6_index := k\<rparr>"
    "pg_p_cscf s \<noteq> [] \<longrightarrow> j < length (pg_p_cscf s)" "pg_p_cscf6 s \<noteq> [] \<longrightarrow> k < length (pg_p_cscf6 s)"
    using assms unfolding turns_def by blast
  show "turns s (t\<lparr>pg_p_cscf_index := i\<rparr>)" if "i < length (pg_p_cscf s)"
    unfolding turns_def by (rule exI [of _ i], rule exI [of _ k]) (use t that in simp)
  show "turns s (t\<lparr>pg_p_cscf6_index := i\<rparr>)" if "i < length (pg_p_cscf6 s)"
    unfolding turns_def by (rule exI [of _ j], rule exI [of _ i]) (use t that in simp)
  show "pg_p_cscf t = pg_p_cscf s" "pg_p_cscf6 t = pg_p_cscf6 s"
    "pg_p_cscf s \<noteq> [] \<Longrightarrow> pg_p_cscf_index t < length (pg_p_cscf s)"
    "pg_p_cscf6 s \<noteq> [] \<Longrightarrow> pg_p_cscf6_index t < length (pg_p_cscf6 s)"
    using t by simp_all
qed


abbreviation pco_step :: "pgw_state \<Rightarrow> pco_work \<Rightarrow> pco_work \<Rightarrow> bool" where
  "pco_step s w v \<equiv> length (pw_ids v) \<le> length (pw_ids w) + 2 \<and> turns s (pw_state v)"

lemma safe_pco_request:
  assumes w: "turns s (pw_state w)" and n: "length (pw_ids w) + 2 \<le> pe_max_pco_ids E"
    and r: "pco_id_id r = OGS_PCO_ID_CHALLENGE_HANDSHAKE_AUTHENTICATION_PROTOCOL
      \<or> pco_id_id r = OGS_PCO_ID_INTERNET_PROTOCOL_CONTROL_PROTOCOL \<longrightarrow> pco_id_data r \<noteq> []"
  shows "safe (pco_request E r w) (pco_step s w)"
proof -
  have one: "length (pw_ids w) < pe_max_pco_ids E" using n by simp
  have answer: "safe (pco_answer E i p w) (pco_step s w)" for i p
    by (rule safe_mono [OF safe_pco_answer [OF one]]) (use w in auto)
  have ipcp: "safe (pco_ipcp E (pw_state w)) (\<lambda>_. True)"
    unfolding pco_ipcp_def by (rule vc_bind [OF safe_server_addr], rule vc_bind [OF safe_server_addr]) simp
  have code: "safe (ebind (array_read (pco_id_data r) 0) (\<lambda>code. if code = c then m else Inr w)) (pco_step s w)"
    if "pco_id_data r \<noteq> []" "safe m (pco_step s w)" for c m
    using that w by simp
  have servers: "safe (ebind (pco_server E i k d w) (pco_server E i k d')) (pco_step s w)" for i k d d'
    by (rule safe_mono [OF safe_pco_servers [OF n]]) (use w in auto)
  note ts = turns_step [OF w]
  show ?thesis
    unfolding pco_request_def Let_def
    apply (rule vc_if, rule code, use r in simp, rule answer)
    apply (rule vc_if, rule code, use r in simp, rule vc_bind [OF ipcp], rule answer)
    apply (rule vc_if, rule servers)
    apply (rule vc_if, rule servers)
    apply (rule vc_if, rule vc_if, use w in simp, use ts one w in \<open>simp add: pco_answer_def\<close>)
    apply (rule vc_if, rule vc_if, use w in simp, use ts one w in \<open>simp add: pco_answer_def\<close>)
    using w by simp
qed

lemma safe_pco_requests:
  "turns s (pw_state w) \<Longrightarrow> length (pw_ids w) + 2 * length rs \<le> pe_max_pco_ids E \<Longrightarrow>
   \<forall>r \<in> set rs. pco_id_id r = OGS_PCO_ID_CHALLENGE_HANDSHAKE_AUTHENTICATION_PROTOCOL
      \<or> pco_id_id r = OGS_PCO_ID_INTERNET_PROTOCOL_CONTROL_PROTOCOL \<longrightarrow> pco_id_data r \<noteq> [] \<Longrightarrow>
   safe (pco_requests E rs w) (\<lambda>v. turns s (pw_state v))"
proof (induction rs arbitrary: w)
  case (Cons r rs)
  have "safe (pco_request E r w) (pco_step s w)"
    by (rule safe_pco_request) (use Cons.prems in auto)
  then show ?case
    unfolding pco_requests.simps
  proof (rule vc_bind, elim conjE)
    fix v :: pco_work assume "length (pw_ids v) \<le> length (pw_ids w) + 2" "turns s (pw_state v)"
    then show "safe (pco_requests E rs v) (\<lambda>v. turns s (pw_state v))"
      by (intro Cons.IH) (use Cons.prems in auto)
  qed
qed simp

lemma safe_pco_element:
  assumes inv: "pgw_inv s" and fits: "pco_fits E pco"
  shows "safe (pco_element E pco s) (\<lambda>(r, t). turns s t)"
  unfolding pco_element_def
proof (rule vc_option)
  fix tlv assume pco: "pco = Some tlv"
  have "safe (pgw_pco_build E tlv s) (\<lambda>(bs, t). turns s t)"
    unfolding pgw_pco_build_def
  proof (rule vc_non_null, rule vc_bind [OF safe_pco_requests])
    fix ue assume "pe_pco_parse E tlv = Some ue"
    with fits pco show "length (pw_ids \<lparr>pw_ids = [], pw_p_cscf = [], pw_p_cscf6 = [], pw_state = s\<rparr>) + 2 * length (pco_ids ue) \<le> pe_max_pco_ids E"
      "\<forall>r \<in> set (pco_ids ue). pco_id_id r = OGS_PCO_ID_CHALLENGE_HANDSHAKE_AUTHENTICATION_PROTOCOL
      \<or> pco_id_id r = OGS_PCO_ID_INTERNET_PROTOCOL_CONTROL_PROTOCOL \<longrightarrow> pco_id_data r \<noteq> []"
      by (simp_all add: pco_fits_def)
  qed (simp_all add: turns_refl [OF inv])
  then show "safe (ebind (pgw_pco_build E tlv s) (\<lambda>(bs, s). ebind (ogs_assert (bs \<noteq> [])) (\<lambda>_. Inr (Some bs, s)))) (\<lambda>(r, t). turns s t)"
    by (rule vc_bind2) simp
qed (simp add: turns_refl [OF inv])

subsection \<open>Messages\<close>

lemma safe_s5_f_teid: "safe (s5_f_teid i teid a a6) (\<lambda>_. True)"
  by (auto simp: s5_f_teid_def ogs_gtp_sockaddr_to_f_teid_def split: option.split)

lemma safe_build_qos: "safe (ogs_gtp_build_bearer_qos E q n) (\<lambda>_. True)"
  by (simp add: ogs_gtp_build_bearer_qos_def Let_def)

lemma safe_build_msg: "safe (build_msg E body) (\<lambda>_. True)"
  by (simp add: build_msg_def)

lemma safe_paa_len: "safe (sess_paa_len se) (\<lambda>_. True)"
  by (simp add: sess_paa_len_def)

lemma safe_pg_default_bearer:
  assumes inv: "pgw_inv s" and x: "objs (pg_sesss s) x \<noteq> None"
  shows "safe (ebind (pgw_default_bearer_in_sess x s) non_null) (\<lambda>b. objs (pg_bearers s) b \<noteq> None)"
proof -
  obtain se where se: "objs (pg_sesss s) x = Some se" using x by auto
  from pgw_inv_sess [OF inv se] show ?thesis
    by (cases "ps_bearer_list se") (auto simp: pgw_default_bearer_in_sess_def se)
qed

lemma safe_create_session_response:
  assumes inv: "pgw_inv s" and x: "objs (pg_sesss s) x \<noteq> None" and pco: "pco_fits E (scq_pco req)"
  shows "safe (pgw_s5c_build_create_session_response E x req s) (\<lambda>(body, t). turns s t)"
  unfolding pgw_s5c_build_create_session_response_def
  by (intro vc_bind [OF safe_pg_default_bearer [OF inv x]] vc_deref x vc_bind [OF safe_s5_f_teid] vc_bind [OF safe_paa_len]
      vc_bind2 [OF safe_pco_element [OF inv pco]] vc_bind [OF safe_build_msg] vc_done_pair)

lemma safe_pg_delete_session_response:
  assumes inv: "pgw_inv s" and pco: "pco_fits E (sdq_pco req)"
  shows "safe (pgw_s5c_build_delete_session_response E req s) (\<lambda>(body, t). turns s t)"
  unfolding pgw_s5c_build_delete_session_response_def
  by (intro vc_bind2 [OF safe_pco_element [OF inv pco]] vc_bind [OF safe_build_msg] vc_done_pair)

lemma pgw_inv_bearer_sess:
  "pgw_inv s \<Longrightarrow> objs (pg_bearers s) b = Some be \<Longrightarrow> objs (pg_sesss s) (pb_sess be) \<noteq> None"
  by (drule (1) pgw_inv_bearer) auto

lemma pg_bearer_eq: "objs (pg_bearers s) b = Some be \<Longrightarrow> pg_bearer s b = Inr be"
  by simp

lemma pg_sess_eq: "objs (pg_sesss s) x = Some se \<Longrightarrow> pg_sess s x = Inr se"
  by simp

lemma safe_create_bearer_request:
  assumes inv: "pgw_inv s" and b: "objs (pg_bearers s) b = Some be" and n: "length (pb_pf_list be) \<le> 16"
  shows "safe (pgw_s5c_build_create_bearer_request E b s) (\<lambda>_. True)"
  unfolding pgw_s5c_build_create_bearer_request_def pg_bearer_eq [OF b] ebind_Inr
  by (intro vc_assert vc_bind [OF safe_pg_default_bearer [OF inv pgw_inv_bearer_sess [OF inv b]]] vc_deref vc_bind [OF safe_s5_f_teid]
      vc_bind [OF safe_build_qos] vc_bind [OF safe_bearer_tft [OF inv b n]] safe_build_msg)

lemma safe_update_bearer_request:
  assumes inv: "pgw_inv s" and b: "objs (pg_bearers s) b = Some be" and n: "tft \<Longrightarrow> length (pb_pf_list be) \<le> 16"
  shows "safe (pgw_s5c_build_update_bearer_request E b qos tft s) (\<lambda>_. True)"
proof -
  have "safe (if tft then ebind (bearer_tft b s) (\<lambda>t. Inr (Some t)) else Inr None) (\<lambda>_. True)"
    using safe_bearer_tft [OF inv b] n by auto
  moreover have "safe (if qos then ebind (ogs_gtp_build_bearer_qos (pe_uint64_to_buffer E) q m) (\<lambda>q. Inr (Some q)) else Inr None) (\<lambda>_. True)" for q m
    using safe_build_qos by auto
  ultimately show ?thesis
    unfolding pgw_s5c_build_update_bearer_request_def pg_bearer_eq [OF b] ebind_Inr
    by (intro vc_assert vc_bind [OF safe_pg_default_bearer [OF inv pgw_inv_bearer_sess [OF inv b]]])
      (rule vc_bind, assumption, rule vc_bind, assumption, rule safe_build_msg)
qed

lemma safe_delete_bearer_request:
  assumes inv: "pgw_inv s" and b: "objs (pg_bearers s) b \<noteq> None"
  shows "safe (pgw_s5c_build_delete_bearer_request E b s) (\<lambda>_. True)"
proof -
  obtain be where b: "objs (pg_bearers s) b = Some be" using b by auto
  show ?thesis
    unfolding pgw_s5c_build_delete_bearer_request_def pg_bearer_eq [OF b] ebind_Inr
    by (intro vc_assert vc_bind [OF safe_pg_default_bearer [OF inv pgw_inv_bearer_sess [OF inv b]]] vc_deref safe_build_msg)
qed

end
