(* ===== verification/Pgw_Handlers.thy ===== *)
theory Pgw_Handlers
  imports Pgw_Safe
begin

text \<open>
  Safety of the handlers of the packet gateway: the bearer binding, the answers of the policy
  function, the messages of the serving gateway and the requests to the policy function.
\<close>

subsection \<open>Bearer binding\<close>

text \<open>
  What a rule has to satisfy: flow descriptions the compiler's token array can hold, no more flows
  than a template has filters, and a class other than the one of the default bearer, whose name is a
  null pointer.
\<close>

definition rule_fits :: "ogs_qos \<Rightarrow> ogs_pcc_rule \<Rightarrow> bool" where
  "rule_fits q r \<longleftrightarrow> pr_type r = OGS_PCC_RULE_TYPE_INSTALL \<longrightarrow>
     list_all flow_ok (pr_flow r) \<and> length (pr_flow r) \<le> 16 \<and> \<not> qci_arp_eq q (pr_qos r)"

text \<open>The class of the default bearer of a session.\<close>

definition sess_class :: "index \<Rightarrow> ogs_qos \<Rightarrow> pgw_state \<Rightarrow> bool" where
  "sess_class x q s \<longleftrightarrow> (\<exists>se. objs (pg_sesss s) x = Some se \<and> pdn_qos (ps_pdn se) = q)"

lemma sess_class_live: "sess_class x q s \<Longrightarrow> objs (pg_sesss s) x \<noteq> None"
  by (auto simp: sess_class_def)

lemma safe_request_keeps:
  assumes E: "pgw_env_ok E" and inv: "pgw_inv s" and x: "objs (pg_sesss s) x \<noteq> None"
  shows "safe (pgw_send_request E x body s) (gtp_keeps {} s)"
proof -
  obtain se where se: "objs (pg_sesss s) x = Some se" using x by auto
  have "nptr (ps_gnode se) \<noteq> 0 \<longrightarrow> gnodes s (nptr (ps_gnode se)) \<noteq> None"
    by (rule nptr_node) (use pgw_inv_sess [OF inv se] in blast)
  from safe_request [OF pgw_env_okD(1) [OF E] pgw_invD(1) [OF inv] this]
  show ?thesis using se by (simp add: pgw_send_request_def)
qed

lemma keeps_class: "gtp_keeps D s t \<Longrightarrow> sess_class x q s \<Longrightarrow> sess_class x q t"
  using pg_more_eq(1) [of t s] by (auto simp: sess_class_def gtp_keeps_def)

lemma safe_request_class:
  assumes E: "pgw_env_ok E" and inv: "pgw_inv s" and x: "sess_class x q s"
  shows "safe (pgw_send_request E x body s) (\<lambda>t. pgrows {} s t \<and> sess_class x q t)"
  by (rule safe_mono [OF safe_request_keeps [OF E inv sess_class_live [OF x]]]) (use pgrows_gtp [OF inv] keeps_class x in blast)

lemma pgrows_then: "pgrows {} s t \<Longrightarrow> pgrows D t r \<Longrightarrow> pgrows D s r"
  using pgrows_trans [of "{}" s t D r] by simp

lemma safe_class_after:
  "safe m (\<lambda>r. pgrows {} t r \<and> sess_class x q r) \<Longrightarrow> pgrows {} s t \<Longrightarrow> safe m (\<lambda>r. pgrows {} s r \<and> sess_class x q r)"
  by (erule safe_mono) (auto elim: pgrows_then)

lemma flows_added_grows:
  assumes "flows_added E b be fls s t" and "objs (pg_bearers s) b = Some be" and "pgw_inv t"
  shows "pgrows {} s t" "pg_sesss t = pg_sesss s"
    "\<exists>be'. objs (pg_bearers t) b = Some be' \<and> length (pb_pf_list be') = length (pb_pf_list be) + length fls"
  using assms by (auto simp: flows_added_def pgrows_def dest: list_all2_lengthD)

text \<open>
  A new bearer for a rule: the last of its session, with the name and the quality of service of the
  rule and one filter for each of its flows, in their order.
\<close>

definition rule_bearer :: "pgw_env \<Rightarrow> index \<Rightarrow> ogs_pcc_rule \<Rightarrow> string \<Rightarrow> pgw_state \<Rightarrow> pgw_state \<Rightarrow> bool" where
  "rule_bearer E x r name s t \<longleftrightarrow> (\<exists>b be se te. objs (pg_bearers s) b = None \<and> objs (pg_bearers t) b = Some be
     \<and> objs (pg_sesss s) x = Some se \<and> objs (pg_sesss t) x = Some te \<and> ps_bearer_list te = ps_bearer_list se @ [b]
     \<and> pb_sess be = x \<and> pb_name be = Some name \<and> pb_qos be = pr_qos r
     \<and> list_all2 (\<lambda>f fl. \<exists>pf. objs (pg_pfs t) f = Some pf \<and> filter_of E b fl pf) (pb_pf_list be) (pr_flow r))"

lemma rule_bearer_more:
  assumes "gtp_state.more t = gtp_state.more s'"
  shows "rule_bearer E x r name s s' \<Longrightarrow> rule_bearer E x r name s t"
  unfolding rule_bearer_def pg_more_eq [OF assms] .

lemma install_new_spec:
  assumes E: "pgw_env_ok E" "compile_ok E" and inv: "pgw_inv s" and x: "sess_class x q s"
    and r: "list_all flow_ok (pr_flow r)" "length (pr_flow r) \<le> 16"
  shows "safe (install_new E x r name s) (\<lambda>t. (pgrows {} s t \<and> sess_class x q t) \<and> rule_bearer E x r name s t)"
proof -
  obtain se where se: "objs (pg_sesss s) x = Some se" "pdn_qos (ps_pdn se) = q" using x by (auto simp: sess_class_def)
  have x0: "x \<noteq> 0" using pgw_inv_sess [OF inv se(1)] by blast
  show ?thesis
    unfolding install_new_def
  proof (rule vc_bind2 [OF bearer_add_pg_spec [OF E(1) x0 se(1)]], elim conjE exE)
    fix b :: index and s1 :: pgw_state and p and be :: pgw_bearer
    define be1 where "be1 = be\<lparr>pb_name := Some name, pb_qos := pr_qos r\<rparr>"
    define k where "k = pool_set x (se\<lparr>ps_bearer_list := ps_bearer_list se @ [b]\<rparr>) (pg_sesss s)"
    define s2 where "s2 = s\<lparr>pg_bearers := pool_set b be1 p, pg_sesss := k\<rparr>"
    assume b: "b \<noteq> 0" "objs (pg_bearers s) b = None"
      and s1: "s1 = s\<lparr>pg_bearers := p, pg_sesss := pool_set x (se\<lparr>ps_bearer_list := ps_bearer_list se @ [b]\<rparr>) (pg_sesss s)\<rparr>"
      and p: "objs p = (objs (pg_bearers s))(b \<mapsto> be)"
      and be: "pb_sess be = x" "pb_pf_list be = []" "pb_gnode be = None" "pb_pgw_s5u_teid be = b"
    have inv2: "pgw_inv s2"
      unfolding s2_def by (rule pgw_inv_bearer_added [OF inv se(1) b, of be1]) (use be p se(1) in \<open>simp_all add: be1_def k_def\<close>)
    have b2: "objs (pg_bearers s2) b = Some be1" "pb_pf_list be1 = []" using p be(2) by (simp_all add: s2_def be1_def)
    have grow: "pgrows {} s s2" "sess_class x q s2"
      using inv2 se p by (auto simp: pgrows_def s2_def k_def sess_class_def)
    have "safe (ebind (flows_add E b (pr_precedence r) (pr_flow r) s2) (\<lambda>t. ebind (pgw_s5c_build_create_bearer_request E b t) (\<lambda>body.
        pgw_send_request E x body t))) (\<lambda>t. (pgrows {} s t \<and> sess_class x q t) \<and> rule_bearer E x r name s t)"
    proof (rule vc_bind [OF flows_add_spec [OF E inv2 b2(1) r(1)]], elim conjE)
      fix t assume inv3: "pgw_inv t" and t: "flows_added E b be1 (pr_flow r) s2 t"
      note g = flows_added_grows [OF t b2(1) inv3]
      from g(3) b2(2) r(2) obtain be3 where be3: "objs (pg_bearers t) b = Some be3" "length (pb_pf_list be3) \<le> 16" by auto
      have cls: "sess_class x q t" using grow(2) g(2) by (simp add: sess_class_def)
      have "rule_bearer E x r name s t"
        using t b(2) se(1) b2(2) be(1) by (auto simp: rule_bearer_def flows_added_def s2_def k_def be1_def)
      then have finish: "(pgrows {} s u \<and> sess_class x q u) \<and> rule_bearer E x r name s u" if "gtp_keeps {} t u" for u
        using that pgrows_then [OF pgrows_then [OF grow(1) g(1)] pgrows_gtp [OF inv3 that]] keeps_class [OF that cls]
          rule_bearer_more [of u t] by (simp add: gtp_keeps_def)
      show "safe (ebind (pgw_s5c_build_create_bearer_request E b t) (\<lambda>body. pgw_send_request E x body t))
          (\<lambda>t. (pgrows {} s t \<and> sess_class x q t) \<and> rule_bearer E x r name s t)"
        by (rule vc_bind [OF safe_create_bearer_request [OF inv3 be3]], rule safe_mono [OF safe_request_keeps [OF E(1) inv3 sess_class_live [OF cls]] finish])
    qed
    moreover have "pg_set_bearer b be1 s1 = s2" by (simp add: s1 s2_def k_def pg_set_bearer_def)
    moreover have "objs (pg_bearers s1) b = Some be" using p by (simp add: s1)
    ultimately show "safe (ebind (pg_bearer s1 b) (\<lambda>be. let s = pg_set_bearer b (be\<lparr>pb_name := Some name, pb_qos := pr_qos r\<rparr>) s1 in
        ebind (ogs_assert (pr_flow r \<noteq> [])) (\<lambda>_. ebind (flows_add E b (pr_precedence r) (pr_flow r) s) (\<lambda>s.
        ebind (pgw_s5c_build_create_bearer_request E b s) (\<lambda>body. pgw_send_request E x body s)))))
        (\<lambda>t. (pgrows {} s t \<and> sess_class x q t) \<and> rule_bearer E x r name s t)"
      by (simp add: be1_def Let_def)
  qed
qed

text \<open>The filters of a bearer are removed before new ones are added.\<close>

lemma safe_filters_removed:
  assumes E: "pgw_env_ok E" and inv: "pgw_inv s" and b: "objs (pg_bearers s) b = Some be"
  shows "safe (if tft then pgw_pf_remove_all E b s else Inr s) (\<lambda>t. pgrows {} s t \<and> pg_sesss t = pg_sesss s
     \<and> (\<exists>be'. objs (pg_bearers t) b = Some be' \<and> (tft \<longrightarrow> pb_pf_list be' = [])))"
proof (cases tft)
  case True
  obtain p where eq: "pgw_pf_remove_all E b s = Inr (s\<lparr>pg_bearers := pool_set b (be\<lparr>pb_pf_list := []\<rparr>) (pg_bearers s), pg_pfs := p\<rparr>)"
     and p: "objs p = objs (pg_pfs s) |` pg_kept_pfs (- {b}) s"
    using pf_remove_all_ok [OF E pgw_inv_pf_level [OF inv] b] by blast
  have "pgw_inv (s\<lparr>pg_bearers := pool_set b (be\<lparr>pb_pf_list := []\<rparr>) (pg_bearers s), pg_pfs := p\<rparr>)"
    by (rule pgw_inv_pfs_removed [OF inv b p])
  then show ?thesis using True b by (auto simp: eq pgrows_def)
qed (use b pgrows_refl [OF inv] in simp)

lemma safe_bearer_changed:
  assumes E: "pgw_env_ok E" "compile_ok E" and inv: "pgw_inv s" and x: "sess_class x q s" and b: "objs (pg_bearers s) b = Some be"
    and r: "list_all flow_ok fls" "length fls \<le> 16" "tft \<longrightarrow> pb_pf_list be = []"
  shows "safe (ebind (flows_add E b pre fls s) (\<lambda>s. ebind (pgw_s5c_build_update_bearer_request E b qos tft s) (\<lambda>body.
      pgw_send_request E x body s))) (\<lambda>t. pgrows {} s t \<and> sess_class x q t)"
proof (rule vc_bind [OF flows_add_spec [OF E inv b r(1)]], elim conjE)
  fix t assume inv': "pgw_inv t" and t: "flows_added E b be fls s t"
  note g = flows_added_grows [OF t b inv']
  from g(3) obtain be' where be': "objs (pg_bearers t) b = Some be'" "length (pb_pf_list be') = length (pb_pf_list be) + length fls"
    by blast
  have "sess_class x q t" using x g(2) by (simp add: sess_class_def)
  from safe_request_class [OF E(1) inv' this]
  show "safe (ebind (pgw_s5c_build_update_bearer_request E b qos tft t) (\<lambda>body. pgw_send_request E x body t))
      (\<lambda>t. pgrows {} s t \<and> sess_class x q t)"
    by (intro vc_bind [OF safe_update_bearer_request [OF inv' be'(1)] safe_class_after [OF _ g(1)]]) (use be'(2) r in simp)
qed

lemma safe_install_update:
  assumes E: "pgw_env_ok E" "compile_ok E" and inv: "pgw_inv s" and x: "sess_class x q s"
    and r: "list_all flow_ok (pr_flow r)" "length (pr_flow r) \<le> 16"
    and b: "objs (pg_bearers s) b = Some be" "pb_name be = Some n"
  shows "safe (install_update E x b r name s) (\<lambda>t. pgrows {} s t \<and> sess_class x q t)"
  unfolding install_update_def pg_bearer_eq [OF b(1)] ebind_Inr b(2) option.case Let_def
proof (rule vc_assert, rule vc_bind [OF safe_filters_removed [OF E(1) inv b(1)]], elim conjE exE)
  let ?tft = "pr_flow r \<noteq> []" and ?qos = "qos_changed (pr_qos r) (pb_qos be)"
  fix s1 be1
  assume s1: "pgrows {} s s1" "pg_sesss s1 = pg_sesss s" and be1: "objs (pg_bearers s1) b = Some be1" "?tft \<longrightarrow> pb_pf_list be1 = []"
  define s2 where "s2 = (if ?qos then pg_set_bearer b (be1\<lparr>pb_qos := pr_qos r\<rparr>) s1 else s1)"
  have "pgrows {} s1 s2"
    unfolding s2_def using pgrows_live(1) [OF s1(1)] be1(1) pgw_inv_bearer
    by (auto intro!: pgrows_set_bearer pgrows_refl)
  then have s2: "pgrows {} s s2" "pgw_inv s2" by (rule pgrows_then [OF s1(1)], rule pgrows_live(1))
  have cls: "sess_class x q s2" using x s1(2) by (simp add: sess_class_def s2_def)
  obtain be2 where be2: "objs (pg_bearers s2) b = Some be2" "?tft \<longrightarrow> pb_pf_list be2 = []"
    by (rule that [of "if ?qos then be1\<lparr>pb_qos := pr_qos r\<rparr> else be1"]) (use be1 in \<open>simp_all add: s2_def\<close>)
  have "safe (if \<not> ?tft \<and> \<not> ?qos then Inr s2 else
      ebind (flows_add E b (pr_precedence r) (pr_flow r) s2) (\<lambda>s. ebind (pgw_s5c_build_update_bearer_request E b ?qos ?tft s) (\<lambda>body.
      pgw_send_request E x body s))) (\<lambda>t. pgrows {} s t \<and> sess_class x q t)"
    by (rule vc_if, use s2 cls in simp, rule safe_class_after [OF safe_bearer_changed [OF E s2(2) cls be2(1) r be2(2)] s2(1)])
  then show "safe (ebind (pg_bearer s1 b) (\<lambda>be'. if \<not> ?tft \<and> \<not> ?qos then Inr (if ?qos then pg_set_bearer b (be'\<lparr>pb_qos := pr_qos r\<rparr>) s1 else s1)
      else ebind (flows_add E b (pr_precedence r) (pr_flow r) (if ?qos then pg_set_bearer b (be'\<lparr>pb_qos := pr_qos r\<rparr>) s1 else s1))
        (\<lambda>s. ebind (pgw_s5c_build_update_bearer_request E b ?qos ?tft s) (\<lambda>body. pgw_send_request E x body s))))
      (\<lambda>t. pgrows {} s t \<and> sess_class x q t)"
    unfolding pg_bearer_eq [OF be1(1)] ebind_Inr s2_def .
qed

text \<open>A bearer found by a class other than the default one is a dedicated bearer and has a name.\<close>

lemma safe_find_by_qci_arp:
  assumes inv: "pgw_inv s" and x: "sess_class x q s" and other: "\<not> qci_arp_eq q q'"
  shows "safe (pgw_bearer_find_by_qci_arp x q' s) (\<lambda>r. \<forall>b. r = Some b \<longrightarrow>
     (\<exists>be n. objs (pg_bearers s) b = Some be \<and> pb_name be = Some n))"
proof -
  obtain se where se: "objs (pg_sesss s) x = Some se" "pdn_qos (ps_pdn se) = q" using x by (auto simp: sess_class_def)
  note sb = pgw_inv_sess [OF inv se(1)]
  have named: "\<exists>be n. objs (pg_bearers s) b = Some be \<and> pb_name be = Some n" if "ps_bearer_list se = d # bs" "b \<in> set bs" for b d bs
  proof -
    obtain be where be: "objs (pg_bearers s) b = Some be" using sb \<open>ps_bearer_list se = d # bs\<close> \<open>b \<in> set bs\<close> by auto
    then have "pb_name be \<noteq> None" using pgw_invD(4) [OF inv] se(1) that by (fastforce simp: pg_sesss_ok_def)
    then show ?thesis using be by auto
  qed
  show ?thesis
    unfolding pgw_bearer_find_by_qci_arp_def
    by (cases "ps_bearer_list se") (use se other named sb in \<open>auto intro!: safe_list_find\<close>)
qed

lemma safe_pcc_install:
  assumes E: "pgw_env_ok E" "compile_ok E" and inv: "pgw_inv s" and x: "sess_class x q s"
    and r: "list_all flow_ok (pr_flow r)" "length (pr_flow r) \<le> 16" "\<not> qci_arp_eq q (pr_qos r)"
  shows "safe (pcc_install E x r name s) (\<lambda>t. pgrows {} s t \<and> sess_class x q t)"
  unfolding pcc_install_def
proof (rule vc_bind [OF safe_find_by_qci_arp [OF inv x r(3)]], rule vc_option)
  show "safe (install_new E x r name s) (\<lambda>t. pgrows {} s t \<and> sess_class x q t)"
    by (rule safe_mono [OF install_new_spec [OF E inv x r(1,2)]]) simp
  fix a b assume "\<forall>b. a = Some b \<longrightarrow> (\<exists>be n. objs (pg_bearers s) b = Some be \<and> pb_name be = Some n)" "a = Some b"
  then show "safe (install_update E x b r name s) (\<lambda>t. pgrows {} s t \<and> sess_class x q t)"
    using safe_install_update [OF E inv x r(1,2)] by blast
qed

lemma safe_find_by_name:
  assumes inv: "pgw_inv s" and x: "objs (pg_sesss s) x \<noteq> None"
  shows "safe (pgw_bearer_find_by_name x name s) (\<lambda>r. \<forall>b. r = Some b \<longrightarrow> objs (pg_bearers s) b \<noteq> None)"
    "safe (pgw_bearer_find_by_ebi x e s) (\<lambda>r. \<forall>b. r = Some b \<longrightarrow> objs (pg_bearers s) b \<noteq> None)"
proof -
  obtain se where se: "objs (pg_sesss s) x = Some se" using x by auto
  from pgw_inv_sess [OF inv se]
  have "safe (list_find (objs (pg_bearers s)) P (ps_bearer_list se)) (\<lambda>r. \<forall>b. r = Some b \<longrightarrow> objs (pg_bearers s) b \<noteq> None)" for P
    by (auto intro!: safe_list_find)
  then show "safe (pgw_bearer_find_by_name x name s) (\<lambda>r. \<forall>b. r = Some b \<longrightarrow> objs (pg_bearers s) b \<noteq> None)"
    "safe (pgw_bearer_find_by_ebi x e s) (\<lambda>r. \<forall>b. r = Some b \<longrightarrow> objs (pg_bearers s) b \<noteq> None)"
    by (simp_all add: pgw_bearer_find_by_name_def pgw_bearer_find_by_ebi_def se)
qed

lemma safe_pcc_remove:
  assumes E: "pgw_env_ok E" and inv: "pgw_inv s" and x: "sess_class x q s"
  shows "safe (pcc_remove E x name s) (\<lambda>t. pgrows {} s t \<and> sess_class x q t)"
proof -
  have "safe (ebind (pgw_bearer_find_by_name x name s) non_null) (\<lambda>b. objs (pg_bearers s) b \<noteq> None)"
    by (rule vc_bind [OF safe_find_by_name(1) [OF inv sess_class_live [OF x]]]) simp
  then show ?thesis
    unfolding pcc_remove_def
    by (rule vc_bind) (intro vc_bind [OF safe_delete_bearer_request [OF inv]] safe_request_class [OF E inv x])
qed

lemma safe_binding_each:
  assumes E: "pgw_env_ok E" "compile_ok E"
  shows "pgw_inv s \<Longrightarrow> sess_class x q s \<Longrightarrow> list_all (rule_fits q) rs \<Longrightarrow> safe (binding_each E x rs s) (\<lambda>t. pgrows {} s t \<and> sess_class x q t)"
proof (induction rs arbitrary: s)
  case (Cons r rs)
  have rest: "safe (binding_each E x rs t) (\<lambda>r. pgrows {} s r \<and> sess_class x q r)" if "pgrows {} s t \<and> sess_class x q t" for t
    using that Cons.prems(3) by (intro safe_class_after [OF Cons.IH]) (auto simp: pgrows_def)
  have install: "safe (pcc_install E x r name s) (\<lambda>t. pgrows {} s t \<and> sess_class x q t)" if "pr_type r = OGS_PCC_RULE_TYPE_INSTALL" for name
    using Cons.prems(3) that by (intro safe_pcc_install [OF E Cons.prems(1,2)]) (simp_all add: rule_fits_def)
  have "safe (binding_each E x rs s) (\<lambda>r. pgrows {} s r \<and> sess_class x q r)"
    by (rule rest) (use Cons.prems pgrows_refl in blast)
  moreover have "safe (ebind (pcc_install E x r name s) (binding_each E x rs)) (\<lambda>r. pgrows {} s r \<and> sess_class x q r)"
    if "pr_type r = OGS_PCC_RULE_TYPE_INSTALL" for name
    by (rule vc_bind [OF install [OF that] rest])
  ultimately show ?case
    using safe_pcc_remove [OF E(1) Cons.prems(1,2)]
    by (cases "pr_name r"; cases "pr_type r") (simp_all del: safe_ebind)
qed (simp add: pgrows_refl)

lemma safe_bearer_binding:
  assumes "pgw_env_ok E" "compile_ok E" "pgw_inv s" "sess_class x q s" "list_all (rule_fits q) (gx_pcc_rule gx)"
  shows "safe (bearer_binding E x gx s) (\<lambda>t. pgrows {} s t \<and> sess_class x q t)"
  unfolding bearer_binding_def by (rule vc_assert) (rule safe_binding_each [OF assms])

subsection \<open>Answers of the policy function\<close>

lemma safe_answer_class:
  assumes E: "pgw_env_ok E" and inv: "pgw_inv s" and x: "xacts s xact \<noteq> None"
  shows "safe (pgw_send_answer E xact teid body s) (\<lambda>t. pgw_inv t \<and> pg_sesss t = pg_sesss s)"
  unfolding pgw_send_answer_def
  by (rule safe_mono [OF safe_answer [OF pgw_env_okD(1) [OF E] pgw_invD(1) [OF inv] x]])
    (use pgrows_gtp [OF inv] in \<open>auto simp: pgrows_def gtp_keeps_def dest: pg_more_eq(1)\<close>)

lemma turns_kept:
  assumes "pgw_inv s" and "turns s t"
  shows "pgw_inv t" "xacts t = xacts s" "pg_sesss t = pg_sesss s"
  by (rule pgrows_live(1) [OF turns_grows(1) [OF assms]], rule turns_grows(4) [OF assms], rule turns_grows(3) [OF assms])

lemma safe_cca_initial:
  assumes E: "pgw_env_ok E" "compile_ok E" and inv: "pgw_inv s" and xact: "xacts s xact \<noteq> None"
    and x: "sess_class x q s" and pco: "pco_fits E (scq_pco req)" and rules: "list_all (rule_fits q) (gx_pcc_rule gx)"
  shows "safe (pgw_gx_handle_cca_initial_request E x gx xact req s) pgw_inv"
  unfolding pgw_gx_handle_cca_initial_request_def
proof (intro vc_assert vc_deref sess_class_live [OF x])
  fix se
  show "safe (ebind (pgw_s5c_build_create_session_response E x req s) (\<lambda>(body, s).
      ebind (pgw_send_answer E xact (ps_sgw_s5c_teid se) body s) (\<lambda>s. bearer_binding E x gx s))) pgw_inv"
  proof (rule vc_bind2 [OF safe_create_session_response [OF inv sess_class_live [OF x] pco]])
    fix body t assume t: "turns s t"
    note k = turns_kept [OF inv t]
    have "xacts t xact \<noteq> None" using xact k(2) by simp
    from safe_answer_class [OF E(1) k(1) this]
    show "safe (ebind (pgw_send_answer E xact (ps_sgw_s5c_teid se) body t) (\<lambda>s. bearer_binding E x gx s)) pgw_inv"
    proof (rule vc_bind, elim conjE)
      fix u assume u: "pgw_inv u" "pg_sesss u = pg_sesss t"
      then have "sess_class x q u" using x k(3) by (simp add: sess_class_def)
      from safe_bearer_binding [OF E u(1) this rules] show "safe (bearer_binding E x gx u) pgw_inv"
        by (rule safe_mono) (simp add: pgrows_def)
    qed
  qed
qed

lemma safe_cca_termination:
  assumes E: "pgw_env_ok E" and inv: "pgw_inv s" and xact: "xacts s xact \<noteq> None"
    and x: "objs (pg_sesss s) x \<noteq> None" and pco: "pco_fits E (sdq_pco req)"
  shows "safe (pgw_gx_handle_cca_termination_request E x xact req s) pgw_inv"
proof -
  obtain se where se: "objs (pg_sesss s) x = Some se" using x by auto
  obtain t where t: "pgw_sess_remove E x s = Inr t" "pg_sess_removed x se s t"
    using sess_remove_pg_ok [OF E inv se] by blast
  have inv': "pgw_inv t" by (rule pgw_inv_sess_removed [OF inv se t(2)])
  have xact': "xacts t xact \<noteq> None" using xact t(2) by (auto simp: pg_sess_removed_def)
  have "safe (ebind (pgw_s5c_build_delete_session_response E req t) (\<lambda>(body, s). pgw_send_answer E xact teid body s)) pgw_inv" for teid
  proof (rule vc_bind2 [OF safe_pg_delete_session_response [OF inv' pco]])
    fix body u assume u: "turns t u"
    note k = turns_kept [OF inv' u]
    have "xacts u xact \<noteq> None" using xact' k(2) by simp
    from safe_answer_class [OF E k(1) this] show "safe (pgw_send_answer E xact teid body u) pgw_inv"
      by (rule safe_mono) simp
  qed
  then show ?thesis
    unfolding pgw_gx_handle_cca_termination_request_def by (intro vc_assert) (simp add: se t(1) del: safe_ebind)
qed

subsection \<open>Messages of the serving gateway\<close>

lemma safe_bearer_connect:
  assumes E: "pgw_env_ok E" and inv: "pgw_inv s" and b: "objs (pg_bearers s) b \<noteq> None"
  shows "safe (bearer_connect E b f s) (pgrows {} s)"
proof -
  obtain be where be: "objs (pg_bearers s) b = Some be" using b by auto
  define s1 where "s1 = pg_set_bearer b (be\<lparr>pb_sgw_s5u_teid := ntohl (ft_teid f)\<rparr>) s"
  have s1: "pgrows {} s s1"
    unfolding s1_def by (rule pgrows_set_bearer [OF inv be]) (use pgw_inv_bearer [OF inv be] in simp_all)
  have "safe (ebind (sgw_s5u_setup E f s1) (\<lambda>(g, s). ebind (pg_bearer s b) (\<lambda>be. Inr (pg_set_bearer b (be\<lparr>pb_gnode := Some g\<rparr>) s)))) (pgrows {} s)"
  proof (rule vc_bind2 [OF safe_s5u_setup [OF E pgrows_live(1) [OF s1]]], elim conjE, rule vc_deref)
    fix g t assume t: "pgrows {} s1 t" and g: "gnodes t g \<noteq> None"
    have st: "pgrows {} s t" by (rule pgrows_then [OF s1 t])
    show "objs (pg_bearers t) b \<noteq> None" by (rule pgrows_live(5) [OF st b])
    fix be' assume be': "objs (pg_bearers t) b = Some be'"
    have "pgrows {} t (pg_set_bearer b (be'\<lparr>pb_gnode := Some g\<rparr>) t)"
      by (rule pgrows_set_bearer [OF pgrows_live(1) [OF t] be']) (use g in simp_all)
    then show "safe (Inr (pg_set_bearer b (be'\<lparr>pb_gnode := Some g\<rparr>) t)) (pgrows {} s)"
      by (simp add: pgrows_then [OF st])
  qed
  then show ?thesis unfolding bearer_connect_def pg_bearer_eq [OF be] ebind_Inr Let_def s1_def .
qed

lemma safe_parse_qos: "safe (ogs_gtp_parse_bearer_qos f octet) (\<lambda>r. True)"
  by (simp add: ogs_gtp_parse_bearer_qos_def Let_def)

text \<open>A change of a session that leaves its structure alone.\<close>

definition sess_edit :: "(pgw_sess \<Rightarrow> pgw_sess) \<Rightarrow> bool" where
  "sess_edit f \<longleftrightarrow> (\<forall>se. ps_bearer_list (f se) = ps_bearer_list se \<and> ps_pgw_s5c_teid (f se) = ps_pgw_s5c_teid se
     \<and> ps_ipv4 (f se) = ps_ipv4 se \<and> ps_ipv6 (f se) = ps_ipv6 se \<and> ps_gx_sid (f se) = ps_gx_sid se \<and> ps_gnode (f se) = ps_gnode se)"

lemma pgrows_sess_edit:
  assumes "pgrows D s t" and "objs (pg_sesss t) x = Some se" and "sess_edit f"
  shows "pgrows D s (pg_set_sess x (f se) t)"
proof -
  have "pgrows {} t (pg_set_sess x (f se) t)"
    by (rule pgrows_set_sess [OF pgrows_live(1) [OF assms(1)] assms(2)])
      (use assms(3) pgw_inv_sess [OF pgrows_live(1) [OF assms(1)] assms(2)] in \<open>simp_all add: sess_edit_def\<close>)
  from pgrows_trans [OF assms(1) this] show ?thesis by simp
qed

lemma vc_any2: "safe m (\<lambda>r. True) \<Longrightarrow> (\<And>a b. safe (f a b) Q) \<Longrightarrow> safe (ebind m (\<lambda>(a, b). f a b)) Q"
  by (cases m) auto

lemma sess_edits:
  "sess_edit (sess_set_qos q)" "sess_edit (\<lambda>se. se\<lparr>ps_tai := ta, ps_e_cgi := ec\<rparr>)"
  "sess_edit (\<lambda>se. case am of None \<Rightarrow> sess_set_qos q se | Some (up, down) \<Rightarrow>
     (sess_set_qos q se)\<lparr>ps_pdn := (ps_pdn (sess_set_qos q se))\<lparr>pdn_ambr_downlink := ucast (ntohl down), pdn_ambr_uplink := ucast (ntohl up)\<rparr>\<rparr>)"
  by (auto simp: sess_edit_def sess_set_qos_def split: option.split)

lemma safe_create_session_store:
  assumes E: "pgw_env_ok E" and inv: "pgw_inv s" and x: "objs (pg_sesss s) x \<noteq> None" and b: "objs (pg_bearers s) b \<noteq> None"
    and imsi: "length imsi \<le> pe_max_imsi_len E" and uli: "uli_octets \<noteq> []"
  shows "safe (create_session_store E x b req imsi s5c_f qos s5u_f uli_octets s) (pgrows {} s)"
proof -
  obtain se where se: "objs (pg_sesss s) x = Some se" using x by auto
  define copied where "copied v = v\<lparr>ps_imsi_len := length imsi, ps_imsi := poke (ps_imsi v) 0 imsi, ps_imsi_bcd := pe_buffer_to_bcd E imsi,
      ps_sgw_s5c_teid := ntohl (ft_teid s5c_f)\<rparr>" for v :: pgw_sess
  define s1 where "s1 = pg_set_sess x (copied se) s"
  have s1: "pgrows {} s s1"
    unfolding s1_def by (rule pgrows_sess_edit [OF pgrows_refl [OF inv] se]) (simp add: sess_edit_def copied_def)
  have connect: "safe (bearer_connect E b s5u_f s1) (pgrows {} s1)"
    by (rule safe_bearer_connect [OF E pgrows_live(1) [OF s1] pgrows_live(5) [OF s1 b]])
  have live: "objs (pg_sesss t) x \<noteq> None" if "pgrows {} s t" for t by (rule pgrows_live(4) [OF that x])
  show ?thesis
    unfolding create_session_store_def imsi_copy_def if_P [OF imsi] Let_def pg_sess_eq [OF se] ebind_Inr
    apply (rule vc_bind [of _ "pgrows {} s"])
     apply (use safe_mono [OF connect pgrows_then [OF s1]] in \<open>simp add: s1_def copied_def\<close>)
    apply (rule vc_any2 [OF safe_parse_qos])
    apply (rule vc_assert, rule vc_deref, erule live)
    apply (rule vc_any2 [OF safe_parse_uli [OF uli]])
    apply (rule vc_assert, rule vc_deref, rule live)
     apply (erule pgrows_sess_edit, assumption, rule sess_edits(3))
    apply (unfold safe_Inr, rule pgrows_sess_edit [OF _ _ sess_edits(2)], erule (1) pgrows_sess_edit, rule sess_edits(3), assumption)
    done
qed

text \<open>The elements of a Create Session Request that are copied into arrays or read as octets.\<close>

definition create_fits :: "pgw_env \<Rightarrow> s5_create_session_request \<Rightarrow> bool" where
  "create_fits E req \<longleftrightarrow> (\<forall>imsi. scq_imsi req = Some imsi \<longrightarrow> length imsi \<le> pe_max_imsi_len E)
     \<and> scq_user_location_information req \<noteq> Some []"

lemma safe_handle_create_session:
  assumes E: "pgw_env_ok E" and inv: "pgw_inv s" and x: "objs (pg_sesss s) x \<noteq> None" and req: "create_fits E req"
  shows "safe (pgw_s5c_handle_create_session_request E x xact req s) (pgrows {} s)"
  unfolding pgw_s5c_handle_create_session_request_def
proof (intro vc_assert vc_bind [OF safe_pg_default_bearer [OF inv x]] vc_option)
  fix b imsi s5c_f bc qos s5u_f uli
  assume "objs (pg_bearers s) b \<noteq> None" "scq_imsi req = Some imsi" "scq_user_location_information req = Some uli"
  then show "safe (create_session_store E x b req imsi s5c_f qos s5u_f uli s) (pgrows {} s)"
    using req by (intro safe_create_session_store [OF E inv x]) (auto simp: create_fits_def)
qed (simp_all add: pgrows_refl [OF inv])

lemma safe_create_bearer_response:
  assumes E: "pgw_env_ok E" and inv: "pgw_inv s" and xact: "xacts s xact \<noteq> None"
  shows "safe (pgw_s5c_handle_create_bearer_response E x xact ctx s) pgw_inv"
  unfolding pgw_s5c_handle_create_bearer_response_def
proof (intro vc_assert vc_option)
  fix e pgw_f sgw_f
  have find: "safe (ebind (pgw_bearer_find_by_pgw_s5u_teid teid s) non_null) (\<lambda>b. objs (pg_bearers s) b \<noteq> None)" for teid
    by (auto simp: pgw_bearer_find_by_pgw_s5u_teid_def pgw_bearer_find_def)
  show "safe (ebind (ebind (pgw_bearer_find_by_pgw_s5u_teid (ntohl (ft_teid pgw_f)) s) non_null) (\<lambda>b.
     ebind (pg_bearer s b) (\<lambda>be. let s = pg_set_bearer b (be\<lparr>pb_ebi := e\<rparr>) s in
     ebind (bearer_connect E b sgw_f s) (\<lambda>s. ogs_gtp_xact_commit E xact s)))) pgw_inv"
    unfolding Let_def
  proof (rule vc_bind [OF find], rule vc_deref)
    fix b be assume b: "objs (pg_bearers s) b \<noteq> None" and be: "objs (pg_bearers s) b = Some be"
    have g: "pgrows {} s (pg_set_bearer b (be\<lparr>pb_ebi := e\<rparr>) s)"
      by (rule pgrows_set_bearer [OF inv be]) (use pgw_inv_bearer [OF inv be] in simp_all)
    show "safe (ebind (bearer_connect E b sgw_f (pg_set_bearer b (be\<lparr>pb_ebi := e\<rparr>) s)) (\<lambda>s. ogs_gtp_xact_commit E xact s)) pgw_inv"
    proof (rule vc_bind [OF safe_bearer_connect [OF E pgrows_live(1) [OF g] pgrows_live(5) [OF g b]]])
      fix t assume "pgrows {} (pg_set_bearer b (be\<lparr>pb_ebi := e\<rparr>) s) t"
      then have t: "pgrows {} s t" by (rule pgrows_then [OF g])
      have "xacts t xact \<noteq> None" by (rule pgrows_live(3) [OF t xact]) simp
      from safe_pgw_commit [OF E pgrows_live(1) [OF t] this] show "safe (ogs_gtp_xact_commit E xact t) pgw_inv"
        by (rule safe_mono) (simp add: pgrows_def)
    qed
  qed
qed (simp_all add: inv)

lemma safe_update_bearer_response:
  assumes E: "pgw_env_ok E" and inv: "pgw_inv s" and xact: "xacts s xact \<noteq> None"
  shows "safe (pgw_s5c_handle_update_bearer_response E x xact ctx s) pgw_inv"
  unfolding pgw_s5c_handle_update_bearer_response_def
  by (intro vc_assert vc_option safe_mono [OF safe_pgw_commit [OF E inv xact]]) (simp_all add: inv pgrows_def)

lemma safe_bearer_remove:
  assumes E: "pgw_env_ok E" and inv: "pgw_inv s" and b: "objs (pg_bearers s) b \<noteq> None"
  shows "safe (pgw_bearer_remove E b s) pgw_inv"
proof -
  obtain be where be: "objs (pg_bearers s) b = Some be" using b by auto
  obtain se where se: "objs (pg_sesss s) (pb_sess be) = Some se" using pgw_inv_bearer_sess [OF inv be] by auto
  have "pb_sess be \<noteq> 0" using pgw_inv_bearer [OF inv be] by blast
  from bearer_remove_pg_ok [OF E pgw_inv_pf_level [OF inv] be refl this se] obtain p q where
    eq: "pgw_bearer_remove E b s = Inr (s\<lparr>pg_sesss := pool_set (pb_sess be) (se\<lparr>ps_bearer_list := remove1 b (ps_bearer_list se)\<rparr>) (pg_sesss s),
       pg_pfs := p, pg_bearers := q\<rparr>)"
    and q: "objs q = objs (pg_bearers s) |` (- {b})" and p: "objs p = objs (pg_pfs s) |` pg_kept_pfs (- {b}) s"
    by blast
  show ?thesis
    unfolding eq safe_Inr by (rule pgw_inv_bearer_removed [OF inv be se _ q p]) (use se in simp)
qed

lemma safe_delete_bearer_response:
  assumes E: "pgw_env_ok E" and inv: "pgw_inv s" and xact: "xacts s xact \<noteq> None" and x: "objs (pg_sesss s) x \<noteq> None"
  shows "safe (pgw_s5c_handle_delete_bearer_response E x xact ctx s) pgw_inv"
  unfolding pgw_s5c_handle_delete_bearer_response_def
proof (intro vc_assert vc_option)
  fix e
  have find: "safe (ebind (pgw_bearer_find_by_ebi x e s) non_null) (\<lambda>b. objs (pg_bearers s) b \<noteq> None)"
    by (rule vc_bind [OF safe_find_by_name(2) [OF inv x]]) simp
  show "safe (ebind (ebind (pgw_bearer_find_by_ebi x e s) non_null) (\<lambda>b.
     ebind (ogs_gtp_xact_commit E xact s) (\<lambda>s. pgw_bearer_remove E b s))) pgw_inv"
  proof (rule vc_bind [OF find], rule vc_bind [OF safe_pgw_commit [OF E inv xact]])
    fix b t assume b: "objs (pg_bearers s) b \<noteq> None" and t: "pgrows {xact} s t"
    show "safe (pgw_bearer_remove E b t) pgw_inv"
      by (rule safe_bearer_remove [OF E pgrows_live(1) [OF t] pgrows_live(5) [OF t b]])
  qed
qed (simp_all add: inv)

subsection \<open>Requests to the policy function\<close>

text \<open>
  The session data of a Gx session must be there if the session names it, and a request that counts
  on must not be its thirty-third.
\<close>

definition gx_fits :: "u32 \<Rightarrow> index \<Rightarrow> pgw_state \<Rightarrow> bool" where
  "gx_fits ty x s \<longleftrightarrow> (\<forall>se g. objs (pg_sesss s) x = Some se \<longrightarrow> ps_gx_sid se = Some g \<longrightarrow>
     (\<exists>d. pg_gx_sessions s g = Some d
       \<and> (ty \<noteq> OGS_DIAM_GX_CC_REQUEST_TYPE_INITIAL_REQUEST \<longrightarrow> unat (gs_cc_request_number d + 1) < MAX_CC_REQUEST_NUMBER)))"

lemma gx_fits_grows:
  assumes "gx_fits ty x s" and "pgrows D s t" and "objs (pg_sesss s) x \<noteq> None"
  shows "gx_fits ty x t"
proof -
  obtain se where se: "objs (pg_sesss s) x = Some se" using assms(3) by auto
  with assms(2) obtain te where te: "objs (pg_sesss t) x = Some te" "ps_gx_sid te = ps_gx_sid se" unfolding pgrows_def by blast
  have "pg_gx_sessions t = pg_gx_sessions s" using assms(2) by (simp add: pgrows_def)
  then show ?thesis using assms(1) se te by (simp add: gx_fits_def)
qed

text \<open>The session data a request is stored in: arrays of the right size, a state with the invariant.\<close>

lemma safe_gx_session:
  assumes inv: "pgw_inv s" and x: "objs (pg_sesss s) x \<noteq> None" and fits: "gx_fits ty x s"
  shows "safe (gx_session E x s) (\<lambda>(g, d, t). pgw_inv t \<and> length (gs_xact d) = MAX_CC_REQUEST_NUMBER
     \<and> length (gs_gtpbuf d) = MAX_CC_REQUEST_NUMBER
     \<and> (ty \<noteq> OGS_DIAM_GX_CC_REQUEST_TYPE_INITIAL_REQUEST \<longrightarrow> unat (gs_cc_request_number d + 1) < MAX_CC_REQUEST_NUMBER))"
proof -
  obtain se where se: "objs (pg_sesss s) x = Some se" using x by auto
  show ?thesis
  proof (cases "ps_gx_sid se")
    case None
    have "pgw_inv (pg_set_sess x (se\<lparr>ps_gx_sid := Some g\<rparr>) s)" for g
      by (rule pgw_inv_set_sess [OF inv se]) (use pgw_inv_sess [OF inv se] in simp_all)
    then show ?thesis by (simp add: gx_session_def se None gx_new_state_def MAX_CC_REQUEST_NUMBER_def)
  next
    case (Some g)
    with fits se obtain d where "pg_gx_sessions s g = Some d"
      "ty \<noteq> OGS_DIAM_GX_CC_REQUEST_TYPE_INITIAL_REQUEST \<longrightarrow> unat (gs_cc_request_number d + 1) < MAX_CC_REQUEST_NUMBER"
      unfolding gx_fits_def by blast
    then show ?thesis using pgw_invD(11) [OF inv] by (auto simp: gx_session_def se Some inv pg_rest_ok_def)
  qed
qed

lemma pgw_inv_gx_stored:
  "pgw_inv s \<Longrightarrow> length (gs_xact d) = MAX_CC_REQUEST_NUMBER \<Longrightarrow> length (gs_gtpbuf d) = MAX_CC_REQUEST_NUMBER \<Longrightarrow>
   pgw_inv (s\<lparr>pg_gx_sessions := (pg_gx_sessions s)(g \<mapsto> d), pg_ccr_sent := l\<rparr>)"
  by (auto simp: pgw_inv_def pgw_ctx_ok_def) (auto simp: pg_rest_ok_def)

lemma safe_send_ccr:
  assumes inv: "pgw_inv s" and x: "objs (pg_sesss s) x \<noteq> None" and fits: "gx_fits ty x s"
  shows "safe (pgw_gx_send_ccr E x xact body ty s) pgw_inv"
  unfolding pgw_gx_send_ccr_def
proof (intro vc_assert vc_deref x)
  fix se
  show "safe (ebind (gx_session E x s) (\<lambda>(g, d, s).
     let n = (if ty = OGS_DIAM_GX_CC_REQUEST_TYPE_INITIAL_REQUEST then 0 else gs_cc_request_number d + 1) in
     ebind (ogs_assert (unat n \<le> MAX_CC_REQUEST_NUMBER)) (\<lambda>_.
     ebind (array_write (gs_xact d) (unat n) (Some xact)) (\<lambda>xs.
     ebind (array_write (gs_gtpbuf d) (unat n) (Some body)) (\<lambda>bs.
     Inr (s\<lparr>pg_gx_sessions := (pg_gx_sessions s)(g \<mapsto> d\<lparr>gs_sess := x, gs_xact := xs, gs_gtpbuf := bs,
              gs_cc_request_type := ty, gs_cc_request_number := n\<rparr>),
            pg_ccr_sent := pg_ccr_sent s @ [(g, n, ty)]\<rparr>)))))) pgw_inv"
    by (rule vc_bind [OF safe_gx_session [OF inv x fits]])
      (auto simp: Let_def MAX_CC_REQUEST_NUMBER_def intro!: pgw_inv_gx_stored)
qed

end
