(* ===== verification/Pgw_Match.thy ===== *)
theory Pgw_Match
  imports Pgw_Path
begin

text \<open>
  What the functions of the packet gateway that read or write octets compute: the loops over an IPv6
  header end or do not, the masks of the filters, and the checksum of the router advertisement.
\<close>

subsection \<open>The IPv6 header\<close>

text \<open>No option at or after offset \<open>jp\<close> is a jumbo payload option of length zero.\<close>

definition jumbo_lengths :: "u8 list \<Rightarrow> nat \<Rightarrow> bool" where
  "jumbo_lengths buf jp \<longleftrightarrow>
     (\<forall>i \<ge> jp. i + 6 \<le> length buf \<longrightarrow> buf ! i = IP6OPT_JUMBO \<longrightarrow> word32 (drop (i + 2) buf) \<noteq> 0)"

lemma jumbo_lengths_mono: "jumbo_lengths buf jp \<Longrightarrow> jp \<le> k \<Longrightarrow> jumbo_lengths buf k"
  by (auto simp: jumbo_lengths_def)

lemma jumbo_loop_nonzero [simp]: "p \<noteq> endp \<Longrightarrow> jumbo_loop buf nxt p jp endp = Some (Inr endp)"
  by (simp add: jumbo_loop.simps)

lemma unat_ntohl_eq_0 [simp]: "unat (htonl x) = 0 \<longleftrightarrow> x = 0"
  by (metis htonl_0 htonl_htonl unat_eq_0)

lemma jumbo_loop_returns:
  assumes "jumbo_lengths buf jp"
  shows "\<exists>r. jumbo_loop buf nxt p jp endp = Some r"
  using assms
proof (induction "length buf - jp" arbitrary: jp rule: less_induct)
  case less
  show ?case
  proof (cases "p = endp \<and> nxt = 0 \<and> jp + 6 \<le> length buf")
    case False
    then show ?thesis
      by (subst jumbo_loop.simps) (auto simp: read32_def)
  next
    case True
    let ?l = "unat (ntohl (word32 (drop (jp + 2) buf)))"
    have next_jp: "\<exists>r. jumbo_loop buf nxt p k endp = Some r" if "jp < k" for k
      using less.hyps [of k] jumbo_lengths_mono [OF less.prems, of k] that True
        by (auto simp: diff_less_mono2)
    have "buf ! jp = IP6OPT_JUMBO \<Longrightarrow> ?l \<noteq> 0"
      using less.prems True by (simp add: jumbo_lengths_def)
    then show ?thesis
      using True next_jp by (subst jumbo_loop.simps) (auto simp: read32_def Let_def)
  qed
qed

text \<open>A jumbo payload option of length zero is looked at again and again.\<close>

definition jumbo_stuck :: "u8 list \<Rightarrow> u8 \<Rightarrow> nat \<Rightarrow> nat \<Rightarrow> nat \<Rightarrow> bool" where
  "jumbo_stuck buf nxt p jp endp \<longleftrightarrow> endp = p \<and> nxt = 0 \<and> jp + 6 \<le> length buf \<and> buf ! jp = IP6OPT_JUMBO
     \<and> word32 (drop (jp + 2) buf) = 0"

lemma jumbo_loop_stuck: "jumbo_loop buf nxt p jp endp = Some r \<Longrightarrow> \<not> jumbo_stuck buf nxt p jp endp"
proof (rule jumbo_loop.raw_induct [where P = "\<lambda>buf nxt p jp endp r. \<not> jumbo_stuck buf nxt p jp endp"])
  fix f :: "u8 list \<Rightarrow> u8 \<Rightarrow> nat \<Rightarrow> nat \<Rightarrow> nat \<Rightarrow> nat res option" and buf nxt p jp endp r
  assume IH: "\<And>buf nxt p jp endp r. f buf nxt p jp endp = Some r \<Longrightarrow> \<not> jumbo_stuck buf nxt p jp endp"
    and run: "(if p \<noteq> endp then Some (Inr endp)
      else if nxt \<noteq> 0 then Some (Inl Assert_Failed)
      else case read32 buf (jp + 2) of
        Inl e \<Rightarrow> Some (Inl e)
      | Inr l \<Rightarrow>
          let jp_len = unat (ntohl l); ty = buf ! jp in
          if ty = IP6OPT_JUMBO then f buf nxt p jp (p + jp_len)
          else if ty = 0 then f buf nxt p (jp + 1) endp
          else f buf nxt p (jp + 2 + jp_len) endp) = Some r"
  show "\<not> jumbo_stuck buf nxt p jp endp"
  proof
    assume stuck: "jumbo_stuck buf nxt p jp endp"
    then have "f buf nxt p jp endp = Some r"
      using run by (simp add: jumbo_stuck_def read32_def)
    then show False using IH stuck by blast
  qed
qed assumption

lemma decode_ipv6_header_None:
  "decode_ipv6_header buf = None \<longleftrightarrow> 7 \<le> length buf
     \<and> jumbo_loop buf (buf ! 6) IP6_HDR_LEN (IP6_HDR_LEN + 2) (IP6_HDR_LEN + unat (ntohs (word16 (drop 4 buf)))) = None"
  by (auto simp: decode_ipv6_header_def read16_def array_read_def Let_def split: option.splits)

subsection \<open>Checksum\<close>

text \<open>The sum of the words of an even number of octets.\<close>

fun wsum :: "u8 list \<Rightarrow> nat" where
  "wsum (a # b # bs) = unat a + 256 * unat b + wsum bs"
| "wsum _ = 0"

lemma wsum_append: "even (length xs) \<Longrightarrow> wsum (xs @ ys) = wsum xs + wsum ys"
  by (induction xs rule: wsum.induct) auto

lemma unat_u8: "unat (a::u8) < 256"
  using unsigned_less [of a, where ?'a = nat] by simp

lemma wsum_le: "2 * wsum bs \<le> 65535 * length bs"
proof (induction bs rule: wsum.induct)
  case (1 a b bs)
  then show ?case using unat_u8 [of a] unat_u8 [of b] by simp
qed auto

lemma unat_word16: "unat (word16 [a, b]) = unat a + 256 * unat b"
proof -
  have "word16 [a, b] = ucast a + push_bit 8 (ucast b)"
    using bit_imp_le_length [of a] by (subst disjunctive_add_eq_or) (fastforce simp: word16_def intro!: bit_word_eqI simp: bit_simps)+
  moreover have "unat a + 256 * unat b < 65536"
    using unat_u8 [of a] unat_u8 [of b] by simp
  ultimately show ?thesis
    by (simp add: push_bit_eq_mult unat_word_ariths unsigned_ucast_eq take_bit_nat_eq_self mult.commute)
qed

lemma cksum_sum_wsum:
  assumes "even (length bs)" and "unat acc + wsum bs < 2 ^ 32"
  shows "unat (cksum_sum bs acc) = unat acc + wsum bs"
  using assms
proof (induction bs acc rule: cksum_sum.induct)
  case (1 a b bs acc)
  then have "unat (acc + ucast (word16 [a, b])) = unat acc + (unat a + 256 * unat b)"
    by (simp add: unat_word_ariths unsigned_ucast_eq take_bit_nat_eq_self unat_word16)
  then show ?case using 1 by simp
qed auto

text \<open>Folding the carries leaves the sum modulo \<open>65535\<close>, never as zero.\<close>

definition fold16 :: "nat \<Rightarrow> nat" where
  "fold16 n = (if n = 0 then 0 else (n - 1) mod 65535 + 1)"

lemma carries_fold16:
  assumes "n < 2 ^ 32" and a: "a = n div 65536 + n mod 65536"
  shows "(a + a div 65536) mod 65536 = fold16 n"
proof (cases "n = 0")
  case False
  have n: "n = 65536 * (n div 65536) + n mod 65536" by simp
  have "a < 131071" "0 < a" using assms False n by (auto simp: a less_Suc_eq_le intro!: gr0I)
  have "n - 1 = a - 1 + 65535 * (n div 65536)" using n False \<open>0 < a\<close> a by linarith
  then have m: "(n - 1) mod 65535 = (a - 1) mod 65535" by (simp only: mod_mult_self2)
  show ?thesis
  proof (cases "a < 65536")
    case True
    then show ?thesis using m \<open>0 < a\<close> False by (simp add: fold16_def)
  next
    case a_ge: False
    then have "(a - 1) mod 65535 = a - 65536" using \<open>a < 131071\<close> by (simp add: mod_if)
    moreover have "a div 65536 = 1" "(a + 1) mod 65536 = a - 65536 + 1"
      using \<open>a < 131071\<close> a_ge by (auto simp: mod_if)
    ultimately show ?thesis using m a_ge \<open>a < 131071\<close> False by (simp add: fold16_def)
  qed
qed (simp add: fold16_def a)

lemma fold16_complement:
  assumes "0 < n"
  shows "fold16 (n + (65535 - fold16 n)) = 65535"
proof -
  have "n - 1 = 65535 * ((n - 1) div 65535) + (n - 1) mod 65535" "(n - 1) mod 65535 < 65535" by simp_all
  then have "n + (65535 - ((n - 1) mod 65535 + 1)) = 65535 * ((n - 1) div 65535) + 65535"
    using assms by linarith
  then have "n + (65535 - fold16 n) = 65535 * ((n - 1) div 65535) + 65535"
    using assms by (simp add: fold16_def)
  then show ?thesis by (simp add: fold16_def)
qed

lemma wsum_bytes16: "wsum (bytes16 c) = unat c"
  using unat_word16 [of "ucast c" "ucast (drop_bit 8 c)"] word16_bytes16' [of c] by (simp add: bytes16_def)

lemma unat_NOT16: "unat (NOT (x::u16)) = 65535 - unat x"
proof -
  have "NOT x = -1 - x" by (simp add: not_eq_complement)
  then show ?thesis using unat_sub [of x "-1"] by (simp add: unsigned_minus_1_eq_mask mask_eq_exp_minus_1)
qed

lemma in_cksum_wsum:
  assumes "even (length bs)" and "length bs < 65536"
  shows "unat (in_cksum bs) = 65535 - fold16 (wsum bs)"
proof -
  have le: "wsum bs < 2 ^ 32" using wsum_le [of bs] assms(2) by simp
  define a where "a = wsum bs div 65536 + wsum bs mod 65536"
  have s: "unat (cksum_sum bs 0) = wsum bs" using cksum_sum_wsum [of bs 0] assms(1) le by simp
  define y where "y = drop_bit 16 (cksum_sum bs 0) + (cksum_sum bs 0 AND 0xffff)"
  have y: "unat y = a"
  proof -
    have "cksum_sum bs 0 AND 0xffff = take_bit 16 (cksum_sum bs 0)" by (simp add: take_bit_eq_mask mask_eq_exp_minus_1)
    then show ?thesis
      using le by (simp add: y_def a_def unat_word_ariths s unsigned_drop_bit_eq unsigned_take_bit_eq drop_bit_eq_div take_bit_eq_mod)
  qed
  have "a + a div 65536 < 2 ^ 32" using le by (simp add: a_def)
  then have "unat (ucast (y + drop_bit 16 y) :: u16) = (a + a div 65536) mod 65536"
    using unsigned_less [of y, where ?'a = nat]
    by (simp add: unsigned_ucast_eq take_bit_eq_mod unat_word_ariths y unsigned_drop_bit_eq drop_bit_eq_div)
  then show ?thesis
    using carries_fold16 [OF le a_def] by (simp add: in_cksum_def Let_def unat_NOT16 y_def)
qed

subsection \<open>Properties\<close>

text \<open>
  (C20) The loop over the header of a downlink IPv6 packet ends for every buffer in which no jumbo
  payload option has length zero, whatever the other octets are.
\<close>

theorem ipv6_header_decoded:
  assumes "jumbo_lengths buf (IP6_HDR_LEN + 2)"
  shows "\<exists>r. decode_ipv6_header buf = Some r"
  using jumbo_loop_returns [OF assms, of "buf ! 6" IP6_HDR_LEN] decode_ipv6_header_None [of buf]
  by (metis not_None_eq)

theorem ipv6_header_decoded_witness:
  "decode_ipv6_header ([0x60, 0, 0, 0, 0, 8, 17, 64] @ replicate 40 0) = Some (Inr (17, 40))"
proof -
  have "jumbo_lengths ([0x60, 0, 0, 0, 0, 8, 17, 64] @ replicate 40 (0::u8)) (IP6_HDR_LEN + 2)"
    by (auto simp: jumbo_lengths_def IP6_HDR_LEN_def nth_Cons' nth_append)
  from ipv6_header_decoded [OF this] show ?thesis
    by (auto simp: decode_ipv6_header_def read16_def word16_def htons_def IP6_HDR_LEN_def ext_loop.simps Let_def
        nth_append
        take_bit_eq_mod push_bit_eq_mult drop_bit_eq_div)
qed

text \<open>
  (C38) The gateway never returns from a downlink IPv6 packet with a payload length of zero, a
  hop-by-hop header and in it a jumbo payload option of length zero.
\<close>

theorem jumbo_zero_hangs:
  assumes "48 \<le> length (pk_buf pkt)" and "pk_len pkt \<noteq> 0" and "drop_bit 4 (pk_buf pkt ! 0) = 6"
    and "pk_buf pkt ! 4 = 0" and "pk_buf pkt ! 5 = 0" and "pk_buf pkt ! 6 = 0"
    and "pk_buf pkt ! 42 = IP6OPT_JUMBO" and "take 4 (drop 44 (pk_buf pkt)) = [0, 0, 0, 0]"
  shows "gtpv1_tun_recv_cb E pkt s = None"
proof -
  let ?buf = "pk_buf pkt"
  have "word16 (drop 4 ?buf) = 0" "word32 (drop 44 ?buf) = 0"
    using assms(1,4,5,8) by (auto simp: word16_def word32_def take_Suc_conv_app_nth numeral_eq_Suc)
  then have "jumbo_stuck ?buf (?buf ! 6) IP6_HDR_LEN (IP6_HDR_LEN + 2) (IP6_HDR_LEN + unat (ntohs (word16 (drop 4 ?buf))))"
    using assms(1,6,7) by (simp add: jumbo_stuck_def IP6_HDR_LEN_def htons_def)
  then have "decode_ipv6_header ?buf = None"
    using jumbo_loop_stuck assms(1) by (fastforce simp: decode_ipv6_header_None)
  moreover have "?buf \<noteq> []" using assms(1) by auto
  ultimately show ?thesis
    using assms(2,3) by (simp add: gtpv1_tun_recv_cb_def pgw_bearer_find_by_packet_def view_packet_def ip_version_def array_read_def)
qed

theorem jumbo_zero_hangs_witness:
  "\<forall>E s. gtpv1_tun_recv_cb E
     \<lparr>pk_buf = [0x60, 0, 0, 0, 0, 0, 0, 64] @ replicate 32 0 @ [17, 0, 0xc2, 4, 0, 0, 0, 0] @ replicate 100 0, pk_len = 48\<rparr> s = None"
  by (intro allI jumbo_zero_hangs) (simp_all add: drop_bit_eq_div nth_append)

text \<open>
  (C21) The router advertisement carries the right checksum: an IPv6 header of forty octets and, after
  it, a message whose one's complement sum with the pseudo header is zero, for every source,
  destination and prefix.
\<close>

theorem router_advertisement_checksum:
  assumes "length src = 16" and "length dst = 16" and "length prefix = 16"
  shows "take 40 (router_advertisement src dst plen prefix) = ip6_header src dst
    \<and> length (router_advertisement src dst plen prefix) = 88
    \<and> in_cksum (nd_pseudo src dst @ drop 40 (router_advertisement src dst plen prefix)) = 0"
proof -
  let ?pre = "nd_pseudo src dst @ [134, 0]" and ?c = "in_cksum (nd_pseudo src dst @ nd_advert plen prefix)"
  define rest where "rest = drop 4 (nd_advert plen prefix)"
  have adv: "nd_advert plen prefix = [134, 0] @ [0, 0] @ rest" "length rest = 44" "length ?pre = 42"
    using assms by (simp_all add: nd_advert_def nd_pseudo_def rest_def)
  define n where "n = wsum ?pre + wsum rest"
  have sum0: "wsum (nd_pseudo src dst @ nd_advert plen prefix) = n"
    using wsum_append [of ?pre "[0, 0] @ rest"] adv by (simp add: n_def)
  have c: "unat ?c = 65535 - fold16 n"
    using adv sum0 by (subst in_cksum_wsum) simp_all
  have "wsum [134, 0] \<le> wsum ?pre" using wsum_append [of "nd_pseudo src dst" "[134, 0]"] adv(3) by simp
  then have n: "0 < n" by (simp add: n_def)
  have "wsum (?pre @ bytes16 ?c @ rest) = n + (65535 - fold16 n)"
    using adv c by (simp only: wsum_append wsum_bytes16 n_def append_assoc [symmetric]) (simp add: wsum_append wsum_bytes16)
  then have "in_cksum (?pre @ bytes16 ?c @ rest) = 0"
    using adv in_cksum_wsum [of "?pre @ bytes16 ?c @ rest"] fold16_complement [OF n] by (simp add: unat_eq_0)
  moreover have "router_advertisement src dst plen prefix = ip6_header src dst @ [134, 0] @ bytes16 ?c @ rest"
    by (simp add: router_advertisement_def poke_def Let_def adv)
  ultimately show ?thesis
    using assms adv by (simp add: ip6_header_def)
qed

theorem router_advertisement_checksum_witness:
  "in_cksum (nd_pseudo (replicate 16 0xfe) (replicate 16 0xab)
     @ drop 40 (router_advertisement (replicate 16 0xfe) (replicate 16 0xab) 64 (replicate 16 0x20))) = 0"
  using router_advertisement_checksum [of "replicate 16 0xfe" "replicate 16 0xab" "replicate 16 0x20" 64] by simp

end
