(* ===== verification/Pgw_User.thy ===== *)
theory Pgw_User
  imports Pgw_Safe Pgw_Match
begin

text \<open>
  The user plane of the packet gateway: which bearer a downlink packet is given to, stated against a
  reference that names sessions, filters and bearers without loops or pointers, and safety of both
  directions.
\<close>

subsection \<open>Packets whose headers lie in the buffer\<close>

text \<open>
  A packet of a known version, in a buffer large enough for the fields that are read: the fixed
  header and the ports, and for IPv6 the extension headers, which are followed up to the declared
  payload length and by at most one header beyond it. The declared length is not zero, the form a
  jumbo payload has.
\<close>

definition payload_length :: "u8 list \<Rightarrow> nat" where
  "payload_length buf = unat (ntohs (word16 (drop 4 buf)))"

definition packet_fits :: "u8 list \<Rightarrow> bool" where
  "packet_fits buf \<longleftrightarrow> 64 \<le> length buf
     \<and> (drop_bit 4 (buf ! 0) = 4 \<or> drop_bit 4 (buf ! 0) = 6 \<and> payload_length buf \<noteq> 0 \<and> payload_length buf + 2092 \<le> length buf)"

lemma safe_ext_loop:
  "endp + 2048 \<le> length buf \<Longrightarrow> p \<le> endp + 2048 \<Longrightarrow> safe (ext_loop buf nxt p endp) (\<lambda>(proto, q). q \<le> endp + 2048)"
proof (induction buf nxt p endp rule: ext_loop.induct)
  case (1 buf nxt p endp)
  have l: "unat (buf ! i) \<le> 255" for i using unat_u8 [of "buf ! i"] by simp
  show ?case
  proof (cases "p < endp")
    case True
    have le: "p + (8 * unat (buf ! (p + 1)) + 8) \<le> endp + 2048 \<and> p + 4 * (unat (buf ! (p + 1)) + 2) \<le> endp + 2048 \<and> p + 8 \<le> endp + 2048"
      using l [of "p + 1"] True by auto
    have r: "p + 1 < length buf" "p < length buf" using True 1(4) by simp_all
    consider "nxt \<in> {0, 43, 60, 135, 139, 140, 253, 254}" | "nxt = 44" | "nxt = 51"
      | "nxt \<notin> {0, 43, 60, 135, 139, 140, 253, 254}" "nxt \<noteq> 44" "nxt \<noteq> 51" by blast
    then show ?thesis
    proof cases
      case 1
      have "safe (ext_loop buf (buf ! p) (p + (8 * unat (buf ! (p + 1)) + 8)) endp) (\<lambda>(proto, q). q \<le> endp + 2048)"
        using "1.IH"(1) [OF True 1, of "buf ! (p + 1)" "buf ! p"] "1.prems" le by blast
      then show ?thesis
        using True 1 r by (subst ext_loop.simps) simp
    next
      case 2
      have "safe (ext_loop buf (buf ! p) (p + 8) endp) (\<lambda>(proto, q). q \<le> endp + 2048)"
        using "1.IH"(2) [OF True, of "buf ! p"] 2 "1.prems" le by simp
      then show ?thesis using True 2 r by (subst ext_loop.simps) simp
    next
      case 3
      have "safe (ext_loop buf (buf ! p) (p + 4 * (unat (buf ! (p + 1)) + 2)) endp) (\<lambda>(proto, q). q \<le> endp + 2048)"
        using "1.IH"(3) [OF True, of "buf ! (p + 1)" "buf ! p"] 3 "1.prems" le by simp
      then show ?thesis using True 3 r by (subst ext_loop.simps) simp
    next
      case 4
      then show ?thesis using True "1.prems" by (subst ext_loop.simps) simp
    qed
  qed (use 1(5) in \<open>simp add: ext_loop.simps\<close>)
qed

lemma unat_of_nat_le: "unat (of_nat p :: u16) \<le> p"
  by (simp add: unsigned_of_nat take_bit_nat_less_eq_self)

lemma ihl_le: "unat (ucast (take_bit 4 (b :: u8)) * 4 :: u16) \<le> 60"
proof -
  have "unat (take_bit 4 b) < 16" using take_bit_nat_less_exp [of 4 "unat b"] by (simp add: unsigned_take_bit_eq)
  then have "unat (ucast (take_bit 4 b) :: u16) < 16" by (simp add: unsigned_ucast_eq take_bit_nat_eq_self)
  then show ?thesis by (simp add: unat_word_ariths)
qed

text \<open>What is read of a packet: it is always returned, and its ports lie in the buffer.\<close>

lemma view_packet_ok:
  assumes "packet_fits buf"
  shows "\<exists>r. view_packet buf = Some r \<and> safe r (\<lambda>v. unat (iv_hlen v) + 4 \<le> length buf)"
proof (cases "drop_bit 4 (buf ! 0) = 4")
  case True
  have "buf \<noteq> []" using assms by (auto simp: packet_fits_def)
  then have "ip_version buf = Inr 4" using True by (simp add: ip_version_def)
  then show ?thesis
    using assms ihl_le [of "buf ! 0"] by (auto simp: view_packet_def packet_fits_def read_addr_def)
next
  case False
  then have v6: "drop_bit 4 (buf ! 0) = 6" and n: "payload_length buf \<noteq> 0" "payload_length buf + 2092 \<le> length buf" "64 \<le> length buf"
    using assms by (simp_all add: packet_fits_def)
  define endp where "endp = IP6_HDR_LEN + payload_length buf"
  have e: "IP6_HDR_LEN \<noteq> endp" "IP6_HDR_LEN \<le> endp + 2048" "endp + 2048 \<le> length buf" "endp + 2052 \<le> length buf"
    using n by (simp_all add: endp_def IP6_HDR_LEN_def)
  have "decode_ipv6_header buf = Some (ebind (ext_loop buf (buf ! 6) IP6_HDR_LEN endp) (\<lambda>(proto, p). Inr (proto, of_nat p)))"
    using n(3) e(1) by (simp add: decode_ipv6_header_def read16_def Let_def endp_def payload_length_def)
  moreover have "safe (ext_loop buf (buf ! 6) IP6_HDR_LEN endp) (\<lambda>(proto, q). unat (of_nat q :: u16) + 4 \<le> length buf)"
  proof (rule safe_mono2 [OF safe_ext_loop [OF e(3,2)]])
    fix q assume "q \<le> endp + 2048"
    then show "unat (of_nat q :: u16) + 4 \<le> length buf" using e(4) unat_of_nat_le [of q] by linarith
  qed
  moreover have "buf \<noteq> []" using n(3) by auto
  then have "ip_version buf = Inr 6" using v6 by (simp add: ip_version_def)
  ultimately show ?thesis
    using n(3) by (auto simp: view_packet_def read_addr_def case_prod_unfold)
qed

subsection \<open>Which bearer\<close>

text \<open>
  The reference: a packet matches a filter of the downlink direction whose masked addresses are those
  of the rule, whose protocol is the one of the rule or not named, and whose ports, for TCP and UDP,
  lie in the ranges of the rule.
\<close>

definition port_in :: "u16 \<Rightarrow> u16 \<Rightarrow> u16 \<Rightarrow> bool" where
  "port_in low high port \<longleftrightarrow> (low = 0 \<or> low \<le> port) \<and> (high = 0 \<or> port \<le> high)"

definition packet_port :: "u8 list \<Rightarrow> ip_view \<Rightarrow> nat \<Rightarrow> u16" where
  "packet_port buf v i = ntohs (word16 (drop (unat (iv_hlen v) + 2 * i) buf))"

definition filter_matches :: "u8 list \<Rightarrow> ip_view \<Rightarrow> pgw_pf \<Rightarrow> bool" where
  "filter_matches buf v pf \<longleftrightarrow>
     (let ru = f_rule pf; n = iv_words v in
      f_direction pf = 1
    \<and> addr_match n (iv_src v) (ru_local_mask ru) (ru_local_addr ru)
    \<and> addr_match n (iv_dst v) (ru_remote_mask ru) (ru_remote_addr ru)
    \<and> (ru_proto ru = 0 \<or> ru_proto ru = iv_proto v
        \<and> (ru_proto ru = PROTO_TCP \<or> ru_proto ru = PROTO_UDP \<longrightarrow>
             port_in (ru_local_low ru) (ru_local_high ru) (packet_port buf v 0)
           \<and> port_in (ru_remote_low ru) (ru_remote_high ru) (packet_port buf v 1))))"

text \<open>The bearer of a session: the first dedicated bearer that has an identity and a matching filter, or the default one.\<close>

definition the_bearer :: "pgw_state \<Rightarrow> index \<Rightarrow> pgw_bearer" where
  "the_bearer s b = the (objs (pg_bearers s) b)"

definition bearer_takes :: "u8 list \<Rightarrow> ip_view \<Rightarrow> pgw_state \<Rightarrow> index \<Rightarrow> bool" where
  "bearer_takes buf v s b \<longleftrightarrow> pb_ebi (the_bearer s b) \<noteq> 0
     \<and> (\<exists>f \<in> set (pb_pf_list (the_bearer s b)). filter_matches buf v (the (objs (pg_pfs s) f)))"

text \<open>The words of the address a session's pointer leads to.\<close>

definition ue_addr :: "pgw_state \<Rightarrow> ue_ip_ptr option \<Rightarrow> u32 list option" where
  "ue_addr s p = map_option (\<lambda>(i, k). uip_addr (sub_array (the (pg_subnets s i)) ! k)) p"

definition sess_takes :: "ip_view \<Rightarrow> pgw_state \<Rightarrow> index \<Rightarrow> bool" where
  "sess_takes v s x \<longleftrightarrow>
     (let se = the (objs (pg_sesss s) x) in
      addr_is (iv_words v) (iv_dst v) (ue_addr s (ps_ipv4 se)) \<or> addr_is (iv_words v) (iv_dst v) (ue_addr s (ps_ipv6 se)))"

definition sess_bearer_for :: "u8 list \<Rightarrow> ip_view \<Rightarrow> pgw_state \<Rightarrow> index \<Rightarrow> index" where
  "sess_bearer_for buf v s x =
     (let bs = ps_bearer_list (the (objs (pg_sesss s) x)) in
      case find (bearer_takes buf v s) (tl bs) of Some b \<Rightarrow> b | None \<Rightarrow> hd bs)"

definition packet_bearer :: "u8 list \<Rightarrow> ip_view \<Rightarrow> pgw_state \<Rightarrow> index option" where
  "packet_bearer buf v s = map_option (sess_bearer_for buf v s) (find (sess_takes v s) (pg_sess_list s))"

lemma port_ok_eq:
  assumes "off + 2 \<le> length buf"
  shows "port_ok buf off low high = Inr (port_in low high (ntohs (word16 (drop off buf))))"
  using assms by (auto simp: port_ok_def read16_def port_in_def Let_def)

lemma pf_match_eq:
  assumes "unat (iv_hlen v) + 4 \<le> length buf"
  shows "pf_match buf v pf = Inr (filter_matches buf v pf)"
  using assms by (auto simp: pf_match_def filter_matches_def Let_def port_ok_eq packet_port_def add.commute)

lemma pf_search_eq:
  assumes v: "unat (iv_hlen v) + 4 \<le> length buf"
  shows "\<forall>f \<in> set fs. objs (pg_pfs s) f \<noteq> None \<Longrightarrow>
    pf_search buf v fs s = Inr (map_option (\<lambda>f. the (objs (pg_pfs s) f)) (find (\<lambda>f. filter_matches buf v (the (objs (pg_pfs s) f))) fs))"
  by (induction fs) (auto simp: pf_match_eq [OF v])

lemma bearer_search_eq:
  assumes inv: "pgw_inv s" and v: "unat (iv_hlen v) + 4 \<le> length buf"
  shows "\<forall>b \<in> set bs. objs (pg_bearers s) b \<noteq> None \<Longrightarrow> bearer_search buf v bs s = Inr (find (bearer_takes buf v s) bs)"
proof (induction bs)
  case (Cons b bs)
  obtain be where be: "objs (pg_bearers s) b = Some be" using Cons.prems by auto
  have kids: "\<forall>f \<in> set (pb_pf_list be). \<exists>pf. objs (pg_pfs s) f = Some pf \<and> f_bearer pf = b"
    using pgw_inv_bearer [OF inv be] by blast
  let ?P = "\<lambda>f. filter_matches buf v (the (objs (pg_pfs s) f))"
  have fs: "pf_search buf v (pb_pf_list be) s = Inr (map_option (\<lambda>f. the (objs (pg_pfs s) f)) (find ?P (pb_pf_list be)))"
    by (rule pf_search_eq [OF v]) (use kids in auto)
  show ?case
  proof (cases "find ?P (pb_pf_list be)")
    case None
    then have "\<not> (\<exists>f \<in> set (pb_pf_list be). ?P f)" by (auto simp: find_None_iff)
    then have "\<not> bearer_takes buf v s b" by (simp add: bearer_takes_def the_bearer_def be)
    then show ?thesis using Cons None by (simp add: be fs)
  next
    case (Some f)
    then have f: "f \<in> set (pb_pf_list be)" "?P f" by (auto simp: find_Some_iff)
    then have "f_bearer (the (objs (pg_pfs s) f)) = b" using kids by auto
    moreover have "bearer_takes buf v s b \<longleftrightarrow> pb_ebi be \<noteq> 0" using f by (auto simp: bearer_takes_def the_bearer_def be)
    ultimately show ?thesis using Cons Some by (simp add: be fs)
  qed
qed simp

lemma read_ue_ip_eq:
  assumes "subnets_ok s" and "addr_ok (pg_subnets s) fam p"
  shows "read_ue_ip p s = Inr (ue_addr s p)"
proof (cases p)
  case (Some q)
  with assms(2) have "addr_ok (pg_subnets s) fam (Some q)" by simp
  with assms(1) show ?thesis
    by (rule addr_ok_read) (simp add: Some read_ue_ip_def ue_addr_def case_prod_unfold)
qed (simp add: read_ue_ip_def ue_addr_def)

lemma sess_search_eq:
  assumes inv: "pgw_inv s" and v: "unat (iv_hlen v) + 4 \<le> length buf"
  shows "\<forall>x \<in> set xs. objs (pg_sesss s) x \<noteq> None \<Longrightarrow> sess_search buf v xs s =
    (case find (sess_takes v s) xs of
       None \<Rightarrow> Inr None
     | Some x \<Rightarrow> if ps_bearer_list (the (objs (pg_sesss s) x)) = [] then Inl Assert_Failed else Inr (Some (sess_bearer_for buf v s x)))"
proof (induction xs)
  case (Cons x xs)
  obtain se where se: "objs (pg_sesss s) x = Some se" using Cons.prems by auto
  note sb = pgw_inv_sess [OF inv se]
  have addr: "read_ue_ip (ps_ipv4 se) s = Inr (ue_addr s (ps_ipv4 se))" "read_ue_ip (ps_ipv6 se) s = Inr (ue_addr s (ps_ipv6 se))"
    using sb pgw_invD(7) [OF inv] by (auto intro: read_ue_ip_eq)
  show ?case
  proof (cases "ps_bearer_list se")
    case Nil
    then show ?thesis using Cons by (simp add: se addr sess_takes_def Let_def)
  next
    case (Cons d bs)
    have "bearer_search buf v bs s = Inr (find (bearer_takes buf v s) bs)"
      by (rule bearer_search_eq [OF inv v]) (use sb Cons in auto)
    then show ?thesis
      using Cons Cons.IH Cons.prems by (simp add: se addr sess_takes_def sess_bearer_for_def Let_def split: option.split)
  qed
qed simp

lemma pgw_inv_sess_list: "pgw_inv s \<Longrightarrow> \<forall>x \<in> set (pg_sess_list s). objs (pg_sesss s) x \<noteq> None"
  using pgw_invD(10) [of s] by (auto simp: pg_list_ok_def)

lemma sess_bearer_live:
  assumes inv: "pgw_inv s" and x: "objs (pg_sesss s) x = Some se" and l: "ps_bearer_list se \<noteq> []"
  shows "sess_bearer_for buf v s x \<in> set (ps_bearer_list se)" "objs (pg_bearers s) (sess_bearer_for buf v s x) \<noteq> None"
proof -
  show in_list: "sess_bearer_for buf v s x \<in> set (ps_bearer_list se)"
    using l by (cases "ps_bearer_list se") (auto simp: sess_bearer_for_def Let_def x find_Some_iff split: option.split)
  then show "objs (pg_bearers s) (sess_bearer_for buf v s x) \<noteq> None" using pgw_inv_sess [OF inv x] by auto
qed

lemma find_by_packet_eq:
  assumes inv: "pgw_inv s" and fits: "packet_fits (pk_buf pkt)" "pk_len pkt \<noteq> 0"
    and v: "view_packet (pk_buf pkt) = Some (Inr v)"
    and bearers: "\<forall>x \<in> set (pg_sess_list s). ps_bearer_list (the (objs (pg_sesss s) x)) \<noteq> []"
  shows "pgw_bearer_find_by_packet pkt s = Some (Inr (packet_bearer (pk_buf pkt) v s))"
proof -
  have "unat (iv_hlen v) + 4 \<le> length (pk_buf pkt)" using view_packet_ok [OF fits(1)] v by auto
  note eq = sess_search_eq [OF inv this pgw_inv_sess_list [OF inv]]
  show ?thesis
  proof (cases "find (sess_takes v s) (pg_sess_list s)")
    case (Some x)
    then have "x \<in> set (pg_sess_list s)" by (auto simp: find_Some_iff)
    then show ?thesis using fits(2) v bearers Some by (simp add: pgw_bearer_find_by_packet_def eq packet_bearer_def)
  qed (use fits(2) v in \<open>simp add: pgw_bearer_find_by_packet_def eq packet_bearer_def\<close>)
qed

subsection \<open>Safety of the downlink\<close>

lemma pgw_inv_sent:
  assumes "pgw_inv s"
  shows "pgw_inv (s\<lparr>sent := l\<rparr>)"
proof (rule pgw_inv_more [OF assms])
  have "gtp_inv (s\<lparr>sent := l\<rparr>) = gtp_inv s" by (simp add: gtp_inv_def xact_inv_def)
  then show "gtp_inv (s\<lparr>sent := l\<rparr>)" using pgw_invD(1) [OF assms] by simp
qed simp_all

lemma safe_send_to_bearer:
  assumes inv: "pgw_inv s" and b: "objs (pg_bearers s) b \<noteq> None"
  shows "safe (pgw_gtp_send_to_bearer E b bytes s) (\<lambda>(rv, t). pgw_inv t \<and> pg_sesss t = pg_sesss s \<and> pg_subnets t = pg_subnets s)"
  unfolding pgw_gtp_send_to_bearer_def
proof (intro vc_assert vc_deref vc_non_null b)
  fix be g assume be: "objs (pg_bearers s) b = Some be" "pb_gnode be = Some g"
  then show g: "gnodes s g \<noteq> None" using pgw_inv_bearer [OF inv] by blast
  fix n
  show "safe (ogs_gtp_sendto E g (GTPv1U 0x30 OGS_GTPU_MSGTYPE_GPDU (htons (of_nat (length bytes))) (htonl (pb_sgw_s5u_teid be)) bytes) s)
      (\<lambda>(rv, t). pgw_inv t \<and> pg_sesss t = pg_sesss s \<and> pg_subnets t = pg_subnets s)"
    by (rule safe_sendto [OF pgw_invD(1) [OF inv] g]) (simp add: pgw_inv_sent [OF inv])
qed

lemma safe_sent_ok:
  assumes "pgw_inv s" and "objs (pg_bearers s) b \<noteq> None"
  shows "safe (ebind (pgw_gtp_send_to_bearer E b bytes s) (\<lambda>(rv, s). ebind (ogs_assert rv) (\<lambda>_. Inr s)))
    (\<lambda>t. pgw_inv t \<and> pg_sesss t = pg_sesss s \<and> pg_subnets t = pg_subnets s)"
  by (rule vc_bind2 [OF safe_send_to_bearer [OF assms]]) simp

lemma safe_multicast_each:
  "pgw_inv s \<Longrightarrow> \<forall>x \<in> set xs. objs (pg_sesss s) x \<noteq> None \<Longrightarrow> safe (multicast_each E bytes xs s) pgw_inv"
proof (induction xs)
  case (Cons x xs)
  have x: "objs (pg_sesss s) x \<noteq> None" using Cons.prems(2) by simp
  show ?case
    unfolding multicast_each.simps
  proof (intro vc_deref vc_if x)
    show "safe (ebind (ebind (pgw_default_bearer_in_sess x s) non_null) (\<lambda>b.
       ebind (pgw_gtp_send_to_bearer E b bytes s) (\<lambda>(rv, s). ebind (ogs_assert rv) (\<lambda>_. Inr s)))) pgw_inv"
      by (rule vc_bind [OF safe_pg_default_bearer [OF Cons.prems(1) x]]) (rule safe_mono [OF safe_sent_ok [OF Cons.prems(1)]], simp_all)
  qed (use Cons in auto)
qed simp

text \<open>A packet of the device: it is handled in the end, and safely.\<close>

lemma safe_tun_recv:
  assumes inv: "pgw_inv s" and fits: "pk_len pkt = 0 \<or> packet_fits (pk_buf pkt)"
  shows "\<exists>r. gtpv1_tun_recv_cb E pkt s = Some r \<and> safe r pgw_inv"
proof (cases "pk_len pkt = 0")
  case False
  then have pf: "packet_fits (pk_buf pkt)" using fits by simp
  then obtain m where m: "view_packet (pk_buf pkt) = Some m" "safe m (\<lambda>v. unat (iv_hlen v) + 4 \<le> length (pk_buf pkt))"
    using view_packet_ok by blast
  let ?found = "\<lambda>r. \<forall>b. r = Some b \<longrightarrow> objs (pg_bearers s) b \<noteq> None"
  have search: "safe (ebind m (\<lambda>v. sess_search (pk_buf pkt) v (pg_sess_list s) s)) ?found"
  proof (rule vc_bind [OF m(2)])
    fix v :: ip_view assume v: "unat (iv_hlen v) + 4 \<le> length (pk_buf pkt)"
    show "safe (sess_search (pk_buf pkt) v (pg_sess_list s) s) ?found"
    proof (cases "find (sess_takes v s) (pg_sess_list s)")
      case (Some x)
      then have "x \<in> set (pg_sess_list s)" by (auto simp: find_Some_iff)
      then obtain se where "objs (pg_sesss s) x = Some se" using pgw_inv_sess_list [OF inv] by auto
      then show ?thesis
        using Some sess_bearer_live(2) [OF inv] by (simp add: sess_search_eq [OF inv v pgw_inv_sess_list [OF inv]])
    qed (simp add: sess_search_eq [OF inv v pgw_inv_sess_list [OF inv]])
  qed
  have multi: "safe (if pe_multicast E then pgw_gtp_handle_multicast E pkt s else Inr s) pgw_inv"
  proof -
    have "64 \<le> length (pk_buf pkt)" using pf by (simp add: packet_fits_def)
    then have "safe (ip_version (pk_buf pkt)) (\<lambda>_. True)" "24 < length (pk_buf pkt)" by (auto simp: ip_version_def)
    then have "safe (pgw_gtp_handle_multicast E pkt s) pgw_inv"
      unfolding pgw_gtp_handle_multicast_def
      by (intro vc_bind [where P = "\<lambda>_. True"] vc_if) (simp_all add: inv safe_multicast_each [OF inv pgw_inv_sess_list [OF inv]])
    then show ?thesis using inv by simp
  qed
  have "safe (ebind (ebind m (\<lambda>v. sess_search (pk_buf pkt) v (pg_sess_list s) s)) (\<lambda>found.
      case found of Some b \<Rightarrow> ebind (pgw_gtp_send_to_bearer E b (take (pk_len pkt) (pk_buf pkt)) s) (\<lambda>(rv, s). ebind (ogs_assert rv) (\<lambda>_. Inr s))
      | None \<Rightarrow> if pe_multicast E then pgw_gtp_handle_multicast E pkt s else Inr s)) pgw_inv"
    by (rule vc_bind [OF search], rule vc_option, rule multi, rule safe_mono [OF safe_sent_ok [OF inv]], simp_all)
  then show ?thesis using False m(1) by (simp add: gtpv1_tun_recv_cb_def pgw_bearer_find_by_packet_def del: safe_ebind)
qed (simp add: gtpv1_tun_recv_cb_def inv)

subsection \<open>Safety of the uplink\<close>

lemma safe_ue_ip_dev:
  assumes inv: "pgw_inv s" and a: "addr_ok (pg_subnets s) fam (Some p)"
  shows "\<exists>ip sn. get_ue_ip (pg_subnets s) p = Inr ip \<and> uip_subnet ip = Some (fst p) \<and> pg_subnets s (fst p) = Some sn
     \<and> pg_devs s (sub_dev sn) \<noteq> None"
  using addr_ok_read [OF pgw_invD(7) [OF inv] a] pgw_invD(7) [OF inv] unfolding subnets_ok_def by metis

lemma safe_router_advertisement:
  assumes inv: "pgw_inv s" and x: "objs (pg_sesss s) x \<noteq> None"
  shows "safe (pgw_gtp_send_router_advertisement E x dst s) (\<lambda>t. pgw_inv t \<and> pg_subnets t = pg_subnets s)"
  unfolding pgw_gtp_send_router_advertisement_def
proof (rule vc_bind [OF safe_pg_default_bearer [OF inv x]], rule vc_deref, rule x, rule vc_non_null)
  fix b se p assume b: "objs (pg_bearers s) b \<noteq> None" and se: "objs (pg_sesss s) x = Some se" "ps_ipv6 se = Some p"
  then have "addr_ok (pg_subnets s) AF_INET6 (Some p)" using pgw_inv_sess [OF inv se(1)] by simp
  then obtain ip sn where ip: "get_ue_ip (pg_subnets s) p = Inr ip" "uip_subnet ip = Some (fst p)" "pg_subnets s (fst p) = Some sn"
    "pg_devs s (sub_dev sn) \<noteq> None"
    using safe_ue_ip_dev [OF inv] by blast
  have sn: "deref (pg_subnets s) (fst p) = Inr sn" using ip(3) by simp
  have send: "safe (ebind (pgw_gtp_send_to_bearer E b bytes s) (\<lambda>(rv, s). ebind (ogs_assert rv) (\<lambda>_. Inr s)))
      (\<lambda>t. pgw_inv t \<and> pg_subnets t = pg_subnets s)" for bytes
    by (rule safe_mono [OF safe_sent_ok [OF inv b]]) simp
  show "safe (ebind (get_ue_ip (pg_subnets s) p) (\<lambda>ip.
     ebind (non_null (uip_subnet ip)) (\<lambda>i. ebind (deref (pg_subnets s) i) (\<lambda>subnet.
     ebind (ogs_assert (sub_dev subnet \<noteq> 0)) (\<lambda>_. ebind (deref (pg_devs s) (sub_dev subnet)) (\<lambda>dev.
     ebind (non_null (pe_ipsubnet E ''fe80::1'' None)) (\<lambda>ll.
     let src = (case dev_link_local_addr dev of None \<Rightarrow> ips_sub ll | Some a \<Rightarrow> a) in
     ebind (pgw_gtp_send_to_bearer E b
         (router_advertisement (bytes_of src) dst (sub_prefixlen subnet) (bytes_of (ips_sub (sub_sub subnet)))) s)
       (\<lambda>(rv, s). ebind (ogs_assert rv) (\<lambda>_. Inr s)))))))))
     (\<lambda>t. pgw_inv t \<and> pg_subnets t = pg_subnets s)"
    unfolding ip(1) ebind_Inr ip(2) non_null_Some sn Let_def
    by (intro vc_assert vc_deref ip(4) vc_non_null send)
qed

lemma safe_slaac:
  assumes inv: "pgw_inv s" and x: "objs (pg_sesss s) x \<noteq> None" and n: "41 \<le> length (pk_buf pkt)"
  shows "safe (pgw_gtp_handle_slaac E x pkt s) (\<lambda>(h, t). pgw_inv t \<and> pg_subnets t = pg_subnets s)"
proof -
  obtain se where se: "objs (pg_sesss s) x = Some se" using x by auto
  have r: "ip_version (pk_buf pkt) = Inr (drop_bit 4 (pk_buf pkt ! 0))" "6 < length (pk_buf pkt)" "IP6_HDR_LEN < length (pk_buf pkt)"
    using n by (auto simp: ip_version_def IP6_HDR_LEN_def array_read_def)
  have ra: "safe (ebind (pgw_gtp_send_router_advertisement E x dst s) (\<lambda>s. Inr (True, s))) (\<lambda>(h, t). pgw_inv t \<and> pg_subnets t = pg_subnets s)" for dst
    by (rule vc_bind [OF safe_router_advertisement [OF inv x]]) simp
  show ?thesis
    unfolding pgw_gtp_handle_slaac_def r(1) ebind_Inr array_read_ok [OF r(2)] array_read_ok [OF r(3)] pg_sess_eq [OF se]
    by (intro vc_assert vc_if ra) (simp_all add: inv)
qed

lemma pgw_inv_tun_out: "pgw_inv s \<Longrightarrow> pgw_inv (s\<lparr>pg_tun_out := l\<rparr>)"
  by (simp add: pgw_inv_def pgw_ctx_ok_def)

lemma safe_uplink:
  assumes inv: "pgw_inv s" and b: "objs (pg_bearers s) b = Some be" and n: "41 \<le> length (pk_buf pkt)"
  shows "safe (pgw_uplink E b pkt s) pgw_inv"
proof -
  obtain se where se: "objs (pg_sesss s) (pb_sess be) = Some se" using pgw_inv_bearer_sess [OF inv b] by auto
  have v: "ip_version (pk_buf pkt) = Inr (drop_bit 4 (pk_buf pkt ! 0))" using n by (auto simp: ip_version_def array_read_def)
  note sb = pgw_inv_sess [OF inv se]
  have subnet: "safe (uplink_subnet v se s) (\<lambda>r. \<forall>i. r = Some i \<longrightarrow> pg_subnets s i \<noteq> None)" for v
  proof -
    have "safe (get_ue_ip (pg_subnets s) p) (\<lambda>ip. \<forall>i. uip_subnet ip = Some i \<longrightarrow> pg_subnets s i \<noteq> None)"
      if "addr_ok (pg_subnets s) fam (Some p)" for p fam
      using safe_ue_ip_dev [OF inv that] by auto
    then show ?thesis using sb by (auto simp: uplink_subnet_def split: option.split)
  qed
  have slaac: "safe (if \<not> pe_no_slaac E \<and> w = 6 then pgw_gtp_handle_slaac E (pb_sess be) pkt s else Inr (False, s))
      (\<lambda>(h, t). pgw_inv t \<and> pg_subnets t = pg_subnets s)" for w :: u8
    using safe_slaac [OF inv _ n, of "pb_sess be"] se inv by simp
  show ?thesis
    unfolding pgw_uplink_def pg_bearer_eq [OF b] ebind_Inr pg_sess_eq [OF se] v
  proof (intro vc_assert vc_bind [OF subnet] vc_option vc_bind2 [OF slaac] vc_if vc_deref)
    fix r i h t subnet
    assume "\<forall>i. r = Some i \<longrightarrow> pg_subnets s i \<noteq> None" "r = Some i" "pgw_inv t \<and> pg_subnets t = pg_subnets s"
    then show "pg_subnets t i \<noteq> None" by simp
  qed (auto simp: inv pgw_inv_tun_out)
qed

lemma safe_gtpv1_u_recv:
  assumes inv: "pgw_inv s" and n: "pk_len pkt = 0 \<or> 64 \<le> length (pk_buf pkt)"
  shows "safe (pg_gtpv1_u_recv_cb E pkt s) pgw_inv"
proof (cases "pk_len pkt = 0")
  case False
  then have len: "0 < length (pk_buf pkt)" "4 + 4 \<le> length (pk_buf pkt)" "64 \<le> length (pk_buf pkt)" using n by auto
  have found: "safe (pgw_bearer_find_by_pgw_s5u_teid teid s) (\<lambda>r. \<forall>b. r = Some b \<longrightarrow> objs (pg_bearers s) b \<noteq> None)" for teid
    by (auto simp: pgw_bearer_find_by_pgw_s5u_teid_def pgw_bearer_find_def)
  have up: "safe (pgw_uplink E b \<lparr>pk_buf = drop l (pk_buf pkt), pk_len = m\<rparr> s) pgw_inv"
    if "l = OGS_GTPV1U_HEADER_LEN + (if c then 4 else 0)" "objs (pg_bearers s) b \<noteq> None" for b l m c
    using that len(3) safe_uplink [OF inv] by (auto simp: OGS_GTPV1U_HEADER_LEN_def split: if_splits)
  show ?thesis
    unfolding pg_gtpv1_u_recv_cb_def if_not_P [OF False] array_read_ok [OF len(1)] ebind_Inr read32_def if_P [OF len(2)] Let_def
    by (intro vc_assert vc_bind [OF found] vc_option up [OF refl]) (use inv in auto)
qed (simp add: pg_gtpv1_u_recv_cb_def inv)

end
