(* ===== verification/Pgw_System.thy ===== *)
theory Pgw_System
  imports Pgw_Handlers Pgw_User
begin

text \<open>
  The packet gateway as a whole: safety of its state machine and of its callbacks, and the runs that
  they make up.
\<close>

subsection \<open>Callbacks of the Gx interface\<close>

lemma pgw_inv_queue: "pgw_inv (s\<lparr>pg_queue := l\<rparr>) = pgw_inv s"
  by (simp add: pgw_inv_def pgw_ctx_ok_def)

lemma safe_pgw_event_push: "pgw_inv s \<Longrightarrow> safe (pgw_event_push E e s) (\<lambda>t. pgw_inv t \<and> pg_gx_sessions t = pg_gx_sessions s)"
  by (simp add: pgw_event_push_def pgw_inv_queue)

text \<open>
  What an answer or a request of the policy function has to satisfy: its rules fit the array of the
  message and their flows the array of a rule. The number of definitions and of names is counted over
  the whole message.
\<close>

definition flows_in :: "avp \<Rightarrow> nat" where
  "flows_in a = length (filter (\<lambda>c. avp_code c = AVP_FLOW_INFORMATION) (avp_children a))"

definition rules_in :: "u32 \<Rightarrow> u32 \<Rightarrow> avp list \<Rightarrow> avp list" where
  "rules_in grp code as =
     concat (map (\<lambda>a. filter (\<lambda>c. avp_code c = code) (avp_children a)) (filter (\<lambda>a. avp_code a = grp) as))"

definition rules_fit :: "pgw_env \<Rightarrow> avp list \<Rightarrow> bool" where
  "rules_fit E as \<longleftrightarrow>
     length (rules_in AVP_CHARGING_RULE_INSTALL AVP_CHARGING_RULE_DEFINITION as)
       + length (rules_in AVP_CHARGING_RULE_REMOVE AVP_CHARGING_RULE_NAME as) \<le> OGS_MAX_NUM_OF_PCC_RULE
   \<and> (\<forall>a \<in> set (rules_in AVP_CHARGING_RULE_INSTALL AVP_CHARGING_RULE_DEFINITION as). flows_in a \<le> pe_max_flow E)"

lemma safe_decode_each:
  "length (pr_flow r) + length (filter (\<lambda>c. avp_code c = AVP_FLOW_INFORMATION) as) \<le> n \<Longrightarrow> safe (decode_each n as r e) (\<lambda>_. True)"
proof (induction n as r e rule: decode_each.induct)
  case (2 n a as r e)
  show ?case
    by (cases "decode_qos (avp_children a) (pr_qos r)") (use 2 in \<open>auto split: if_splits\<close>)
qed simp

lemma safe_decode_rule: "flows_in a \<le> n \<Longrightarrow> safe (decode_pcc_rule_definition n a) (\<lambda>_. True)"
  unfolding decode_pcc_rule_definition_def by (rule safe_decode_each) (simp add: flows_in_def zero_pcc_rule_def)

lemma safe_install_avps:
  "length (gx_pcc_rule (fst ge)) + length (filter (\<lambda>c. avp_code c = AVP_CHARGING_RULE_DEFINITION) as) \<le> OGS_MAX_NUM_OF_PCC_RULE \<Longrightarrow>
   \<forall>a \<in> set (filter (\<lambda>c. avp_code c = AVP_CHARGING_RULE_DEFINITION) as). flows_in a \<le> pe_max_flow E \<Longrightarrow>
   safe (install_avps E as ge) (\<lambda>ge'. length (gx_pcc_rule (fst ge'))
     = length (gx_pcc_rule (fst ge)) + length (filter (\<lambda>c. avp_code c = AVP_CHARGING_RULE_DEFINITION) as))"
proof (induction as arbitrary: ge)
  case (Cons a as)
  show ?case
  proof (cases "avp_code a = AVP_CHARGING_RULE_DEFINITION")
    case True
    have "flows_in a \<le> pe_max_flow E" using Cons.prems(2) True by simp
    note dec = safe_decode_rule [OF this]
    have lt: "length (gx_pcc_rule (fst ge)) < OGS_MAX_NUM_OF_PCC_RULE" using Cons.prems(1) True by simp
    show ?thesis
      unfolding install_avps.simps if_P [OF True] if_P [OF lt]
    proof (rule vc_any2 [OF dec])
      fix r e
      have "safe (install_avps E as ((fst ge)\<lparr>gx_pcc_rule := gx_pcc_rule (fst ge) @ [r\<lparr>pr_type := OGS_PCC_RULE_TYPE_INSTALL\<rparr>]\<rparr>, e))
        (\<lambda>ge'. length (gx_pcc_rule (fst ge')) = length (gx_pcc_rule (fst ge)) + 1 + length (filter (\<lambda>c. avp_code c = AVP_CHARGING_RULE_DEFINITION) as))"
        using Cons.IH [of "((fst ge)\<lparr>gx_pcc_rule := gx_pcc_rule (fst ge) @ [r\<lparr>pr_type := OGS_PCC_RULE_TYPE_INSTALL\<rparr>]\<rparr>, e)"] Cons.prems True
        by simp
      then show "safe (install_avps E as ((fst ge)\<lparr>gx_pcc_rule := gx_pcc_rule (fst ge) @ [r\<lparr>pr_type := OGS_PCC_RULE_TYPE_INSTALL\<rparr>]\<rparr>, e))
        (\<lambda>ge'. length (gx_pcc_rule (fst ge')) = length (gx_pcc_rule (fst ge)) + length (filter (\<lambda>c. avp_code c = AVP_CHARGING_RULE_DEFINITION) (a # as)))"
        by (rule safe_mono) (use True in simp)
    qed
  qed (use Cons in simp)
qed simp

lemma safe_remove_avps:
  "length (gx_pcc_rule gx) + length (filter (\<lambda>c. avp_code c = AVP_CHARGING_RULE_NAME) as) \<le> OGS_MAX_NUM_OF_PCC_RULE \<Longrightarrow>
   safe (remove_avps as gx) (\<lambda>gx'. length (gx_pcc_rule gx')
     = length (gx_pcc_rule gx) + length (filter (\<lambda>c. avp_code c = AVP_CHARGING_RULE_NAME) as))"
proof (induction as arbitrary: gx)
  case (Cons a as)
  show ?case
    using Cons.prems Cons.IH [of gx]
      Cons.IH [of "gx\<lparr>gx_pcc_rule := gx_pcc_rule gx @ [zero_pcc_rule\<lparr>pr_name := Some (c_string (avp_os a)), pr_type := OGS_PCC_RULE_TYPE_REMOVE\<rparr>]\<rparr>"]
    by auto
qed simp

lemma safe_cca_rules:
  "length (gx_pcc_rule (fst ge)) + length (rules_in AVP_CHARGING_RULE_INSTALL AVP_CHARGING_RULE_DEFINITION as) \<le> OGS_MAX_NUM_OF_PCC_RULE \<Longrightarrow>
   \<forall>a \<in> set (rules_in AVP_CHARGING_RULE_INSTALL AVP_CHARGING_RULE_DEFINITION as). flows_in a \<le> pe_max_flow E \<Longrightarrow>
   safe (cca_rules E as ge) (\<lambda>_. True)"
proof (induction as arbitrary: ge)
  case (Cons a as)
  show ?case
  proof (cases "avp_code a = AVP_CHARGING_RULE_INSTALL")
    case True
    have "safe (install_avps E (avp_children a) ge) (\<lambda>ge'. length (gx_pcc_rule (fst ge'))
       = length (gx_pcc_rule (fst ge)) + length (filter (\<lambda>c. avp_code c = AVP_CHARGING_RULE_DEFINITION) (avp_children a)))"
      by (rule safe_install_avps) (use Cons.prems True in \<open>auto simp: rules_in_def\<close>)
    then show ?thesis
      unfolding cca_rules.simps if_P [OF True]
      by (rule vc_bind) (rule Cons.IH, use Cons.prems True in \<open>auto simp: rules_in_def\<close>)
  qed (use Cons in \<open>simp add: rules_in_def\<close>)
qed simp

lemma safe_rar_rules:
  "length (gx_pcc_rule gx) + length (rules_in AVP_CHARGING_RULE_INSTALL AVP_CHARGING_RULE_DEFINITION as)
     + length (rules_in AVP_CHARGING_RULE_REMOVE AVP_CHARGING_RULE_NAME as) \<le> OGS_MAX_NUM_OF_PCC_RULE \<Longrightarrow>
   \<forall>a \<in> set (rules_in AVP_CHARGING_RULE_INSTALL AVP_CHARGING_RULE_DEFINITION as). flows_in a \<le> pe_max_flow E \<Longrightarrow>
   safe (rar_rules E as gx) (\<lambda>_. True)"
proof (induction as arbitrary: gx)
  case (Cons a as)
  consider "avp_code a = AVP_CHARGING_RULE_INSTALL" | "avp_code a = AVP_CHARGING_RULE_REMOVE"
    | "avp_code a \<noteq> AVP_CHARGING_RULE_INSTALL" "avp_code a \<noteq> AVP_CHARGING_RULE_REMOVE" by blast
  then show ?case
  proof cases
    case 1
    have "safe (install_avps E (avp_children a) (gx, 0)) (\<lambda>(gx', e). length (gx_pcc_rule gx')
       = length (gx_pcc_rule gx) + length (filter (\<lambda>c. avp_code c = AVP_CHARGING_RULE_DEFINITION) (avp_children a)))"
      using safe_install_avps [of "(gx, 0)" "avp_children a" E] Cons.prems 1 by (simp add: rules_in_def case_prod_unfold)
    then show ?thesis
      unfolding rar_rules.simps if_P [OF 1]
      by (rule vc_bind2) (rule Cons.IH, use Cons.prems 1 in \<open>auto simp: rules_in_def\<close>)
  next
    case 2
    have "safe (remove_avps (avp_children a) gx) (\<lambda>gx'. length (gx_pcc_rule gx')
       = length (gx_pcc_rule gx) + length (filter (\<lambda>c. avp_code c = AVP_CHARGING_RULE_NAME) (avp_children a)))"
      by (rule safe_remove_avps) (use Cons.prems 2 in \<open>auto simp: rules_in_def\<close>)
    then have "safe (ebind (remove_avps (avp_children a) gx) (rar_rules E as)) (\<lambda>_. True)"
      by (rule vc_bind) (rule Cons.IH, use Cons.prems 2 in \<open>auto simp: rules_in_def\<close>)
    then show ?thesis using 2 by (simp del: safe_ebind)
  next
    case 3
    then show ?thesis using Cons by (simp add: rules_in_def)
  qed
qed simp

lemma cca_qos_rules: "gx_pcc_rule (cca_qos as gx) = gx_pcc_rule gx"
  by (simp add: cca_qos_def Let_def split: option.split)

lemma safe_cca_message: "rules_fit E as \<Longrightarrow> safe (cca_message E as) (\<lambda>_. True)"
  unfolding cca_message_def Let_def
  by (auto simp: cca_qos_rules zero_gx_message_def rules_fit_def split: prod.split option.split intro!: safe_cca_rules)

text \<open>
  Besides, the session of the Gx session is still there, and so is the transaction the answer is for:
  the callbacks read both through pointers that are kept while the policy function works.
\<close>

definition request_fits :: "pgw_env \<Rightarrow> index \<Rightarrow> avp list \<Rightarrow> pgw_state \<Rightarrow> bool" where
  "request_fits E g as s \<longleftrightarrow> rules_fit E as
     \<and> (\<forall>d. pg_gx_sessions s g = Some d \<longrightarrow> objs (pg_sesss s) (gs_sess d) \<noteq> None)"

definition answer_fits :: "pgw_env \<Rightarrow> index \<Rightarrow> avp list \<Rightarrow> pgw_state \<Rightarrow> bool" where
  "answer_fits E g as s \<longleftrightarrow> request_fits E g as s
     \<and> (\<forall>d a. pg_gx_sessions s g = Some d \<longrightarrow> avp_search AVP_CC_REQUEST_NUMBER as = Some a \<longrightarrow>
          unat (avp_u32 a) < MAX_CC_REQUEST_NUMBER \<and> (\<forall>x. gs_xact d ! unat (avp_u32 a) = Some x \<longrightarrow> xacts s x \<noteq> None))"

lemma pgw_inv_gx_freed: "pgw_inv s \<Longrightarrow> pgw_inv (s\<lparr>pg_gx_sessions := (pg_gx_sessions s)(g := None)\<rparr>)"
  by (auto simp: pgw_inv_def pgw_ctx_ok_def) (auto simp: pg_rest_ok_def)

lemma safe_cca_cb:
  assumes inv: "pgw_inv s" and fits: "answer_fits E g as s"
  shows "safe (pgw_gx_cca_cb E g as s) pgw_inv"
  unfolding pgw_gx_cca_cb_def Let_def
proof (rule vc_non_null, rule vc_non_null)
  fix d na assume d: "pg_gx_sessions s g = Some d" and na: "avp_search AVP_CC_REQUEST_NUMBER as = Some na"
  define n where "n = avp_u32 na"
  have "unat n < MAX_CC_REQUEST_NUMBER" using fits d na by (simp add: answer_fits_def n_def)
  then have n: "unat n < length (gs_xact d)" "unat n < length (gs_gtpbuf d)"
    using pgw_invD(11) [OF inv] d by (auto simp: pg_rest_ok_def)
  have rules: "rules_fit E as" and sess: "objs (pg_sesss s) (gs_sess d) \<noteq> None"
    using fits d by (simp_all add: answer_fits_def request_fits_def)
  have xact: "xacts s x \<noteq> None" if "gs_xact d ! unat n = Some x" for x
    using fits d na that by (simp add: answer_fits_def n_def)
  have push: "safe (if e = (0::nat) then ebind (pg_sess s (gs_sess d)) (\<lambda>_. ebind (deref (xacts s) x) (\<lambda>_. pgw_event_push E ev s)) else Inr s) pgw_inv"
    if "gs_xact d ! unat n = Some x" for e x ev
    using safe_mono [OF safe_pgw_event_push [OF inv]] inv sess xact [OF that] by auto
  show "safe (ebind (ebind (array_read (gs_xact d) (unat (avp_u32 na))) non_null) (\<lambda>xact.
     ebind (ogs_assert (gs_sess d \<noteq> 0)) (\<lambda>_.
     ebind (ebind (array_read (gs_gtpbuf d) (unat (avp_u32 na))) non_null) (\<lambda>body.
     ebind (cca_message E as) (\<lambda>(gx, e).
     ebind (if e = 0 then ebind (pg_sess s (gs_sess d)) (\<lambda>_. ebind (deref (xacts s) xact) (\<lambda>_.
         pgw_event_push E (PGW_EVT_GX_MESSAGE (gs_sess d) xact (Some body) gx) s)) else Inr s) (\<lambda>s.
     Inr (if gs_cc_request_type d = OGS_DIAM_GX_CC_REQUEST_TYPE_TERMINATION_REQUEST \<and> gs_cc_request_number d \<le> avp_u32 na
          then s\<lparr>pg_gx_sessions := (pg_gx_sessions s)(g := None)\<rparr> else s)))))) ) pgw_inv"
    unfolding n_def [symmetric] array_read_ok [OF n(1)] array_read_ok [OF n(2)] ebind_Inr
    by (intro vc_non_null vc_assert vc_any2 [OF safe_cca_message [OF rules]] vc_bind [OF push]) (simp_all add: pgw_inv_gx_freed)
qed

lemma safe_rar_cb:
  assumes inv: "pgw_inv s" and fits: "request_fits E g as s"
  shows "safe (pgw_gx_rar_cb E g as s) pgw_inv"
proof -
  have "rules_fit E as" using fits by (simp add: request_fits_def)
  then have rules: "safe (rar_rules E as (zero_gx_message\<lparr>gx_cmd_code := OGS_DIAM_GX_CMD_RE_AUTH\<rparr>)) (\<lambda>_. True)"
    by (intro safe_rar_rules) (simp_all add: rules_fit_def zero_gx_message_def)
  show ?thesis
    unfolding pgw_gx_rar_cb_def
  proof (intro vc_option vc_assert)
    fix d assume "pg_gx_sessions s g = Some d"
    then obtain se where se: "objs (pg_sesss s) (gs_sess d) = Some se" using fits by (auto simp: request_fits_def)
    show "safe (ebind (rar_rules E as (zero_gx_message\<lparr>gx_cmd_code := OGS_DIAM_GX_CMD_RE_AUTH\<rparr>)) (\<lambda>gx.
       ebind (pg_sess s (gs_sess d)) (\<lambda>_. pgw_event_push E (PGW_EVT_GX_MESSAGE (gs_sess d) 0 None gx) s))) pgw_inv"
      unfolding pg_sess_eq [OF se] ebind_Inr
      by (intro vc_bind [OF rules] safe_mono [OF safe_pgw_event_push [OF inv]]) simp
  qed (simp add: inv)
qed

subsection \<open>The state machine\<close>

lemma safe_pg_receive:
  assumes E: "pgw_env_ok E" and inv: "pgw_inv s" and g: "pnode_ok s g"
  shows "safe (ogs_gtp_xact_receive E (nptr g) ty sqn s) (\<lambda>(rv, x, t). pgrows {} s t \<and> xacts t x \<noteq> None)"
proof (cases g)
  case None
  then show ?thesis by (simp add: nptr_def ogs_gtp_xact_receive_def ogs_gtp_xact_find_by_xid_def)
next
  case (Some h)
  have "safe (ogs_gtp_xact_receive E h ty sqn s) (\<lambda>(rv, x, t). gtp_keeps {} s t \<and> xacts t x \<noteq> None)"
    using g Some by (intro safe_receive [OF pgw_env_okD(1) [OF E] pgw_invD(1) [OF inv]]) simp
  then show ?thesis
    unfolding Some nptr_def option.case by (rule safe_mono) (use pgrows_gtp [OF inv] in fastforce)
qed

text \<open>
  What a message has to satisfy. One without a TEID opens a session: its identity and access point
  name fit their arrays, and the slots of the sessions hold no address of a family the type does not
  ask for and no Gx session, which a new session would keep. A Create Session Request has the octets
  that are read of it, and the session data of the session is there for the request it leads to.
\<close>

definition opens_fits :: "pgw_env \<Rightarrow> s5_create_session_request \<Rightarrow> pgw_state \<Rightarrow> bool" where
  "opens_fits E req s \<longleftrightarrow>
     (\<forall>imsi. scq_imsi req = Some imsi \<longrightarrow> length imsi \<le> pe_max_imsi_len E)
   \<and> (\<forall>a. scq_access_point_name req = Some a \<longrightarrow> length (pe_fqdn_parse E a) < pe_max_apn_len E)
   \<and> (\<forall>t. scq_pdn_type req = Some t \<longrightarrow> clean_sess t s)"

fun body_fits :: "pgw_env \<Rightarrow> index \<Rightarrow> s5_body \<Rightarrow> pgw_state \<Rightarrow> bool" where
  "body_fits E x (S5_Create_Session_Request req) s \<longleftrightarrow>
     create_fits E req \<and> gx_fits OGS_DIAM_GX_CC_REQUEST_TYPE_INITIAL_REQUEST x s"
| "body_fits E x (S5_Delete_Session_Request req) s \<longleftrightarrow> gx_fits OGS_DIAM_GX_CC_REQUEST_TYPE_TERMINATION_REQUEST x s"
| "body_fits E x _ s \<longleftrightarrow> True"

definition message_fits :: "pgw_env \<Rightarrow> s5_message \<Rightarrow> pgw_state \<Rightarrow> bool" where
  "message_fits E m s \<longleftrightarrow> body_fits E (sm_teid m) (sm_body m) s
     \<and> (sm_teid m = 0 \<longrightarrow> opens_fits E (as_create_request E (sm_body m)) s)"

lemma body_fits_grows:
  assumes "body_fits E x body s" and "pgrows D s t" and "objs (pg_sesss s) x \<noteq> None"
  shows "body_fits E x body t"
  using assms gx_fits_grows by (cases body) auto

lemma gx_fits_new: "objs (pg_sesss s) x = Some se \<Longrightarrow> ps_gx_sid se = None \<Longrightarrow> gx_fits ty x s"
  by (simp add: gx_fits_def)

lemma body_fits_new:
  assumes "body_fits E y body s" and "objs (pg_sesss t) x = Some se" and "ps_gx_sid se = None"
  shows "body_fits E x body t"
  using assms gx_fits_new by (cases body) auto

lemma safe_sess_by_message:
  assumes E: "pgw_env_ok E" and inv: "pgw_inv s" and fits: "opens_fits E (as_create_request E body) s"
  shows "safe (pgw_sess_add_by_message E body s) (\<lambda>(r, t). \<forall>x. r = Some x \<longrightarrow>
     pgw_inv t \<and> (\<forall>g. gnodes s g \<noteq> None \<longrightarrow> gnodes t g \<noteq> None) \<and> (\<exists>se. objs (pg_sesss t) x = Some se \<and> ps_gx_sid se = None))"
  unfolding pgw_sess_add_by_message_def Let_def
proof (intro vc_option)
  let ?req = "as_create_request E body"
  fix imsi a bc e t
  assume imsi: "scq_imsi ?req = Some imsi" and a: "scq_access_point_name ?req = Some a" and t: "scq_pdn_type ?req = Some t"
  have len: "length imsi \<le> pe_max_imsi_len E" "length (pe_fqdn_parse E a) < pe_max_apn_len E" and clean: "clean_sess t s"
    using fits imsi a t by (simp_all add: opens_fits_def)
  have copy: "strcpy (pe_max_apn_len E) (pe_fqdn_parse E a) = Inr (pe_fqdn_parse E a)" using len(2) by (simp add: strcpy_def)
  show "safe (ebind (strcpy (pe_max_apn_len E) (pe_fqdn_parse E a)) (\<lambda>a. ebind (pgw_sess_add E imsi a t e s) (\<lambda>(x, s). Inr (Some x, s))))
     (\<lambda>(r, t). \<forall>x. r = Some x \<longrightarrow> pgw_inv t \<and> (\<forall>g. gnodes s g \<noteq> None \<longrightarrow> gnodes t g \<noteq> None)
       \<and> (\<exists>se. objs (pg_sesss t) x = Some se \<and> ps_gx_sid se = None))"
    unfolding copy ebind_Inr
  proof (rule vc_bind2 [OF sess_add_pg_spec [OF E pgw_invD(7) [OF inv] clean len(1)]])
    fix x s' assume added: "pg_sess_added t e x s s'"
    have "pgw_inv s'" by (rule pgw_inv_sess_added [OF inv clean added])
    moreover have "gnodes s' = gnodes s" "\<exists>se. objs (pg_sesss s') x = Some se \<and> ps_gx_sid se = None"
      using added clean by (auto simp: pg_sess_added_def clean_sess_def)
    ultimately show "safe (Inr (Some x, s')) (\<lambda>(r, t). \<forall>x. r = Some x \<longrightarrow> pgw_inv t \<and> (\<forall>g. gnodes s g \<noteq> None \<longrightarrow> gnodes t g \<noteq> None)
       \<and> (\<exists>se. objs (pg_sesss t) x = Some se \<and> ps_gx_sid se = None))" by simp
  qed
qed simp_all

text \<open>The session of a message, and that what its handler relies on holds of it.\<close>

lemma safe_s5c_sess:
  assumes E: "pgw_env_ok E" and inv: "pgw_inv s" and fits: "message_fits E m s"
  shows "safe (s5c_sess E m s) (\<lambda>(xo, t). \<forall>x. xo = Some x \<longrightarrow>
     pgw_inv t \<and> objs (pg_sesss t) x \<noteq> None \<and> body_fits E x (sm_body m) t)"
proof (cases "sm_teid m = 0")
  case True
  have opens: "opens_fits E (as_create_request E (sm_body m)) s" and body: "body_fits E 0 (sm_body m) s"
    using fits True by (simp_all add: message_fits_def)
  show ?thesis
    unfolding s5c_sess_def if_P [OF True]
  proof (rule vc_bind2 [OF safe_sgw_by_message [OF E inv]], elim conjE, rule vc_non_null)
    fix r t sgw assume t: "pgrows {} s t" "pg_sesss t = pg_sesss s" and sgw: "pnode_ok t r" "r = Some sgw"
    have "opens_fits E (as_create_request E (sm_body m)) t"
      using opens t(2) by (simp add: opens_fits_def clean_sess_def)
    note add = safe_sess_by_message [OF E pgrows_live(1) [OF t(1)] this]
    show "safe (ebind (pgw_sess_add_by_message E (sm_body m) t) (\<lambda>(x, s). ebind (non_null x) (\<lambda>x. ebind (pg_sess s x) (\<lambda>se.
        Inr (Some x, pg_set_sess x (se\<lparr>ps_gnode := Some sgw\<rparr>) s)))))
      (\<lambda>(xo, t). \<forall>x. xo = Some x \<longrightarrow> pgw_inv t \<and> objs (pg_sesss t) x \<noteq> None \<and> body_fits E x (sm_body m) t)"
    proof (rule vc_bind2 [OF add], rule vc_non_null)
      fix xo u x assume x: "xo = Some x" and "\<forall>x. xo = Some x \<longrightarrow> pgw_inv u \<and> (\<forall>g. gnodes t g \<noteq> None \<longrightarrow> gnodes u g \<noteq> None)
          \<and> (\<exists>se. objs (pg_sesss u) x = Some se \<and> ps_gx_sid se = None)"
      then obtain se where u: "pgw_inv u" "\<forall>g. gnodes t g \<noteq> None \<longrightarrow> gnodes u g \<noteq> None" "objs (pg_sesss u) x = Some se" "ps_gx_sid se = None"
        by blast
      have inv': "pgw_inv (pg_set_sess x (se\<lparr>ps_gnode := Some sgw\<rparr>) u)"
        by (rule pgw_inv_set_sess [OF u(1,3)]) (use sgw u(2) in simp_all)
      have "body_fits E x (sm_body m) (pg_set_sess x (se\<lparr>ps_gnode := Some sgw\<rparr>) u)"
        by (rule body_fits_new [OF body, of _ _ "se\<lparr>ps_gnode := Some sgw\<rparr>"]) (use u in simp_all)
      with inv' show "safe (ebind (pg_sess u x) (\<lambda>se. Inr (Some x, pg_set_sess x (se\<lparr>ps_gnode := Some sgw\<rparr>) u)))
        (\<lambda>(xo, t). \<forall>x. xo = Some x \<longrightarrow> pgw_inv t \<and> objs (pg_sesss t) x \<noteq> None \<and> body_fits E x (sm_body m) t)"
        unfolding pg_sess_eq [OF u(3)] using u(3) by simp
    qed
  qed
next
  case False
  then show ?thesis
    using inv fits by (simp add: s5c_sess_def pgw_sess_find_by_teid_def pgw_sess_find_def message_fits_def)
qed

lemma safe_pg_s5c_dispatch:
  assumes E: "pgw_env_ok E" and inv: "pgw_inv s" and x: "objs (pg_sesss s) x \<noteq> None" and xact: "xacts s xact \<noteq> None"
    and body: "body_fits E x body s"
  shows "safe (pg_s5c_dispatch E x xact body s) pgw_inv"
proof (cases body)
  case (S5_Create_Session_Request req)
  then have req: "create_fits E req" and gx: "gx_fits OGS_DIAM_GX_CC_REQUEST_TYPE_INITIAL_REQUEST x s" using body by simp_all
  show ?thesis
    unfolding S5_Create_Session_Request pg_s5c_dispatch.simps
    by (rule vc_bind [OF safe_handle_create_session [OF E inv x req]])
      (rule safe_send_ccr, erule pgrows_live(1), erule pgrows_live(4) [OF _ x], erule gx_fits_grows [OF gx _ x])
next
  case (S5_Delete_Session_Request req)
  then have gx: "gx_fits OGS_DIAM_GX_CC_REQUEST_TYPE_TERMINATION_REQUEST x s" using body by simp
  obtain se where se: "objs (pg_sesss s) x = Some se" using x by auto
  then show ?thesis
    using safe_send_ccr [OF inv x gx]
    by (simp add: S5_Delete_Session_Request pgw_s5c_handle_delete_session_request_def)
qed (use inv safe_create_bearer_response [OF E inv xact] safe_update_bearer_response [OF E inv xact]
    safe_delete_bearer_response [OF E inv xact x] in simp_all)

definition as_delete_request :: "pgw_env \<Rightarrow> s5_body \<Rightarrow> s5_delete_session_request" where
  "as_delete_request E body = (case body of S5_Delete_Session_Request req \<Rightarrow> req | _ \<Rightarrow> pe_union_delete E body)"

text \<open>
  What an event has to satisfy: a message as above; the rules of an answer or a request of the policy
  function fit the session, and the configuration options of the request it answers can be answered.
\<close>

fun pg_event_ok :: "pgw_env \<Rightarrow> pgw_event \<Rightarrow> pgw_state \<Rightarrow> bool" where
  "pg_event_ok E (PGW_EVT_S5C_MESSAGE mo) s \<longleftrightarrow> (case mo of None \<Rightarrow> True | Some m \<Rightarrow> message_fits E m s)"
| "pg_event_ok E (PGW_EVT_GX_MESSAGE x xact body gx) s \<longleftrightarrow>
     (case objs (pg_sesss s) x of None \<Rightarrow> True | Some se \<Rightarrow> list_all (rule_fits (pdn_qos (ps_pdn se))) (gx_pcc_rule gx))
   \<and> (case body of None \<Rightarrow> True | Some b \<Rightarrow> pco_fits E (scq_pco (as_create_request E b)) \<and> pco_fits E (sdq_pco (as_delete_request E b)))"

lemma safe_gx_cca_dispatch:
  assumes E: "pgw_env_ok E" "compile_ok E" and inv: "pgw_inv s" and x: "\<And>y. x = Some y \<Longrightarrow> sess_class y q s"
    and rules: "x \<noteq> None \<Longrightarrow> list_all (rule_fits q) (gx_pcc_rule gx)"
    and pco: "\<And>b. body = Some b \<Longrightarrow> pco_fits E (scq_pco (as_create_request E b)) \<and> pco_fits E (sdq_pco (as_delete_request E b))"
  shows "safe (gx_cca_dispatch E x xact_index body gx s) pgw_inv"
proof -
  have find: "safe (ebind (ogs_gtp_xact_find xact_index s) non_null) (\<lambda>xa. xacts s xa \<noteq> None)"
    by (auto simp: ogs_gtp_xact_find_def)
  show ?thesis
    unfolding gx_cca_dispatch_def
  proof (rule vc_bind [OF find], rule vc_non_null, intro vc_if)
    fix xa b assume xa: "xacts s xa \<noteq> None" and b: "body = Some b"
    show "safe (pgw_gx_handle_cca_initial_request E (nptr x) gx xa (as_create_request E b) s) pgw_inv"
    proof (cases x)
      case (Some y)
      then show ?thesis
        using safe_cca_initial [OF E inv xa x] rules pco [OF b] by (simp add: nptr_def)
    qed (simp add: nptr_def pgw_gx_handle_cca_initial_request_def)
    have "safe (pgw_gx_handle_cca_termination_request E (nptr x) xa (as_delete_request E b) s) pgw_inv"
    proof (cases x)
      case (Some y)
      then show ?thesis
        using safe_cca_termination [OF E(1) inv xa sess_class_live [OF x]] pco [OF b] by (simp add: nptr_def)
    qed (simp add: nptr_def pgw_gx_handle_cca_termination_request_def)
    then show "safe (pgw_gx_handle_cca_termination_request E (nptr x) xa
        (case b of S5_Delete_Session_Request req \<Rightarrow> req | _ \<Rightarrow> pe_union_delete E b) s) pgw_inv"
      by (simp add: as_delete_request_def)
  qed (simp_all add: inv)
qed

lemma safe_pgw_state_operational:
  assumes E: "pgw_env_ok E" "compile_ok E" and inv: "pgw_inv s" and ev: "pg_event_ok E e s"
  shows "safe (pgw_state_operational E e s) pgw_inv"
proof (cases e)
  case (PGW_EVT_S5C_MESSAGE mo)
  show ?thesis
    unfolding PGW_EVT_S5C_MESSAGE pgw_state_operational.simps
  proof (rule vc_non_null)
    fix m assume m: "mo = Some m"
    have fits: "message_fits E m s" using ev PGW_EVT_S5C_MESSAGE m by simp
    show "safe (ebind (s5c_sess E m s) (\<lambda>(xo, s). ebind (non_null xo) (\<lambda>x. ebind (pg_sess s x) (\<lambda>se.
       ebind (ogs_gtp_xact_receive E (nptr (ps_gnode se)) (s5_type (sm_body m)) (sm_sqn m) s) (\<lambda>(rv, xact, s).
       if rv \<noteq> OGS_OK then Inr s else pg_s5c_dispatch E x xact (sm_body m) s))))) pgw_inv"
    proof (rule vc_bind2 [OF safe_s5c_sess [OF E(1) inv fits]], rule vc_non_null)
      fix xo t x assume "xo = Some x" "\<forall>x. xo = Some x \<longrightarrow> pgw_inv t \<and> objs (pg_sesss t) x \<noteq> None \<and> body_fits E x (sm_body m) t"
      then obtain se where t: "pgw_inv t" "objs (pg_sesss t) x \<noteq> None" "body_fits E x (sm_body m) t" "objs (pg_sesss t) x = Some se" by auto
      have "pnode_ok t (ps_gnode se)" using pgw_inv_sess [OF t(1,4)] by blast
      note rcv = safe_pg_receive [OF E(1) t(1) this, of "s5_type (sm_body m)" "sm_sqn m"]
      have after: "safe (pg_s5c_dispatch E x xa (sm_body m) u) pgw_inv" if "pgrows {} t u" "xacts u xa \<noteq> None" for u xa
        by (rule safe_pg_s5c_dispatch [OF E(1) pgrows_live(1) [OF that(1)] pgrows_live(4) [OF that(1) t(2)] that(2)
          body_fits_grows [OF t(3) that(1) t(2)]])
      show "safe (ebind (pg_sess t x) (\<lambda>se.
         ebind (ogs_gtp_xact_receive E (nptr (ps_gnode se)) (s5_type (sm_body m)) (sm_sqn m) t) (\<lambda>(rv, xact, s).
         if rv \<noteq> OGS_OK then Inr s else pg_s5c_dispatch E x xact (sm_body m) s))) pgw_inv"
        unfolding pg_sess_eq [OF t(4)] ebind_Inr
        by (rule vc_bind [OF rcv]) (use after in \<open>auto dest: pgrows_live(1)\<close>)
    qed
  qed
next
  case (PGW_EVT_GX_MESSAGE sess_index xact_index body gx)
  have find: "safe (pgw_sess_find sess_index s) (\<lambda>x. \<forall>y. x = Some y \<longrightarrow> y = sess_index \<and> objs (pg_sesss s) y \<noteq> None)"
    by (simp add: pgw_sess_find_def)
  show ?thesis
    unfolding PGW_EVT_GX_MESSAGE pgw_state_operational.simps
  proof (rule vc_bind [OF find], intro vc_if)
    fix x assume found: "\<forall>y. x = Some y \<longrightarrow> y = sess_index \<and> objs (pg_sesss s) y \<noteq> None"
    define q where "q = pdn_qos (ps_pdn (the (objs (pg_sesss s) sess_index)))"
    have x: "sess_class y q s" if "x = Some y" for y using found that by (auto simp: sess_class_def q_def)
    have rules: "list_all (rule_fits q) (gx_pcc_rule gx)" if "x \<noteq> None"
      using ev PGW_EVT_GX_MESSAGE found that by (auto simp: q_def)
    have pco: "pco_fits E (scq_pco (as_create_request E b)) \<and> pco_fits E (sdq_pco (as_delete_request E b))" if "body = Some b" for b
      using ev PGW_EVT_GX_MESSAGE that by simp
    show "safe (gx_cca_dispatch E x xact_index body gx s) pgw_inv"
      by (rule safe_gx_cca_dispatch [OF E inv x rules pco])
    show "safe (pgw_gx_handle_re_auth_request E (nptr x) gx s) pgw_inv"
    proof (cases x)
      case (Some y)
      then have "safe (bearer_binding E y gx s) pgw_inv"
        using rules by (intro safe_mono [OF safe_bearer_binding [OF E inv x [OF Some]]]) (simp_all add: pgrows_def)
      then show ?thesis using Some by (simp add: pgw_gx_handle_re_auth_request_def nptr_def)
    qed (simp add: nptr_def pgw_gx_handle_re_auth_request_def bearer_binding_def)
  qed (simp add: inv)
qed

subsection \<open>Runs of the gateway\<close>

text \<open>
  The inputs of the gateway: a packet of the device, a datagram of the user plane, a datagram of the
  control plane with what parsing it yields, an answer or a request of the policy function for a Gx
  session, the next event of the queue, the expiry of a timer. The result is none if the gateway
  does not return.
\<close>

datatype pgw_input =
    Device_Packet pkbuf
  | Pg_User_Datagram pkbuf
  | Pg_Control_Datagram "s5_message option"
  | Gx_Answer index "avp list"
  | Gx_Request index "avp list"
  | Pg_Next_Event
  | Pg_Response_Expiry index
  | Pg_Holding_Expiry index

fun pgw_exec :: "pgw_env \<Rightarrow> pgw_input \<Rightarrow> pgw_state \<Rightarrow> pgw_state res option" where
  "pgw_exec E (Device_Packet pkt) s = gtpv1_tun_recv_cb E pkt s"
| "pgw_exec E (Pg_User_Datagram pkt) s = Some (pg_gtpv1_u_recv_cb E pkt s)"
| "pgw_exec E (Pg_Control_Datagram m) s = Some (pg_gtpv2_c_recv_cb E m s)"
| "pgw_exec E (Gx_Answer g as) s = Some (pgw_gx_cca_cb E g as s)"
| "pgw_exec E (Gx_Request g as) s = Some (pgw_gx_rar_cb E g as s)"
| "pgw_exec E Pg_Next_Event s = Some (pgw_main_pop E s)"
| "pgw_exec E (Pg_Response_Expiry x) s = Some (fire_response E x s)"
| "pgw_exec E (Pg_Holding_Expiry x) s = Some (fire_holding E x s)"

fun pg_input_ok :: "pgw_env \<Rightarrow> pgw_input \<Rightarrow> pgw_state \<Rightarrow> bool" where
  "pg_input_ok E (Device_Packet pkt) s \<longleftrightarrow> pk_len pkt = 0 \<or> packet_fits (pk_buf pkt)"
| "pg_input_ok E (Pg_User_Datagram pkt) s \<longleftrightarrow> pk_len pkt = 0 \<or> 64 \<le> length (pk_buf pkt)"
| "pg_input_ok E (Gx_Answer g as) s \<longleftrightarrow> answer_fits E g as s"
| "pg_input_ok E (Gx_Request g as) s \<longleftrightarrow> request_fits E g as s"
| "pg_input_ok E Pg_Next_Event s \<longleftrightarrow> (case pg_queue s of [] \<Rightarrow> True | e # es \<Rightarrow> pg_event_ok E e s)"
| "pg_input_ok E _ s \<longleftrightarrow> True"

lemma pg_event_ok_queue: "pg_event_ok E e (s\<lparr>pg_queue := l\<rparr>) = pg_event_ok E e s"
proof (cases e)
  case (PGW_EVT_S5C_MESSAGE mo)
  have "body_fits E x b (s\<lparr>pg_queue := l\<rparr>) = body_fits E x b s" for x b
    by (cases b) (simp_all add: gx_fits_def)
  then show ?thesis
    by (simp add: PGW_EVT_S5C_MESSAGE message_fits_def opens_fits_def clean_sess_def split: option.split)
qed simp

text \<open>Every input that fits is handled in the end, touches only live objects and keeps the invariant.\<close>

lemma safe_pgw_exec:
  assumes E: "pgw_env_ok E" "compile_ok E" and inv: "pgw_inv s" and ok: "pg_input_ok E i s"
  shows "\<exists>r. pgw_exec E i s = Some r \<and> safe r pgw_inv"
proof (cases i)
  case (Device_Packet pkt)
  then show ?thesis using safe_tun_recv [OF inv] ok by simp
next
  case (Pg_Control_Datagram m)
  have "safe (pgw_event_push E e s) pgw_inv" for e by (rule safe_mono [OF safe_pgw_event_push [OF inv]]) simp
  then show ?thesis using Pg_Control_Datagram by (simp add: pg_gtpv2_c_recv_cb_def)
next
  case Pg_Next_Event
  have "safe (pgw_main_pop E s) pgw_inv"
  proof (cases "pg_queue s")
    case (Cons ev es)
    then have "safe (pgw_state_operational E ev (s\<lparr>pg_queue := es\<rparr>)) pgw_inv"
      using Pg_Next_Event ok inv by (intro safe_pgw_state_operational [OF E]) (simp_all add: pg_event_ok_queue pgw_inv_queue)
    then show ?thesis using Cons by (simp add: pgw_main_pop_def)
  qed (simp add: pgw_main_pop_def inv)
  then show ?thesis using Pg_Next_Event by simp
next
  case (Pg_Response_Expiry x)
  have "safe (fire_response E x s) pgw_inv"
    by (rule safe_mono [OF safe_pgrows_gtp [OF safe_fire_response [OF pgw_env_okD(1) [OF E(1)] pgw_invD(1) [OF inv]] inv]])
      (simp add: pgrows_def)
  then show ?thesis using Pg_Response_Expiry by simp
next
  case (Pg_Holding_Expiry x)
  have "safe (fire_holding E x s) pgw_inv"
    by (rule safe_mono [OF safe_pgrows_gtp [OF safe_fire_holding [OF pgw_env_okD(1) [OF E(1)] pgw_invD(1) [OF inv]] inv]])
      (simp add: pgrows_def)
  then show ?thesis using Pg_Holding_Expiry by simp
qed (use safe_gtpv1_u_recv [OF inv] safe_cca_cb [OF inv] safe_rar_cb [OF inv] ok in simp_all)

text \<open>The gateway after its configuration: devices and subnets, and nothing else.\<close>

definition pgw_init :: "pgw_state \<Rightarrow> bool" where
  "pgw_init s \<longleftrightarrow> gnodes s = Map.empty \<and> xacts s = Map.empty \<and> objs (pg_sesss s) = Map.empty \<and> objs (pg_bearers s) = Map.empty
     \<and> objs (pg_pfs s) = Map.empty \<and> subnets_ok s \<and> pg_sess_list s = [] \<and> sgw_s5c_list s = [] \<and> sgw_s5u_list s = []
     \<and> pg_p_cscf_index s = 0 \<and> pg_p_cscf6_index s = 0 \<and> pg_gx_sessions s = Map.empty \<and> pg_queue s = []"

inductive pgw_step :: "pgw_state \<Rightarrow> pgw_state \<Rightarrow> bool" where
  pgw_stepI: "pgw_env_ok E \<Longrightarrow> compile_ok E \<Longrightarrow> pg_input_ok E i s \<Longrightarrow> pgw_exec E i s = Some (Inr t) \<Longrightarrow> pgw_step s t"

inductive_cases pgw_stepE: "pgw_step s t"

lemma pgw_init_inv: "pgw_init s \<Longrightarrow> pgw_inv s"
  by (simp add: pgw_init_def pgw_inv_def pgw_ctx_ok_def pg_sesss_ok_def pg_bearers_ok_def pg_pfs_ok_def addrs_unique_def
      pg_list_ok_def pg_rest_ok_def gtp_inv_def xact_inv_def owns_def)

interpretation pgw_runs: invariant_system pgw_init pgw_step pgw_inv
proof unfold_locales
  show "pgw_init s \<Longrightarrow> pgw_inv s" for s by (rule pgw_init_inv)
  show "pgw_inv s \<Longrightarrow> pgw_step s t \<Longrightarrow> pgw_inv t" for s t
    by (elim pgw_stepE) (metis safe_pgw_exec safeD option.inject)
qed

end
