(* ===== verification/Pgw_Demo.thy ===== *)
theory Pgw_Demo
  imports Pgw_System Gtp_Props
begin

text \<open>
  A packet gateway with one session, its default bearer and a dedicated bearer with one filter: the
  instance the properties of the packet gateway are evaluated on.
\<close>

subsection \<open>Environment\<close>

definition no_create_request :: s5_create_session_request where
  "no_create_request = \<lparr>scq_imsi = None, scq_access_point_name = None, scq_sender_f_teid = None, scq_pdn_type = None,
     scq_ambr = None, scq_user_location_information = None, scq_pco = None, scq_bearer_contexts = None\<rparr>"

definition text_of :: "u8 list \<Rightarrow> string" where
  "text_of bs = map (\<lambda>b. char_of (unat b)) bs"

definition demo_ip :: "string \<Rightarrow> string option \<Rightarrow> ipsubnet option" where
  "demo_ip t n = Some \<lparr>ips_family = AF_INET, ips_sub = [htonl 0x0a2d0001, 0, 0, 0], ips_mask = replicate 4 0xffffffff\<rparr>"

definition pg_demo_env :: pgw_env where
  "pg_demo_env = gnode_env.extend small_env \<lparr>pe_sess_pick = pick4, pe_bearer_pick = pick4, pe_pf_pick = pick4,
     pe_dev_pick = pool4, pe_subnet_pick = pool4, pe_ue_ip_pick = (\<lambda>n L. find (\<lambda>i. i \<notin> L) [0..<n]), pe_gx_pick = pool4,
     pe_max_sess = 4, pe_max_bearer = 4, pe_max_imsi_len = 8, pe_max_apn_len = 100, pe_max_pco_ids = 15, pe_max_flow = 8,
     pe_buffer_to_bcd = text_of, pe_fqdn_parse = text_of, pe_ipsubnet = demo_ip,
     pe_buffer_to_uint64 = (\<lambda>bs. fold (\<lambda>b n. 256 * n + ucast b) bs 0), pe_uint64_to_buffer = (\<lambda>n k. replicate k 0),
     pe_compile_rule = (\<lambda>ts. [O_PROTO 17]), pe_pco_parse = (\<lambda>_. None), pe_pco_build = (\<lambda>_. []), pe_ipcp_image = (\<lambda>_ _ _. []),
     pe_no_ipv4 = False, pe_no_ipv6 = False, pe_prefer_ipv4 = False, pe_multicast = False, pe_no_slaac = False,
     pe_build_ok = (\<lambda>_. True), pe_event_new_ok = (\<lambda>q. length q < 8), pe_queue_push_ok = (\<lambda>q. length q < 8),
     pe_union_create = (\<lambda>_. no_create_request), pe_union_delete = (\<lambda>_. \<lparr>sdq_linked_eps_bearer_id = None, sdq_pco = None\<rparr>)\<rparr>"

lemma pg_demo_env_sel [simp]:
  "pe_sess_pick pg_demo_env = pick4" "pe_bearer_pick pg_demo_env = pick4" "pe_pf_pick pg_demo_env = pick4"
  "pe_ue_ip_pick pg_demo_env = (\<lambda>n L. find (\<lambda>i. i \<notin> L) [0..<n])" "pe_gx_pick pg_demo_env = pool4"
  "pe_max_sess pg_demo_env = 4" "pe_max_bearer pg_demo_env = 4" "pe_max_imsi_len pg_demo_env = 8" "pe_max_apn_len pg_demo_env = 100"
  "pe_max_flow pg_demo_env = 8" "pe_max_pco_ids pg_demo_env = 15" "pe_compile_rule pg_demo_env = (\<lambda>ts. [O_PROTO 17])"
  "pe_buffer_to_bcd pg_demo_env = text_of" "pe_fqdn_parse pg_demo_env = text_of" "pe_pco_parse pg_demo_env = (\<lambda>_. None)"
  "pe_uint64_to_buffer pg_demo_env = (\<lambda>n k. replicate k 0)"
  "pe_no_slaac pg_demo_env = False" "pe_build_ok pg_demo_env = (\<lambda>_. True)" "pe_event_new_ok pg_demo_env = (\<lambda>q. length q < 8)"
  "pe_queue_push_ok pg_demo_env = (\<lambda>q. length q < 8)" "pe_multicast pg_demo_env = False"
  "xact_alloc pg_demo_env = pool4" "node_alloc pg_demo_env = pool4"
  "timer_add pg_demo_env = (\<lambda>k i. Some None)" "list_add pg_demo_env = (\<lambda>xs x. xs @ [x])" "list_remove pg_demo_env = (\<lambda>xs x. remove1 x xs)"
  "sendto_ok pg_demo_env = (\<lambda>_ _. True)" "next_id pg_demo_env = (\<lambda>i mn mx. if i = mx then mn else i + 1)" "body_len pg_demo_env = (\<lambda>_. 0)"
  by (simp_all add: pg_demo_env_def gnode_env.extend_def small_env_def)

lemma demo_ue_ip_pick: "ue_ip_pick_ok (\<lambda>n L. find (\<lambda>i. i \<notin> L) [0..<n])"
  by (auto simp: ue_ip_pick_ok_def find_Some_iff)

lemma pg_demo_env_ok [simp]: "pgw_env_ok pg_demo_env" "compile_ok pg_demo_env"
  by (simp_all add: pgw_env_ok_def pick4_ok gtp_env_ok_def demo_ue_ip_pick compile_ok_def pool4_free)

subsection \<open>State\<close>

definition demo_qos :: "u8 \<Rightarrow> ogs_qos" where
  "demo_qos c = zero_qos\<lparr>oq_qci := c, oq_priority_level := 8\<rparr>"

text \<open>The session is open; a slot that was never used holds no address and no Gx session.\<close>

definition pg_demo_sess :: pgw_sess where
  "pg_demo_sess = \<lparr>ps_pgw_s5c_teid = 1, ps_sgw_s5c_teid = 17, ps_gx_sid = Some 7, ps_imsi = [0x21, 0x43], ps_imsi_len = 2, ps_imsi_bcd = ''1234'',
     ps_pdn = \<lparr>pdn_apn = ''internet'', pdn_paa = \<lparr>paa_type = 1, paa_addr = Paa_Ipv4 (htonl 0x0a2d0002)\<rparr>, pdn_qos = demo_qos 9,
       pdn_ambr_downlink = 0, pdn_ambr_uplink = 0\<rparr>,
     ps_ipv4 = Some (1, 0), ps_ipv6 = None, ps_tai = \<lparr>tai_plmn_id = [0, 1, 2], tac = 3\<rparr>, ps_e_cgi = \<lparr>e_cgi_plmn_id = [0, 1, 2], cell_id = 4\<rparr>,
     ps_bearer_list = [1, 2], ps_gnode = Some 1\<rparr>"

definition pg_blank_sess :: pgw_sess where
  "pg_blank_sess = pg_demo_sess\<lparr>ps_gx_sid := None, ps_ipv4 := None, ps_bearer_list := [], ps_gnode := None\<rparr>"

definition pg_demo_bearer :: "u8 \<Rightarrow> index \<Rightarrow> pgw_bearer" where
  "pg_demo_bearer e i = \<lparr>pb_ebi = (if i = 1 then 5 else e), pb_pgw_s5u_teid = i, pb_sgw_s5u_teid = 0x20 + i,
     pb_name = (if i = 1 then None else Some ''voice''), pb_qos = demo_qos 1, pb_pf_identifier = 1,
     pb_pf_list = (if i = 2 then [1] else []), pb_sess = (if i = 3 then 2 else 1), pb_gnode = Some 1\<rparr>"

definition pg_demo_pf :: pgw_pf where
  "pg_demo_pf = \<lparr>f_direction = 1, f_identifier = 1, f_rule = zero_rule\<lparr>ru_proto := 17\<rparr>, f_bearer = 2\<rparr>"

definition pg_demo_subnet :: pgw_subnet where
  "pg_demo_subnet = \<lparr>sub_sub = \<lparr>ips_family = AF_INET, ips_sub = [htonl 0x0a2d0000, 0, 0, 0], ips_mask = [htonl 0xfffffffc, 0, 0, 0]\<rparr>,
     sub_gw = \<lparr>ips_family = AF_INET, ips_sub = [htonl 0x0a2d0001, 0, 0, 0], ips_mask = replicate 4 0xffffffff\<rparr>,
     sub_apn = [], sub_family = AF_INET, sub_prefixlen = 30,
     sub_array = [\<lparr>uip_addr = [htonl 0x0a2d0002, 0, 0, 0], uip_subnet = Some 1\<rparr>, \<lparr>uip_addr = [htonl 0x0a2d0003, 0, 0, 0], uip_subnet = Some 1\<rparr>],
     sub_size = 2, sub_live = {0}, sub_dev = 1\<rparr>"

text \<open>The arguments: the identity of the dedicated bearer, zero before it is known, and the number of the last request to the policy function.\<close>

definition pg_demo_state :: "u8 \<Rightarrow> u32 \<Rightarrow> pgw_state" where
  "pg_demo_state e n = gtp_state.extend (empty_state\<lparr>gnodes := [1 \<mapsto> peer_node]\<rparr>)
     \<lparr>pg_sesss = \<lparr>pool_mem = (\<lambda>i. if i = 1 then pg_demo_sess else pg_blank_sess), pool_live = {1}\<rparr>,
      pg_bearers = \<lparr>pool_mem = pg_demo_bearer e, pool_live = {1, 2}\<rparr>,
      pg_pfs = \<lparr>pool_mem = (\<lambda>_. pg_demo_pf), pool_live = {1}\<rparr>,
      pg_devs = [1 \<mapsto> \<lparr>dev_ifname = ''pgwtun'', dev_link_local_addr = None\<rparr>], pg_subnets = [1 \<mapsto> pg_demo_subnet],
      pg_sess_list = [1], pg_dev_list = [1], pg_subnet_list = [1], sgw_s5c_list = [1], sgw_s5u_list = [1],
      pg_gtpc_port = 2123, pg_gtpu_port = 2152, pg_gtpc_sock = Some 1, pg_gtpc_sock6 = None,
      pg_gtpc_addr = Some \<lparr>sa_family = AF_INET, sin_port = 0x4B08, sin_addr = [127, 0, 0, 3]\<rparr>, pg_gtpc_addr6 = None,
      pg_gtpu_sock = Some 2, pg_gtpu_sock6 = None,
      pg_gtpu_addr = Some \<lparr>sa_family = AF_INET, sin_port = 0x6808, sin_addr = [127, 0, 0, 3]\<rparr>, pg_gtpu_addr6 = None,
      pg_dns = [], pg_dns6 = [], pg_p_cscf = [], pg_p_cscf_index = 0, pg_p_cscf6 = [], pg_p_cscf6_index = 0,
      pg_queue = [], pg_gx_sessions = [7 \<mapsto> gx_new_state\<lparr>gs_sess := 1, gs_cc_request_number := n\<rparr>], pg_ccr_sent = [], pg_tun_out = []\<rparr>"

lemma pg_demo_state_sel [simp]:
  "gnodes (pg_demo_state e n) = [1 \<mapsto> peer_node]" "xacts (pg_demo_state e n) = Map.empty"
  "sent (pg_demo_state e n) = []" "g_xact_id (pg_demo_state e n) = 0"
  "objs (pg_sesss (pg_demo_state e n)) = [1 \<mapsto> pg_demo_sess]"
  "objs (pg_bearers (pg_demo_state e n)) = [1 \<mapsto> pg_demo_bearer e 1, 2 \<mapsto> pg_demo_bearer e 2]"
  "objs (pg_pfs (pg_demo_state e n)) = [1 \<mapsto> pg_demo_pf]"
  "pool_live (pg_sesss (pg_demo_state e n)) = {1}" "pool_live (pg_bearers (pg_demo_state e n)) = {1, 2}" "pool_live (pg_pfs (pg_demo_state e n)) = {1}"
  "pg_devs (pg_demo_state e n) = [1 \<mapsto> \<lparr>dev_ifname = ''pgwtun'', dev_link_local_addr = None\<rparr>]" "pg_subnets (pg_demo_state e n) = [1 \<mapsto> pg_demo_subnet]"
  "pg_sess_list (pg_demo_state e n) = [1]" "pg_dev_list (pg_demo_state e n) = [1]" "pg_subnet_list (pg_demo_state e n) = [1]"
  "sgw_s5c_list (pg_demo_state e n) = [1]" "sgw_s5u_list (pg_demo_state e n) = [1]" "pg_p_cscf (pg_demo_state e n) = []"
  "pg_p_cscf6 (pg_demo_state e n) = []" "pg_queue (pg_demo_state e n) = []" "pg_tun_out (pg_demo_state e n) = []"
  "pg_gx_sessions (pg_demo_state e n) = [7 \<mapsto> gx_new_state\<lparr>gs_sess := 1, gs_cc_request_number := n\<rparr>]"
  "pg_gtpu_addr (pg_demo_state e n) = Some \<lparr>sa_family = AF_INET, sin_port = 0x6808, sin_addr = [127, 0, 0, 3]\<rparr>" "pg_gtpu_addr6 (pg_demo_state e n) = None"
  by (auto simp: pg_demo_state_def gtp_state.extend_def empty_state_def objs_def fun_eq_iff)

lemma pg_demo_sel [simp]:
  "ps_pgw_s5c_teid pg_demo_sess = 1" "ps_sgw_s5c_teid pg_demo_sess = 17" "ps_gx_sid pg_demo_sess = Some 7" "ps_ipv4 pg_demo_sess = Some (1, 0)"
  "ps_ipv6 pg_demo_sess = None" "ps_bearer_list pg_demo_sess = [1, 2]" "ps_gnode pg_demo_sess = Some 1" "pdn_qos (ps_pdn pg_demo_sess) = demo_qos 9"
  "pb_ebi (pg_demo_bearer e i) = (if i = 1 then 5 else e)" "pb_pgw_s5u_teid (pg_demo_bearer e i) = i" "pb_sgw_s5u_teid (pg_demo_bearer e i) = 0x20 + i"
  "pb_name (pg_demo_bearer e i) = (if i = 1 then None else Some ''voice'')" "pb_pf_list (pg_demo_bearer e i) = (if i = 2 then [1] else [])"
  "pb_qos (pg_demo_bearer e i) = demo_qos 1" "pb_sess (pg_demo_bearer e i) = (if i = 3 then 2 else 1)" "pb_gnode (pg_demo_bearer e i) = Some 1" "pb_pf_identifier (pg_demo_bearer e i) = 1"
  "f_direction pg_demo_pf = 1" "f_identifier pg_demo_pf = 1" "f_bearer pg_demo_pf = 2" "f_rule pg_demo_pf = zero_rule\<lparr>ru_proto := 17\<rparr>"
  "sub_family pg_demo_subnet = AF_INET" "sub_dev pg_demo_subnet = 1" "sub_live pg_demo_subnet = {0}" "sub_size pg_demo_subnet = 2"
  by (simp_all add: pg_demo_sess_def pg_demo_bearer_def pg_demo_pf_def pg_demo_subnet_def)

lemma demo_zero_rule [simp]: "rule_typed (zero_rule\<lparr>ru_proto := p\<rparr>)"
  by (simp add: rule_typed_def zero_rule_def)

lemma pg_demo_inv [simp]: "pgw_inv (pg_demo_state e n)"
proof -
  let ?s = "pg_demo_state e n"
  have "gtp_inv ?s" by (auto simp: gtp_inv_def xact_inv_def org_list_def split: if_splits originator.splits)
  moreover have "subnets_ok ?s"
    by (auto simp: subnets_ok_def less_2_cases_iff) (auto simp: pg_demo_subnet_def split: if_splits)
  moreover have "addrs_unique ps_ipv4 ?s" "addrs_unique ps_ipv6 ?s" "pg_list_ok ?s"
    by (auto simp: addrs_unique_def pg_list_ok_def split: if_splits)
  moreover have "pg_sesss_ok ?s" "pg_bearers_ok ?s" "pg_pfs_ok ?s"
    by (auto simp: pg_sesss_ok_def pg_bearers_ok_def pg_pfs_ok_def addr_ok_def split: if_splits)
  moreover have "pg_bearers_owned ?s" "pg_pfs_owned ?s"
    by (auto simp: owns_def split: if_splits)
  moreover have "pg_rest_ok ?s"
    by (auto simp: pg_rest_ok_def gx_new_state_def split: if_splits)
  ultimately show ?thesis by (simp add: pgw_inv_def pgw_ctx_ok_def)
qed

lemma pg_demo_clean [simp]: "clean_sess t (pg_demo_state e n)"
  by (auto simp: clean_sess_def) (auto simp: pg_demo_state_def gtp_state.extend_def pg_blank_sess_def)

text \<open>The same gateway with a second session.\<close>

definition pg_other_sess :: pgw_sess where
  "pg_other_sess = pg_demo_sess\<lparr>ps_pgw_s5c_teid := 2, ps_gx_sid := None, ps_ipv4 := Some (1, 1), ps_bearer_list := [3]\<rparr>"

definition pg_two_state :: pgw_state where
  "pg_two_state = (pg_demo_state 6 0)
     \<lparr>pg_sesss := \<lparr>pool_mem = (\<lambda>i. if i = 1 then pg_demo_sess else pg_other_sess), pool_live = {1, 2}\<rparr>,
      pg_bearers := \<lparr>pool_mem = pg_demo_bearer 6, pool_live = {1, 2, 3}\<rparr>,
      pg_subnets := [1 \<mapsto> pg_demo_subnet\<lparr>sub_live := {0, 1}\<rparr>], pg_sess_list := [1, 2]\<rparr>"

lemma pg_two_state_sel [simp]:
  "objs (pg_sesss pg_two_state) = [1 \<mapsto> pg_demo_sess, 2 \<mapsto> pg_other_sess]"
  "objs (pg_bearers pg_two_state) = [1 \<mapsto> pg_demo_bearer 6 1, 2 \<mapsto> pg_demo_bearer 6 2, 3 \<mapsto> pg_demo_bearer 6 3]"
  "pg_pfs pg_two_state = pg_pfs (pg_demo_state 6 0)" "pg_subnets pg_two_state = [1 \<mapsto> pg_demo_subnet\<lparr>sub_live := {0, 1}\<rparr>]"
  "pg_sess_list pg_two_state = [1, 2]" "gnodes pg_two_state = [1 \<mapsto> peer_node]" "xacts pg_two_state = Map.empty"
  "pg_devs pg_two_state = pg_devs (pg_demo_state 6 0)" "pg_subnet_list pg_two_state = [1]" "pg_queue pg_two_state = []"
  "pg_rest_ok pg_two_state = pg_rest_ok (pg_demo_state 6 0)"
  by (auto simp: pg_two_state_def objs_def fun_eq_iff pg_rest_ok_def)

lemma pg_other_sel [simp]:
  "ps_pgw_s5c_teid pg_other_sess = 2" "ps_ipv4 pg_other_sess = Some (1, 1)" "ps_ipv6 pg_other_sess = None"
  "ps_bearer_list pg_other_sess = [3]" "ps_gnode pg_other_sess = Some 1" "ps_gx_sid pg_other_sess = None"
  by (simp_all add: pg_other_sess_def)

lemma pg_two_inv [simp]: "pgw_inv pg_two_state"
proof -
  have "gtp_inv pg_two_state" by (auto simp: gtp_inv_def xact_inv_def org_list_def split: if_splits originator.splits)
  moreover have "subnets_ok pg_two_state"
    by (auto simp: subnets_ok_def less_2_cases_iff) (auto simp: pg_demo_subnet_def split: if_splits)
  moreover have "addrs_unique ps_ipv4 pg_two_state" "addrs_unique ps_ipv6 pg_two_state" "pg_list_ok pg_two_state"
    by (auto simp: addrs_unique_def pg_list_ok_def split: if_splits)
  moreover have "pg_sesss_ok pg_two_state" "pg_bearers_ok pg_two_state" "pg_pfs_ok pg_two_state"
    by (auto simp: pg_sesss_ok_def pg_bearers_ok_def pg_pfs_ok_def addr_ok_def split: if_splits)
  moreover have "pg_bearers_owned pg_two_state" "pg_pfs_owned pg_two_state"
    by (auto simp: owns_def split: if_splits)
  moreover have "pg_rest_ok pg_two_state" using pgw_invD(11) [OF pg_demo_inv] by simp
  ultimately show ?thesis by (simp add: pgw_inv_def pgw_ctx_ok_def)
qed

end
