(* ===== verification/Pgw_Props.thy ===== *)
theory Pgw_Props
  imports Pgw_Demo
begin

text \<open>
  Properties of the packet gateway: safety of every input, the addresses of the sessions, the bearer
  a packet is given to, the bearers the policy function asks for, and what goes wrong where the code
  does not check.
\<close>

subsection \<open>Safety\<close>


text \<open>A UDP packet for the UE of the sample session.\<close>

definition demo_down :: pkbuf where
  "demo_down = \<lparr>pk_buf = [0x45, 0, 0, 28, 0, 0, 0, 0, 64, 17, 0, 0, 8, 8, 8, 8, 10, 45, 0, 2, 0, 53, 4, 0, 0, 8, 0, 0] @ replicate 40 0,
     pk_len = 28\<rparr>"

lemma demo_down_fits [simp]: "packet_fits (pk_buf demo_down)" "pk_len demo_down \<noteq> 0"
  by (simp_all add: packet_fits_def demo_down_def)

definition demo_view :: ip_view where
  "demo_view = \<lparr>iv_src = [0x08080808, 0x02002d0a, 0x00043500, 0x00000800], iv_dst = [0x02002d0a, 0x00043500, 0x00000800, 0],
     iv_words = 1, iv_proto = 17, iv_hlen = 20\<rparr>"

lemma demo_down_view: "view_packet (pk_buf demo_down) = Some (Inr demo_view)"
  by (simp add: view_packet_def ip_version_def read_addr_def demo_down_def words_of_def upt_rec demo_view_def word32_def)

lemma demo_rule_matches: "filter_matches (pk_buf demo_down) demo_view pg_demo_pf"
  by (simp add: filter_matches_def addr_match_def zero_rule_def demo_view_def port_in_def)

lemma demo_takes: "sess_takes demo_view (pg_demo_state e n) 1"
  by (simp add: sess_takes_def ue_addr_def pg_demo_subnet_def addr_is_def demo_view_def htonl_def)

lemma demo_packet_bearer: "packet_bearer (pk_buf demo_down) demo_view (pg_demo_state e n) = Some (if e = 0 then 1 else 2)"
  using demo_rule_matches
  by (simp add: packet_bearer_def demo_takes sess_bearer_for_def bearer_takes_def the_bearer_def)

subsection \<open>The bearer of a packet\<close>

text \<open>(C4) A downlink packet is given to the bearer the reference names: of the first session that
  has its destination address, the first dedicated bearer with an identity and a filter that the
  packet matches, and the default bearer if there is none. A packet for no session is given to none.\<close>

theorem downlink_classified:
  assumes inv: "pgw_inv s" and fits: "packet_fits (pk_buf pkt)" "pk_len pkt \<noteq> 0"
    and v: "view_packet (pk_buf pkt) = Some (Inr v)"
    and bearers: "\<forall>x \<in> set (pg_sess_list s). ps_bearer_list (the (objs (pg_sesss s) x)) \<noteq> []"
  shows "pgw_bearer_find_by_packet pkt s = Some (Inr (packet_bearer (pk_buf pkt) v s))"
  by (rule find_by_packet_eq [OF assms])

theorem downlink_classified_witness:
  "pgw_bearer_find_by_packet demo_down (pg_demo_state 6 0) = Some (Inr (Some 2))
   \<and> pgw_bearer_find_by_packet demo_down (pg_demo_state 0 0) = Some (Inr (Some 1))"
  using downlink_classified [OF pg_demo_inv demo_down_fits demo_down_view] demo_packet_bearer by simp

text \<open>(C15) A downlink packet for a UE leaves the gateway once, unchanged, behind a GTP header with
  the length of the packet and the TEID the serving gateway has for its bearer.\<close>

theorem downlink_delivered:
  assumes inv: "pgw_inv s" and fits: "packet_fits (pk_buf pkt)" "pk_len pkt \<noteq> 0"
    and v: "view_packet (pk_buf pkt) = Some (Inr v)"
    and bearers: "\<forall>x \<in> set (pg_sess_list s). ps_bearer_list (the (objs (pg_sesss s) x)) \<noteq> []"
    and b: "packet_bearer (pk_buf pkt) v s = Some b" "objs (pg_bearers s) b = Some be"
    and g: "pb_gnode be = Some g" "g \<noteq> 0" "gnodes s g = Some n" "gn_sock n \<noteq> None" "\<And>pk. sendto_ok E n pk"
  shows "gtpv1_tun_recv_cb E pkt s = Some (Inr (s\<lparr>sent := sent s @ [(g, GTPv1U 0x30 OGS_GTPU_MSGTYPE_GPDU
    (htons (of_nat (min (pk_len pkt) (length (pk_buf pkt))))) (htonl (pb_sgw_s5u_teid be)) (take (pk_len pkt) (pk_buf pkt)))]\<rparr>))"
proof -
  have found: "pgw_bearer_find_by_packet pkt s = Some (Inr (Some b))"
    using find_by_packet_eq [OF inv fits v bearers] b(1) by simp
  have "b \<noteq> 0" using pgw_inv_bearer [OF inv b(2)] by blast
  then show ?thesis
    using fits(2) found b(2) g
    by (simp add: gtpv1_tun_recv_cb_def pgw_gtp_send_to_bearer_def ogs_gtp_sendto_def min.commute)
qed

theorem downlink_delivered_witness:
  "\<exists>t. gtpv1_tun_recv_cb pg_demo_env demo_down (pg_demo_state 6 0) = Some (Inr t)
    \<and> sent t = [(1, GTPv1U 0x30 OGS_GTPU_MSGTYPE_GPDU (htons 28) (htonl 0x22) (take 28 (pk_buf demo_down)))]"
  using downlink_delivered [OF pg_demo_inv demo_down_fits demo_down_view, of 6 0 2 "pg_demo_bearer 6 2" 1 peer_node pg_demo_env]
    demo_packet_bearer [of 6 0]
  by (simp add: demo_down_def)


text \<open>(C16) An uplink IPv4 packet under the TEID of a bearer goes once, without its GTP header, to the
  tunnel device of the subnet the session's address is from; the optional fields of the header are
  taken off with it.\<close>

theorem uplink_to_device:
  assumes inv: "pgw_inv s" and len: "pk_len pkt \<noteq> 0" "64 \<le> length (pk_buf pkt)"
    and hdr: "hdr = OGS_GTPV1U_HEADER_LEN + (if pk_buf pkt ! 0 AND OGS_GTPU_FLAGS_S \<noteq> 0 then 4 else 0)" "hdr \<le> pk_len pkt"
    and teid: "ntohl (word32 (drop 4 (pk_buf pkt))) = b" "objs (pg_bearers s) b = Some be"
    and v4: "drop_bit 4 (pk_buf pkt ! hdr) = 4"
    and se: "objs (pg_sesss s) (pb_sess be) = Some se" "ps_ipv4 se = Some (i, k)" "pg_subnets s i = Some sn" "sub_dev sn \<noteq> 0"
  shows "pg_gtpv1_u_recv_cb E pkt s
    = Inr (s\<lparr>pg_tun_out := pg_tun_out s @ [(sub_dev sn, take (pk_len pkt - hdr) (drop hdr (pk_buf pkt)))]\<rparr>)"
proof -
  have "hdr \<le> 12" using hdr(1) by (simp add: OGS_GTPV1U_HEADER_LEN_def)
  then have version: "ip_version (drop hdr (pk_buf pkt)) = Inr 4"
    using v4 len(2) by (simp add: ip_version_def array_read_def)
  have "addr_ok (pg_subnets s) AF_INET (Some (i, k))" using pgw_inv_sess [OF inv se(1)] se(2) by simp
  then obtain ip where ip: "get_ue_ip (pg_subnets s) (i, k) = Inr ip" "uip_subnet ip = Some i"
    using safe_ue_ip_dev [OF inv] by fastforce
  have subnet: "uplink_subnet 4 se s = Inr (Some i)" by (simp add: uplink_subnet_def se(2) ip)
  have b: "b \<noteq> 0" "pb_sess be \<noteq> 0" using pgw_inv_bearer [OF inv teid(2)] by auto
  have up: "pgw_uplink E b \<lparr>pk_buf = drop hdr (pk_buf pkt), pk_len = pk_len pkt - hdr\<rparr> s
    = Inr (s\<lparr>pg_tun_out := pg_tun_out s @ [(sub_dev sn, take (pk_len pkt - hdr) (drop hdr (pk_buf pkt)))]\<rparr>)"
    using b se teid(2) by (simp add: pgw_uplink_def version subnet)
  have "0 < length (pk_buf pkt)" "4 + 4 \<le> length (pk_buf pkt)" using len(2) by auto
  then show ?thesis
    using len(1) hdr(2) teid b(1)
    by (simp add: pg_gtpv1_u_recv_cb_def hdr(1) [symmetric] read32_def Let_def pgw_bearer_find_by_pgw_s5u_teid_def pgw_bearer_find_def up)
qed

definition demo_up :: pkbuf where
  "demo_up = \<lparr>pk_buf = [0x30, 255, 0, 20, 0, 0, 0, 2, 0x45, 0, 0, 20] @ replicate 60 0, pk_len = 28\<rparr>"

theorem uplink_to_device_witness:
  "\<exists>t. pg_gtpv1_u_recv_cb pg_demo_env demo_up (pg_demo_state 6 0) = Inr t \<and> pg_tun_out t = [(1, [0x45, 0, 0, 20] @ replicate 16 0)]"
  using uplink_to_device [OF pg_demo_inv, of demo_up 8 2 6 0 "pg_demo_bearer 6 2" pg_demo_sess 1 0 pg_demo_subnet pg_demo_env]
  by (simp add: demo_up_def OGS_GTPV1U_HEADER_LEN_def OGS_GTPU_FLAGS_S_def word32_def htonl_def)

subsection \<open>Sessions and their addresses\<close>



text \<open>(C14) Removing a session removes exactly that session, its bearers and their filters, and gives
  its addresses back to their pools; every other session, bearer and filter stays as it is.\<close>

theorem session_removed:
  assumes E: "pgw_env_ok E" and inv: "pgw_inv s" and x: "objs (pg_sesss s) x = Some se"
  shows "\<exists>t. pgw_sess_remove E x s = Inr t \<and> pgw_inv t \<and> objs (pg_sesss t) = (objs (pg_sesss s))(x := None)
    \<and> (\<forall>b. objs (pg_bearers t) b = (case objs (pg_bearers s) b of Some be \<Rightarrow> if pb_sess be = x then None else Some be | None \<Rightarrow> None))
    \<and> (\<forall>f. objs (pg_pfs t) f = (case objs (pg_pfs s) f of
         Some pf \<Rightarrow> if \<exists>be. objs (pg_bearers s) (f_bearer pf) = Some be \<and> pb_sess be = x then None else Some pf | None \<Rightarrow> None))
    \<and> (\<forall>i k. ps_ipv4 se = Some (i, k) \<or> ps_ipv6 se = Some (i, k) \<longrightarrow> k \<notin> sub_live (the (pg_subnets t i)))"
proof -
  obtain t where t: "pgw_sess_remove E x s = Inr t" "pg_sess_removed x se s t"
    using sess_remove_pg_ok [OF E inv x] by blast
  from t(2) have sub: "pg_subnets t = free_addr (ps_ipv6 se) (free_addr (ps_ipv4 se) (pg_subnets s))"
    and q: "objs (pg_bearers t) = objs (pg_bearers s) |` pg_kept_bearers {x} s"
    and p: "objs (pg_pfs t) = objs (pg_pfs s) |` pg_kept_pfs (pg_kept_bearers {x} s) s"
    and k: "objs (pg_sesss t) = objs (pg_sesss s) |` (- {x})"
    by (auto simp: pg_sess_removed_def)
  have "k \<notin> sub_live (the (pg_subnets t i))" if "ps_ipv4 se = Some (i, k) \<or> ps_ipv6 se = Some (i, k)" for i k
    using that by (auto simp: sub free_addr_def split: option.split)
  moreover have "objs (pg_bearers t) b = (case objs (pg_bearers s) b of Some be \<Rightarrow> if pb_sess be = x then None else Some be | None \<Rightarrow> None)" for b
    by (auto simp: q restrict_map_def split: option.split)
  moreover have "objs (pg_pfs t) f = (case objs (pg_pfs s) f of
         Some pf \<Rightarrow> if \<exists>be. objs (pg_bearers s) (f_bearer pf) = Some be \<and> pb_sess be = x then None else Some pf | None \<Rightarrow> None)" for f
    by (auto simp: p restrict_map_def split: option.split)
  moreover have "objs (pg_sesss t) = (objs (pg_sesss s))(x := None)" by (auto simp: k restrict_map_def)
  ultimately show ?thesis using t(1) pgw_inv_sess_removed [OF inv x t(2)] by blast
qed

theorem session_removed_witness:
  "\<exists>t. pgw_sess_remove pg_demo_env 1 (pg_demo_state 6 0) = Inr t \<and> objs (pg_pfs t) 1 = None \<and> 0 \<notin> sub_live (the (pg_subnets t 1))"
  using session_removed [OF pg_demo_env_ok(1) pg_demo_inv, of 6 0 1 pg_demo_sess] by fastforce



subsection \<open>The bearers the policy function asks for\<close>

text \<open>(C12) A rule whose class no bearer of the session has opens a bearer: unless an assertion stops
  the gateway, the session has one bearer more, the last, with the name and the quality of service of
  the rule and for each flow of the rule, in order, the filter compiled from its description with its
  direction.\<close>

theorem rule_installed:
  assumes "pgw_env_ok E" and "compile_ok E" and "pgw_inv s" and "objs (pg_sesss s) x = Some se"
    and "list_all flow_ok (pr_flow r)" and "length (pr_flow r) \<le> 16"
    and "pgw_bearer_find_by_qci_arp x (pr_qos r) s = Inr None"
  shows "pcc_install E x r name s = Inl Assert_Failed
    \<or> (\<exists>t b be te. pcc_install E x r name s = Inr t \<and> pgw_inv t \<and> objs (pg_bearers s) b = None \<and> objs (pg_bearers t) b = Some be
      \<and> objs (pg_sesss t) x = Some te \<and> ps_bearer_list te = ps_bearer_list se @ [b] \<and> pb_name be = Some name \<and> pb_qos be = pr_qos r
      \<and> list_all2 (\<lambda>f fl. \<exists>pf. objs (pg_pfs t) f = Some pf \<and> f_bearer pf = b \<and> f_direction pf = take_bit 2 (fl_direction fl)
          \<and> pgw_compile_packet_filter E (fl_description fl) = Inr (Some (f_rule pf))) (pb_pf_list be) (pr_flow r))"
proof -
  have "sess_class x (pdn_qos (ps_pdn se)) s" using assms(4) by (simp add: sess_class_def)
  note spec = install_new_spec [OF assms(1-3) this assms(5,6), of name]
  have eq: "pcc_install E x r name s = install_new E x r name s" using assms(7) by (simp add: pcc_install_def)
  show ?thesis
  proof (cases "install_new E x r name s")
    case (Inr t)
    then show ?thesis using spec assms(4) by (auto simp: eq rule_bearer_def pgrows_def filter_of_def)
  qed (use spec eq in auto)
qed

definition demo_rule :: ogs_pcc_rule where
  "demo_rule = \<lparr>pr_type = OGS_PCC_RULE_TYPE_INSTALL, pr_name = Some ''data'',
     pr_flow = [\<lparr>fl_direction = 1, fl_description = Some ''permit out 17 from any to any''\<rparr>], pr_flow_status = 2, pr_precedence = 10,
     pr_qos = demo_qos 2\<rparr>"

lemma demo_tokens: "strtok [] ''permit out 17 from any to any'' = [''permit'', ''out'', ''17'', ''from'', ''any'', ''to'', ''any'']"
  by simp

lemma demo_compiled: "pgw_compile_packet_filter pg_demo_env (Some ''permit out 17 from any to any'') = Inr (Some (zero_rule\<lparr>ru_proto := 17\<rparr>))"
  by (simp add: pgw_compile_packet_filter_def demo_tokens MAX_NUM_OF_TOKEN_def) (simp add: zero_rule_def)

lemma demo_mem:
  "pool_mem (pg_bearers (pg_demo_state e n)) = pg_demo_bearer e" "pool_mem (pg_pfs (pg_demo_state e n)) = (\<lambda>_. pg_demo_pf)"
  "pool_mem (pg_sesss (pg_demo_state e n)) = (\<lambda>i. if i = 1 then pg_demo_sess else pg_blank_sess)"
  by (simp_all add: pg_demo_state_def gtp_state.extend_def)

lemma demo_request_sent:
  assumes "gnodes s = [1 \<mapsto> peer_node]" "xacts s = Map.empty" "g_xact_id s = 0" "objs (pg_sesss s) 1 = Some se" "ps_gnode se = Some 1"
    "s5_type body = OGS_GTP_CREATE_BEARER_REQUEST_TYPE"
  shows "\<exists>t. pgw_send_request pg_demo_env 1 body s = Inr t"
proof -
  have "ogs_gtp_xact_get_stage (s5_type body) 1 = GTP_XACT_INITIAL_STAGE"
    by (simp add: assms(6) ogs_gtp_xact_get_stage_def GTP_MAX_XACT_ID_def)
  then have "\<exists>t. ebind (ogs_gtp_xact_local_create pg_demo_env 1 (s5_type body) (ps_sgw_s5c_teid se) body s) (\<lambda>(x, s). ogs_gtp_xact_commit pg_demo_env x s) = Inr t"
    using send_request(1) [OF pgw_env_okD(1) [OF pg_demo_env_ok(1)], of 1 s peer_node 1 _ 1 "s5_type body" "ps_sgw_s5c_teid se" body] assms
    by (simp add: pool4_def GTP_MAX_XACT_ID_def GTP_MIN_XACT_ID_def)
  then show ?thesis using assms by (simp add: pgw_send_request_def nptr_def)
qed

lemma demo_tft_built:
  "\<exists>bs. ogs_gtp_build_tft \<lparr>tft_flags = 33, tft_pf = (replicate 16 pf0)[0 := tft_pf_of 0 pf]\<rparr> OGS_GTP_MAX_TRAFFIC_FLOW_TEMPLATE = Inr (Some bs)"
  if "f_rule pf = zero_rule\<lparr>ru_proto := 17\<rparr>"
  using that by (simp add: ogs_gtp_build_tft_def tft_pf_of_def rule_components_def zero_rule_def num_of_packet_filter_def octet_put_def tft_comp_def poke_def
      component_value_def OGS_GTP_MAX_TRAFFIC_FLOW_TEMPLATE_def Let_def)

lemma demo_install: "\<exists>t. install_new pg_demo_env 1 demo_rule ''data'' (pg_demo_state 6 0) = Inr t"
proof -
  define pf where "pf = pg_demo_pf\<lparr>f_identifier := 2, f_bearer := 3, f_rule := zero_rule\<lparr>ru_proto := 17\<rparr>, f_direction := 1\<rparr>"
  define s where "s = (pg_demo_state 6 0)\<lparr>
      pg_sesss := (pg_sesss (pg_demo_state 6 0))\<lparr>pool_mem := (\<lambda>i. if i = 1 then pg_demo_sess else pg_blank_sess)(1 := pg_demo_sess\<lparr>ps_bearer_list := [1, 2, 3]\<rparr>)\<rparr>,
      pg_bearers := (pg_bearers (pg_demo_state 6 0))\<lparr>pool_live := {3, 1, 2}, pool_mem := (pg_demo_bearer 6)(3 := (pg_demo_bearer 6 3)
        \<lparr>pb_pgw_s5u_teid := 3, pb_sess := 1, pb_gnode := None, pb_name := Some ''data'', pb_qos := demo_qos 2, pb_pf_identifier := 2, pb_pf_list := [2]\<rparr>)\<rparr>,
      pg_pfs := (pg_pfs (pg_demo_state 6 0))\<lparr>pool_live := {2, 1}, pool_mem := (\<lambda>_. pg_demo_pf)(2 := pf)\<rparr>\<rparr>"
  have "install_new pg_demo_env 1 demo_rule ''data'' (pg_demo_state 6 0)
      = ebind (pgw_s5c_build_create_bearer_request pg_demo_env 3 s) (\<lambda>body. pgw_send_request pg_demo_env 1 body s)"
    by (simp add: s_def pf_def install_new_def pgw_bearer_add_def pool_alloc_def pick4_def Let_def pg_set_bearer_def pg_set_sess_def demo_rule_def demo_compiled
     pgw_pf_add_def pg_set_pf_def deref_def objs_def pool_set_def demo_mem)
  moreover obtain pf0 where enc: "encode_traffic_flow_template 3 s = Inr \<lparr>tft_flags = 33, tft_pf = (replicate 16 pf0)[0 := tft_pf_of 0 pf]\<rparr>"
    by (rule that) (simp add: encode_traffic_flow_template_def s_def pf_def [symmetric] deref_def objs_def array_write_def)
  obtain bs where "bearer_tft 3 s = Inr bs"
    using demo_tft_built [of pf pf0] by (auto simp: bearer_tft_def enc pf_def)
  then have "\<exists>ctx. pgw_s5c_build_create_bearer_request pg_demo_env 3 s = Inr (S5_Create_Bearer_Request 5 ctx)"
    by (simp add: pgw_s5c_build_create_bearer_request_def pgw_default_bearer_in_sess_def s5_f_teid_def ogs_gtp_sockaddr_to_f_teid_def
     ogs_gtp_build_bearer_qos_def build_msg_def deref_def objs_def Let_def) (simp add: s_def)
  moreover have "\<exists>t. pgw_send_request pg_demo_env 1 (S5_Create_Bearer_Request 5 ctx) s = Inr t" for ctx
    by (rule demo_request_sent [of s "pg_demo_sess\<lparr>ps_bearer_list := [1, 2, 3]\<rparr>"]) (simp_all add: s_def objs_def)
  ultimately show ?thesis by auto
qed

theorem rule_installed_witness:
  "\<exists>t b be. pcc_install pg_demo_env 1 demo_rule ''data'' (pg_demo_state 6 0) = Inr t \<and> objs (pg_bearers t) b = Some be
    \<and> pb_name be = Some ''data'' \<and> length (pb_pf_list be) = 1"
proof -
  have find: "pgw_bearer_find_by_qci_arp 1 (pr_qos demo_rule) (pg_demo_state 6 0) = Inr None"
    by (simp add: pgw_bearer_find_by_qci_arp_def demo_rule_def qci_arp_eq_def demo_qos_def)
  have flows: "list_all flow_ok (pr_flow demo_rule)" and one: "length (pr_flow demo_rule) = 1"
    by (simp_all add: demo_rule_def flow_ok_def demo_tokens MAX_NUM_OF_TOKEN_def)
  have eq: "pcc_install pg_demo_env 1 demo_rule ''data'' (pg_demo_state 6 0) = install_new pg_demo_env 1 demo_rule ''data'' (pg_demo_state 6 0)"
    by (simp add: pcc_install_def find)
  from rule_installed [OF pg_demo_env_ok pg_demo_inv _ flows _ find, of pg_demo_sess "''data''"] demo_install one
  show ?thesis by (fastforce simp: eq dest!: list_all2_lengthD)
qed

end
