(* ===== verification/Pcrf_Rx.thy ===== *)
theory Pcrf_Rx
  imports Gx_Avp
begin

text \<open>
  The policy function, \<^verbatim>\<open>src/src/pcrf/pcrf-gx-path.c\<close>: what an application function asks for over Rx
  becomes rules of the Gx session, and \<^verbatim>\<open>pcrf_gx_send_rar\<close> sends the rules that were installed or
  changed to the packet gateway, or the names of the rules that end. The subscriber database is an
  argument: the rules it holds for an identity and an access point, or none. Of the request only the
  charging rules are kept.
\<close>

subsection \<open>Rx messages\<close>

record rx_sub_component =
  rs_flow_number :: u32
  rs_flow_usage :: u32
  rs_flow :: "ogs_flow list"

record rx_media_component =
  mc_number :: u32
  mc_media_type :: u32
  mc_max_dl :: u64
  mc_max_ul :: u64
  mc_min_dl :: u64
  mc_min_ul :: u64
  mc_rr :: u64
  mc_rs :: u64
  mc_sub :: "rx_sub_component list"

record rx_message =
  rx_cmd_code :: u32
  rx_media :: "rx_media_component list"

definition OGS_DIAM_RX_FLOW_USAGE_RTCP :: u32 where "OGS_DIAM_RX_FLOW_USAGE_RTCP = 1"
definition OGS_DIAM_RX_MEDIA_TYPE_AUDIO :: u32 where "OGS_DIAM_RX_MEDIA_TYPE_AUDIO = 0"
definition OGS_DIAM_RX_CMD_CODE_AA :: u32 where "OGS_DIAM_RX_CMD_CODE_AA = 265"
definition OGS_DIAM_RX_CMD_CODE_SESSION_TERMINATION :: u32 where "OGS_DIAM_RX_CMD_CODE_SESSION_TERMINATION = 275"

definition FILTER_RESTRICTIONS :: u32 where "FILTER_RESTRICTIONS = 5062"
definition SERVICE_NOT_AUTHORIZED :: u32 where "SERVICE_NOT_AUTHORIZED = 5063"
definition SESSION_NOT_AVAILABLE :: u32 where "SESSION_NOT_AVAILABLE = 5065"
definition OGS_DIAM_UNKNOWN_PEER :: u32 where "OGS_DIAM_UNKNOWN_PEER = 3010"
definition OGS_DIAM_UNKNOWN_SESSION_ID :: u32 where "OGS_DIAM_UNKNOWN_SESSION_ID = 5002"
definition OGS_DIAM_INVALID_AVP_VALUE :: u32 where "OGS_DIAM_INVALID_AVP_VALUE = 5005"

text \<open>Values the 3GPP specifications of Gx give to the directions of a flow and to the class of voice.\<close>

abbreviation (input) "FLOW_DOWNLINK_ONLY \<equiv> (1::u8)"
abbreviation (input) "FLOW_UPLINK_ONLY \<equiv> (2::u8)"
abbreviation (input) "PDN_QCI_1 \<equiv> (1::u8)"

text \<open>The flows of a component in the order of the loops over it; a part without a number is skipped.\<close>

definition media_flows :: "rx_media_component \<Rightarrow> (u32 \<times> ogs_flow) list" where
  "media_flows mc = concat (map (\<lambda>sb. map (Pair (rs_flow_usage sb)) (rs_flow sb)) (filter (\<lambda>sb. rs_flow_number sb \<noteq> 0) (mc_sub mc)))"

subsection \<open>Flows\<close>

text \<open>An uplink filter is written as a downlink one on Gx. None is the return of \<^verbatim>\<open>OGS_ERROR\<close>.\<close>

definition flow_rx_to_gx :: "ogs_flow \<Rightarrow> ogs_flow option res" where
  "flow_rx_to_gx fl =
     (case fl_description fl of
        None \<Rightarrow> Inl Dangling_Pointer
      | Some d \<Rightarrow>
          if take (length ''permit out'') d = ''permit out'' then
            Inr (Some \<lparr>fl_direction = FLOW_DOWNLINK_ONLY, fl_description = Some d\<rparr>)
          else if take (length ''permit in'') d = ''permit in'' then
            (let n = length d + 2; d' = ''permit out'' @ drop (length ''permit in'') d in
             ebind (ogs_assert (n = length d' + 1)) (\<lambda>_.
             Inr (Some \<lparr>fl_direction = FLOW_UPLINK_ONLY, fl_description = Some d'\<rparr>)))
          else Inr None)"

fun flow_among :: "ogs_flow \<Rightarrow> ogs_flow list \<Rightarrow> bool res" where
  "flow_among gx [] = Inr False"
| "flow_among gx (fl # fls) =
     (if fl_direction gx = fl_direction fl then
        (case fl_description fl of
           None \<Rightarrow> Inl Dangling_Pointer
         | Some d \<Rightarrow> if fl_description gx = Some d then Inr True else flow_among gx fls)
      else flow_among gx fls)"

fun matched_each :: "ogs_flow list \<Rightarrow> (u32 \<times> ogs_flow) list \<Rightarrow> nat \<Rightarrow> nat option res" where
  "matched_each fls [] matched = Inr (Some matched)"
| "matched_each fls ((u, rx) # rxs) matched =
     ebind (flow_rx_to_gx rx) (\<lambda>r.
     case r of
       None \<Rightarrow> Inr None
     | Some gx \<Rightarrow>
         ebind (flow_among gx fls) (\<lambda>m. matched_each fls rxs (if m then matched + 1 else matched)))"

text \<open>The number of flows of the component the rule has already; a component without flows matches all.\<close>

definition matched_flow :: "ogs_pcc_rule \<Rightarrow> rx_media_component \<Rightarrow> nat option res" where
  "matched_flow r mc =
     (if media_flows mc = [] then Inr (Some (length (pr_flow r))) else matched_each (pr_flow r) (media_flows mc) 0)"

text \<open>
  The flows of the rule are replaced, in an array of \<open>max_flow\<close> entries. The result says whether all
  were taken over; otherwise the rule has those before the one that was not.
\<close>

fun install_each :: "nat \<Rightarrow> (u32 \<times> ogs_flow) list \<Rightarrow> ogs_flow list \<Rightarrow> (bool \<times> ogs_flow list) res" where
  "install_each max_flow [] fls = Inr (True, fls)"
| "install_each max_flow ((u, rx) # rxs) fls =
     (if length fls < max_flow then
        ebind (flow_rx_to_gx rx) (\<lambda>r.
        case r of
          None \<Rightarrow> Inr (False, fls)
        | Some gx \<Rightarrow> install_each max_flow rxs (fls @ [gx]))
      else Inl Out_Of_Bounds)"

definition install_flow :: "nat \<Rightarrow> ogs_pcc_rule \<Rightarrow> rx_media_component \<Rightarrow> (bool \<times> ogs_pcc_rule) res" where
  "install_flow max_flow r mc =
     ebind (install_each max_flow (media_flows mc) []) (\<lambda>(ok, fls). Inr (ok, r\<lparr>pr_flow := fls\<rparr>))"

subsection \<open>Rates\<close>

text \<open>
  The rates of control flows are computed in double precision. A double that occurs is a natural
  number of units of \<open>2\<^sup>-\<^sup>5\<^sup>6\<close>: every value is an integer, or a product with the double \<open>0.05\<close>, which
  is \<open>3602879701896397\<close> units. An operation is exact up to its result, which is rounded to 53
  significant bits, ties to even.
\<close>

fun nbits :: "nat \<Rightarrow> nat" where
  "nbits n = (if n = 0 then 0 else Suc (nbits (n div 2)))"

declare nbits.simps [simp del]

definition round53 :: "nat \<Rightarrow> nat" where
  "round53 n =
     (let k = nbits n - 53; q = n div 2 ^ k; e = n mod 2 ^ k in
      if k = 0 then n else (if 2 * e > 2 ^ k \<or> 2 * e = 2 ^ k \<and> odd q then q + 1 else q) * 2 ^ k)"

definition to_double :: "u64 \<Rightarrow> nat" where "to_double n = round53 (unat n * 2 ^ 56)"

definition of_double :: "nat \<Rightarrow> u64" where "of_double d = of_nat (d div 2 ^ 56)"

definition five_percent :: "u64 \<Rightarrow> nat" where
  "five_percent n = round53 (3602879701896397 * to_double n div 2 ^ 56)"

definition add_double :: "u64 \<Rightarrow> nat \<Rightarrow> u64" where
  "add_double r d = of_double (round53 (to_double r + d))"

text \<open>What a control flow adds to the maximum rate of its direction, \<open>bw\<close> being the requested maximum.\<close>

definition rtcp_rate :: "rx_media_component \<Rightarrow> u64 \<Rightarrow> u64 \<Rightarrow> u64" where
  "rtcp_rate mc bw r =
     (if mc_rr mc \<noteq> 0 \<and> mc_rs mc \<noteq> 0 then r + (mc_rr mc + mc_rs mc)
      else if bw \<noteq> 0 then
        (if mc_rr mc \<noteq> 0 \<and> mc_rs mc = 0 then add_double r (max (five_percent bw) (to_double (mc_rr mc)))
         else if mc_rr mc = 0 \<and> mc_rs mc \<noteq> 0 then add_double r (max (five_percent bw) (to_double (mc_rs mc)))
         else add_double r (five_percent bw))
      else r)"

definition flow_rate :: "rx_media_component \<Rightarrow> u32 \<Rightarrow> ogs_flow \<Rightarrow> ogs_qos \<Rightarrow> ogs_qos res" where
  "flow_rate mc usage gx q =
     (if fl_direction gx = FLOW_DOWNLINK_ONLY then
        Inr (if usage = OGS_DIAM_RX_FLOW_USAGE_RTCP then q\<lparr>oq_mbr_downlink := rtcp_rate mc (mc_max_dl mc) (oq_mbr_downlink q)\<rparr>
             else q\<lparr>oq_mbr_downlink := oq_mbr_downlink q + mc_max_dl mc, oq_gbr_downlink := oq_gbr_downlink q + mc_min_dl mc\<rparr>)
      else if fl_direction gx = FLOW_UPLINK_ONLY then
        Inr (if usage = OGS_DIAM_RX_FLOW_USAGE_RTCP then q\<lparr>oq_mbr_uplink := rtcp_rate mc (mc_max_ul mc) (oq_mbr_uplink q)\<rparr>
             else q\<lparr>oq_mbr_uplink := oq_mbr_uplink q + mc_max_ul mc, oq_gbr_uplink := oq_gbr_uplink q + mc_min_ul mc\<rparr>)
      else Inl Assert_Failed)"

fun qos_each :: "rx_media_component \<Rightarrow> (u32 \<times> ogs_flow) list \<Rightarrow> ogs_qos \<Rightarrow> (bool \<times> ogs_qos) res" where
  "qos_each mc [] q = Inr (True, q)"
| "qos_each mc ((u, rx) # rxs) q =
     ebind (flow_rx_to_gx rx) (\<lambda>r.
     case r of
       None \<Rightarrow> Inr (False, q)
     | Some gx \<Rightarrow> ebind (flow_rate mc u gx q) (qos_each mc rxs))"

text \<open>A rate no flow gave is the one of the component; a guaranteed rate no flow gave is the maximum.\<close>

definition qos_fallback :: "rx_media_component \<Rightarrow> ogs_qos \<Rightarrow> ogs_qos" where
  "qos_fallback mc q =
     (let q = (if oq_mbr_downlink q = 0 then q\<lparr>oq_mbr_downlink := mc_max_dl mc + (mc_rr mc + mc_rs mc)\<rparr> else q);
          q = (if oq_mbr_uplink q = 0 then q\<lparr>oq_mbr_uplink := mc_max_ul mc + (mc_rr mc + mc_rs mc)\<rparr> else q);
          q = (if oq_gbr_downlink q = 0 then q\<lparr>oq_gbr_downlink := oq_mbr_downlink q\<rparr> else q)
      in if oq_gbr_uplink q = 0 then q\<lparr>oq_gbr_uplink := oq_mbr_uplink q\<rparr> else q)"

definition update_qos :: "ogs_pcc_rule \<Rightarrow> rx_media_component \<Rightarrow> (bool \<times> ogs_pcc_rule) res" where
  "update_qos r mc =
     ebind (qos_each mc (media_flows mc)
       ((pr_qos r)\<lparr>oq_mbr_downlink := 0, oq_mbr_uplink := 0, oq_gbr_downlink := 0, oq_gbr_uplink := 0\<rparr>)) (\<lambda>(ok, q).
     Inr (ok, r\<lparr>pr_qos := if ok then qos_fallback mc q else q\<rparr>))"

subsection \<open>Sessions\<close>

record rx_sess_state =
  xs_sid :: string
  xs_pcc_rule :: "ogs_pcc_rule list"

record pcrf_sess_state =
  gss_imsi_bcd :: string
  gss_apn :: string
  gss_rx_list :: "rx_sess_state list"

definition find_rx_state :: "pcrf_sess_state \<Rightarrow> string \<Rightarrow> rx_sess_state option" where
  "find_rx_state gx sid = find (\<lambda>x. xs_sid x = sid) (gss_rx_list gx)"

definition add_rx_state :: "pcrf_sess_state \<Rightarrow> string \<Rightarrow> pcrf_sess_state" where
  "add_rx_state gx sid = gx\<lparr>gss_rx_list := gss_rx_list gx @ [\<lparr>xs_sid = sid, xs_pcc_rule = []\<rparr>]\<rparr>"

text \<open>The first state with the identifier, the one \<open>find_rx_state\<close> yields, is changed or taken out of the list.\<close>

fun map_rx_state :: "string \<Rightarrow> (rx_sess_state \<Rightarrow> rx_sess_state list) \<Rightarrow> rx_sess_state list \<Rightarrow> rx_sess_state list" where
  "map_rx_state sid f [] = []"
| "map_rx_state sid f (x # xs) = (if xs_sid x = sid then f x @ xs else x # map_rx_state sid f xs)"

definition set_rx_rules :: "string \<Rightarrow> ogs_pcc_rule list \<Rightarrow> pcrf_sess_state \<Rightarrow> pcrf_sess_state" where
  "set_rx_rules sid rs gx = gx\<lparr>gss_rx_list := map_rx_state sid (\<lambda>x. [x\<lparr>xs_pcc_rule := rs\<rparr>]) (gss_rx_list gx)\<rparr>"

definition remove_rx_state :: "string \<Rightarrow> pcrf_sess_state \<Rightarrow> pcrf_sess_state" where
  "remove_rx_state sid gx = gx\<lparr>gss_rx_list := map_rx_state sid (\<lambda>x. []) (gss_rx_list gx)\<rparr>"

subsection \<open>Rules of a media component\<close>

definition class_is :: "u8 \<Rightarrow> ogs_pcc_rule \<Rightarrow> bool" where "class_is c r \<longleftrightarrow> oq_qci (pr_qos r) = c"

text \<open>The place of the first rule of the class, the number of rules if there is none.\<close>

definition class_index :: "u8 \<Rightarrow> ogs_pcc_rule list \<Rightarrow> nat" where
  "class_index c rs = length (takeWhile (\<lambda>r. \<not> class_is c r) rs)"

text \<open>The rates of the database where the application gave none.\<close>

definition webui_qos :: "ogs_qos \<Rightarrow> ogs_qos \<Rightarrow> ogs_qos" where
  "webui_qos db q =
     q\<lparr>oq_mbr_downlink := if oq_mbr_downlink q = 0 then oq_mbr_downlink db else oq_mbr_downlink q,
       oq_mbr_uplink := if oq_mbr_uplink q = 0 then oq_mbr_uplink db else oq_mbr_uplink q,
       oq_gbr_downlink := if oq_gbr_downlink q = 0 then oq_gbr_downlink db else oq_gbr_downlink q,
       oq_gbr_uplink := if oq_gbr_uplink q = 0 then oq_gbr_uplink db else oq_gbr_uplink q\<rparr>"

text \<open>
  The rule of the class with the flows of the component, whether its flows are new, and whether that
  went well; the rules of the Rx session as they are then.
\<close>

definition component_flows ::
  "nat \<Rightarrow> ogs_pcc_rule \<Rightarrow> rx_media_component \<Rightarrow> ogs_pcc_rule list \<Rightarrow> ((bool \<times> bool) \<times> ogs_pcc_rule list) res" where
  "component_flows max_flow db mc rs =
     (let j = class_index PDN_QCI_1 rs in
      if j = length rs then
        (if j < OGS_MAX_NUM_OF_PCC_RULE then
           ebind (non_null (pr_name db)) (\<lambda>name.
           ebind (install_flow max_flow (zero_pcc_rule\<lparr>pr_name := Some name, pr_qos := pr_qos db,
               pr_flow_status := pr_flow_status db, pr_precedence := pr_precedence db\<rparr>) mc) (\<lambda>(ok, r).
           Inr ((ok, True), if ok then rs @ [r] else rs)))
         else Inl Out_Of_Bounds)
      else
        (case (pr_name (rs ! j), pr_name db) of
           (Some name, Some db_name) \<Rightarrow>
             ebind (ogs_assert (name = db_name)) (\<lambda>_.
             ebind (matched_flow (rs ! j) mc) (\<lambda>m.
             case m of
               None \<Rightarrow> Inr ((False, False), rs)
             | Some count \<Rightarrow>
                 if length (pr_flow (rs ! j)) \<noteq> count then
                   ebind (install_flow max_flow (rs ! j) mc) (\<lambda>(ok, r). Inr ((ok, True), rs[j := r]))
                 else Inr ((True, False), rs)))
         | _ \<Rightarrow> Inl Dangling_Pointer))"

text \<open>One component: an error code, or the definition of its rule for the request.\<close>

definition media_rule ::
  "nat \<Rightarrow> ogs_pcc_rule list \<Rightarrow> rx_media_component \<Rightarrow> ogs_pcc_rule list \<Rightarrow> ((u32 + avp) \<times> ogs_pcc_rule list) res" where
  "media_rule max_flow dbs mc rs =
     (if mc_media_type mc \<noteq> OGS_DIAM_RX_MEDIA_TYPE_AUDIO then Inr (Inl OGS_DIAM_INVALID_AVP_VALUE, rs)
      else case find (class_is PDN_QCI_1) dbs of
        None \<Rightarrow> Inr (Inl SERVICE_NOT_AUTHORIZED, rs)
      | Some db \<Rightarrow>
          ebind (component_flows max_flow db mc rs) (\<lambda>((ok, presence), rs).
          if \<not> ok then Inr (Inl FILTER_RESTRICTIONS, rs)
          else
            let j = class_index PDN_QCI_1 rs in
            ebind (update_qos (rs ! j) mc) (\<lambda>(ok, r).
            if \<not> ok then Inr (Inl SERVICE_NOT_AUTHORIZED, rs[j := r])
            else
              let r = r\<lparr>pr_qos := webui_qos (pr_qos db) (pr_qos r)\<rparr> in
              ebind (encode_pcc_rule_definition r presence) (\<lambda>a. Inr (Inr a, rs[j := r])))))"

text \<open>The loop over the components, up to the first error; one without a number is skipped.\<close>

fun media_rules ::
  "nat \<Rightarrow> ogs_pcc_rule list \<Rightarrow> rx_media_component list \<Rightarrow> ogs_pcc_rule list \<Rightarrow> avp list \<Rightarrow> ((u32 + avp list) \<times> ogs_pcc_rule list) res" where
  "media_rules max_flow dbs [] rs as = Inr (Inr as, rs)"
| "media_rules max_flow dbs (mc # mcs) rs as =
     (if mc_number mc = 0 then media_rules max_flow dbs mcs rs as
      else
        ebind (media_rule max_flow dbs mc rs) (\<lambda>(r, rs).
        case r of
          Inl code \<Rightarrow> Inr (Inl code, rs)
        | Inr a \<Rightarrow> media_rules max_flow dbs mcs rs (as @ [a])))"

subsection \<open>The request to the packet gateway\<close>

text \<open>What the call returns: success, the result code of the Rx message, the charging rules of the request sent.\<close>

record rar_result =
  rr_ok :: bool
  rr_code :: u32
  rr_request :: "avp list option"

fun remove_names :: "ogs_pcc_rule list \<Rightarrow> avp list res" where
  "remove_names [] = Inr []"
| "remove_names (r # rs) =
     ebind (non_null (pr_name r)) (\<lambda>name.
     ebind (remove_names rs) (\<lambda>as. Inr (avp_octets AVP_CHARGING_RULE_NAME (c_octets name) # as)))"

text \<open>A request is sent if there is a rule in it; without one the call fails with the code of success.\<close>

definition rar_send :: "u32 \<Rightarrow> avp list \<Rightarrow> rar_result" where
  "rar_send grp as =
     (if as = [] then \<lparr>rr_ok = False, rr_code = ER_DIAMETER_SUCCESS, rr_request = None\<rparr>
      else \<lparr>rr_ok = True, rr_code = ER_DIAMETER_SUCCESS, rr_request = Some [avp_group grp as]\<rparr>)"

definition rar_error :: "u32 \<Rightarrow> rar_result" where
  "rar_error code = \<lparr>rr_ok = False, rr_code = code, rr_request = None\<rparr>"

definition rar_aa ::
  "(string \<Rightarrow> string \<Rightarrow> ogs_pcc_rule list option) \<Rightarrow> nat \<Rightarrow> string \<Rightarrow> rx_media_component list \<Rightarrow> pcrf_sess_state \<Rightarrow>
   (rar_result \<times> pcrf_sess_state) res" where
  "rar_aa db max_flow sid mcs gx =
     (let gx = (case find_rx_state gx sid of None \<Rightarrow> add_rx_state gx sid | Some x \<Rightarrow> gx) in
      case db (gss_imsi_bcd gx) (gss_apn gx) of
        None \<Rightarrow> Inr (rar_error SESSION_NOT_AVAILABLE, gx)
      | Some dbs \<Rightarrow>
          ebind (non_null (find_rx_state gx sid)) (\<lambda>x.
          ebind (media_rules max_flow dbs mcs (xs_pcc_rule x) []) (\<lambda>(r, rs).
          Inr (case r of Inl code \<Rightarrow> rar_error code | Inr as \<Rightarrow> rar_send AVP_CHARGING_RULE_INSTALL as, set_rx_rules sid rs gx))))"

definition rar_termination :: "string \<Rightarrow> pcrf_sess_state \<Rightarrow> (rar_result \<times> pcrf_sess_state) res" where
  "rar_termination sid gx =
     ebind (non_null (find_rx_state gx sid)) (\<lambda>x.
     ebind (remove_names (xs_pcc_rule x)) (\<lambda>as.
     Inr (rar_send AVP_CHARGING_RULE_REMOVE as, remove_rx_state sid gx)))"

text \<open>
  The Gx sessions the Diameter library knows, with their data where there is any; looking up an
  unknown one makes it known.
\<close>

definition pcrf_gx_send_rar ::
  "(string \<Rightarrow> string \<Rightarrow> ogs_pcc_rule list option) \<Rightarrow> nat \<Rightarrow> string \<Rightarrow> string \<Rightarrow> rx_message \<Rightarrow>
   (string \<rightharpoonup> pcrf_sess_state option) \<Rightarrow> (rar_result \<times> (string \<rightharpoonup> pcrf_sess_state option)) res" where
  "pcrf_gx_send_rar db max_flow gx_sid rx_sid m sessions =
     (case sessions gx_sid of
        None \<Rightarrow> Inr (rar_error OGS_DIAM_UNKNOWN_PEER, sessions(gx_sid \<mapsto> None))
      | Some None \<Rightarrow> Inr (rar_error OGS_DIAM_UNKNOWN_SESSION_ID, sessions)
      | Some (Some gx) \<Rightarrow>
          ebind (if rx_cmd_code m = OGS_DIAM_RX_CMD_CODE_AA then rar_aa db max_flow rx_sid (rx_media m) gx
                 else if rx_cmd_code m = OGS_DIAM_RX_CMD_CODE_SESSION_TERMINATION then rar_termination rx_sid gx
                 else Inl Assert_Failed) (\<lambda>(res, gx).
          Inr (res, sessions(gx_sid \<mapsto> Some gx))))"

end
