(* ===== verification/Pcrf_Props.thy ===== *)
theory Pcrf_Props
  imports Pcrf_Rx Pgw_Demo "HOL-Library.Sublist" "HOL-Library.Multiset"
begin

text \<open>
  Properties of the policy function and of what it makes the packet gateway do.
\<close>

subsection \<open>Rates of control flows\<close>

lemma nbits_bounds: "n \<noteq> 0 \<Longrightarrow> 2 ^ (nbits n - 1) \<le> n \<and> n < 2 ^ nbits n"
proof (induction n rule: nbits.induct)
  case (1 n)
  show ?case
  proof (cases "n div 2 = 0")
    case True
    then have "n = 1" using 1 by simp
    then show ?thesis by (simp add: nbits.simps)
  next
    case False
    then have IH: "2 ^ (nbits (n div 2) - 1) \<le> n div 2" "n div 2 < 2 ^ nbits (n div 2)" and pos: "nbits (n div 2) \<noteq> 0"
      using 1 by (simp_all add: nbits.simps [of "n div 2"])
    have "(2::nat) ^ nbits (n div 2) = 2 * 2 ^ (nbits (n div 2) - 1)" using pos by (simp flip: power_Suc)
    moreover have "nbits n = Suc (nbits (n div 2))" using False by (simp add: nbits.simps [of n])
    ultimately show ?thesis using IH by (simp, linarith)
  qed
qed

lemma nbits_le: "n < 2 ^ m \<Longrightarrow> nbits n \<le> m"
proof (cases "n = 0")
  case False
  assume "n < 2 ^ m"
  then have "(2::nat) ^ (nbits n - 1) < 2 ^ m" using nbits_bounds [OF False] by linarith
  then show ?thesis by simp
qed (simp add: nbits.simps)

text \<open>Rounding is exact on what is a multiple of the unit in the last place, and off by half of it at most.\<close>

lemma round53_exact:
  assumes "2 ^ (nbits n - 53) dvd n"
  shows "round53 n = n"
  using assms by (auto simp: round53_def Let_def)

lemma round53_near:
  assumes "nbits n \<le> 53 + k"
  shows "2 * n \<le> 2 * round53 n + 2 ^ k" "2 * round53 n \<le> 2 * n + 2 ^ k"
proof -
  define j where "j = nbits n - 53"
  have le: "(2::nat) ^ j \<le> 2 ^ k" using assms by (intro power_increasing) (auto simp: j_def)
  define q where "q = n div 2 ^ j" define e where "e = n mod 2 ^ j"
  have n: "n = q * 2 ^ j + e" unfolding q_def e_def by (rule div_mult_mod_eq [symmetric])
  have e: "e < 2 ^ j" by (simp add: e_def)
  have "2 * n \<le> 2 * round53 n + 2 ^ j \<and> 2 * round53 n \<le> 2 * n + 2 ^ j"
    unfolding round53_def Let_def j_def [symmetric] q_def [symmetric] e_def [symmetric]
    using n e by (auto simp: algebra_simps)
  then show "2 * n \<le> 2 * round53 n + 2 ^ k" "2 * round53 n \<le> 2 * n + 2 ^ k" using le by linarith+
qed

lemma to_double_exact:
  assumes "unat r < 2 ^ 53"
  shows "to_double r = unat r * 2 ^ 56"
proof -
  have "nbits (unat r * 2 ^ 56) \<le> 53 + 56" using assms by (intro nbits_le) (simp add: power_add)
  then have "(2::nat) ^ (nbits (unat r * 2 ^ 56) - 53) dvd 2 ^ 56" by (intro le_imp_power_dvd) simp
  then show ?thesis unfolding to_double_def by (intro round53_exact) (rule dvd_mult)
qed

lemma five_percent_eq:
  assumes "unat n < 2 ^ 32"
  shows "five_percent n = round53 (3602879701896397 * unat n)"
proof -
  have "unat n < 2 ^ 53" using assms by simp
  then show ?thesis by (simp add: five_percent_def to_double_exact)
qed

text \<open>The double that stands for one twentieth is a little larger: of a multiple of twenty it rounds to the twentieth.\<close>

lemma round53_twentieth:
  assumes "q < 2 ^ 28"
  shows "round53 (3602879701896397 * (20 * q)) = q * 2 ^ 56"
proof (cases "q = 0")
  case False
  let ?P = "3602879701896397 * (20 * q)"
  define j where "j = nbits ?P - 53"
  have P: "?P = q * 2 ^ 56 + 4 * q" by simp
  have b: "2 ^ (nbits ?P - 1) \<le> ?P" "?P < 2 ^ nbits ?P" using nbits_bounds [of ?P] False by simp_all
  have "nbits ?P \<le> 53 + 31" using assms by (intro nbits_le) simp
  then have dvd: "(2::nat) ^ j dvd q * 2 ^ 56" by (intro dvd_mult le_imp_power_dvd) (simp add: j_def)
  have "(2::nat) ^ 53 \<le> ?P" using False by simp
  then have "(2::nat) ^ 53 < 2 ^ nbits ?P" using b(2) by (rule le_less_trans)
  then have "53 < nbits ?P" by (rule power_less_imp_less_exp [rotated]) simp
  then have j: "j \<noteq> 0" "nbits ?P = 53 + j" by (simp_all add: j_def)
  have "q * 2 ^ 56 \<le> ?P" by simp
  also have "\<dots> < 2 ^ 53 * 2 ^ j" using b(2) unfolding j(2) power_add .
  finally have "q * 2 ^ 56 < 2 ^ 53 * 2 ^ j" .
  then have small: "8 * q < 2 ^ j" by simp
  obtain m where m: "q * 2 ^ 56 = 2 ^ j * m" using dvd by (rule dvdE)
  have e: "?P mod 2 ^ j = 4 * q" unfolding P m add.commute [of _ "4 * q"] mod_mult_self2 using small by simp
  have "?P div 2 ^ j * 2 ^ j = q * 2 ^ 56" using div_mult_mod_eq [of ?P "2 ^ j"] unfolding e unfolding P by linarith
  then show ?thesis
    unfolding round53_def Let_def j_def [symmetric] e using j(1) small by simp
qed (simp add: round53_def nbits.simps)

lemma five_percent_exact:
  assumes "unat n < 2 ^ 32" and "20 dvd unat n"
  shows "five_percent n = unat n div 20 * 2 ^ 56"
proof -
  obtain q where q: "unat n = 20 * q" using assms(2) by (rule dvdE)
  then show ?thesis using round53_twentieth [of q] assms(1) by (simp add: five_percent_eq)
qed

lemma five_percent_between:
  assumes "unat n < 2 ^ 32" and "\<not> 20 dvd unat n"
  shows "unat n div 20 * 2 ^ 56 + 2 ^ 50 \<le> five_percent n" "five_percent n + 2 ^ 50 \<le> Suc (unat n div 20) * 2 ^ 56"
proof -
  define q r where "q = unat n div 20" and "r = unat n mod 20"
  have n: "unat n = 20 * q + r" by (simp add: q_def r_def)
  have r: "1 \<le> r" "r \<le> 19" using assms(2) by (auto simp: r_def dvd_eq_mod_eq_0)
  have q: "q < 2 ^ 28" using assms(1) n by simp
  have "nbits (3602879701896397 * unat n) \<le> 53 + 31" using assms(1) by (intro nbits_le) simp
  note near = round53_near [OF this]
  show "unat n div 20 * 2 ^ 56 + 2 ^ 50 \<le> five_percent n" "five_percent n + 2 ^ 50 \<le> Suc (unat n div 20) * 2 ^ 56"
    unfolding five_percent_eq [OF assms(1)] q_def [symmetric] using near n r q by simp_all
qed

lemma add_double_twentieth:
  assumes "unat r < 2 ^ 32" and "unat n < 2 ^ 32"
  shows "add_double r (five_percent n) = r + n div 20"
proof -
  let ?S = "to_double r + five_percent n" and ?q = "unat n div 20"
  have q: "?q < 2 ^ 28" using assms(2) by simp
  have r: "to_double r = unat r * 2 ^ 56" using assms(1) by (intro to_double_exact) simp
  have "round53 ?S div 2 ^ 56 = unat r + ?q"
  proof (cases "20 dvd unat n")
    case True
    then have S: "?S = (unat r + ?q) * 2 ^ 56" by (simp add: r five_percent_exact [OF assms(2)] algebra_simps)
    have "nbits ?S \<le> 53 + 36" using assms(1) q unfolding S by (intro nbits_le) simp
    then have "(2::nat) ^ (nbits ?S - 53) dvd 2 ^ 56" by (intro le_imp_power_dvd) simp
    then have "round53 ?S = ?S" using S by (intro round53_exact) (metis dvd_mult)
    then show ?thesis by (simp add: S)
  next
    case False
    note between = five_percent_between [OF assms(2) False]
    have "nbits ?S \<le> 53 + 36" using assms(1) q between r by (intro nbits_le) simp
    note near = round53_near [OF this]
    show ?thesis by (rule div_nat_eqI) (use near between r in simp_all)
  qed
  moreover have "(of_nat (unat r + ?q) :: u64) = r + n div 20" by (simp add: word_arith_nat_div)
  ultimately show ?thesis by (simp add: add_double_def of_double_def)
qed

subsection \<open>Flows\<close>

text \<open>A description that is taken over, and the flow it becomes on Gx.\<close>

definition rx_flow_ok :: "ogs_flow \<Rightarrow> bool" where
  "rx_flow_ok fl = (case fl_description fl of None \<Rightarrow> False | Some d \<Rightarrow> prefix ''permit out'' d \<or> prefix ''permit in'' d)"

definition gx_flow :: "ogs_flow \<Rightarrow> ogs_flow" where
  "gx_flow fl =
     (let d = the (fl_description fl) in
      if prefix ''permit out'' d then \<lparr>fl_direction = FLOW_DOWNLINK_ONLY, fl_description = Some d\<rparr>
      else \<lparr>fl_direction = FLOW_UPLINK_ONLY, fl_description = Some (''permit out'' @ drop 9 d)\<rparr>)"

definition gx_flows :: "rx_media_component \<Rightarrow> ogs_flow list" where
  "gx_flows mc = map (gx_flow \<circ> snd) (media_flows mc)"

definition media_ok :: "rx_media_component \<Rightarrow> bool" where
  "media_ok mc \<longleftrightarrow> list_all (rx_flow_ok \<circ> snd) (media_flows mc)"

lemma take_prefix: "take (length p) d = p \<longleftrightarrow> prefix p d"
  by (auto simp: prefix_def) (metis append_take_drop_id)

lemma flow_rx_to_gx_ok:
  assumes "rx_flow_ok fl"
  shows "flow_rx_to_gx fl = Inr (Some (gx_flow fl))"
proof -
  obtain d where d: "fl_description fl = Some d" "prefix ''permit out'' d \<or> prefix ''permit in'' d"
    using assms by (auto simp: rx_flow_ok_def split: option.splits)
  show ?thesis
  proof (cases "prefix ''permit out'' d")
    case True
    then show ?thesis using d(1) unfolding flow_rx_to_gx_def gx_flow_def take_prefix by simp
  next
    case False
    then obtain z where z: "d = ''permit in'' @ z" using d(2) by (auto elim: prefixE)
    have "drop 9 d = z" by (simp add: z eval_nat_numeral)
    then show ?thesis
      using False d unfolding flow_rx_to_gx_def gx_flow_def take_prefix by (simp add: Let_def z)
  qed
qed

lemma gx_flow_sel:
  "fl_description (gx_flow fl) \<noteq> None" "fl_direction (gx_flow fl) = 1 \<or> fl_direction (gx_flow fl) = 2"
  by (auto simp: gx_flow_def Let_def)

lemma flow_among_eq:
  assumes "fl_description gx \<noteq> None" and "\<forall>fl \<in> set fls. fl_description fl \<noteq> None"
  shows "flow_among gx fls = Inr (gx \<in> set fls)"
  using assms by (induction fls) auto

lemma matched_each_eq:
  assumes "list_all (rx_flow_ok \<circ> snd) rxs" and "\<forall>fl \<in> set fls. fl_description fl \<noteq> None"
  shows "matched_each fls rxs m = Inr (Some (m + length (filter (\<lambda>x. gx_flow (snd x) \<in> set fls) rxs)))"
  using assms(1)
proof (induction rxs arbitrary: m)
  case (Cons x rxs)
  then show ?case
    using flow_among_eq [OF gx_flow_sel(1) assms(2)] by (cases x) (simp add: flow_rx_to_gx_ok)
qed simp

lemma install_each_eq:
  assumes "list_all (rx_flow_ok \<circ> snd) rxs" and "length fls + length rxs \<le> max_flow"
  shows "install_each max_flow rxs fls = Inr (True, fls @ map (gx_flow \<circ> snd) rxs)"
  using assms
proof (induction rxs arbitrary: fls)
  case (Cons x rxs)
  then show ?case by (cases x) (simp add: flow_rx_to_gx_ok)
qed simp

lemma install_flow_eq:
  assumes "media_ok mc" and "length (gx_flows mc) \<le> max_flow"
  shows "install_flow max_flow r mc = Inr (True, r\<lparr>pr_flow := gx_flows mc\<rparr>)"
  using assms install_each_eq [of "media_flows mc" "[]" max_flow] by (simp add: install_flow_def media_ok_def gx_flows_def)

lemma gx_flows_described: "fl \<in> set (gx_flows mc) \<Longrightarrow> fl_description fl \<noteq> None"
  using gx_flow_sel(1) by (auto simp: gx_flows_def)

text \<open>A rule with the flows of the component matches all of them.\<close>

lemma matched_flow_same:
  assumes "media_ok mc" and "pr_flow r = gx_flows mc"
  shows "matched_flow r mc = Inr (Some (length (pr_flow r)))"
proof -
  have "filter (\<lambda>x. gx_flow (snd x) \<in> set (gx_flows mc)) (media_flows mc) = media_flows mc"
    by (rule filter_True) (auto simp: gx_flows_def)
  then show ?thesis
    using assms matched_each_eq [of "media_flows mc" "gx_flows mc" 0] gx_flows_described
    by (auto simp: matched_flow_def media_ok_def) (simp add: gx_flows_def)
qed

subsection \<open>The rule of a media component\<close>

definition no_rates :: "ogs_qos \<Rightarrow> ogs_qos" where
  "no_rates q = q\<lparr>oq_mbr_downlink := 0, oq_mbr_uplink := 0, oq_gbr_downlink := 0, oq_gbr_uplink := 0\<rparr>"

lemma no_rates_simps [simp]:
  "no_rates (no_rates q) = no_rates q" "oq_qci (no_rates q) = oq_qci q"
  "no_rates (q\<lparr>oq_mbr_downlink := a\<rparr>) = no_rates q" "no_rates (q\<lparr>oq_mbr_uplink := a\<rparr>) = no_rates q"
  "no_rates (q\<lparr>oq_gbr_downlink := a\<rparr>) = no_rates q" "no_rates (q\<lparr>oq_gbr_uplink := a\<rparr>) = no_rates q"
  by (simp_all add: no_rates_def)

lemma no_rates_qci: "no_rates q = no_rates q' \<Longrightarrow> oq_qci q = oq_qci q'"
  by (metis no_rates_simps(2))

lemma flow_rate_ok: "\<exists>q'. flow_rate mc u (gx_flow fl) q = Inr q' \<and> no_rates q' = no_rates q"
  using gx_flow_sel(2) [of fl] by (auto simp: flow_rate_def)

lemma qos_each_ok:
  assumes "list_all (rx_flow_ok \<circ> snd) rxs"
  shows "\<exists>q'. qos_each mc rxs q = Inr (True, q') \<and> no_rates q' = no_rates q"
  using assms
proof (induction rxs arbitrary: q)
  case (Cons x rxs)
  obtain q' where q': "flow_rate mc (fst x) (gx_flow (snd x)) q = Inr q'" "no_rates q' = no_rates q" using flow_rate_ok by blast
  then show ?case using Cons.prems Cons.IH [of q'] by (cases x) (simp add: flow_rx_to_gx_ok)
qed simp

lemma no_rates_fallback: "no_rates (qos_fallback mc q) = no_rates q" "no_rates (webui_qos db q) = no_rates q"
  by (simp_all add: qos_fallback_def webui_qos_def Let_def)

text \<open>
  The rule of a component: the one of the database with the flows of the component, and with its rates
  where it gives any.
\<close>

definition media_qos :: "rx_media_component \<Rightarrow> ogs_qos \<Rightarrow> ogs_qos" where
  "media_qos mc q = qos_fallback mc (snd (projr (qos_each mc (media_flows mc) (no_rates q))))"

definition voice_rule :: "ogs_pcc_rule \<Rightarrow> rx_media_component \<Rightarrow> ogs_pcc_rule" where
  "voice_rule db mc = zero_pcc_rule\<lparr>pr_name := pr_name db, pr_flow := gx_flows mc, pr_flow_status := pr_flow_status db,
     pr_precedence := pr_precedence db, pr_qos := webui_qos (pr_qos db) (media_qos mc (pr_qos db))\<rparr>"

lemma update_qos_ok:
  assumes "media_ok mc"
  shows "update_qos r mc = Inr (True, r\<lparr>pr_qos := media_qos mc (pr_qos r)\<rparr>)" "no_rates (media_qos mc q) = no_rates q"
proof -
  have "\<exists>q'. qos_each mc (media_flows mc) (no_rates q) = Inr (True, q') \<and> no_rates q' = no_rates (no_rates q)" for q
    by (rule qos_each_ok) (use assms in \<open>simp add: media_ok_def\<close>)
  note each = this
  show "update_qos r mc = Inr (True, r\<lparr>pr_qos := media_qos mc (pr_qos r)\<rparr>)"
    using each [of "pr_qos r"] by (auto simp: update_qos_def media_qos_def no_rates_def)
  show "no_rates (media_qos mc q) = no_rates q" using each [of q] by (auto simp: media_qos_def no_rates_fallback)
qed

lemma voice_class:
  assumes "media_ok mc" and "class_is PDN_QCI_1 db"
  shows "class_is PDN_QCI_1 (voice_rule db mc)" "no_rates (pr_qos (voice_rule db mc)) = no_rates (pr_qos db)"
proof -
  show same: "no_rates (pr_qos (voice_rule db mc)) = no_rates (pr_qos db)"
    using assms(1) by (simp add: voice_rule_def no_rates_fallback update_qos_ok(2))
  show "class_is PDN_QCI_1 (voice_rule db mc)" using assms(2) no_rates_qci [OF same] by (simp add: class_is_def)
qed

lemma find_class: "find (class_is c) dbs = Some d \<Longrightarrow> class_is c d"
  by (auto simp: find_Some_iff)

text \<open>The first request for a component records its rule and writes it with its flows; the second writes it without them.\<close>

lemma media_rule_first:
  assumes "mc_media_type mc = OGS_DIAM_RX_MEDIA_TYPE_AUDIO" and "find (class_is PDN_QCI_1) dbs = Some d" and "media_ok mc"
    and "pcc_rule_ok max_flow (voice_rule d mc)"
  shows "media_rule max_flow dbs mc [] = ebind (encode_pcc_rule_definition (voice_rule d mc) True) (\<lambda>a. Inr (Inr a, [voice_rule d mc]))"
proof -
  obtain name where name: "pr_name d = Some name" using assms(4) by (auto simp: pcc_rule_ok_def voice_rule_def)
  have len: "length (gx_flows mc) \<le> max_flow" using assms(4) by (simp add: pcc_rule_ok_def voice_rule_def)
  have cls: "class_is PDN_QCI_1 (zero_pcc_rule\<lparr>pr_name := Some name, pr_qos := pr_qos d, pr_flow_status := a, pr_precedence := b, pr_flow := fls\<rparr>)"
    for a b fls using find_class [OF assms(2)] by (simp add: class_is_def zero_pcc_rule_def)
  show ?thesis
    using assms(1,2) name cls
    by (simp add: media_rule_def component_flows_def class_index_def OGS_MAX_NUM_OF_PCC_RULE_def install_flow_eq [OF assms(3) len]
        update_qos_ok(1) [OF assms(3)] Let_def) (simp add: voice_rule_def name zero_pcc_rule_def)
qed

lemma media_rule_again:
  assumes "mc_media_type mc = OGS_DIAM_RX_MEDIA_TYPE_AUDIO" and "find (class_is PDN_QCI_1) dbs = Some d" and "media_ok mc"
    and "pcc_rule_ok max_flow (voice_rule d mc)"
  shows "media_rule max_flow dbs mc [voice_rule d mc] = ebind (encode_pcc_rule_definition (voice_rule d mc) False) (\<lambda>a. Inr (Inr a, [voice_rule d mc]))"
proof -
  obtain name where name: "pr_name d = Some name" using assms(4) by (auto simp: pcc_rule_ok_def voice_rule_def)
  note cls = voice_class [OF assms(3) find_class [OF assms(2)]]
  have sel: "pr_name (voice_rule d mc) = Some name" "pr_flow (voice_rule d mc) = gx_flows mc" by (simp_all add: voice_rule_def name)
  have "media_qos mc (pr_qos (voice_rule d mc)) = media_qos mc (pr_qos d)" using cls(2) by (simp add: media_qos_def)
  then have again: "(voice_rule d mc)\<lparr>pr_qos := webui_qos (pr_qos d) (media_qos mc (pr_qos (voice_rule d mc)))\<rparr> = voice_rule d mc"
    by (simp add: voice_rule_def)
  show ?thesis
    using assms(1,2) name sel cls(1) again matched_flow_same [OF assms(3) sel(2)]
    by (simp add: media_rule_def component_flows_def class_index_def update_qos_ok(1) [OF assms(3)] Let_def)
qed

subsection \<open>The request as the gateway reads it\<close>

text \<open>The message of a re-authorization request before its rules are read.\<close>

definition rar_message :: gx_message where
  "rar_message = zero_gx_message\<lparr>gx_cmd_code := OGS_DIAM_GX_CMD_RE_AUTH\<rparr>"

lemma rar_install_one:
  assumes "avp_code a = AVP_CHARGING_RULE_DEFINITION" and "decode_pcc_rule_definition (pe_max_flow E) a = Inr (r, 0)"
  shows "rar_rules E [avp_group AVP_CHARGING_RULE_INSTALL [a]] rar_message
    = Inr (rar_message\<lparr>gx_pcc_rule := [r\<lparr>pr_type := OGS_PCC_RULE_TYPE_INSTALL\<rparr>]\<rparr>)"
  using assms by (simp add: rar_message_def zero_gx_message_def avp_group_def OGS_MAX_NUM_OF_PCC_RULE_def)

lemma find_snoc: "find P l = None \<Longrightarrow> P a \<Longrightarrow> find P (l @ [a]) = Some a"
  by (induction l) (auto split: if_splits)

lemma find_after_add: "find_rx_state gx x = None \<Longrightarrow> find_rx_state (add_rx_state gx x) x = Some \<lparr>xs_sid = x, xs_pcc_rule = []\<rparr>"
  by (simp add: find_rx_state_def add_rx_state_def find_snoc)

lemma find_map_rx:
  assumes "find (\<lambda>y. xs_sid y = x) l = Some y" and "xs_sid (f y) = x"
  shows "find (\<lambda>y. xs_sid y = x) (map_rx_state x (\<lambda>y. [f y]) l) = Some (f y)"
  using assms by (induction l) auto

lemma find_set_rx_rules:
  assumes "find_rx_state gx x = Some y"
  shows "find_rx_state (set_rx_rules x rs gx) x = Some (y\<lparr>xs_pcc_rule := rs\<rparr>)"
proof -
  have "xs_sid y = x" using assms by (auto simp: find_rx_state_def find_Some_iff)
  then show ?thesis
    using assms find_map_rx [of x "gss_rx_list gx" y "\<lambda>y. y\<lparr>xs_pcc_rule := rs\<rparr>"] by (simp add: find_rx_state_def set_rx_rules_def)
qed

lemma set_rx_rules_same:
  assumes "find_rx_state gx x = Some y"
  shows "set_rx_rules x (xs_pcc_rule y) gx = gx"
proof -
  have "map_rx_state x (\<lambda>z. [z\<lparr>xs_pcc_rule := xs_pcc_rule y\<rparr>]) l = l" if "find (\<lambda>z. xs_sid z = x) l = Some y" for l
    using that by (induction l) (auto split: if_splits)
  then show ?thesis using assms by (simp add: find_rx_state_def set_rx_rules_def)
qed

lemma add_rx_state_sel: "gss_imsi_bcd (add_rx_state gx x) = gss_imsi_bcd gx" "gss_apn (add_rx_state gx x) = gss_apn gx"
  by (simp_all add: add_rx_state_def)

text \<open>An audio component the database has a rule for, with flows that are taken over and fit the messages.\<close>

definition voice_request ::
  "(string \<Rightarrow> string \<Rightarrow> ogs_pcc_rule list option) \<Rightarrow> nat \<Rightarrow> pcrf_sess_state \<Rightarrow> ogs_pcc_rule \<Rightarrow> rx_media_component \<Rightarrow> bool" where
  "voice_request db max_flow gx d mc \<longleftrightarrow>
     (case db (gss_imsi_bcd gx) (gss_apn gx) of None \<Rightarrow> False | Some dbs \<Rightarrow> find (class_is PDN_QCI_1) dbs = Some d)
   \<and> mc_number mc \<noteq> 0 \<and> mc_media_type mc = OGS_DIAM_RX_MEDIA_TYPE_AUDIO \<and> media_ok mc \<and> pcc_rule_ok max_flow (voice_rule d mc)"

lemma rar_first:
  assumes "voice_request db max_flow gx d mc" and "find_rx_state gx x = None"
    and "encode_pcc_rule_definition (voice_rule d mc) True = Inr a"
  shows "rar_aa db max_flow x (mc # mcs) gx =
    (case db (gss_imsi_bcd gx) (gss_apn gx) of Some dbs \<Rightarrow>
       ebind (media_rules max_flow dbs mcs [voice_rule d mc] [a]) (\<lambda>(r, rs).
       Inr (case r of Inl code \<Rightarrow> rar_error code | Inr as \<Rightarrow> rar_send AVP_CHARGING_RULE_INSTALL as, set_rx_rules x rs (add_rx_state gx x))))"
  using assms find_after_add [OF assms(2)] media_rule_first [of mc _ d max_flow]
  by (simp add: voice_request_def rar_aa_def add_rx_state_sel split: option.splits)

lemma rar_again:
  assumes "voice_request db max_flow gx d mc" and "find_rx_state gx x = Some y" and "xs_pcc_rule y = [voice_rule d mc]"
    and "encode_pcc_rule_definition (voice_rule d mc) False = Inr a"
  shows "rar_aa db max_flow x [mc] gx = Inr (rar_send AVP_CHARGING_RULE_INSTALL [a], gx)"
  using assms set_rx_rules_same [OF assms(2)] media_rule_again [of mc _ d max_flow]
  by (simp add: voice_request_def rar_aa_def split: option.splits)

subsection \<open>Properties\<close>

text \<open>
  (C13) Voice that an application function asks for reaches the packet gateway: the first request of
  an Rx session with an audio component is sent, and the gateway reads from it exactly the rule of the
  component, to be installed: name, class and precedence of the database, the flows in order with their
  directions, an uplink filter rewritten as a downlink one, and the rates. The policy function records
  the same rule.
\<close>

theorem voice_reaches_gateway:
  assumes "S g = Some (Some gx)" and "voice_request db (pe_max_flow E) gx d mc" and "find_rx_state gx x = None"
  shows "\<exists>as gx'. pcrf_gx_send_rar db (pe_max_flow E) g x \<lparr>rx_cmd_code = OGS_DIAM_RX_CMD_CODE_AA, rx_media = [mc]\<rparr> S
      = Inr (\<lparr>rr_ok = True, rr_code = ER_DIAMETER_SUCCESS, rr_request = Some as\<rparr>, S(g \<mapsto> Some gx'))
    \<and> rar_rules E as rar_message = Inr (rar_message\<lparr>gx_pcc_rule := [(voice_rule d mc)\<lparr>pr_type := OGS_PCC_RULE_TYPE_INSTALL\<rparr>]\<rparr>)
    \<and> map_option xs_pcc_rule (find_rx_state gx' x) = Some [voice_rule d mc]"
proof -
  have "pcc_rule_ok (pe_max_flow E) (voice_rule d mc)" using assms(2) by (simp add: voice_request_def)
  from decode_encode_rule [OF this, of True] obtain a where a: "encode_pcc_rule_definition (voice_rule d mc) True = Inr a"
      "avp_code a = AVP_CHARGING_RULE_DEFINITION"
      "decode_pcc_rule_definition (pe_max_flow E) a = Inr ((voice_rule d mc)\<lparr>pr_type := Pcc_Rule_Type_Other\<rparr>, 0)" by auto
  let ?gx = "set_rx_rules x [voice_rule d mc] (add_rx_state gx x)"
  have "rar_aa db (pe_max_flow E) x [mc] gx = Inr (rar_send AVP_CHARGING_RULE_INSTALL [a], ?gx)"
    using rar_first [OF assms(2,3) a(1), of "[]"] assms(2) by (simp add: voice_request_def split: option.splits)
  then show ?thesis
    using assms(1) rar_install_one [OF a(2,3)] find_set_rx_rules [OF find_after_add [OF assms(3)]]
    by (intro exI [of _ "[avp_group AVP_CHARGING_RULE_INSTALL [a]]"] exI [of _ ?gx]) (simp add: pcrf_gx_send_rar_def rar_send_def)
qed

text \<open>
  (C22) Asking again for the same voice changes nothing: the rules of the session stay as they are, and
  the gateway reads the same rule without flows, which leaves the filters of its bearer alone.
\<close>

theorem voice_repeated:
  assumes "S g = Some (Some gx)" and "voice_request db (pe_max_flow E) gx d mc"
    and "find_rx_state gx x = Some y" and "xs_pcc_rule y = [voice_rule d mc]"
  shows "\<exists>as. pcrf_gx_send_rar db (pe_max_flow E) g x \<lparr>rx_cmd_code = OGS_DIAM_RX_CMD_CODE_AA, rx_media = [mc]\<rparr> S
      = Inr (\<lparr>rr_ok = True, rr_code = ER_DIAMETER_SUCCESS, rr_request = Some as\<rparr>, S)
    \<and> rar_rules E as rar_message
      = Inr (rar_message\<lparr>gx_pcc_rule := [(voice_rule d mc)\<lparr>pr_type := OGS_PCC_RULE_TYPE_INSTALL, pr_flow := []\<rparr>]\<rparr>)"
proof -
  have "pcc_rule_ok (pe_max_flow E) (voice_rule d mc)" using assms(2) by (simp add: voice_request_def)
  from decode_encode_rule [OF this, of False] obtain a where a: "encode_pcc_rule_definition (voice_rule d mc) False = Inr a"
      "avp_code a = AVP_CHARGING_RULE_DEFINITION"
      "decode_pcc_rule_definition (pe_max_flow E) a = Inr ((voice_rule d mc)\<lparr>pr_type := Pcc_Rule_Type_Other, pr_flow := []\<rparr>, 0)" by auto
  show ?thesis
    using assms(1) rar_again [OF assms(2-4) a(1)] rar_install_one [OF a(2,3)]
    by (intro exI [of _ "[avp_group AVP_CHARGING_RULE_INSTALL [a]]"]) (simp add: pcrf_gx_send_rar_def rar_send_def fun_upd_idem)
qed

text \<open>A rule without flows for a class the session has no bearer of stops the gateway.\<close>

lemma binding_without_flows:
  assumes "pgw_env_ok E" and "pgw_inv s" and "objs (pg_sesss s) y = Some se" and "pr_name r = Some name"
    and "pgw_bearer_find_by_qci_arp y (pr_qos r) s = Inr None"
  shows "bearer_binding E y (gx\<lparr>gx_pcc_rule := [r\<lparr>pr_flow := [], pr_type := OGS_PCC_RULE_TYPE_INSTALL\<rparr>]\<rparr>) s = Inl Assert_Failed"
proof -
  have y: "y \<noteq> 0" using pgw_inv_sess [OF assms(2,3)] by blast
  note add = bearer_add_pg_spec [OF assms(1) y assms(3)]
  have "install_new E y (r\<lparr>pr_flow := [], pr_type := OGS_PCC_RULE_TYPE_INSTALL\<rparr>) name s = Inl Assert_Failed"
  proof (cases "pgw_bearer_add E y s")
    case (Inl e)
    then show ?thesis using add by (auto simp: install_new_def)
  next
    case (Inr bt)
    then show ?thesis using add by (auto simp: install_new_def pg_set_bearer_def Let_def)
  qed
  then show ?thesis using y assms(4,5) by (simp add: bearer_binding_def pcc_install_def)
qed

text \<open>
  (C39) A request that fails halfway stops the packet gateway later. If a component the policy function
  does not support follows an audio component, the request is refused and nothing is sent, but the rule
  of the audio component stays recorded. The next request with the audio component alone is therefore
  sent without flows, and a gateway that has no bearer of the class fails an assertion on it.
\<close>

theorem refused_request_stops_gateway:
  assumes "S g = Some (Some gx)" and "voice_request db (pe_max_flow E) gx d mc" and "find_rx_state gx x = None"
    and "mc_number video \<noteq> 0" and "mc_media_type video \<noteq> OGS_DIAM_RX_MEDIA_TYPE_AUDIO"
    and "pgw_env_ok E" and "pgw_inv s" and "objs (pg_sesss s) y = Some se"
    and "pgw_bearer_find_by_qci_arp y (pr_qos (voice_rule d mc)) s = Inr None"
  shows "\<exists>T as m. pcrf_gx_send_rar db (pe_max_flow E) g x \<lparr>rx_cmd_code = OGS_DIAM_RX_CMD_CODE_AA, rx_media = [mc, video]\<rparr> S
      = Inr (\<lparr>rr_ok = False, rr_code = OGS_DIAM_INVALID_AVP_VALUE, rr_request = None\<rparr>, T)
    \<and> pcrf_gx_send_rar db (pe_max_flow E) g x \<lparr>rx_cmd_code = OGS_DIAM_RX_CMD_CODE_AA, rx_media = [mc]\<rparr> T
      = Inr (\<lparr>rr_ok = True, rr_code = ER_DIAMETER_SUCCESS, rr_request = Some as\<rparr>, T)
    \<and> rar_rules E as rar_message = Inr m \<and> bearer_binding E y m s = Inl Assert_Failed"
proof -
  have ok: "pcc_rule_ok (pe_max_flow E) (voice_rule d mc)" using assms(2) by (simp add: voice_request_def)
  obtain name where name: "pr_name (voice_rule d mc) = Some name" using ok by (auto simp: pcc_rule_ok_def)
  obtain a where a: "encode_pcc_rule_definition (voice_rule d mc) True = Inr a" using decode_encode_rule [OF ok, of True] by auto
  obtain b where b: "encode_pcc_rule_definition (voice_rule d mc) False = Inr b" "avp_code b = AVP_CHARGING_RULE_DEFINITION"
      "decode_pcc_rule_definition (pe_max_flow E) b = Inr ((voice_rule d mc)\<lparr>pr_type := Pcc_Rule_Type_Other, pr_flow := []\<rparr>, 0)"
    using decode_encode_rule [OF ok, of False] by auto
  let ?gx = "set_rx_rules x [voice_rule d mc] (add_rx_state gx x)" and ?as = "[avp_group AVP_CHARGING_RULE_INSTALL [b]]"
  have "rar_aa db (pe_max_flow E) x [mc, video] gx = Inr (rar_error OGS_DIAM_INVALID_AVP_VALUE, ?gx)"
    using rar_first [OF assms(2,3) a, of "[video]"] assms(2,4,5) by (simp add: voice_request_def media_rule_def split: option.splits)
  moreover have "rar_aa db (pe_max_flow E) x [mc] ?gx = Inr (rar_send AVP_CHARGING_RULE_INSTALL [b], ?gx)"
  proof (rule rar_again [OF _ _ _ b(1)])
    show "find_rx_state ?gx x = Some \<lparr>xs_sid = x, xs_pcc_rule = [voice_rule d mc]\<rparr>"
      using find_set_rx_rules [OF find_after_add [OF assms(3)], of "[voice_rule d mc]"] by simp
  qed (use assms(2) in \<open>simp_all add: voice_request_def set_rx_rules_def add_rx_state_def\<close>)
  moreover have "bearer_binding E y (rar_message\<lparr>gx_pcc_rule := [(voice_rule d mc)\<lparr>pr_flow := [], pr_type := OGS_PCC_RULE_TYPE_INSTALL\<rparr>]\<rparr>) s
      = Inl Assert_Failed"
    by (rule binding_without_flows [OF assms(6-8) name assms(9)])
  ultimately show ?thesis
    using assms(1) rar_install_one [OF b(2,3)]
    by (intro exI [of _ "S(g \<mapsto> Some ?gx)"] exI [of _ ?as]) (simp add: pcrf_gx_send_rar_def rar_send_def rar_error_def)
qed

text \<open>
  (C23) A control flow without bandwidths of its own gets one twentieth of the bandwidth of the media,
  rounded down, although the code multiplies by the double nearest to 0.05.
\<close>

theorem control_rate_exact:
  assumes "mc_rr mc = 0" and "mc_rs mc = 0" and "r < 2 ^ 32" and "bw < 2 ^ 32"
  shows "rtcp_rate mc bw r = r + bw div 20"
proof -
  have "unat r < 2 ^ 32" "unat bw < 2 ^ 32" using assms(3,4) by (simp_all add: word_less_nat_alt)
  then show ?thesis using assms(1,2) add_double_twentieth by (simp add: rtcp_rate_def)
qed

text \<open>
  (C40) A flow that is added to a component is ignored: if all flows of the rule recur in the component,
  in any order and once each, nothing is installed, however many further flows the component has.
\<close>

theorem added_flow_ignored:
  assumes "media_ok mc" and "class_index PDN_QCI_1 rs < length rs" and "pr_name (rs ! class_index PDN_QCI_1 rs) = pr_name db"
    and "pr_name db = Some name" and "mset (filter (\<lambda>f. f \<in> set (pr_flow (rs ! class_index PDN_QCI_1 rs))) (gx_flows mc)) = mset (pr_flow (rs ! class_index PDN_QCI_1 rs))"
    and "media_flows mc \<noteq> []"
  shows "component_flows max_flow db mc rs = Inr ((True, False), rs)"
proof -
  let ?r = "rs ! class_index PDN_QCI_1 rs"
  have "set (pr_flow ?r) \<subseteq> set (gx_flows mc)" using arg_cong [OF assms(5), of set_mset] by auto
  then have desc: "\<forall>fl \<in> set (pr_flow ?r). fl_description fl \<noteq> None" using gx_flows_described by blast
  have "length (filter (\<lambda>x. gx_flow (snd x) \<in> set (pr_flow ?r)) (media_flows mc)) = length (pr_flow ?r)"
    using mset_eq_length [OF assms(5)] by (simp add: gx_flows_def filter_map comp_def)
  then have "matched_flow ?r mc = Inr (Some (length (pr_flow ?r)))"
    using matched_each_eq [of "media_flows mc" "pr_flow ?r" 0] desc assms(1,6) by (simp add: matched_flow_def media_ok_def)
  then show ?thesis using assms(2-4) by (simp add: component_flows_def Let_def)
qed

subsection \<open>Witnesses\<close>

text \<open>A subscriber with a rule for voice, and an audio component with a flow in each direction.\<close>

definition demo_db_rule :: ogs_pcc_rule where
  "demo_db_rule = zero_pcc_rule\<lparr>pr_name := Some ''voice'', pr_precedence := 5, pr_flow_status := 2, pr_qos := zero_qos\<lparr>oq_qci := 1, oq_priority_level := 2\<rparr>\<rparr>"

definition demo_db :: "string \<Rightarrow> string \<Rightarrow> ogs_pcc_rule list option" where
  "demo_db imsi apn = (if imsi = ''001010000000001'' then Some [demo_db_rule] else None)"

definition demo_gx :: pcrf_sess_state where
  "demo_gx = \<lparr>gss_imsi_bcd = ''001010000000001'', gss_apn = ''ims'', gss_rx_list = []\<rparr>"

definition demo_audio :: rx_media_component where
  "demo_audio = \<lparr>mc_number = 1, mc_media_type = 0, mc_max_dl = 64000, mc_max_ul = 48000, mc_min_dl = 0, mc_min_ul = 0, mc_rr = 0, mc_rs = 0,
     mc_sub = [\<lparr>rs_flow_number = 1, rs_flow_usage = 0, rs_flow =
       [\<lparr>fl_direction = 0, fl_description = Some ''permit out 17 from any to any''\<rparr>,
        \<lparr>fl_direction = 0, fl_description = Some ''permit in 17 from any to any''\<rparr>]\<rparr>]\<rparr>"

definition demo_video :: rx_media_component where "demo_video = demo_audio\<lparr>mc_number := 2, mc_media_type := 1\<rparr>"

lemma demo_voice_rule:
  "voice_rule demo_db_rule demo_audio = \<lparr>pr_type = Pcc_Rule_Type_Other, pr_name = Some ''voice'',
     pr_flow = [\<lparr>fl_direction = 1, fl_description = Some ''permit out 17 from any to any''\<rparr>,
                \<lparr>fl_direction = 2, fl_description = Some ''permit out 17 from any to any''\<rparr>],
     pr_flow_status = 2, pr_precedence = 5,
     pr_qos = \<lparr>oq_qci = 1, oq_priority_level = 2, oq_pre_emption_capability = 0, oq_pre_emption_vulnerability = 0,
       oq_mbr_downlink = 64000, oq_mbr_uplink = 48000, oq_gbr_downlink = 64000, oq_gbr_uplink = 48000\<rparr>\<rparr>"
  by code_simp

lemma demo_voice_request: "voice_request demo_db (pe_max_flow pg_demo_env) demo_gx demo_db_rule demo_audio"
proof -
  have "media_ok demo_audio" by code_simp
  moreover have "pcc_rule_ok (pe_max_flow pg_demo_env) (voice_rule demo_db_rule demo_audio)"
    unfolding demo_voice_rule by (simp add: pcc_rule_ok_def)
  ultimately show ?thesis
    by (simp add: voice_request_def demo_db_def demo_gx_def class_is_def) (simp add: demo_db_rule_def demo_audio_def OGS_DIAM_RX_MEDIA_TYPE_AUDIO_def)
qed

theorem voice_reaches_gateway_witness:
  "\<exists>as gx'. pcrf_gx_send_rar demo_db (pe_max_flow pg_demo_env) ''g'' ''x'' \<lparr>rx_cmd_code = OGS_DIAM_RX_CMD_CODE_AA, rx_media = [demo_audio]\<rparr>
      [''g'' \<mapsto> Some demo_gx] = Inr (\<lparr>rr_ok = True, rr_code = ER_DIAMETER_SUCCESS, rr_request = Some as\<rparr>, gx')
    \<and> (\<exists>m. rar_rules pg_demo_env as rar_message = Inr m \<and> map pr_name (gx_pcc_rule m) = [Some ''voice''])"
proof -
  have "find_rx_state demo_gx ''x'' = None" by (simp add: find_rx_state_def demo_gx_def)
  from voice_reaches_gateway [OF _ demo_voice_request this, of "[''g'' \<mapsto> Some demo_gx]" "''g''"]
  show ?thesis by (fastforce simp: demo_voice_rule)
qed

theorem voice_repeated_witness:
  "\<exists>as. pcrf_gx_send_rar demo_db (pe_max_flow pg_demo_env) ''g'' ''x'' \<lparr>rx_cmd_code = OGS_DIAM_RX_CMD_CODE_AA, rx_media = [demo_audio]\<rparr>
      [''g'' \<mapsto> Some (demo_gx\<lparr>gss_rx_list := [\<lparr>xs_sid = ''x'', xs_pcc_rule = [voice_rule demo_db_rule demo_audio]\<rparr>]\<rparr>)]
    = Inr (\<lparr>rr_ok = True, rr_code = ER_DIAMETER_SUCCESS, rr_request = Some as\<rparr>,
      [''g'' \<mapsto> Some (demo_gx\<lparr>gss_rx_list := [\<lparr>xs_sid = ''x'', xs_pcc_rule = [voice_rule demo_db_rule demo_audio]\<rparr>]\<rparr>)])"
proof -
  let ?gx = "demo_gx\<lparr>gss_rx_list := [\<lparr>xs_sid = ''x'', xs_pcc_rule = [voice_rule demo_db_rule demo_audio]\<rparr>]\<rparr>"
  have "voice_request demo_db (pe_max_flow pg_demo_env) ?gx demo_db_rule demo_audio"
    using demo_voice_request by (simp add: voice_request_def)
  moreover have "find_rx_state ?gx ''x'' = Some \<lparr>xs_sid = ''x'', xs_pcc_rule = [voice_rule demo_db_rule demo_audio]\<rparr>"
    by (simp add: find_rx_state_def)
  ultimately show ?thesis
    using voice_repeated [of "[''g'' \<mapsto> Some ?gx]" "''g''" ?gx demo_db pg_demo_env demo_db_rule demo_audio "''x''"
      "\<lparr>xs_sid = ''x'', xs_pcc_rule = [voice_rule demo_db_rule demo_audio]\<rparr>"] by auto
qed

theorem refused_request_stops_gateway_witness:
  "\<exists>T as m. pcrf_gx_send_rar demo_db (pe_max_flow pg_demo_env) ''g'' ''x'' \<lparr>rx_cmd_code = OGS_DIAM_RX_CMD_CODE_AA, rx_media = [demo_audio, demo_video]\<rparr>
      [''g'' \<mapsto> Some demo_gx] = Inr (\<lparr>rr_ok = False, rr_code = OGS_DIAM_INVALID_AVP_VALUE, rr_request = None\<rparr>, T)
    \<and> pcrf_gx_send_rar demo_db (pe_max_flow pg_demo_env) ''g'' ''x'' \<lparr>rx_cmd_code = OGS_DIAM_RX_CMD_CODE_AA, rx_media = [demo_audio]\<rparr> T
      = Inr (\<lparr>rr_ok = True, rr_code = ER_DIAMETER_SUCCESS, rr_request = Some as\<rparr>, T)
    \<and> rar_rules pg_demo_env as rar_message = Inr m \<and> bearer_binding pg_demo_env 1 m (pg_demo_state 6 0) = Inl Assert_Failed"
proof (rule refused_request_stops_gateway [OF _ demo_voice_request _ _ _ pg_demo_env_ok(1) pg_demo_inv])
  show "find_rx_state demo_gx ''x'' = None" by (simp add: find_rx_state_def demo_gx_def)
  show "pgw_bearer_find_by_qci_arp 1 (pr_qos (voice_rule demo_db_rule demo_audio)) (pg_demo_state 6 0) = Inr None"
    by (simp add: pgw_bearer_find_by_qci_arp_def demo_voice_rule qci_arp_eq_def demo_qos_def)
  show "objs (pg_sesss (pg_demo_state 6 0)) 1 = Some pg_demo_sess" by simp
qed (simp_all add: demo_video_def demo_audio_def OGS_DIAM_RX_MEDIA_TYPE_AUDIO_def)

theorem control_rate_exact_witness: "rtcp_rate demo_audio 64000 48000 = 51200"
  using control_rate_exact [of demo_audio 48000 64000] by (simp add: demo_audio_def)

theorem added_flow_ignored_witness:
  "component_flows 16 demo_db_rule demo_audio [(voice_rule demo_db_rule demo_audio)\<lparr>pr_flow := [hd (gx_flows demo_audio)]\<rparr>]
    = Inr ((True, False), [(voice_rule demo_db_rule demo_audio)\<lparr>pr_flow := [hd (gx_flows demo_audio)]\<rparr>])"
proof -
  let ?r = "(voice_rule demo_db_rule demo_audio)\<lparr>pr_flow := [hd (gx_flows demo_audio)]\<rparr>"
  have flows: "gx_flows demo_audio = pr_flow (voice_rule demo_db_rule demo_audio)" by (simp add: voice_rule_def)
  have "class_index PDN_QCI_1 [?r] = 0" by (simp add: class_index_def class_is_def demo_voice_rule)
  moreover have "media_ok demo_audio" "media_flows demo_audio \<noteq> []" "pr_name demo_db_rule = Some ''voice''" by code_simp+
  ultimately show ?thesis
    using added_flow_ignored [of demo_audio "[?r]" demo_db_rule "''voice''" 16] unfolding flows
    by (simp add: demo_voice_rule)
qed

end
