(* ===== verification/Spec2Isabelle.thy ===== *)
theory Spec2Isabelle
  imports Gtp_Props Sgw_Control Nas_Types Nas_Props Pgw_Props Pcrf_Props
begin

text \<open>
  \<^bold>\<open>Verification of NextEPC, an LTE core network in C.\<close>

  \<^bold>\<open>The program.\<close> The repository holds the network functions of an evolved packet core: the MME
  (\<^verbatim>\<open>src/src/mme\<close>), the serving gateway (\<^verbatim>\<open>src/src/sgw\<close>), the packet gateway (\<^verbatim>\<open>src/src/pgw\<close>), the HSS and
  the PCRF, and the protocol libraries they share: GTP (\<^verbatim>\<open>src/lib/gtp\<close>), NAS (\<^verbatim>\<open>src/lib/nas\<close>), S1AP and
  Diameter. The MME speaks GTPv2-C to the serving gateway (S11), which relays to the packet gateway
  (S5-C); user packets go through GTP-U tunnels of the serving gateway, from the base station (S1-U) to
  the packet gateway (S5-U) and back. The packet gateway gives users their addresses, asks the PCRF for
  the rules of a session over Diameter (Gx), opens a bearer per class of traffic and carries packets
  between the tunnels and its network device. The MME exchanges protected NAS messages with the
  user's device.
  Each function is one event loop over sockets, timers and a queue of events; failed assertions
  (\<^verbatim>\<open>ogs_assert\<close>) abort the process. The base library (pools, lists, timers, packet buffers, sockets,
  ciphers) is a submodule and not part of the repository.

  \<^bold>\<open>How the code is modelled.\<close> A call that can fault returns \<open>'a res\<close> of \<open>Prelude\<close>: \<open>Inr\<close> the result, or
  \<open>Inl\<close> a failed assertion, a use of a freed object, or an access outside an array. Objects of a pool
  are named by their index, which is never 0; a pool of the contexts keeps the memory of its free
  slots, since the code does not clear them. Integers keep their C width. What the code takes from
  the base library and the operating system is a record of functions, the environment: \<open>gtp_env\<close>,
  \<open>gnode_env\<close>, \<open>sgw_env\<close>, \<open>pgw_env\<close>, \<open>nas_env\<close>. Its documented laws are the predicates \<open>gtp_env_ok\<close>
  (allocators return free indices, lists append and remove, identifiers count round), \<open>sgw_env_ok\<close> and
  \<open>pgw_env_ok\<close> (the same for the pools of the contexts), \<open>compile_ok\<close> (the rule compiler of the vendored
  firewall yields instructions with the operands their opcodes have) and \<open>nas_env_ok\<close> (packet buffers,
  ciphers that undo themselves, MACs of four octets). Instances that satisfy them are \<open>small_env\<close>,
  \<open>demo_env\<close>, \<open>pg_demo_env\<close> and \<open>demo_nas\<close>.

  \<^bold>\<open>Loops and fuel.\<close> No definition uses fuel. Most loops run over a list or an array. The generation of
  an address pool and the walk over IPv6 extension headers have termination proofs. One loop of the
  code need not end, the search for a jumbo payload option (\<open>jumbo_loop\<close>): it is a partial function
  into the option type, none is a call that does not return, and it is shown when it returns and on
  which packets it does not.

  \<^bold>\<open>The theories and the code they model.\<close>

  \<^item> \<open>Prelude\<close>: faults and their combinators, byte order, the postcondition predicate \<open>safe\<close>, runs of a
    step relation and the locale \<open>invariant_system\<close>.
  \<^item> \<open>Gtp_Types\<close>: \<^verbatim>\<open>lib/gtp/types.c\<close> and \<^verbatim>\<open>conv.c\<close>, the packed elements; the locale \<open>codec\<close> for the elements
    that are built and parsed.
  \<^item> \<open>Gtp_Xact\<close>: \<^verbatim>\<open>lib/gtp/xact.c\<close>, one definition per function, and both timer callbacks. \<open>Gtp_Xact_Inv\<close>: its
    invariant and memory safety. \<open>Gtp_Node\<close>: \<^verbatim>\<open>lib/gtp/node.c\<close> and \<^verbatim>\<open>path.c\<close>, the step relation of the library.
    \<open>Gtp_Props\<close>: retransmission, duplicates, whole exchanges, identifiers.
  \<^item> \<open>Gtp_Message\<close>: the messages of \<^verbatim>\<open>lib/gtp/message.h\<close> that the serving gateway reads or writes.
  \<^item> \<open>Ownership\<close>: a parent with a list of children that point back to it, as a locale; \<open>Sgw_Inv\<close>
    interprets it for users and sessions, sessions and bearers, bearers and tunnels.
  \<^item> \<open>Sgw_Context\<close>, \<open>Sgw_Path\<close>, \<open>Sgw_S11\<close>, \<open>Sgw_S5c\<close>, \<open>Sgw_Sm\<close>: \<^verbatim>\<open>sgw-context.c\<close>, \<^verbatim>\<open>sgw-gtp-path.c\<close>, \<^verbatim>\<open>sgw-s11-handler.c\<close>,
    \<^verbatim>\<open>sgw-s5c-handler.c\<close>, \<^verbatim>\<open>sgw-sm.c\<close> with the loop of \<^verbatim>\<open>sgw-init.c\<close>; the state \<open>sgw_state\<close> extends that of the
    GTP library by the pools, lists, sockets and the event queue.
  \<^item> \<open>Sgw_Inv\<close>, \<open>Sgw_Safe\<close>, \<open>Sgw_Handlers\<close>, \<open>Sgw_System\<close>: the invariant \<open>sgw_inv\<close>, its preservation by every
    operation, handler and input, and the runs of the gateway.
  \<^item> \<open>Sgw_Demo\<close>: a gateway with one user. \<open>Sgw_User\<close>: the user plane, with the packet buffer as an
    interpretation of the locale \<open>bounded_queue\<close>. \<open>Sgw_Props\<close>: properties of the whole gateway.
    \<open>Sgw_Control\<close>: what single handlers do, and inputs on which the code goes wrong.
  \<^item> \<open>Nas_Types\<close>: \<^verbatim>\<open>lib/nas/types.c\<close> and \<^verbatim>\<open>conv.c\<close>. \<open>Nas_Security\<close>: \<^verbatim>\<open>src/mme/nas-security.c\<close> and the reception of NAS
    messages in \<^verbatim>\<open>s1ap-path.c\<close>. \<open>Nas_Props\<close>: counts, recovery of protected messages, the check of the MAC.
  \<^item> \<open>Pgw_Ip\<close>: the address pools at the end of \<^verbatim>\<open>pgw-context.c\<close>. \<open>Pgw_Context\<close>: the rest of it, the pools of
    sessions, bearers and packet filters, and the state \<open>pgw_state\<close>, which extends that of the GTP library.
    \<open>Pgw_Message\<close>: the S5-C and Gx messages the packet gateway reads or writes.
  \<^item> \<open>Pgw_Ipfw\<close>: \<^verbatim>\<open>pgw-ipfw.c\<close>, compilation of filters and classification of packets. \<open>Pgw_Build\<close>:
    \<^verbatim>\<open>pgw-s5c-build.c\<close>. \<open>Pgw_Gx\<close>: \<^verbatim>\<open>pgw-gx-handler.c\<close> and \<^verbatim>\<open>pgw-s5c-handler.c\<close>. \<open>Gx_Avp\<close>: the writing of a rule in
    \<^verbatim>\<open>pcrf-gx-path.c\<close> and its reading in \<^verbatim>\<open>pgw-fd-path.c\<close>. \<open>Pgw_Fd\<close>: the rest of \<^verbatim>\<open>pgw-fd-path.c\<close>. \<open>Pgw_Path\<close>:
    \<^verbatim>\<open>pgw-gtp-path.c\<close>, \<^verbatim>\<open>pgw-sm.c\<close> and the loop of \<^verbatim>\<open>pgw-init.c\<close>.
  \<^item> \<open>Pgw_Match\<close>: the IPv6 header and the checksum. \<open>Pgw_Inv\<close>: the invariant \<open>pgw_inv\<close>, with \<open>Ownership\<close>
    interpreted for sessions and bearers, bearers and filters, and its preservation by the operations
    of the contexts. \<open>Pgw_Tft\<close>, \<open>Pgw_Safe\<close>, \<open>Pgw_Handlers\<close>, \<open>Pgw_User\<close>: templates, messages, handlers and both
    directions of the user plane. \<open>Pgw_System\<close>: inputs and runs of the gateway. \<open>Pgw_Demo\<close>: a gateway with one
    session. \<open>Pgw_Props\<close>: properties of the whole packet gateway.
  \<^item> \<open>Pcrf_Rx\<close>: the rules of the policy function in \<^verbatim>\<open>pcrf-gx-path.c\<close>, from an Rx message to the request it
    sends to the packet gateway; the subscriber database is an argument, and the double precision
    arithmetic of the rates is written out. \<open>Pcrf_Props\<close>: what the packet gateway makes of the request.

  \<^bold>\<open>What is shown.\<close> The transaction layer and both gateways touch no freed object and leave no array, and
  their invariants hold in every reachable state. The hypotheses \<open>input_ok\<close> and \<open>pg_input_ok\<close> of the
  gateways' theorems exclude inputs on which the code is wrong, and each exclusion is shown to be
  needed or recorded. For the serving gateway: an IMSI longer than its array, eleven contexts for
  indirect forwarding, an empty location element, a bearer slot with packets left over
  (\<open>clean_slots\<close>), a user datagram of fewer than twelve octets. For the packet gateway: a packet that
  is shorter than the headers read of it or of no IP version (\<open>packet_fits\<close>), a session slot that
  still holds addresses or a Gx session (\<open>clean_sess\<close>), elements, rules and flows longer than their
  arrays (\<open>create_fits\<close>, \<open>rules_fit\<close>, \<open>rule_fits\<close>, \<open>pco_fits\<close>), a rule of the class of the default bearer, a
  request number outside its arrays (\<open>gx_fits\<close>, \<open>answer_fits\<close>), an answer of the policy function after the
  session or the transaction it is for has gone (\<open>request_fits\<close>, \<open>answer_fits\<close>).

  The downlink of the serving gateway refines a bounded queue and delivers what waited, in order and
  once. The packet gateway gives a packet to the bearer a declarative classification names, and it
  leaves under that bearer's TEID; packets of users reach the device of their subnet. No two sessions
  hold one address; the end of a session frees exactly what it owns; a rule of the policy function
  becomes a bearer with its filters, and their encoding is the reference image. Lookups agree with
  declarative searches and find what was added. A duplicate is answered from the history, and
  retransmission ends. Encoders and decoders are inverse, across the two ends of Gx as well: what an
  application function asks for over Rx is the rule the packet gateway reads. It is also shown how a
  refused request of the policy function stops the packet gateway later. A protected NAS message is recovered within the window of its count, no count protects two downlink
  messages, and the MAC alone decides about failure.

  \<^bold>\<open>Bounds.\<close> 512 packets wait for a bearer at most; a request is sent three times; counts of NAS have 24
  bits, and the windows are 255 for a protected message and 31 for a Service Request. A template has
  at most 16 filters, a session at most 32 credit control requests, a message at most 8 rules.

  \<^bold>\<open>Not modelled.\<close> Reading the configuration, starting and stopping threads, opening and polling sockets
  and devices are I/O. \<^verbatim>\<open>lib/gtp/message.c\<close>, the codecs of \<^verbatim>\<open>lib/nas\<close> and \<^verbatim>\<open>lib/asn1c\<close> are generated,
  \<^verbatim>\<open>lib/freeDiameter\<close> and \<^verbatim>\<open>src/pgw/ipfw\<close> are vendored (of the latter the two mask functions the gateway
  calls are modelled). \<^verbatim>\<open>lib/gtp/tlv.c\<close> walks the generated tables over the TLV functions of the base
  library. The elements of a GTP message that a gateway passes on untouched are one opaque field or
  none, and the attribute value pairs of a credit control request are not kept. The HSS and the rest of
  the PCRF are queries of a database answered over Diameter. Of the MME only the NAS security and the
  reception of NAS messages are modelled: its contexts, its EMM and ESM state machines and its S1AP,
  S11 and S6a handlers are the largest part of the program that is left, and would rest on the same
  transaction layer and locales.
\<close>

end
